(* ===== verification/Prelude.thy ===== *)
theory Prelude
  imports Main "HOL-Library.AList" "HOL-Library.Char_ord" "HOL-Library.List_Lexorder"
    "HOL-Library.Multiset"
begin

text \<open>
  Shared vocabulary of the development: the fragment of the JavaScript standard library the
  modelled modules use (strings, arrays, ordered maps, stable sorting, numbers), errors as sums,
  and the generic lemmas about them.

  Conventions.
  \<^item> A JavaScript string is a \<^typ>\<open>string\<close> with one \<^typ>\<open>char\<close> per UTF-16 code unit, so it covers
    code units up to \<open>0xFF\<close>. Message literals of the source with larger code units are
    spelled in the \<open>%uXXXX\<close> form that JavaScript's own \<open>escape\<close> prints; nothing computes on them.
  \<^item> \<open>undefined\<close> and \<open>null\<close> are \<^const>\<open>None\<close>; a thrown \<open>Error\<close> is \<^const>\<open>Inl\<close> of its message.
  \<^item> A \<open>Map\<close> is an association list in insertion order, updated in place by \<^const>\<open>AList.update\<close>.
  \<^item> What the language leaves to the host (collation, date parsing, SHA-256) is a field of the
    record \<open>js_runtime\<close>, an argument of every definition that uses it.
\<close>

named_theorems js_simps "equations of the JavaScript library model"
named_theorems perm_simps "sets, multisets and lengths of sorted or filtered lists"

subsection \<open>Host services\<close>

record js_runtime =
  localeCompare :: "string \<Rightarrow> string \<Rightarrow> int"
  dateParse :: "string \<Rightarrow> int option"
  toISOString :: "int \<Rightarrow> string"
  sha256Hex :: "string \<Rightarrow> string"

text \<open>\<open>toISOString\<close> throws outside the range of \<open>Date\<close>.\<close>

definition MAX_DATE :: int where "MAX_DATE = 8640000000000000"

type_synonym 'a result = "string + 'a"

fun rbind :: "'a result \<Rightarrow> ('a \<Rightarrow> 'b result) \<Rightarrow> 'b result" where
  "rbind (Inl e) f = Inl e"
| "rbind (Inr x) f = f x"

fun result_map :: "('a \<Rightarrow> 'b result) \<Rightarrow> 'a list \<Rightarrow> 'b list result" where
  "result_map f [] = Inr []"
| "result_map f (x # xs) = rbind (f x) (\<lambda>y. rbind (result_map f xs) (\<lambda>ys. Inr (y # ys)))"

lemma rbind_Inr_iff [simp]: "rbind r f = Inr y \<longleftrightarrow> (\<exists>x. r = Inr x \<and> f x = Inr y)"
  by (cases r) auto

lemma rbind_Inl_iff: "rbind r f = Inl e \<longleftrightarrow> r = Inl e \<or> (\<exists>x. r = Inr x \<and> f x = Inl e)"
  by (cases r) auto

subsection \<open>Numbers\<close>

text \<open>
  Integers of the modelled modules stay exact; only a layer counter reaches the boundary of
  exact doubles. Adding one to an integer-valued double saturates at \<open>2 ^ 53\<close>: the next
  integer is not representable and rounds back.
\<close>

definition MAX_SAFE_INTEGER :: int where
  "MAX_SAFE_INTEGER = 9007199254740991"

definition js_inc :: "int \<Rightarrow> int" where
  "js_inc n = (if n \<le> MAX_SAFE_INTEGER then n + 1 else n)"

definition isSafeInteger :: "int \<Rightarrow> bool" where
  "isSafeInteger n \<longleftrightarrow> \<bar>n\<bar> \<le> MAX_SAFE_INTEGER"

subsection \<open>Strings\<close>

definition js_space :: "char \<Rightarrow> bool" where
  "js_space c \<longleftrightarrow> of_char c \<in> {9::nat, 10, 11, 12, 13, 32, 160}"

definition trim_start :: "string \<Rightarrow> string" where
  "trim_start s = dropWhile js_space s"

definition js_trim :: "string \<Rightarrow> string" where
  "js_trim s = rev (trim_start (rev (trim_start s)))"

definition lower_char :: "char \<Rightarrow> char" where
  "lower_char c = (let n = of_char c :: nat in
     if (65 \<le> n \<and> n \<le> 90) \<or> (192 \<le> n \<and> n \<le> 222 \<and> n \<noteq> 215) then char_of (n + 32) else c)"

definition toLowerCase :: "string \<Rightarrow> string" where
  "toLowerCase = map lower_char"

definition startsWith :: "string \<Rightarrow> string \<Rightarrow> bool" where
  "startsWith s p \<longleftrightarrow> take (length p) s = p"

definition endsWith :: "string \<Rightarrow> string \<Rightarrow> bool" where
  "endsWith s p \<longleftrightarrow> startsWith (rev s) (rev p)"

text \<open>\<open>s.split(c)\<close> for a one-character separator: always at least one part.\<close>

fun js_split :: "char \<Rightarrow> string \<Rightarrow> string list" where
  "js_split c [] = [[]]"
| "js_split c (x # xs) =
     (if x = c then [] # js_split c xs
      else (case js_split c xs of [] \<Rightarrow> [[x]] | p # ps \<Rightarrow> (x # p) # ps))"

fun js_join :: "string \<Rightarrow> string list \<Rightarrow> string" where
  "js_join sep [] = []"
| "js_join sep [x] = x"
| "js_join sep (x # y # ys) = x @ sep @ js_join sep (y # ys)"

definition is_lower :: "char \<Rightarrow> bool" where
  "is_lower c \<longleftrightarrow> 97 \<le> (of_char c :: nat) \<and> (of_char c :: nat) \<le> 122"

definition is_upper :: "char \<Rightarrow> bool" where
  "is_upper c \<longleftrightarrow> 65 \<le> (of_char c :: nat) \<and> (of_char c :: nat) \<le> 90"

definition is_digit :: "char \<Rightarrow> bool" where
  "is_digit c \<longleftrightarrow> 48 \<le> (of_char c :: nat) \<and> (of_char c :: nat) \<le> 57"

definition is_control :: "char \<Rightarrow> bool" where
  "is_control c \<longleftrightarrow> (of_char c :: nat) \<le> 31 \<or> (of_char c :: nat) = 127"

text \<open>
  Evaluation compares code units as binary integers; unary naturals would be too slow.
\<close>

lemma of_char_le_int: "(of_char c :: nat) \<le> n \<longleftrightarrow> (of_char c :: int) \<le> int n"
  by (metis of_nat_of_char of_nat_le_iff)

lemma of_char_ge_int: "n \<le> (of_char c :: nat) \<longleftrightarrow> int n \<le> (of_char c :: int)"
  by (metis of_nat_of_char of_nat_le_iff)

lemma of_char_eq_int: "(of_char c :: nat) = n \<longleftrightarrow> (of_char c :: int) = int n"
  by (metis of_nat_of_char of_nat_eq_iff)

lemmas of_char_int = of_char_le_int of_char_ge_int of_char_eq_int

lemma is_lower_code [code]: "is_lower c \<longleftrightarrow> (let n = of_char c :: int in 97 \<le> n \<and> n \<le> 122)"
  by (simp add: is_lower_def of_char_int Let_def)

lemma is_upper_code [code]: "is_upper c \<longleftrightarrow> (let n = of_char c :: int in 65 \<le> n \<and> n \<le> 90)"
  by (simp add: is_upper_def of_char_int Let_def)

lemma is_digit_code [code]: "is_digit c \<longleftrightarrow> (let n = of_char c :: int in 48 \<le> n \<and> n \<le> 57)"
  by (simp add: is_digit_def of_char_int Let_def)

lemma is_control_code [code]: "is_control c \<longleftrightarrow> (let n = of_char c :: int in n \<le> 31 \<or> n = 127)"
  by (simp add: is_control_def of_char_int Let_def)

lemma js_space_code [code]: "js_space c \<longleftrightarrow> (let n = of_char c :: int in n \<in> {9, 10, 11, 12, 13, 32, 160})"
  by (simp add: js_space_def of_char_int Let_def)

lemma lower_char_code [code]:
  "lower_char c = (let n = of_char c :: int in
     if (65 \<le> n \<and> n \<le> 90) \<or> (192 \<le> n \<and> n \<le> 222 \<and> n \<noteq> 215) then char_of (n + 32) else c)"
proof -
  have "char_of ((of_char c :: int) + 32) = (char_of ((of_char c :: nat) + 32) :: char)"
    by (metis char_of_nat of_nat_add of_nat_numeral of_nat_of_char)
  then show ?thesis by (simp add: lower_char_def of_char_int Let_def)
qed

lemma less_char_code [code]: "(c :: char) < d \<longleftrightarrow> (of_char c :: int) < of_char d"
  by (metis less_char_def of_nat_of_char of_nat_less_iff)

lemma less_eq_char_code [code]: "(c :: char) \<le> d \<longleftrightarrow> (of_char c :: int) \<le> of_char d"
  by (metis less_eq_char_def of_nat_of_char of_nat_le_iff)

lemma startsWith_append [simp]: "startsWith (p @ s) p"
  by (simp add: startsWith_def)

lemma startsWith_iff: "startsWith s p \<longleftrightarrow> (\<exists>t. s = p @ t)"
  unfolding startsWith_def by (metis append_take_drop_id append_eq_conv_conj)

lemma js_split_nonempty [simp]: "js_split c s \<noteq> []"
  by (induction s) (auto split: list.splits)

lemma js_join_split: "js_join [c] (js_split c s) = s"
proof (induction s)
  case (Cons x xs)
  show ?case
  proof (cases "x = c")
    case True
    obtain p ps where "js_split c xs = p # ps" by (meson js_split_nonempty neq_Nil_conv)
    with True Cons show ?thesis by simp
  next
    case False
    obtain p ps where eq: "js_split c xs = p # ps" by (meson js_split_nonempty neq_Nil_conv)
    with False Cons show ?thesis by (cases ps) auto
  qed
qed simp

lemma js_split_no_sep: "p \<in> set (js_split c s) \<Longrightarrow> c \<notin> set p"
  by (induction s arbitrary: p) (fastforce split: list.splits if_splits)+

lemma js_split_append_sep:
  "js_split c (a @ c # b) = js_split c a @ js_split c b"
proof (induction a)
  case (Cons x xs)
  obtain p ps where "js_split c xs = p # ps" by (meson js_split_nonempty neq_Nil_conv)
  with Cons show ?case by simp
qed simp

subsection \<open>Decimal rendering of counters\<close>

definition digit_char :: "nat \<Rightarrow> char" where
  "digit_char d = char_of (48 + d)"

fun show_nat :: "nat \<Rightarrow> string" where
  "show_nat n = (if n < 10 then [digit_char n] else show_nat (n div 10) @ [digit_char (n mod 10)])"

declare show_nat.simps [simp del]

definition show_int :: "int \<Rightarrow> string" where
  "show_int i = (if i < 0 then ''-'' @ show_nat (nat (- i)) else show_nat (nat i))"

definition read_digits :: "string \<Rightarrow> nat" where
  "read_digits s = foldl (\<lambda>acc c. 10 * acc + (of_char c - 48)) 0 s"

lemma of_char_digit_char: "d < 10 \<Longrightarrow> of_char (digit_char d) = 48 + d"
  by (simp add: digit_char_def)

lemma read_show_nat: "read_digits (show_nat n) = n"
proof (induction n rule: show_nat.induct)
  case (1 n)
  show ?case
  proof (cases "n < 10")
    case True
    then show ?thesis by (simp add: show_nat.simps [of n] read_digits_def of_char_digit_char)
  next
    case False
    with 1 have "read_digits (show_nat (n div 10)) = n div 10" by simp
    with False show ?thesis
      by (simp add: show_nat.simps [of n] read_digits_def of_char_digit_char)
  qed
qed

lemma show_nat_inject [simp]: "show_nat m = show_nat n \<longleftrightarrow> m = n"
  by (metis read_show_nat)

subsection \<open>Ordered maps\<close>

text \<open>\<open>new Map(entries)\<close>: later entries overwrite the value and keep the first position.\<close>

definition js_map_of :: "('k \<times> 'v) list \<Rightarrow> ('k \<times> 'v) list" where
  "js_map_of kvs = fold (\<lambda>(k, v). AList.update k v) kvs []"

lemma map_of_fold_update:
  "map_of (fold (\<lambda>(k, v). AList.update k v) kvs m) k =
     (case map_of (rev kvs) k of None \<Rightarrow> map_of m k | Some v \<Rightarrow> Some v)"
  by (induction kvs arbitrary: m) (auto simp: update_conv' map_add_def split: option.splits)

lemma map_of_js_map_of [js_simps]: "map_of (js_map_of kvs) = map_of (rev kvs)"
  by (rule ext) (simp add: js_map_of_def map_of_fold_update split: option.splits)

lemma set_keys_update [simp]: "fst ` set (AList.update k v m) = insert k (fst ` set m)"
  by (simp add: dom_update)

lemma set_keys_fold_update:
  "fst ` set (fold (\<lambda>(k, v). AList.update k v) kvs m) = fst ` set m \<union> fst ` set kvs"
proof (induction kvs arbitrary: m)
  case (Cons kv kvs)
  then show ?case by (cases kv) (simp only: fold_Cons comp_def prod.case set_keys_update, auto)
qed simp

lemma set_keys_js_map_of [js_simps]: "fst ` set (js_map_of kvs) = fst ` set kvs"
  by (simp add: js_map_of_def set_keys_fold_update)

lemma map_of_rev_key_Some:
  assumes "distinct (map f xs)" and "x \<in> set xs"
  shows "map_of (rev (map (\<lambda>y. (f y, g y)) xs)) (f x) = Some (g x)"
proof -
  have "distinct (map fst (rev (map (\<lambda>y. (f y, g y)) xs)))"
    using assms(1) by (simp add: rev_map comp_def flip: rev_map)
  then show ?thesis using assms(2) by (intro map_of_is_SomeI) auto
qed

lemma map_of_rev_key_None_iff:
  "map_of (rev (map (\<lambda>y. (f y, g y)) xs)) k = None \<longleftrightarrow> k \<notin> f ` set xs"
  by (auto simp: map_of_eq_None_iff image_image)

lemma map_of_rev_key_SomeD:
  "map_of (rev (map (\<lambda>y. (f y, g y)) xs)) k = Some v \<Longrightarrow> \<exists>x \<in> set xs. f x = k \<and> g x = v"
  by (auto dest!: map_of_SomeD)

subsection \<open>Stable sorting\<close>

text \<open>
  \<open>Array.prototype.sort\<close> with a comparator is a stable sort; on a consistent comparator every
  stable sort returns the same array, so insertion sort computes it.
\<close>

fun js_insert :: "('a \<Rightarrow> 'a \<Rightarrow> int) \<Rightarrow> 'a \<Rightarrow> 'a list \<Rightarrow> 'a list" where
  "js_insert cmp x [] = [x]"
| "js_insert cmp x (y # ys) = (if cmp x y \<le> 0 then x # y # ys else y # js_insert cmp x ys)"

definition js_sort :: "('a \<Rightarrow> 'a \<Rightarrow> int) \<Rightarrow> 'a list \<Rightarrow> 'a list" where
  "js_sort cmp xs = foldr (js_insert cmp) xs []"

text \<open>\<open>Array.prototype.sort\<close> without a comparator orders strings by code units.\<close>

definition code_unit_compare :: "string \<Rightarrow> string \<Rightarrow> int" where
  "code_unit_compare a b = (if a < b then -1 else if a = b then 0 else 1)"

definition sort_strings :: "string list \<Rightarrow> string list" where
  "sort_strings = js_sort code_unit_compare"

text \<open>The numeric \<open>a || b\<close> of comparator chains: the second comparison decides ties.\<close>

definition cmp_or :: "int \<Rightarrow> int \<Rightarrow> int" where
  "cmp_or a b = (if a \<noteq> 0 then a else b)"

lemma mset_js_insert [perm_simps]: "mset (js_insert cmp x xs) = {#x#} + mset xs"
  by (induction xs) auto

lemma mset_js_sort [perm_simps, simp]: "mset (js_sort cmp xs) = mset xs"
  by (induction xs) (auto simp: js_sort_def mset_js_insert)

lemma set_js_sort [perm_simps, simp]: "set (js_sort cmp xs) = set xs"
  by (metis mset_js_sort set_mset_mset)

lemma length_js_sort [perm_simps, simp]: "length (js_sort cmp xs) = length xs"
  by (metis mset_js_sort size_mset)

lemma distinct_js_sort [perm_simps, simp]: "distinct (js_sort cmp xs) = distinct xs"
  by (metis mset_js_sort mset_eq_imp_distinct_iff)

lemma js_sort_Nil [simp]: "js_sort cmp [] = []"
  by (simp add: js_sort_def)

lemma js_sort_Nil_iff [simp]: "js_sort cmp xs = [] \<longleftrightarrow> xs = []"
  by (metis length_0_conv length_js_sort)

lemma js_sort_one [simp]: "js_sort cmp [x] = [x]"
  by (simp add: js_sort_def)

lemma set_sort_strings [perm_simps, simp]: "set (sort_strings xs) = set xs"
  by (simp add: sort_strings_def)

lemma length_sort_strings [perm_simps, simp]: "length (sort_strings xs) = length xs"
  by (simp add: sort_strings_def)

lemma sort_strings_Nil_iff [simp]: "sort_strings xs = [] \<longleftrightarrow> xs = []"
  by (simp add: sort_strings_def)

lemma distinct_sort_strings [perm_simps, simp]: "distinct (sort_strings xs) = distinct xs"
  by (simp add: sort_strings_def)

text \<open>The contract a comparator owes \<open>sort\<close>, and what \<open>sort\<close> promises in return.\<close>

locale comparator =
  fixes cmp :: "'a \<Rightarrow> 'a \<Rightarrow> int"
  assumes cmp_total: "cmp x y \<le> 0 \<or> cmp y x \<le> 0"
    and cmp_trans: "cmp x y \<le> 0 \<Longrightarrow> cmp y z \<le> 0 \<Longrightarrow> cmp x z \<le> 0"
begin

lemma insert_sorted:
  "sorted_wrt (\<lambda>a b. cmp a b \<le> 0) xs \<Longrightarrow> sorted_wrt (\<lambda>a b. cmp a b \<le> 0) (js_insert cmp x xs)"
proof (induction xs)
  case (Cons y ys)
  have mem: "set (js_insert cmp x ys) = insert x (set ys)"
    by (metis mset_js_insert set_mset_add_mset_insert set_mset_mset add_mset_add_single add.commute)
  show ?case
  proof (cases "cmp x y \<le> 0")
    case True
    with Cons.prems show ?thesis by (auto intro: cmp_trans)
  next
    case False
    with cmp_total have "cmp y x \<le> 0" by blast
    with False Cons mem show ?thesis by auto
  qed
qed simp

lemma sort_sorted: "sorted_wrt (\<lambda>a b. cmp a b \<le> 0) (js_sort cmp xs)"
  by (induction xs) (simp_all add: js_sort_def insert_sorted)

end

text \<open>A comparator whose ties are equalities: the sorted array depends on the elements only.\<close>

locale strict_comparator = comparator +
  assumes cmp_antisym: "cmp x y \<le> 0 \<Longrightarrow> cmp y x \<le> 0 \<Longrightarrow> x = y"
begin

lemma sorted_unique:
  assumes "sorted_wrt (\<lambda>a b. cmp a b \<le> 0) xs" and "sorted_wrt (\<lambda>a b. cmp a b \<le> 0) ys"
    and "mset xs = mset ys"
  shows "xs = ys"
  using assms
proof (induction xs arbitrary: ys)
  case (Cons x xs)
  then obtain y zs where ys: "ys = y # zs" by (cases ys) auto
  have "x \<in> set ys" and "y \<in> set (x # xs)"
    using Cons.prems(3) ys by (metis list.set_intros(1) set_mset_mset)+
  then have "x = y" using Cons.prems(1,2) ys by (auto intro: cmp_antisym)
  with Cons ys show ?case by auto
qed auto

lemma sort_canonical: "mset xs = mset ys \<Longrightarrow> js_sort cmp xs = js_sort cmp ys"
  by (rule sorted_unique) (simp_all add: sort_sorted)

end

interpretation units: strict_comparator code_unit_compare
  by unfold_locales (auto simp: code_unit_compare_def split: if_splits)

lemma sort_strings_sorted: "sorted (sort_strings xs)"
proof -
  have "sorted_wrt (\<lambda>a b. code_unit_compare a b \<le> 0) (sort_strings xs)"
    unfolding sort_strings_def by (rule units.sort_sorted)
  then show ?thesis
    by (rule sorted_wrt_mono_rel [rotated]) (auto simp: code_unit_compare_def split: if_splits)
qed

subsection \<open>Arrays\<close>

text \<open>\<open>[...new Set(xs)]\<close>: first occurrences, in order.\<close>

fun js_dedup :: "'a list \<Rightarrow> 'a list" where
  "js_dedup [] = []"
| "js_dedup (x # xs) = x # filter (\<lambda>y. y \<noteq> x) (js_dedup xs)"

lemma set_js_dedup [perm_simps, simp]: "set (js_dedup xs) = set xs"
  by (induction xs) auto

lemma distinct_js_dedup [perm_simps, simp]: "distinct (js_dedup xs)"
  by (induction xs) auto

lemma js_dedup_Nil_iff [simp]: "js_dedup xs = [] \<longleftrightarrow> xs = []"
  by (cases xs) auto

lemma find_Some_mem: "find P xs = Some x \<Longrightarrow> x \<in> set xs \<and> P x"
  by (induction xs) (auto split: if_splits)

lemma find_None_all: "find P xs = None \<longleftrightarrow> (\<forall>x \<in> set xs. \<not> P x)"
  by (induction xs) auto

lemma option_the_default_simps [simp]:
  "(case x of None \<Rightarrow> a | Some _ \<Rightarrow> a) = a"
  by (cases x) auto

subsection \<open>A sample host\<close>

text \<open>
  A concrete host for evaluations: collation by code unit, instants written as decimal
  milliseconds, and a digest that returns its input. It satisfies the laws the properties ask
  of a host.
\<close>

definition digits_value :: "string \<Rightarrow> int" where
  "digits_value s = fold (\<lambda>c acc. acc * 10 + (of_char c - 48)) s 0"

function show_digits :: "int \<Rightarrow> string" where
  "show_digits n = (if n < 10 then [char_of (48 + n)] else show_digits (n div 10) @ [char_of (48 + n mod 10)])"
  by pat_completeness auto
termination by (relation "measure nat") auto

declare show_digits.simps [simp del]

definition all_digits :: "string \<Rightarrow> bool" where
  "all_digits s \<longleftrightarrow> s \<noteq> [] \<and> list_all is_digit s"

definition sample_runtime :: js_runtime where
  "sample_runtime = \<lparr>localeCompare = code_unit_compare,
     dateParse = (\<lambda>s. if all_digits s then Some (digits_value s) else None),
     toISOString = show_digits, sha256Hex = (\<lambda>s. s)\<rparr>"

lemma sample_runtime_comparator: "comparator (localeCompare sample_runtime)"
  by (simp add: sample_runtime_def units.comparator_axioms)

subsection \<open>More on lists and maps\<close>

lemma set_map_filter: "set (List.map_filter f xs) = {y. \<exists>x \<in> set xs. f x = Some y}"
  by (force simp: List.map_filter_def image_iff)

lemma map_filter_ids:
  "(\<And>i t. f i = Some t \<Longrightarrow> g t = i) \<Longrightarrow> distinct xs \<Longrightarrow> distinct (map g (List.map_filter f xs))"
  by (induction xs) (auto simp: List.map_filter_simps set_map_filter split: option.splits)

lemma distinct_map_take: "distinct (map f xs) \<Longrightarrow> distinct (map f (take n xs))"
  by (metis distinct_take take_map)

lemma fold_max_ge:
  fixes f :: "'a \<Rightarrow> int"
  shows "a \<le> fold (\<lambda>i m. max m (f i)) xs a \<and> (\<forall>x \<in> set xs. f x \<le> fold (\<lambda>i m. max m (f i)) xs a)"
proof (induction xs arbitrary: a)
  case (Cons x xs)
  from Cons.IH [of "max a (f x)"] show ?case by (auto intro: order_trans)
qed simp

lemma set_update_subset: "set (AList.update k v al) \<subseteq> insert (k, v) (set al)"
  by (induction al) auto

lemma js_map_of_mem:
  assumes "kv \<in> set (js_map_of kvs)"
  shows "kv \<in> set kvs"
proof -
  have "set (fold (\<lambda>(k, v). AList.update k v) kvs m) \<subseteq> set kvs \<union> set m" for m
  proof (induction kvs arbitrary: m)
    case (Cons x xs)
    from Cons.IH [of "AList.update (fst x) (snd x) m"] set_update_subset [of "fst x" "snd x" m] show ?case
      by (auto simp: case_prod_beta)
  qed simp
  from this [of "[]"] assms show ?thesis by (auto simp: js_map_of_def)
qed

end
