(* ===== verification/Json.thy ===== *)
theory Json
  imports Prelude
begin

text \<open>
  JSON values and \<open>JSON.stringify\<close> as the fingerprints and revisions of the program use it.
  Numbers are integers: no value that is hashed or normalised here carries a fraction.
  The serialisation of strings and of arrays of strings is proved unambiguous.
\<close>

datatype json =
    JNull
  | JBool bool
  | JNum int
  | JStr string
  | JArr "json list"
  | JObj "(string \<times> json) list"

abbreviation dquote :: char where "dquote \<equiv> CHR 0x22"
abbreviation bslash :: char where "bslash \<equiv> CHR 0x5C"

definition hex_lower :: "int \<Rightarrow> char" where
  "hex_lower n = (if n < 10 then char_of (48 + n) else char_of (87 + n))"

definition json_escapes :: "(char \<times> char) list" where
  "json_escapes = [(dquote, dquote), (bslash, bslash), (CHR 0x08, CHR ''b''), (CHR 0x09, CHR ''t''),
     (CHR 0x0A, CHR ''n''), (CHR 0x0C, CHR ''f''), (CHR 0x0D, CHR ''r'')]"

definition json_escape :: "char \<Rightarrow> string" where
  "json_escape c = (case map_of json_escapes c of
      Some e \<Rightarrow> [bslash, e]
    | None \<Rightarrow> (let n = of_char c :: int in
        if n < 32 then [bslash, CHR ''u'', CHR ''0'', CHR ''0'', hex_lower (n div 16), hex_lower (n mod 16)]
        else [c]))"

definition json_quote :: "string \<Rightarrow> string" where
  "json_quote s = dquote # concat (map json_escape s) @ [dquote]"

fun json_text :: "json \<Rightarrow> string"
  and json_members :: "(string \<times> json) list \<Rightarrow> string list"
  and json_elements :: "json list \<Rightarrow> string list"
where
  "json_text JNull = ''null''"
| "json_text (JBool b) = (if b then ''true'' else ''false'')"
| "json_text (JNum n) = show_int n"
| "json_text (JStr s) = json_quote s"
| "json_text (JArr vs) = ''['' @ js_join '','' (json_elements vs) @ '']''"
| "json_text (JObj kvs) = ''{'' @ js_join '','' (json_members kvs) @ ''}''"
| "json_members [] = []"
| "json_members ((k, v) # kvs) = (json_quote k @ '':'' @ json_text v) # json_members kvs"
| "json_elements [] = []"
| "json_elements (v # vs) = json_text v # json_elements vs"

text \<open>A field of an object by name, \<open>undefined\<close> where there is none or the value is no object.\<close>

fun json_get :: "json \<Rightarrow> string \<Rightarrow> json option" where
  "json_get (JObj kvs) k = map_of kvs k"
| "json_get _ k = None"

subsection \<open>Serialised strings are unambiguous\<close>

lemma of_char_hex_lower:
  "0 \<le> n \<Longrightarrow> n < 16 \<Longrightarrow> (of_char (hex_lower n) :: int) = (if n < 10 then 48 + n else 87 + n)"
  by (simp add: hex_lower_def)

lemma hex_lower_inject:
  assumes "0 \<le> m" "m < 16" "0 \<le> n" "n < 16" "hex_lower m = hex_lower n"
  shows "m = n"
proof -
  have "(of_char (hex_lower m) :: int) = of_char (hex_lower n)" by (simp only: assms(5))
  then have "(if m < 10 then 48 + m else 87 + m) = (if n < 10 then 48 + n else 87 + n)"
    unfolding of_char_hex_lower [OF assms(1,2)] of_char_hex_lower [OF assms(3,4)] .
  then show ?thesis using assms(1-4) by presburger
qed

text \<open>The second character of an escape sequence tells which one it is.\<close>

lemma json_escape_cases:
  obtains (plain) "json_escape c = [c]" "c \<noteq> dquote" "c \<noteq> bslash"
  | (short) e where "json_escape c = [bslash, e]" "(c, e) \<in> set json_escapes"
  | (hex) "json_escape c = [bslash, CHR ''u'', CHR ''0'', CHR ''0'', hex_lower (of_char c div 16), hex_lower (of_char c mod 16)]"
      "(of_char c :: int) < 32"
proof (cases "map_of json_escapes c")
  case None
  then have "c \<noteq> dquote \<and> c \<noteq> bslash" by (auto simp: json_escapes_def split: if_splits)
  with None plain hex show thesis by (cases "(of_char c :: int) < 32") (simp_all add: json_escape_def Let_def)
next
  case (Some e)
  with short show thesis by (auto simp: json_escape_def dest: map_of_SomeD)
qed

lemma json_escapes_unique: "(c, e) \<in> set json_escapes \<Longrightarrow> (d, e) \<in> set json_escapes \<Longrightarrow> c = d"
  and json_escapes_no_u: "(c, CHR ''u'') \<notin> set json_escapes"
  by (auto simp: json_escapes_def)

lemma of_char_int_nonneg: "0 \<le> (of_char c :: int)"
  by (metis of_nat_0_le_iff of_nat_of_char)

lemma json_escape_prefix_free:
  assumes "json_escape c @ x = json_escape d @ y"
  shows "c = d \<and> x = y"
proof (cases rule: json_escape_cases [of c])
  case plain
  then show ?thesis using assms by (cases rule: json_escape_cases [of d]) auto
next
  case (short e)
  then show ?thesis using assms json_escapes_unique json_escapes_no_u
    by (cases rule: json_escape_cases [of d]) auto
next
  case hex
  note c = hex
  show ?thesis
  proof (cases rule: json_escape_cases [of d])
    case hex
    have b: "0 \<le> (of_char c :: int) div 16" "(of_char c :: int) div 16 < 16" "0 \<le> (of_char d :: int) div 16"
      "(of_char d :: int) div 16 < 16"
      using c hex of_char_int_nonneg [of c] of_char_int_nonneg [of d] by auto
    have "x = y" "(of_char c :: int) div 16 = of_char d div 16" "(of_char c :: int) mod 16 = of_char d mod 16"
      using assms c hex hex_lower_inject [OF b] hex_lower_inject [of "of_char c mod 16" "of_char d mod 16"]
      by (auto simp: c hex)
    moreover from this have "(of_char c :: int) = of_char d" by (metis div_mult_mod_eq)
    ultimately show ?thesis by simp
  qed (use assms c json_escapes_no_u in auto)
qed

lemma json_escape_head: "json_escape c @ x \<noteq> dquote # y" "json_escape c \<noteq> []"
  by (cases rule: json_escape_cases [of c]; auto)+

lemma json_body_prefix_free:
  "concat (map json_escape s) @ dquote # x = concat (map json_escape t) @ dquote # y \<Longrightarrow> s = t \<and> x = y"
proof (induction s arbitrary: t)
  case Nil
  then show ?case by (cases t) (auto simp: json_escape_head json_escape_head [symmetric])
next
  case (Cons c s)
  show ?case
  proof (cases t)
    case Nil
    with Cons.prems show ?thesis by (simp add: json_escape_head)
  next
    case (Cons d t')
    with Cons.prems have "json_escape c @ (concat (map json_escape s) @ dquote # x)
        = json_escape d @ (concat (map json_escape t') @ dquote # y)" by simp
    from json_escape_prefix_free [OF this] Cons.IH [of t'] Cons show ?thesis by auto
  qed
qed

lemma json_quote_prefix_free: "json_quote s @ x = json_quote t @ y \<longleftrightarrow> s = t \<and> x = y"
  using json_body_prefix_free [of s x t y] by (auto simp: json_quote_def)

lemma json_quote_inject [simp]: "json_quote s = json_quote t \<longleftrightarrow> s = t"
  using json_quote_prefix_free [of s "[]" t "[]"] by simp

subsection \<open>JSON texts are unambiguous\<close>

definition delimited :: "string \<Rightarrow> bool" where
  "delimited s \<longleftrightarrow> s = [] \<or> hd s \<in> set '',]}''"

definition number_char :: "char \<Rightarrow> bool" where
  "number_char c \<longleftrightarrow> is_digit c \<or> c = CHR ''-''"

lemma is_digit_digit_char: "d < 10 \<Longrightarrow> is_digit (digit_char d)"
  by (simp add: is_digit_def of_char_digit_char)

lemma show_nat_digits: "list_all is_digit (show_nat n) \<and> show_nat n \<noteq> []"
proof (induction n rule: show_nat.induct)
  case (1 n)
  then show ?case
    by (cases "n < 10") (simp_all add: show_nat.simps [of n] is_digit_digit_char)
qed

lemma show_int_chars: "list_all number_char (show_int i) \<and> show_int i \<noteq> []"
  using show_nat_digits by (auto simp: show_int_def number_char_def list_all_iff)

lemma show_int_inject: "show_int i = show_int j \<longleftrightarrow> i = j"
proof -
  have minus: "\<not> is_digit (CHR ''-'')" by (simp add: is_digit_def)
  have no: "show_nat n \<noteq> CHR ''-'' # s" for n s
    using show_nat_digits [of n] minus by auto
  show ?thesis by (auto simp: show_int_def no no [symmetric])
qed

lemma delimited_not_number: "delimited s \<Longrightarrow> s \<noteq> [] \<Longrightarrow> \<not> number_char (hd s)"
  by (auto simp: delimited_def number_char_def is_digit_def)

lemma takeWhile_number: "list_all P s \<Longrightarrow> (x \<noteq> [] \<Longrightarrow> \<not> P (hd x)) \<Longrightarrow> takeWhile P (s @ x) = s"
  by (induction s) (cases x, auto)+

lemma show_int_prefix_free:
  assumes "show_int i @ x = show_int j @ y" and "delimited x" and "delimited y"
  shows "i = j \<and> x = y"
proof -
  have "takeWhile number_char (show_int i @ x) = show_int i" "takeWhile number_char (show_int j @ y) = show_int j"
    using show_int_chars delimited_not_number assms(2,3) by (blast intro: takeWhile_number)+
  with assms(1) have "show_int i = show_int j" by simp
  with assms(1) show ?thesis by (simp add: show_int_inject)
qed

definition starter :: "char \<Rightarrow> json \<Rightarrow> bool" where
  "starter c v \<longleftrightarrow> (case v of JNull \<Rightarrow> c = CHR ''n'' | JBool b \<Rightarrow> c = (if b then CHR ''t'' else CHR ''f'')
     | JNum _ \<Rightarrow> number_char c | JStr _ \<Rightarrow> c = dquote | JArr _ \<Rightarrow> c = CHR ''['' | JObj _ \<Rightarrow> c = CHR ''{'')"

lemma json_text_starter: "json_text v \<noteq> [] \<and> starter (hd (json_text v)) v"
proof (cases v)
  case (JNum n)
  have "number_char (hd (show_int n))" using show_int_chars [of n] by (cases "show_int n") auto
  with JNum show ?thesis using show_int_chars by (simp add: starter_def)
qed (auto simp: starter_def json_quote_def)

lemma not_number_char [simp]:
  "\<not> number_char (CHR ''n'')" "\<not> number_char (CHR ''t'')" "\<not> number_char (CHR ''f'')" "\<not> number_char dquote"
  "\<not> number_char (CHR ''['')" "\<not> number_char (CHR ''{'')" "\<not> number_char (CHR '']'')" "\<not> number_char (CHR ''}'')"
  by (simp_all add: number_char_def is_digit_def)

text \<open>The kind of a value, told by the first character of its text.\<close>

definition json_kind :: "json \<Rightarrow> nat" where
  "json_kind v = (case v of JNull \<Rightarrow> 0 | JBool b \<Rightarrow> (if b then 1 else 2) | JNum _ \<Rightarrow> 3 | JStr _ \<Rightarrow> 4 | JArr _ \<Rightarrow> 5 | JObj _ \<Rightarrow> 6)"

lemma starter_kind: "starter c v \<Longrightarrow> starter c w \<Longrightarrow> json_kind v = json_kind w"
  by (cases v; cases w) (auto simp: starter_def json_kind_def split: if_splits)

lemma json_text_kind:
  assumes "json_text v @ x = json_text w @ y" shows "json_kind v = json_kind w"
proof -
  have "hd (json_text v) = hd (json_text w)"
    using assms json_text_starter [of v] json_text_starter [of w] by (metis hd_append2)
  then show ?thesis using json_text_starter starter_kind by metis
qed

lemma join_first: "js_join sep (a # as) @ r = a @ (if as = [] then r else sep @ js_join sep as @ r)"
  by (cases as) auto

lemma json_elements_Nil [simp]: "json_elements vs = [] \<longleftrightarrow> vs = []"
  by (cases vs) auto

lemma json_members_Nil [simp]: "json_members kvs = [] \<longleftrightarrow> kvs = []"
  by (cases kvs) auto

lemma not_closing: "json_text v @ x \<noteq> CHR '']'' # y"
proof
  assume "json_text v @ x = CHR '']'' # y"
  then have "hd (json_text v) = CHR '']''" using json_text_starter [of v] by (metis hd_append2 list.sel(1))
  with json_text_starter [of v] show False by (cases v) (auto simp: starter_def split: if_splits)
qed

text \<open>A comma-separated sequence with a closing bracket, of items whose texts are unambiguous.\<close>

definition joined_tail :: "('a \<Rightarrow> string) \<Rightarrow> char \<Rightarrow> 'a list \<Rightarrow> string \<Rightarrow> string" where
  "joined_tail f c us z = (if us = [] then c # z else CHR '','' # js_join '','' (map f us) @ c # z)"

lemma joined_prefix_free:
  assumes "c = CHR '']'' \<or> c = CHR ''}''" and "\<And>a x y. f a @ x \<noteq> c # y"
    and "\<And>a b x y. a \<in> set as \<Longrightarrow> f a @ x = f b @ y \<Longrightarrow> delimited x \<Longrightarrow> delimited y \<Longrightarrow> a = b \<and> x = y"
    and "js_join '','' (map f as) @ c # x = js_join '','' (map f bs) @ c # y"
  shows "as = bs \<and> x = y"
  using assms(3,4)
proof (induction as arbitrary: bs)
  case Nil
  show ?case
  proof (cases bs)
    case (Cons b bs')
    have "js_join '','' (map f bs) @ c # y \<noteq> c # x"
      unfolding Cons list.map join_first by (rule assms(2))
    with Nil(2) show ?thesis by simp
  qed (use Nil in simp)
next
  case (Cons a as)
  have first: "js_join '','' (map f (u # us)) @ c # z = f u @ joined_tail f c us z" for u us z
    unfolding list.map join_first joined_tail_def by simp
  show ?case
  proof (cases bs)
    case Nil
    have "js_join '','' (map f (a # as)) @ c # x \<noteq> c # y" unfolding first by (rule assms(2))
    with Nil Cons.prems(2) show ?thesis by simp
  next
    case (Cons b bs')
    have e: "f a @ joined_tail f c as x = f b @ joined_tail f c bs' y"
      using Cons.prems(2) unfolding Cons first .
    have d: "delimited (joined_tail f c us z)" for us z
      using assms(1) by (auto simp: delimited_def joined_tail_def)
    have ab: "a = b" and t: "joined_tail f c as x = joined_tail f c bs' y"
      using Cons.prems(1) [OF _ e d d] by simp_all
    show ?thesis
    proof (cases "as = []")
      case True
      with t assms(1) have "bs' = [] \<and> x = y" by (cases "bs' = []") (auto simp: joined_tail_def)
      with True ab Cons show ?thesis by simp
    next
      case False
      with t assms(1) have "js_join '','' (map f as) @ c # x = js_join '','' (map f bs') @ c # y"
        by (cases "bs' = []") (auto simp: joined_tail_def)
      from Cons.IH [OF Cons.prems(1) this] have "as = bs' \<and> x = y" by (simp only: list.set_intros)
      with ab Cons show ?thesis by simp
    qed
  qed
qed

definition member_text :: "string \<times> json \<Rightarrow> string" where
  "member_text kv = json_quote (fst kv) @ '':'' @ json_text (snd kv)"

lemma json_elements_map: "json_elements vs = map json_text vs"
  by (induction vs) auto

lemma json_members_map: "json_members kvs = map member_text kvs"
  by (induction kvs) (auto simp: member_text_def)

lemma member_prefix_free:
  assumes "\<And>x y w. json_text (snd kv) @ x = json_text w @ y \<Longrightarrow> delimited x \<Longrightarrow> delimited y \<Longrightarrow> snd kv = w \<and> x = y"
    and "member_text kv @ x = member_text lw @ y" and "delimited x" and "delimited y"
  shows "kv = lw \<and> x = y"
proof -
  have "json_quote (fst kv) @ ('':'' @ json_text (snd kv) @ x) = json_quote (fst lw) @ ('':'' @ json_text (snd lw) @ y)"
    using assms(2) by (simp add: member_text_def)
  then have "fst kv = fst lw" "json_text (snd kv) @ x = json_text (snd lw) @ y"
    unfolding json_quote_prefix_free by simp_all
  with assms(1,3,4) show ?thesis by (metis prod_eqI)
qed

lemma json_text_prefix_free:
  "json_text v @ x = json_text w @ y \<Longrightarrow> delimited x \<Longrightarrow> delimited y \<Longrightarrow> v = w \<and> x = y"
proof (induction v arbitrary: w x y)
  case JNull
  then show ?case using json_text_kind [OF JNull.prems(1)] by (cases w) (auto simp: json_kind_def split: if_splits)
next
  case (JBool b)
  then show ?case using json_text_kind [OF JBool.prems(1)] by (cases w) (auto simp: json_kind_def split: if_splits)
next
  case (JNum n)
  obtain m where w: "w = JNum m"
    using json_text_kind [OF JNum.prems(1)] by (cases w) (auto simp: json_kind_def split: if_splits)
  have "show_int n @ x = show_int m @ y" using JNum.prems(1) w by (simp only: json_text.simps)
  from show_int_prefix_free [OF this JNum.prems(2,3)] w show ?case by (simp only: simp_thms)
next
  case (JStr s)
  obtain t where w: "w = JStr t"
    using json_text_kind [OF JStr.prems(1)] by (cases w) (auto simp: json_kind_def split: if_splits)
  with JStr show ?case by (simp add: json_quote_prefix_free)
next
  case (JArr vs)
  obtain ws where w: "w = JArr ws"
    using json_text_kind [OF JArr.prems(1)] by (cases w) (auto simp: json_kind_def split: if_splits)
  have "js_join '','' (map json_text vs) @ CHR '']'' # x = js_join '','' (map json_text ws) @ CHR '']'' # y"
    using JArr.prems(1) w by (simp add: json_elements_map)
  from joined_prefix_free [OF disjI1 [OF refl] not_closing JArr.IH this]
  have "vs = ws \<and> x = y" .
  then show ?case unfolding w by simp
next
  case (JObj kvs)
  obtain ws where w: "w = JObj ws"
    using json_text_kind [OF JObj.prems(1)] by (cases w) (auto simp: json_kind_def split: if_splits)
  have eq: "js_join '','' (map member_text kvs) @ CHR ''}'' # x = js_join '','' (map member_text ws) @ CHR ''}'' # y"
    using JObj.prems(1) w by (simp add: json_members_map)
  have head: "member_text a @ x \<noteq> CHR ''}'' # y" for a x y
    by (simp add: member_text_def json_quote_def)
  have item: "a = b \<and> x = y" if "a \<in> set kvs" "member_text a @ x = member_text b @ y" "delimited x" "delimited y" for a b x y
  proof (rule member_prefix_free [OF _ that(2-4)])
    show "\<And>x y w. json_text (snd a) @ x = json_text w @ y \<Longrightarrow> delimited x \<Longrightarrow> delimited y \<Longrightarrow> snd a = w \<and> x = y"
      using JObj.IH [of a "snd a"] that(1) by (simp add: snds.simps)
  qed
  from joined_prefix_free [OF disjI2 [OF refl] head item eq]
  have "kvs = ws \<and> x = y" .
  then show ?case unfolding w by simp
qed

lemma json_text_inject [simp]: "json_text v = json_text w \<longleftrightarrow> v = w"
  using json_text_prefix_free [of v "[]" w "[]"] by (auto simp: delimited_def)

text \<open>An array of strings, as the fingerprints serialise it.\<close>

definition json_strings :: "string list \<Rightarrow> string" where
  "json_strings ss = json_text (JArr (map JStr ss))"

lemma json_strings_inject [simp]: "json_strings ss = json_strings ts \<longleftrightarrow> ss = ts"
  unfolding json_strings_def json_text_inject by (simp add: inj_map_eq_map inj_def)

end
