(* ===== verification/Task_State.thy ===== *)
theory Task_State
  imports Json
begin

text \<open>
  The Task state model (\<open>src/src/task/task-state.ts\<close>): the six states and their transition table,
  the summary function that turns facts into a conclusion, and the normaliser of the persisted
  detail. Values of type \<open>unknown\<close> are \<^typ>\<open>json\<close>.
\<close>

subsection \<open>States and transitions\<close>

datatype TaskStatus = TQueued | TRunning | TNeedsAction | TSucceeded | TFailed | TCancelled

definition isTerminalTaskStatus :: "TaskStatus \<Rightarrow> bool" where
  "isTerminalTaskStatus s \<longleftrightarrow> s \<in> {TSucceeded, TFailed, TCancelled}"

definition isActiveTaskStatus :: "TaskStatus \<Rightarrow> bool" where
  "isActiveTaskStatus s \<longleftrightarrow> s \<in> {TQueued, TRunning, TNeedsAction}"

fun allowedTaskStatusTransitions :: "TaskStatus \<Rightarrow> TaskStatus list" where
  "allowedTaskStatusTransitions TQueued = [TRunning, TNeedsAction, TFailed, TCancelled]"
| "allowedTaskStatusTransitions TRunning = [TQueued, TNeedsAction, TSucceeded, TFailed, TCancelled]"
| "allowedTaskStatusTransitions TNeedsAction = [TQueued, TCancelled]"
| "allowedTaskStatusTransitions TSucceeded = []"
| "allowedTaskStatusTransitions TFailed = []"
| "allowedTaskStatusTransitions TCancelled = []"

definition isTaskStatusTransitionAllowed :: "TaskStatus \<Rightarrow> TaskStatus \<Rightarrow> bool" where
  "isTaskStatusTransitionAllowed a b \<longleftrightarrow> a = b \<or> b \<in> set (allowedTaskStatusTransitions a)"

subsection \<open>Phases, reasons, actions, required work\<close>

datatype TaskOperationPhase =
  Executing | Publishing | Delivering | StartingService | Retrying | Stopping | Verifying

datatype TaskReasonCode =
  NoReason | UserCancelled | ResultAcceptanceRequired | InputRequired | ExternalOutcomeUnknown
  | NoAuthorizedDriver | PortInUse | CommandNotFound | ServiceStartFailed | ServiceHealthTimeout
  | DeliveryFailed | WorkspaceMergeConflict | ExecutionFailed | RetryExhausted
  | RequirementsIncomplete | WaitingForCapacity | CleanupInProgress | SystemAnomaly

datatype TaskPendingActionKind = AcceptResult | RetryAttempt | ProvideInput | ResolveRecovery | StartService

datatype TaskCleanupState = CleanupNone | CleanupPending | CleanupBlocked

datatype TaskRequiredWorkKind =
  ExecutionWork | IntegrationWork | WorkspaceDeliveryWork | DeliveryWork | SafetyReportWork | ServiceWork

datatype TaskRequiredWorkState = WorkPending | WorkRunning | WorkCompleted | WorkFailed | WorkWaitingForUser

definition phase_names :: "(string \<times> TaskOperationPhase) list" where
  "phase_names = [(''executing'', Executing), (''publishing'', Publishing), (''delivering'', Delivering),
     (''starting_service'', StartingService), (''retrying'', Retrying), (''stopping'', Stopping),
     (''verifying'', Verifying)]"

definition reason_names :: "(string \<times> TaskReasonCode) list" where
  "reason_names = [(''none'', NoReason), (''user_cancelled'', UserCancelled),
     (''result_acceptance_required'', ResultAcceptanceRequired), (''input_required'', InputRequired),
     (''external_outcome_unknown'', ExternalOutcomeUnknown), (''no_authorized_driver'', NoAuthorizedDriver),
     (''port_in_use'', PortInUse), (''command_not_found'', CommandNotFound),
     (''service_start_failed'', ServiceStartFailed), (''service_health_timeout'', ServiceHealthTimeout),
     (''delivery_failed'', DeliveryFailed), (''workspace_merge_conflict'', WorkspaceMergeConflict),
     (''execution_failed'', ExecutionFailed), (''retry_exhausted'', RetryExhausted),
     (''requirements_incomplete'', RequirementsIncomplete), (''waiting_for_capacity'', WaitingForCapacity),
     (''cleanup_in_progress'', CleanupInProgress), (''system_anomaly'', SystemAnomaly)]"

definition action_names :: "(string \<times> TaskPendingActionKind) list" where
  "action_names = [(''accept_result'', AcceptResult), (''retry_attempt'', RetryAttempt),
     (''provide_input'', ProvideInput), (''resolve_recovery'', ResolveRecovery), (''start_service'', StartService)]"

definition cleanup_names :: "(string \<times> TaskCleanupState) list" where
  "cleanup_names = [(''none'', CleanupNone), (''pending'', CleanupPending), (''blocked'', CleanupBlocked)]"

definition work_kind_names :: "(string \<times> TaskRequiredWorkKind) list" where
  "work_kind_names = [(''execution'', ExecutionWork), (''integration'', IntegrationWork),
     (''workspace_delivery'', WorkspaceDeliveryWork), (''delivery'', DeliveryWork),
     (''safety_report'', SafetyReportWork), (''service'', ServiceWork)]"

definition work_state_names :: "(string \<times> TaskRequiredWorkState) list" where
  "work_state_names = [(''pending'', WorkPending), (''running'', WorkRunning), (''completed'', WorkCompleted),
     (''failed'', WorkFailed), (''waiting_for_user'', WorkWaitingForUser)]"

record TaskReason =
  reasonCode :: TaskReasonCode
  reasonMessage :: string
  reasonEvidenceRefs :: "string list"

record TaskPendingResultIdentity =
  prTaskId :: string
  prGenerationId :: string
  prGraphRevision :: int
  prSubtaskId :: string
  prAttemptId :: string
  prResultId :: string

record WorkspaceMergeRef =
  wmJobId :: string
  wmConflictVersion :: int
  wmRowVersion :: int

record TaskPendingAction =
  paActionId :: string
  paKind :: TaskPendingActionKind
  paLabel :: string
  paReason :: TaskReason
  paResult :: "TaskPendingResultIdentity option"
  paPublicationId :: "string option"
  paWorkspaceMerge :: "WorkspaceMergeRef option"

record TaskCleanupSummary =
  cleanupState :: TaskCleanupState
  cleanupObjects :: "string list"
  cleanupReason :: string

record TaskRequiredWorkFact =
  workKey :: string
  workKind :: TaskRequiredWorkKind
  workLabel :: string
  workState :: TaskRequiredWorkState
  workReason :: "TaskReason option"

record TaskStateDetail =
  sdReason :: TaskReason
  sdUnresolved :: "TaskReason list"
  sdPhase :: "TaskOperationPhase option"
  sdPendingActions :: "TaskPendingAction list"
  sdRequiredWork :: "TaskRequiredWorkFact list"
  sdCleanup :: TaskCleanupSummary
  sdNextWakeAt :: "string option"

definition NO_TASK_CLEANUP :: TaskCleanupSummary where
  "NO_TASK_CLEANUP = \<lparr>cleanupState = CleanupNone, cleanupObjects = [], cleanupReason = []\<rparr>"

definition EMPTY_TASK_REASON :: TaskReason where
  "EMPTY_TASK_REASON = \<lparr>reasonCode = NoReason, reasonMessage = [], reasonEvidenceRefs = []\<rparr>"

definition EMPTY_TASK_STATE_DETAIL :: TaskStateDetail where
  "EMPTY_TASK_STATE_DETAIL = \<lparr>sdReason = EMPTY_TASK_REASON, sdUnresolved = [], sdPhase = None,
     sdPendingActions = [], sdRequiredWork = [], sdCleanup = NO_TASK_CLEANUP, sdNextWakeAt = None\<rparr>"

text \<open>\<open>TASK_STATE_DETAIL_LIMITS\<close>\<close>

abbreviation "messageLength \<equiv> 320 :: nat"
abbreviation "labelLength \<equiv> 160 :: nat"
abbreviation "evidenceRefs \<equiv> 8 :: nat"
abbreviation "unresolvedLimit \<equiv> 8 :: nat"
abbreviation "pendingActionsLimit \<equiv> 8 :: nat"
abbreviation "requiredWorkLimit \<equiv> 24 :: nat"
abbreviation "cleanupObjectsLimit \<equiv> 12 :: nat"
abbreviation "evidenceRefLength \<equiv> 200 :: nat"

subsection \<open>Bounded text\<close>

definition text_break :: "char \<Rightarrow> bool" where
  "text_break c \<longleftrightarrow> c = CHR 0x0D \<or> c = CHR 0x0A \<or> c = CHR 0x09"

text \<open>\<^verbatim>\<open>.replace(/[\r\n\t]+/gu, ' ')\<close>\<close>

fun join_breaks :: "bool \<Rightarrow> string \<Rightarrow> string" where
  "join_breaks in_run [] = []"
| "join_breaks in_run (c # cs) =
     (if text_break c then (if in_run then join_breaks True cs else CHR 0x20 # join_breaks True cs)
      else c # join_breaks False cs)"

definition boundedText :: "string \<Rightarrow> nat \<Rightarrow> string" where
  "boundedText value limit = take limit (js_trim (join_breaks False value))"

fun bounded_strings_loop :: "string list \<Rightarrow> string list \<Rightarrow> nat \<Rightarrow> nat \<Rightarrow> string list" where
  "bounded_strings_loop unique [] limit len = unique"
| "bounded_strings_loop unique (value # values) limit len =
     (let bounded = boundedText value len in
      if bounded = [] \<or> bounded \<in> set unique then bounded_strings_loop unique values limit len
      else if length (unique @ [bounded]) \<ge> limit then unique @ [bounded]
      else bounded_strings_loop (unique @ [bounded]) values limit len)"

definition boundedStrings :: "string list \<Rightarrow> nat \<Rightarrow> nat \<Rightarrow> string list" where
  "boundedStrings values limit len = bounded_strings_loop [] values limit len"

definition createTaskReason :: "TaskReasonCode \<Rightarrow> string \<Rightarrow> string list \<Rightarrow> TaskReason" where
  "createTaskReason code message refs =
     \<lparr>reasonCode = code, reasonMessage = boundedText message messageLength,
      reasonEvidenceRefs = boundedStrings refs evidenceRefs evidenceRefLength\<rparr>"

subsection \<open>The summary function\<close>

datatype TaskSlot = SlotNone | SlotHeld

record TaskEvaluationFacts =
  efTaskId :: string
  efCurrentStatus :: TaskStatus
  efCancelFence :: bool
  efRequiredWork :: "TaskRequiredWorkFact list"
  efPendingActions :: "TaskPendingAction list"
  efRunnableWork :: bool
  efActiveOperation :: "(TaskOperationPhase \<times> TaskReason option) option"
  efBoundedRecovery :: "(string \<times> TaskReason option) option"
  efSlot :: TaskSlot
  efCapacityWaiting :: bool
  efCleanup :: TaskCleanupSummary
  efFailureReason :: "TaskReason option"
  efAnomaly :: "TaskReason option"
  efObservedAt :: string

record TaskEvaluation =
  evStatus :: TaskStatus
  evDetail :: TaskStateDetail

text \<open>\<open>a ?? b\<close>\<close>

definition or_else :: "'a option \<Rightarrow> 'a \<Rightarrow> 'a" where
  "or_else x d = (case x of None \<Rightarrow> d | Some v \<Rightarrow> v)"

definition or_try :: "'a option \<Rightarrow> 'a option \<Rightarrow> 'a option" where
  "or_try x y = (case x of None \<Rightarrow> y | Some v \<Rightarrow> Some v)"

text \<open>The unresolved reasons: of failed or waiting work first, then of actions, one per code.\<close>

fun unresolved_reasons :: "TaskReasonCode list \<Rightarrow> TaskReason list \<Rightarrow> TaskReason list" where
  "unresolved_reasons seen [] = []"
| "unresolved_reasons seen (r # rs) =
     (if reasonCode r \<in> set seen then unresolved_reasons seen rs
      else r # unresolved_reasons (reasonCode r # seen) rs)"

definition open_work_reasons :: "TaskRequiredWorkFact list \<Rightarrow> TaskReason list" where
  "open_work_reasons works = List.map_filter workReason
     (filter (\<lambda>w. workState w = WorkFailed \<or> workState w = WorkWaitingForUser) works)"

definition buildDetail :: "TaskEvaluationFacts \<Rightarrow> TaskReason \<Rightarrow> TaskOperationPhase option \<Rightarrow> TaskStateDetail" where
  "buildDetail facts reason phase =
     \<lparr>sdReason = reason,
      sdUnresolved = take unresolvedLimit (unresolved_reasons [reasonCode reason]
        (open_work_reasons (efRequiredWork facts) @ map paReason (efPendingActions facts))),
      sdPhase = phase,
      sdPendingActions = take pendingActionsLimit (efPendingActions facts),
      sdRequiredWork = take requiredWorkLimit (efRequiredWork facts),
      sdCleanup = efCleanup facts,
      sdNextWakeAt = map_option fst (efBoundedRecovery facts)\<rparr>"

definition primaryRunningReason :: "TaskEvaluationFacts \<Rightarrow> TaskReason" where
  "primaryRunningReason facts =
     or_else (or_try (Option.bind (find (\<lambda>w. workState w = WorkRunning) (efRequiredWork facts)) workReason)
                     (efFailureReason facts))
       (createTaskReason NoReason ''%u7CFB%u7EDF%u6B63%u5728%u6267%u884C%u4EFB%u52A1%u3002'' [])"

definition requiredReasonForTerminal :: "TaskStatus \<Rightarrow> TaskEvaluationFacts \<Rightarrow> TaskReason" where
  "requiredReasonForTerminal status facts =
     (if status = TCancelled then
        (case efPendingActions facts of
           a # _ \<Rightarrow> if reasonCode (paReason a) = UserCancelled then paReason a
                     else createTaskReason UserCancelled ''%u7528%u6237%u53D6%u6D88%u4E86%u4EFB%u52A1%u3002'' []
         | [] \<Rightarrow> createTaskReason UserCancelled ''%u7528%u6237%u53D6%u6D88%u4E86%u4EFB%u52A1%u3002'' [])
      else if status = TFailed then
        or_else (efFailureReason facts) (createTaskReason ExecutionFailed ''%u4EFB%u52A1%u5931%u8D25%u3002'' [])
      else createTaskReason NoReason ''%u7528%u6237%u8981%u6C42%u7684%u5FC5%u9700%u5DE5%u4F5C%u5DF2%u5168%u90E8%u5B8C%u6210%u3002'' [])"

definition conclude :: "TaskEvaluationFacts \<Rightarrow> TaskStatus \<Rightarrow> TaskReason \<Rightarrow> TaskOperationPhase option \<Rightarrow> TaskEvaluation" where
  "conclude facts status reason phase = \<lparr>evStatus = status, evDetail = buildDetail facts reason phase\<rparr>"

definition uncertain_anomaly :: "TaskEvaluationFacts \<Rightarrow> TaskReason \<Rightarrow> bool" where
  "uncertain_anomaly facts anomaly \<longleftrightarrow>
     reasonCode anomaly \<in> {NoAuthorizedDriver, ExternalOutcomeUnknown, SystemAnomaly, InputRequired,
       ResultAcceptanceRequired}
     \<or> cleanupState (efCleanup facts) \<noteq> CleanupNone"

definition evaluate :: "TaskEvaluationFacts \<Rightarrow> TaskEvaluation" where
  "evaluate facts =
     (if isTerminalTaskStatus (efCurrentStatus facts) then
        conclude facts (efCurrentStatus facts) (requiredReasonForTerminal (efCurrentStatus facts) facts) None
      else if efCancelFence facts then
        conclude facts TCancelled (createTaskReason UserCancelled ''%u7528%u6237%u53D6%u6D88%u4E86%u4EFB%u52A1%u3002'' []) None
      else case efActiveOperation facts of
        Some (phase, reason) \<Rightarrow>
          conclude facts TRunning (or_else reason (primaryRunningReason facts)) (Some phase)
      | None \<Rightarrow> (case efBoundedRecovery facts of
        Some (wake, reason) \<Rightarrow>
          conclude facts TRunning (or_else reason (createTaskReason NoReason ''%u81EA%u52A8%u91CD%u8BD5%u5DF2%u6392%u671F%u3002'' [])) (Some Retrying)
      | None \<Rightarrow>
          if efSlot facts = SlotHeld \<and> efRunnableWork facts \<and> \<not> efCapacityWaiting facts
             \<and> efCurrentStatus facts \<noteq> TNeedsAction
          then conclude facts TRunning (primaryRunningReason facts) None
          else case filter (\<lambda>w. workState w = WorkFailed) (efRequiredWork facts) of
            w # _ \<Rightarrow> conclude facts TFailed
              (or_else (or_try (workReason w) (efFailureReason facts))
                 (createTaskReason ExecutionFailed ''%u5FC5%u9700%u5DE5%u4F5C%u5931%u8D25%u3002'' [])) None
          | [] \<Rightarrow>
              if efPendingActions facts \<noteq> [] \<and> \<not> efRunnableWork facts
              then conclude facts TNeedsAction (paReason (hd (efPendingActions facts))) None
              else if efRequiredWork facts \<noteq> [] \<and> list_all (\<lambda>w. workState w = WorkCompleted) (efRequiredWork facts)
              then conclude facts TSucceeded (createTaskReason NoReason ''%u7528%u6237%u8981%u6C42%u7684%u5FC5%u9700%u5DE5%u4F5C%u5DF2%u5168%u90E8%u5B8C%u6210%u3002'' []) None
              else if efRunnableWork facts \<or> efCapacityWaiting facts
              then conclude facts TQueued (createTaskReason WaitingForCapacity ''%u7B49%u5F85%u6267%u884C%u540D%u989D%u3002'' []) None
              else (let anomaly = or_else (efAnomaly facts)
                      (createTaskReason NoAuthorizedDriver ''%u6CA1%u6709%u53EF%u7EE7%u7EED%u7684%u6388%u6743%u5DE5%u4F5C%uFF0C%u4E5F%u6CA1%u6709%u660E%u786E%u7684%u7528%u6237%u4E8B%u9879%u3002'' [])
                    in conclude facts (if uncertain_anomaly facts anomaly then TNeedsAction else TFailed) anomaly None)))"

definition evaluateTaskState :: "TaskEvaluationFacts \<Rightarrow> TaskEvaluation" where
  "evaluateTaskState facts =
     (let evaluation = evaluate facts in
      if efCurrentStatus facts = TNeedsAction \<and> evStatus evaluation = TRunning
      then \<lparr>evStatus = TQueued, evDetail = (evDetail evaluation)
             \<lparr>sdPhase := None, sdReason := createTaskReason WaitingForCapacity ''%u7B49%u5F85%u6267%u884C%u540D%u989D%u3002'' []\<rparr>\<rparr>
      else evaluation)"

subsection \<open>Reading persisted detail\<close>

definition json_string :: "json option \<Rightarrow> string option" where
  "json_string v = (case v of Some (JStr s) \<Rightarrow> Some s | _ \<Rightarrow> None)"

definition json_int :: "json option \<Rightarrow> int option" where
  "json_int v = (case v of Some (JNum n) \<Rightarrow> Some n | _ \<Rightarrow> None)"

definition json_list :: "json option \<Rightarrow> json list" where
  "json_list v = (case v of Some (JArr vs) \<Rightarrow> vs | _ \<Rightarrow> [])"

text \<open>\<open>value && typeof value === 'object'\<close>: an array passes too, and has none of the fields.\<close>

definition json_object :: "json option \<Rightarrow> json option" where
  "json_object v = (case v of Some (JObj kvs) \<Rightarrow> Some (JObj kvs) | Some (JArr vs) \<Rightarrow> Some (JArr vs) | _ \<Rightarrow> None)"

definition json_strings_only :: "json list \<Rightarrow> string list" where
  "json_strings_only vs = List.map_filter (\<lambda>v. json_string (Some v)) vs"

definition named :: "(string \<times> 'a) list \<Rightarrow> json option \<Rightarrow> 'a option" where
  "named names v = Option.bind (json_string v) (map_of names)"

definition normalizeReason :: "json option \<Rightarrow> TaskReason option" where
  "normalizeReason value = Option.bind (json_object value) (\<lambda>source.
     Option.bind (named reason_names (json_get source ''code'')) (\<lambda>code.
       Some (createTaskReason code (or_else (json_string (json_get source ''message'')) [])
         (json_strings_only (json_list (json_get source ''evidenceRefs''))))))"

definition normalizePendingResultIdentity :: "json option \<Rightarrow> TaskPendingResultIdentity option" where
  "normalizePendingResultIdentity value = Option.bind (json_object value) (\<lambda>source.
     Option.bind (json_string (json_get source ''taskId'')) (\<lambda>t.
     Option.bind (json_string (json_get source ''generationId'')) (\<lambda>g.
     Option.bind (json_int (json_get source ''graphRevision'')) (\<lambda>r.
     Option.bind (json_string (json_get source ''subtaskId'')) (\<lambda>s.
     Option.bind (json_string (json_get source ''attemptId'')) (\<lambda>a.
     Option.bind (json_string (json_get source ''resultId'')) (\<lambda>i.
       Some \<lparr>prTaskId = t, prGenerationId = g, prGraphRevision = r, prSubtaskId = s, prAttemptId = a,
             prResultId = i\<rparr>)))))))"

definition normalizePendingAction :: "json \<Rightarrow> TaskPendingAction option" where
  "normalizePendingAction value = Option.bind (json_object (Some value)) (\<lambda>source.
     Option.bind (json_string (json_get source ''actionId'')) (\<lambda>actionId.
     Option.bind (named action_names (json_get source ''kind'')) (\<lambda>kind.
       Some \<lparr>paActionId = boundedText actionId evidenceRefLength, paKind = kind,
             paLabel = boundedText (or_else (json_string (json_get source ''label'')) []) labelLength,
             paReason = or_else (normalizeReason (json_get source ''reason'')) EMPTY_TASK_REASON,
             paResult = normalizePendingResultIdentity (json_get source ''result''),
             paPublicationId = map_option (\<lambda>p. boundedText p evidenceRefLength)
                                 (json_string (json_get source ''publicationId'')),
             paWorkspaceMerge = None\<rparr>)))"

definition normalizeRequiredWork :: "json \<Rightarrow> TaskRequiredWorkFact option" where
  "normalizeRequiredWork value = Option.bind (json_object (Some value)) (\<lambda>source.
     Option.bind (json_string (json_get source ''key'')) (\<lambda>key.
     Option.bind (named work_kind_names (json_get source ''kind'')) (\<lambda>kind.
     Option.bind (named work_state_names (json_get source ''state'')) (\<lambda>state.
       Some \<lparr>workKey = boundedText key evidenceRefLength, workKind = kind,
             workLabel = boundedText (or_else (json_string (json_get source ''label'')) []) labelLength,
             workState = state, workReason = normalizeReason (json_get source ''reason'')\<rparr>))))"

definition normalizeCleanup :: "json option \<Rightarrow> TaskCleanupSummary" where
  "normalizeCleanup value = (case json_object value of
      None \<Rightarrow> NO_TASK_CLEANUP
    | Some source \<Rightarrow>
        \<lparr>cleanupState = or_else (named cleanup_names (json_get source ''state'')) CleanupNone,
         cleanupObjects = boundedStrings (json_strings_only (json_list (json_get source ''objects'')))
           cleanupObjectsLimit evidenceRefLength,
         cleanupReason = boundedText (or_else (json_string (json_get source ''reason'')) []) messageLength\<rparr>)"

definition normalizeTaskStateDetail :: "json \<Rightarrow> TaskStateDetail" where
  "normalizeTaskStateDetail value = (case json_object (Some value) of
      None \<Rightarrow> EMPTY_TASK_STATE_DETAIL
    | Some source \<Rightarrow>
        \<lparr>sdReason = or_else (normalizeReason (json_get source ''reason'')) EMPTY_TASK_REASON,
         sdUnresolved = take unresolvedLimit
           (List.map_filter (\<lambda>v. normalizeReason (Some v)) (json_list (json_get source ''unresolved''))),
         sdPhase = named phase_names (json_get source ''phase''),
         sdPendingActions = take pendingActionsLimit
           (List.map_filter normalizePendingAction (json_list (json_get source ''pendingActions''))),
         sdRequiredWork = take requiredWorkLimit
           (List.map_filter normalizeRequiredWork (json_list (json_get source ''requiredWork''))),
         sdCleanup = normalizeCleanup (json_get source ''cleanup''),
         sdNextWakeAt = Option.bind (json_string (json_get source ''nextWakeAt''))
                          (\<lambda>s. if s = [] then None else Some s)\<rparr>)"

subsection \<open>Writing detail\<close>

text \<open>\<open>JSON.parse(JSON.stringify(detail))\<close>: absent optional fields are dropped, \<open>null\<close> is kept.\<close>

definition name_of :: "(string \<times> 'a) list \<Rightarrow> 'a \<Rightarrow> string" where
  "name_of names x = (case find (\<lambda>p. snd p = x) names of Some p \<Rightarrow> fst p | None \<Rightarrow> [])"

definition reason_json :: "TaskReason \<Rightarrow> json" where
  "reason_json r = JObj [(''code'', JStr (name_of reason_names (reasonCode r))), (''message'', JStr (reasonMessage r)),
     (''evidenceRefs'', JArr (map JStr (reasonEvidenceRefs r)))]"

definition result_json :: "TaskPendingResultIdentity \<Rightarrow> json" where
  "result_json r = JObj [(''taskId'', JStr (prTaskId r)), (''generationId'', JStr (prGenerationId r)),
     (''graphRevision'', JNum (prGraphRevision r)), (''subtaskId'', JStr (prSubtaskId r)),
     (''attemptId'', JStr (prAttemptId r)), (''resultId'', JStr (prResultId r))]"

definition json_nullable :: "('a \<Rightarrow> json) \<Rightarrow> 'a option \<Rightarrow> json" where
  "json_nullable f v = (case v of None \<Rightarrow> JNull | Some x \<Rightarrow> f x)"

definition merge_json :: "WorkspaceMergeRef \<Rightarrow> json" where
  "merge_json m = JObj [(''jobId'', JStr (wmJobId m)), (''conflictVersion'', JNum (wmConflictVersion m)),
     (''rowVersion'', JNum (wmRowVersion m))]"

definition action_json :: "TaskPendingAction \<Rightarrow> json" where
  "action_json a = JObj ([(''actionId'', JStr (paActionId a)), (''kind'', JStr (name_of action_names (paKind a))),
      (''label'', JStr (paLabel a)), (''reason'', reason_json (paReason a)),
      (''result'', json_nullable result_json (paResult a))]
     @ (case paPublicationId a of None \<Rightarrow> [] | Some p \<Rightarrow> [(''publicationId'', JStr p)])
     @ (case paWorkspaceMerge a of None \<Rightarrow> [] | Some m \<Rightarrow> [(''workspaceMerge'', merge_json m)]))"

definition work_json :: "TaskRequiredWorkFact \<Rightarrow> json" where
  "work_json w = JObj [(''key'', JStr (workKey w)), (''kind'', JStr (name_of work_kind_names (workKind w))),
     (''label'', JStr (workLabel w)), (''state'', JStr (name_of work_state_names (workState w))),
     (''reason'', json_nullable reason_json (workReason w))]"

definition cleanup_json :: "TaskCleanupSummary \<Rightarrow> json" where
  "cleanup_json c = JObj [(''state'', JStr (name_of cleanup_names (cleanupState c))),
     (''objects'', JArr (map JStr (cleanupObjects c))), (''reason'', JStr (cleanupReason c))]"

definition detail_json :: "TaskStateDetail \<Rightarrow> json" where
  "detail_json d = JObj [(''reason'', reason_json (sdReason d)), (''unresolved'', JArr (map reason_json (sdUnresolved d))),
     (''phase'', json_nullable (\<lambda>p. JStr (name_of phase_names p)) (sdPhase d)),
     (''pendingActions'', JArr (map action_json (sdPendingActions d))),
     (''requiredWork'', JArr (map work_json (sdRequiredWork d))), (''cleanup'', cleanup_json (sdCleanup d)),
     (''nextWakeAt'', json_nullable JStr (sdNextWakeAt d))]"

subsection \<open>What normalisation keeps\<close>

definition normal_text :: "nat \<Rightarrow> string \<Rightarrow> bool" where
  "normal_text n s \<longleftrightarrow> length s \<le> n \<and> \<not> list_ex text_break s \<and> js_trim s = s"

definition normal_strings :: "nat \<Rightarrow> nat \<Rightarrow> string list \<Rightarrow> bool" where
  "normal_strings limit n ss \<longleftrightarrow> length ss \<le> limit \<and> distinct ss \<and> (\<forall>s \<in> set ss. s \<noteq> [] \<and> normal_text n s)"

definition normal_reason :: "TaskReason \<Rightarrow> bool" where
  "normal_reason r \<longleftrightarrow> normal_text messageLength (reasonMessage r)
     \<and> normal_strings evidenceRefs evidenceRefLength (reasonEvidenceRefs r)"

definition normal_action :: "TaskPendingAction \<Rightarrow> bool" where
  "normal_action a \<longleftrightarrow> normal_text evidenceRefLength (paActionId a) \<and> normal_text labelLength (paLabel a)
     \<and> normal_reason (paReason a) \<and> (case paPublicationId a of None \<Rightarrow> True | Some p \<Rightarrow> normal_text evidenceRefLength p)
     \<and> paWorkspaceMerge a = None"

definition normal_work :: "TaskRequiredWorkFact \<Rightarrow> bool" where
  "normal_work w \<longleftrightarrow> normal_text evidenceRefLength (workKey w) \<and> normal_text labelLength (workLabel w)
     \<and> (case workReason w of None \<Rightarrow> True | Some r \<Rightarrow> normal_reason r)"

definition normal_cleanup :: "TaskCleanupSummary \<Rightarrow> bool" where
  "normal_cleanup c \<longleftrightarrow> normal_strings cleanupObjectsLimit evidenceRefLength (cleanupObjects c)
     \<and> normal_text messageLength (cleanupReason c)"

definition normal_detail :: "TaskStateDetail \<Rightarrow> bool" where
  "normal_detail d \<longleftrightarrow> normal_reason (sdReason d)
     \<and> length (sdUnresolved d) \<le> unresolvedLimit \<and> list_all normal_reason (sdUnresolved d)
     \<and> length (sdPendingActions d) \<le> pendingActionsLimit \<and> list_all normal_action (sdPendingActions d)
     \<and> length (sdRequiredWork d) \<le> requiredWorkLimit \<and> list_all normal_work (sdRequiredWork d)
     \<and> normal_cleanup (sdCleanup d) \<and> sdNextWakeAt d \<noteq> Some []"

lemma join_breaks_fixed: "\<not> list_ex text_break s \<Longrightarrow> join_breaks b s = s"
  by (induction b s rule: join_breaks.induct) auto

lemma boundedText_fixed: "normal_text n s \<Longrightarrow> boundedText s n = s"
  by (simp add: boundedText_def normal_text_def join_breaks_fixed)

lemma bounded_strings_fixed:
  "distinct (u @ ss) \<Longrightarrow> length (u @ ss) \<le> limit \<Longrightarrow> \<forall>s \<in> set ss. s \<noteq> [] \<and> normal_text n s \<Longrightarrow>
     bounded_strings_loop u ss limit n = u @ ss"
proof (induction ss arbitrary: u)
  case (Cons s ss)
  then have s: "boundedText s n = s" "s \<noteq> []" "s \<notin> set u" by (auto simp: boundedText_fixed)
  show ?case
  proof (cases "length (u @ [s]) \<ge> limit")
    case True
    with Cons.prems(2) have "ss = []" by (cases ss) auto
    with s show ?thesis by (simp add: Let_def)
  next
    case False
    with s Cons.IH [of "u @ [s]"] Cons.prems show ?thesis by (simp add: Let_def)
  qed
qed simp

lemma boundedStrings_fixed: "normal_strings limit n ss \<Longrightarrow> boundedStrings ss limit n = ss"
  unfolding boundedStrings_def normal_strings_def using bounded_strings_fixed [of "[]" ss limit n] by simp

lemma json_strings_only_JStr [simp]: "json_strings_only (map JStr ss) = ss"
  by (induction ss) (auto simp: json_strings_only_def map_filter_simps json_string_def)

lemma map_filter_inverse: "(\<And>x. x \<in> set xs \<Longrightarrow> f (g x) = Some x) \<Longrightarrow> List.map_filter f (map g xs) = xs"
  by (induction xs) (auto simp: map_filter_simps)

lemma named_reason: "named reason_names (Some (JStr (name_of reason_names c))) = Some c"
  by (cases c) (simp_all add: named_def json_string_def name_of_def reason_names_def)

lemma named_action: "named action_names (Some (JStr (name_of action_names c))) = Some c"
  by (cases c) (simp_all add: named_def json_string_def name_of_def action_names_def)

lemma named_phase: "named phase_names (Some (JStr (name_of phase_names c))) = Some c"
  by (cases c) (simp_all add: named_def json_string_def name_of_def phase_names_def)

lemma named_cleanup: "named cleanup_names (Some (JStr (name_of cleanup_names c))) = Some c"
  by (cases c) (simp_all add: named_def json_string_def name_of_def cleanup_names_def)

lemma named_work_kind: "named work_kind_names (Some (JStr (name_of work_kind_names c))) = Some c"
  by (cases c) (simp_all add: named_def json_string_def name_of_def work_kind_names_def)

lemma named_work_state: "named work_state_names (Some (JStr (name_of work_state_names c))) = Some c"
  by (cases c) (simp_all add: named_def json_string_def name_of_def work_state_names_def)

lemma named_JNull [simp]: "named names (Some JNull) = None"
  by (simp add: named_def json_string_def)

lemmas named_simps = named_reason named_action named_phase named_cleanup named_work_kind named_work_state

lemmas json_read_simps = json_object_def json_string_def json_int_def json_list_def or_else_def

lemma normalizeReason_json: "normal_reason r \<Longrightarrow> normalizeReason (Some (reason_json r)) = Some r"
  by (simp add: normalizeReason_def reason_json_def json_read_simps named_simps createTaskReason_def
      normal_reason_def boundedText_fixed boundedStrings_fixed)

lemma normalizeReason_nullable:
  "(case v of None \<Rightarrow> True | Some r \<Rightarrow> normal_reason r) \<Longrightarrow> normalizeReason (Some (json_nullable reason_json v)) = v"
  by (cases v) (simp_all add: json_nullable_def normalizeReason_json, simp add: normalizeReason_def json_object_def)

lemma normalizeResult_nullable: "normalizePendingResultIdentity (Some (json_nullable result_json v)) = v"
  by (cases v) (simp_all add: json_nullable_def normalizePendingResultIdentity_def result_json_def json_read_simps)

lemma normalizePendingAction_json: "normal_action a \<Longrightarrow> normalizePendingAction (action_json a) = Some a"
  by (cases "paPublicationId a")
     (simp_all add: normalizePendingAction_def action_json_def named_simps json_read_simps normalizeReason_json
       normalizeResult_nullable normal_action_def boundedText_fixed)

lemma normalizeRequiredWork_json: "normal_work w \<Longrightarrow> normalizeRequiredWork (work_json w) = Some w"
  by (simp add: normalizeRequiredWork_def work_json_def named_simps json_read_simps normalizeReason_nullable
      normal_work_def boundedText_fixed)

lemma normalizeCleanup_json: "normal_cleanup c \<Longrightarrow> normalizeCleanup (Some (cleanup_json c)) = c"
  by (simp add: normalizeCleanup_def cleanup_json_def named_simps json_read_simps normal_cleanup_def
      boundedText_fixed boundedStrings_fixed)

lemma normalize_detail_json:
  assumes "normal_detail d"
  shows "normalizeTaskStateDetail (detail_json d) = d"
proof -
  have "List.map_filter (\<lambda>v. normalizeReason (Some v)) (map reason_json (sdUnresolved d)) = sdUnresolved d"
    "List.map_filter normalizePendingAction (map action_json (sdPendingActions d)) = sdPendingActions d"
    "List.map_filter normalizeRequiredWork (map work_json (sdRequiredWork d)) = sdRequiredWork d"
    using assms by (auto simp: normal_detail_def list_all_iff intro!: map_filter_inverse normalizeReason_json
        normalizePendingAction_json normalizeRequiredWork_json)
  moreover have "named phase_names (Some (json_nullable (\<lambda>p. JStr (name_of phase_names p)) (sdPhase d))) = sdPhase d"
    by (cases "sdPhase d") (simp_all add: json_nullable_def named_phase)
  moreover have "Option.bind (json_string (Some (json_nullable JStr (sdNextWakeAt d))))
      (\<lambda>s. if s = [] then None else Some s) = sdNextWakeAt d"
    using assms by (cases "sdNextWakeAt d") (auto simp: json_nullable_def json_string_def normal_detail_def)
  ultimately show ?thesis
    using assms
    by (simp add: normalizeTaskStateDetail_def detail_json_def json_object_def json_list_def or_else_def
        normalizeReason_json normalizeCleanup_json normal_detail_def)
qed

text \<open>
  Persisted detail round-trips: a detail within the limits, with trimmed single-line
  texts and no merge reference, is read back from its JSON exactly as it was written.
\<close>

theorem detail_round_trip:
  assumes "normal_detail d"
  shows "normalizeTaskStateDetail (detail_json d) = d"
  by (rule normalize_detail_json [OF assms])

text \<open>
  Two details that do not round-trip. A text cut at the limit just after a space keeps that space,
  and reading trims it; and the reader never returns the merge reference of an action.
\<close>

lemma bounded_text_not_idempotent:
  "boundedText (boundedText (replicate 319 (CHR ''a'') @ '' b'') messageLength) messageLength
     \<noteq> boundedText (replicate 319 (CHR ''a'') @ '' b'') messageLength"
  by code_simp

lemma merge_reference_dropped:
  "normalizePendingAction v = Some a \<Longrightarrow> paWorkspaceMerge a = None"
  by (auto simp: normalizePendingAction_def split: Option.bind_splits)

subsection \<open>The summary function\<close>

lemma evaluate_terminal: "isTerminalTaskStatus (efCurrentStatus f) \<Longrightarrow> evStatus (evaluate f) = efCurrentStatus f"
  by (simp add: evaluate_def conclude_def)

lemma evaluate_succeeded:
  assumes "evStatus (evaluate f) = TSucceeded" and "\<not> isTerminalTaskStatus (efCurrentStatus f)"
  shows "\<not> efCancelFence f \<and> efActiveOperation f = None \<and> efBoundedRecovery f = None
    \<and> efRequiredWork f \<noteq> [] \<and> list_all (\<lambda>w. workState w = WorkCompleted) (efRequiredWork f)
    \<and> (efPendingActions f = [] \<or> efRunnableWork f)"
  using assms by (auto simp: evaluate_def conclude_def Let_def split: if_splits option.splits list.splits)

text \<open>
  Claim C16. Success is never claimed early: a Task that was not already succeeded is concluded
  succeeded only if no cancellation fence stands, nothing is executing or scheduled to retry, the
  graph requires some work, every required item is completed, and no user action waits unless other
  work can run.
\<close>

theorem task_success_sound:
  assumes "evStatus (evaluateTaskState f) = TSucceeded" and "efCurrentStatus f \<noteq> TSucceeded"
  shows "\<not> efCancelFence f \<and> efActiveOperation f = None \<and> efBoundedRecovery f = None
    \<and> efRequiredWork f \<noteq> [] \<and> (\<forall>w \<in> set (efRequiredWork f). workState w = WorkCompleted)
    \<and> (efPendingActions f = [] \<or> efRunnableWork f)"
proof -
  have s: "evStatus (evaluate f) = TSucceeded"
    using assms(1) by (simp add: evaluateTaskState_def Let_def split: if_splits)
  then have "\<not> isTerminalTaskStatus (efCurrentStatus f)" using assms(2) evaluate_terminal [of f] by auto
  with s show ?thesis using evaluate_succeeded [of f] by (simp add: list_all_iff)
qed

lemma evaluate_running_not_needs:
  "evStatus (evaluateTaskState f) = TRunning \<Longrightarrow> efCurrentStatus f \<noteq> TNeedsAction"
  by (auto simp: evaluateTaskState_def Let_def split: if_splits)

lemma evaluate_status_cases:
  assumes "\<not> isTerminalTaskStatus (efCurrentStatus f)"
  shows "evStatus (evaluateTaskState f) = TCancelled \<longleftrightarrow> efCancelFence f"
  using assms
  by (auto simp: evaluateTaskState_def evaluate_def conclude_def Let_def split: if_splits option.splits list.splits)

text \<open>
  The conclusion respects the lifecycle: a terminal Task keeps its state, a cancellation
  fence makes every other Task cancelled and nothing else does, a Task that needs the user is never
  moved straight to running, and the only conclusions outside the transition table are success of a
  queued Task and success or failure of a Task that needs the user.
\<close>

theorem evaluation_respects_lifecycle:
  "(isTerminalTaskStatus (efCurrentStatus f) \<longrightarrow> evStatus (evaluateTaskState f) = efCurrentStatus f)
   \<and> (\<not> isTerminalTaskStatus (efCurrentStatus f) \<longrightarrow> (evStatus (evaluateTaskState f) = TCancelled \<longleftrightarrow> efCancelFence f))
   \<and> (efCurrentStatus f = TNeedsAction \<longrightarrow> evStatus (evaluateTaskState f) \<noteq> TRunning)
   \<and> (\<not> isTaskStatusTransitionAllowed (efCurrentStatus f) (evStatus (evaluateTaskState f)) \<longrightarrow>
        (efCurrentStatus f = TQueued \<and> evStatus (evaluateTaskState f) = TSucceeded)
        \<or> (efCurrentStatus f = TNeedsAction \<and> evStatus (evaluateTaskState f) \<in> {TSucceeded, TFailed}))"
proof (intro conjI impI)
  show t: "evStatus (evaluateTaskState f) = efCurrentStatus f" if "isTerminalTaskStatus (efCurrentStatus f)"
    using that evaluate_terminal [OF that] by (auto simp: evaluateTaskState_def Let_def isTerminalTaskStatus_def)
  show "evStatus (evaluateTaskState f) = TCancelled \<longleftrightarrow> efCancelFence f" if "\<not> isTerminalTaskStatus (efCurrentStatus f)"
    by (rule evaluate_status_cases [OF that])
  show n: "evStatus (evaluateTaskState f) \<noteq> TRunning" if "efCurrentStatus f = TNeedsAction"
    using that evaluate_running_not_needs by blast
  show "(efCurrentStatus f = TQueued \<and> evStatus (evaluateTaskState f) = TSucceeded)
      \<or> (efCurrentStatus f = TNeedsAction \<and> evStatus (evaluateTaskState f) \<in> {TSucceeded, TFailed})"
    if "\<not> isTaskStatusTransitionAllowed (efCurrentStatus f) (evStatus (evaluateTaskState f))"
    using that t n
    by (cases "efCurrentStatus f"; cases "evStatus (evaluateTaskState f)")
       (auto simp: isTaskStatusTransitionAllowed_def isTerminalTaskStatus_def)
qed

definition sample_work :: "TaskRequiredWorkState \<Rightarrow> TaskRequiredWorkFact" where
  "sample_work st = \<lparr>workKey = ''execution:s1'', workKind = ExecutionWork, workLabel = ''build'', workState = st,
     workReason = Some (createTaskReason NoReason ''ok'' [''attempt:1''])\<rparr>"

definition sample_facts_of :: "TaskStatus \<Rightarrow> TaskRequiredWorkFact list \<Rightarrow> TaskEvaluationFacts" where
  "sample_facts_of st works = \<lparr>efTaskId = ''t1'', efCurrentStatus = st, efCancelFence = False, efRequiredWork = works,
     efPendingActions = [], efRunnableWork = False, efActiveOperation = None, efBoundedRecovery = None,
     efSlot = SlotHeld, efCapacityWaiting = False, efCleanup = NO_TASK_CLEANUP, efFailureReason = None,
     efAnomaly = None, efObservedAt = ''0''\<rparr>"

theorem task_success_sound_witness:
  "list_all (\<lambda>w. workState w = WorkCompleted) (efRequiredWork (sample_facts_of TRunning [sample_work WorkCompleted]))"
proof -
  have "evStatus (evaluateTaskState (sample_facts_of TRunning [sample_work WorkCompleted])) = TSucceeded" by code_simp
  moreover have "efCurrentStatus (sample_facts_of TRunning [sample_work WorkCompleted]) \<noteq> TSucceeded" by code_simp
  ultimately show ?thesis unfolding list_all_iff using task_success_sound by blast
qed

theorem evaluation_respects_lifecycle_witness:
  "evStatus (evaluateTaskState ((sample_facts_of TRunning [])\<lparr>efCancelFence := True\<rparr>)) = TCancelled"
proof -
  have "\<not> isTerminalTaskStatus (efCurrentStatus ((sample_facts_of TRunning [])\<lparr>efCancelFence := True\<rparr>))" by code_simp
  moreover have "efCancelFence ((sample_facts_of TRunning [])\<lparr>efCancelFence := True\<rparr>)" by code_simp
  ultimately show ?thesis using evaluation_respects_lifecycle by blast
qed

theorem detail_round_trip_witness:
  "normalizeTaskStateDetail (detail_json (evDetail (evaluateTaskState (sample_facts_of TRunning [sample_work WorkFailed]))))
     = evDetail (evaluateTaskState (sample_facts_of TRunning [sample_work WorkFailed]))"
  by (rule detail_round_trip) code_simp

end
