(* ===== verification/Work_Graph.thy ===== *)
theory Work_Graph
  imports Prelude
begin

text \<open>
  The data of a Work Graph (\<open>src/src/work-graph/types.ts\<close>), declared file outputs
  (\<open>file-outputs.ts\<close>), shared workspace reads (\<open>workspace-effect.ts\<close>) and canonical Subtask
  identities (\<open>subtask-identity.ts\<close>).
\<close>

subsection \<open>Types\<close>

datatype WorkGraphItemType = TextItem | ArtifactItem

record WorkGraphRequiredItem =
  itemKey :: string
  itemType :: WorkGraphItemType
  itemDescription :: string

record WorkGraphDependency =
  fromSubtaskId :: string
  requiredItems :: "WorkGraphRequiredItem list"

datatype interaction_side = UserSide | AssistantSide

text \<open>\<open>RetiredRef\<close> stands for a persisted payload whose kind is no longer in the union.\<close>

datatype ContextRef =
    CurrentUserInput
  | Interaction (interactionId: string) (side: interaction_side)
  | Attachment (attachmentId: string)
  | Artifact (artifactId: string)
  | TaskResource (locator: string)
  | TaskEvidence (evidenceId: string)
  | MemoryRef (memoryId: string) (revision: "string option")
  | RetiredRef (retiredKind: string)

record WorkGraphAcceptanceCriterion =
  accKey :: string
  accDescription :: string
  requiredEvidence :: "string list"

datatype ProposedModelSelection =
    FixedByAgentClass
  | Proposed (proposedModelRef: string) (proposedReason: string)
  | AgentClassDefault

record ProposedExecutorBinding =
  pbAgentClassRef :: string
  pbModelSelection :: ProposedModelSelection

datatype deliveryKind = EditDelivery | ReportDelivery

datatype riskLevel = LowRisk | MediumRisk | HighRisk

text \<open>\<open>wgWorkspaceEffect\<close> keeps the raw string: validation checks it against the three values.\<close>

record WorkGraphSubtask =
  wgId :: string
  wgTitle :: string
  wgGoal :: string
  wgDependencies :: "WorkGraphDependency list"
  wgContextRefs :: "ContextRef list"
  wgRequiredCapabilities :: "string list"
  wgExecutorBindings :: "ProposedExecutorBinding list"
  wgWorkspaceEffect :: "string option"
  wgDeliveryKind :: deliveryKind
  wgFileOutputs :: "string list option"
  wgAcceptance :: "WorkGraphAcceptanceCriterion list"
  wgRiskLevel :: riskLevel

record WorkGraphProposal =
  wpConfigurationRevision :: string
  wpReason :: string
  wpSubtasks :: "WorkGraphSubtask list"

subsection \<open>File outputs\<close>

text \<open>The characters of \<^verbatim>\<open>/[\\:*?"<>|\x00-\x1f\x7f]/u\<close>.\<close>

definition forbidden_path_char :: "char \<Rightarrow> bool" where
  "forbidden_path_char c \<longleftrightarrow>
     of_char c \<in> {92::nat, 58, 42, 63, 34, 60, 62, 124} \<or> is_control c"

definition valid_path_part :: "string \<Rightarrow> bool" where
  "valid_path_part part \<longleftrightarrow> part \<noteq> [] \<and> part \<noteq> ''.'' \<and> part \<noteq> ''..''
     \<and> toLowerCase part \<notin> {''.git'', ''.metaclaw''}"

definition isValidFileOutput :: "string \<Rightarrow> bool" where
  "isValidFileOutput path =
     (if path = [] \<or> length path > 500 \<or> path \<noteq> js_trim path \<or> (\<exists>c \<in> set path. forbidden_path_char c)
      then False
      else list_all valid_path_part
             (js_split (CHR ''/'') (if endsWith path ''/'' then butlast path else path)))"

definition matchesFileOutput :: "string \<Rightarrow> string \<Rightarrow> bool" where
  "matchesFileOutput path output =
     (if endsWith output ''/'' then startsWith path output else path = output)"

lemma valid_output_relative: "isValidFileOutput path \<Longrightarrow> \<not> startsWith path ''/''"
proof
  assume v: "isValidFileOutput path" and s: "startsWith path ''/''"
  then obtain t where p: "path = CHR ''/'' # t" by (auto simp: startsWith_iff)
  have "[] \<in> set (js_split (CHR ''/'') (if endsWith path ''/'' then butlast path else path))"
    by (cases t) (auto simp: p)
  with v show False
    by (auto simp: isValidFileOutput_def list_all_iff valid_path_part_def split: if_splits)
qed

text \<open>
  A path under a declared directory output stays under it, and the walk of a valid output never
  leaves its root: every segment is a proper name.
\<close>

lemma valid_output_parts:
  assumes "isValidFileOutput path" and "part \<in> set (js_split (CHR ''/'') path)"
  shows "part \<noteq> ''..'' \<and> part \<noteq> ''.'' \<and> toLowerCase part \<noteq> ''.git'' \<and> toLowerCase part \<noteq> ''.metaclaw''"
proof (cases "endsWith path ''/''")
  case True
  then obtain s where p: "path = s @ ''/''"
    by (auto simp: endsWith_def startsWith_iff)
  have "js_split (CHR ''/'') path = js_split (CHR ''/'') s @ [[]]"
    by (simp add: p js_split_append_sep)
  with assms True show ?thesis
    by (auto simp: isValidFileOutput_def list_all_iff valid_path_part_def p toLowerCase_def
        split: if_splits)
next
  case False
  with assms show ?thesis
    by (auto simp: isValidFileOutput_def list_all_iff valid_path_part_def split: if_splits)
qed

subsection \<open>Shared workspace reads\<close>

definition isSharedReadCandidate :: "WorkGraphSubtask \<Rightarrow> WorkGraphSubtask list \<Rightarrow> bool" where
  "isSharedReadCandidate node graph \<longleftrightarrow>
     wgDeliveryKind node = ReportDelivery
     \<and> wgFileOutputs node = Some []
     \<and> list_all (\<lambda>candidate. list_all (\<lambda>edge. fromSubtaskId edge \<noteq> wgId node
          \<or> list_all (\<lambda>item. itemType item = TextItem) (requiredItems edge)) (wgDependencies candidate)) graph"

definition supportsSharedWorkspaceRead :: "WorkGraphSubtask \<Rightarrow> WorkGraphSubtask list \<Rightarrow> bool" where
  "supportsSharedWorkspaceRead node graph \<longleftrightarrow>
     wgWorkspaceEffect node = Some ''read_only'' \<and> isSharedReadCandidate node graph"

subsection \<open>Canonical Subtask identities\<close>

text \<open>The characters outside \<^verbatim>\<open>[a-zA-Z0-9_:-]\<close>, whose runs become one underscore.\<close>

definition unsafe_id_char :: "char \<Rightarrow> bool" where
  "unsafe_id_char c \<longleftrightarrow> \<not> (is_lower c \<or> is_upper c \<or> is_digit c \<or> c = CHR ''_'' \<or> c = CHR '':'' \<or> c = CHR ''-'')"

fun collapse_unsafe :: "bool \<Rightarrow> string \<Rightarrow> string" where
  "collapse_unsafe in_run [] = []"
| "collapse_unsafe in_run (c # cs) =
     (if unsafe_id_char c then (if in_run then collapse_unsafe True cs else CHR ''_'' # collapse_unsafe True cs)
      else c # collapse_unsafe False cs)"

definition strip_underscores :: "string \<Rightarrow> string" where
  "strip_underscores s =
     rev (dropWhile (\<lambda>c. c = CHR ''_'') (rev (dropWhile (\<lambda>c. c = CHR ''_'') s)))"

definition normalizeSubtaskId :: "string \<Rightarrow> int \<Rightarrow> string \<Rightarrow> string" where
  "normalizeSubtaskId taskId graphRevision proposalId =
     (let prefix = taskId @ ''_r'' @ show_int graphRevision @ ''_'' in
      if startsWith proposalId prefix then proposalId
      else (let safeId = strip_underscores (collapse_unsafe False proposalId) in
            prefix @ (if safeId = [] then ''subtask_execute'' else safeId)))"

definition id_candidate :: "string \<Rightarrow> nat \<Rightarrow> string" where
  "id_candidate base index = base @ ''_'' @ show_nat index"

lemma id_candidate_inject [simp]: "id_candidate b i = id_candidate b j \<longleftrightarrow> i = j"
  by (simp add: id_candidate_def)

lemma finite_used_indices: "finite {i. index \<le> i \<and> id_candidate base i \<in> set used}"
proof -
  have "inj_on (id_candidate base) {i. index \<le> i \<and> id_candidate base i \<in> set used}"
    by (auto simp: inj_on_def)
  then show ?thesis by (rule inj_on_finite [where B = "set used"]) auto
qed

text \<open>The endless \<open>for (;;)\<close> of the source: it ends because \<open>used\<close> is finite.\<close>

function free_candidate :: "string list \<Rightarrow> string \<Rightarrow> nat \<Rightarrow> string" where
  "free_candidate used base index =
     (if id_candidate base index \<notin> set used then id_candidate base index
      else free_candidate used base (index + 1))"
  by pat_completeness auto

termination
proof (relation "measure (\<lambda>(used, base, index). card {i. index \<le> i \<and> id_candidate base i \<in> set used})",
    goal_cases)
  case (2 used base index)
  then have "index \<in> {i. index \<le> i \<and> id_candidate base i \<in> set used}" by simp
  moreover have "index \<notin> {i. index + 1 \<le> i \<and> id_candidate base i \<in> set used}" by simp
  moreover have "{i. index + 1 \<le> i \<and> id_candidate base i \<in> set used}
      \<subseteq> {i. index \<le> i \<and> id_candidate base i \<in> set used}" by auto
  ultimately have "{i. index + 1 \<le> i \<and> id_candidate base i \<in> set used}
      \<subset> {i. index \<le> i \<and> id_candidate base i \<in> set used}"
    by blast
  then show ?case by (simp add: psubset_card_mono finite_used_indices)
qed simp

declare free_candidate.simps [simp del]

lemma free_candidate_fresh: "free_candidate used base index \<notin> set used"
proof (induction used base index rule: free_candidate.induct)
  case (1 used base index)
  then show ?case by (simp add: free_candidate.simps [of used base index])
qed

definition canonicalSubtaskId :: "string \<Rightarrow> int \<Rightarrow> string \<Rightarrow> string list \<Rightarrow> string \<times> string list" where
  "canonicalSubtaskId taskId graphRevision proposalId used =
     (let base = normalizeSubtaskId taskId graphRevision proposalId in
      if base \<notin> set used then (base, base # used)
      else (let candidate = free_candidate used base 2 in (candidate, candidate # used)))"

fun identity_loop ::
  "string \<Rightarrow> int \<Rightarrow> string list \<Rightarrow> string list \<Rightarrow> (string \<times> string) list \<Rightarrow> (string \<times> string) list"
where
  "identity_loop taskId graphRevision [] used identities = identities"
| "identity_loop taskId graphRevision (p # ps) used identities =
     (let (identity, used') = canonicalSubtaskId taskId graphRevision p used in
      identity_loop taskId graphRevision ps used' (AList.update p identity identities))"

definition buildCanonicalSubtaskIdentityMap ::
  "string \<Rightarrow> int \<Rightarrow> string list \<Rightarrow> (string \<times> string) list"
where
  "buildCanonicalSubtaskIdentityMap taskId graphRevision proposalIds =
     identity_loop taskId graphRevision proposalIds [] []"

lemma canonicalSubtaskId_fresh:
  "canonicalSubtaskId t r p used = (d, used') \<Longrightarrow> d \<notin> set used \<and> used' = d # used"
  by (auto simp: canonicalSubtaskId_def Let_def free_candidate_fresh split: if_splits)

lemma normalizeSubtaskId_prefix:
  "startsWith (normalizeSubtaskId t r p) (t @ ''_r'' @ show_int r @ ''_'')"
  by (auto simp: normalizeSubtaskId_def Let_def startsWith_iff)

lemma free_candidate_prefix: "\<exists>i. free_candidate used base index = id_candidate base i"
proof (induction used base index rule: free_candidate.induct)
  case (1 used base index)
  then show ?case by (auto simp: free_candidate.simps [of used base index])
qed

lemma canonicalSubtaskId_prefix:
  assumes "canonicalSubtaskId t r p used = (d, used')"
  shows "startsWith d (t @ ''_r'' @ show_int r @ ''_'')"
proof -
  let ?base = "normalizeSubtaskId t r p"
  obtain i where i: "free_candidate used ?base 2 = ?base @ ''_'' @ show_nat i"
    using free_candidate_prefix [of used ?base 2] by (auto simp: id_candidate_def)
  have "d = ?base \<or> d = ?base @ ''_'' @ show_nat i"
    using assms i by (auto simp: canonicalSubtaskId_def Let_def split: if_splits)
  with normalizeSubtaskId_prefix [of t r p] show ?thesis
    by (metis startsWith_iff append_assoc)
qed

text \<open>
  The loop invariant: the identities handed out are pairwise different, all of them recorded in
  \<open>used\<close>, and all under the prefix of this Task and revision.
\<close>

definition identity_inv :: "string \<Rightarrow> int \<Rightarrow> string list \<Rightarrow> (string \<times> string) list \<Rightarrow> bool" where
  "identity_inv t r used m \<longleftrightarrow> ran (map_of m) \<subseteq> set used \<and> inj_on (map_of m) (dom (map_of m))
     \<and> (\<forall>d \<in> ran (map_of m). startsWith d (t @ ''_r'' @ show_int r @ ''_''))"

lemma identity_inv_step:
  assumes "identity_inv t r used m" and "canonicalSubtaskId t r p used = (d, used')"
  shows "identity_inv t r used' (AList.update p d m)"
proof -
  have d: "d \<notin> set used" "used' = d # used" using canonicalSubtaskId_fresh [OF assms(2)] by auto
  then have "d \<notin> ran (map_of m)" using assms(1) by (auto simp: identity_inv_def)
  moreover have "ran ((map_of m)(p \<mapsto> d)) \<subseteq> insert d (ran (map_of m))"
    by (auto simp: ran_def split: if_splits)
  ultimately show ?thesis
    using assms(1) d canonicalSubtaskId_prefix [OF assms(2)]
    unfolding identity_inv_def update_conv'
    by (auto simp: inj_on_def ran_def split: if_splits)
qed

lemma identity_loop_inv:
  "identity_inv t r used m \<Longrightarrow> \<exists>used'. identity_inv t r used' (identity_loop t r ps used m)"
proof (induction ps arbitrary: used m)
  case (Cons p ps)
  obtain d used' where c: "canonicalSubtaskId t r p used = (d, used')" by fastforce
  from Cons.IH [OF identity_inv_step [OF Cons.prems c]] c show ?case by simp
qed auto

lemma identity_loop_dom:
  "dom (map_of (identity_loop t r ps used m)) = dom (map_of m) \<union> set ps"
proof (induction ps arbitrary: used m)
  case (Cons p ps)
  obtain d used' where c: "canonicalSubtaskId t r p used = (d, used')" by fastforce
  with Cons show ?case by (auto simp: update_conv')
qed simp

text \<open>
  The canonical identity map names every proposed Subtask, gives different proposal ids
  different identities even after sanitising collides them, and keeps every identity under the
  prefix of its Task and graph revision.
\<close>

theorem canonical_identities_injective:
  "dom (map_of (buildCanonicalSubtaskIdentityMap t r ps)) = set ps
   \<and> inj_on (map_of (buildCanonicalSubtaskIdentityMap t r ps)) (set ps)
   \<and> (\<forall>d \<in> ran (map_of (buildCanonicalSubtaskIdentityMap t r ps)). startsWith d (t @ ''_r'' @ show_int r @ ''_''))"
proof -
  have "identity_inv t r [] []" by (simp add: identity_inv_def)
  then obtain u where "identity_inv t r u (buildCanonicalSubtaskIdentityMap t r ps)"
    unfolding buildCanonicalSubtaskIdentityMap_def using identity_loop_inv by blast
  moreover have "dom (map_of (buildCanonicalSubtaskIdentityMap t r ps)) = set ps"
    unfolding buildCanonicalSubtaskIdentityMap_def by (simp add: identity_loop_dom)
  ultimately show ?thesis by (simp add: identity_inv_def)
qed

theorem canonical_identities_injective_witness:
  "map_of (buildCanonicalSubtaskIdentityMap ''t'' 2 [''a b'', ''a.b'']) ''a b''
     \<noteq> map_of (buildCanonicalSubtaskIdentityMap ''t'' 2 [''a b'', ''a.b'']) ''a.b''"
  using canonical_identities_injective [of "''t''" 2 "[''a b'', ''a.b'']"]
  by (auto simp: inj_on_def)

end
