(* ===== verification/Graph_Cycle.thy ===== *)
theory Graph_Cycle
  imports Prelude
begin

text \<open>
  The depth-first cycle search \<open>containsCycle\<close> of \<open>src/src/work-graph/validation.ts\<close>, and
  the proof that it decides whether the dependency map has a directed cycle.

  The closure variables \<open>visiting\<close> and \<open>visited\<close> of the source are threaded through the
  recursion: \<open>visit\<close> returns \<^const>\<open>None\<close> where the source returns \<open>true\<close> (a cycle, after
  which every caller returns at once) and the updated \<open>visited\<close> where it returns \<open>false\<close>.
  On that path \<open>visiting\<close> is back to its value at entry, because \<open>delete\<close> undoes \<open>add\<close>.
\<close>

type_synonym dep_graph = "(string \<times> string list) list"

text \<open>\<open>graph.get(id) ?? []\<close>\<close>

definition successors :: "dep_graph \<Rightarrow> string \<Rightarrow> string list" where
  "successors g i = (case map_of g i of None \<Rightarrow> [] | Some ds \<Rightarrow> ds)"

definition open_keys :: "dep_graph \<Rightarrow> string list \<Rightarrow> nat" where
  "open_keys g visiting = card (fst ` set g - set visiting)"

lemma open_keys_less:
  assumes "i \<in> fst ` set g" and "i \<notin> set visiting"
  shows "open_keys g (i # visiting) < open_keys g visiting"
  unfolding open_keys_def using assms by (intro psubset_card_mono) auto

lemma successors_key: "successors g i \<noteq> [] \<Longrightarrow> i \<in> fst ` set g"
  by (auto simp: successors_def split: option.splits dest!: map_of_SomeD intro: rev_image_eqI)

lemma open_keys_le: "open_keys g (i # visiting) \<le> open_keys g visiting"
  unfolding open_keys_def by (intro card_mono) auto

function visit :: "dep_graph \<Rightarrow> string list \<Rightarrow> string list \<Rightarrow> string \<Rightarrow> string list option"
  and visit_some :: "dep_graph \<Rightarrow> string list \<Rightarrow> string list \<Rightarrow> string list \<Rightarrow> string list option"
where
  "visit g visiting visited i =
     (if i \<in> set visiting then None
      else if i \<in> set visited then Some visited
      else (case visit_some g (i # visiting) visited (successors g i) of
              None \<Rightarrow> None
            | Some visited' \<Rightarrow> Some (i # visited')))"
| "visit_some g visiting visited [] = Some visited"
| "visit_some g visiting visited (i # is) =
     (case visit g visiting visited i of
        None \<Rightarrow> None
      | Some visited' \<Rightarrow> visit_some g visiting visited' is)"
  by pat_completeness auto

termination
proof (relation "measures
    [\<lambda>x. case x of Inl (g, a, b, i) \<Rightarrow> open_keys g a | Inr (g, a, b, is) \<Rightarrow> open_keys g a,
     \<lambda>x. case x of Inl (g, a, b, i) \<Rightarrow> 1 | Inr (g, a, b, is) \<Rightarrow> 2 * length is]",
    goal_cases)
  case (2 g visiting visited i)
  show ?case
  proof (cases "successors g i = []")
    case True
    then show ?thesis using open_keys_le [of g i visiting] by auto
  next
    case False
    with 2 show ?thesis using open_keys_less [OF successors_key] by auto
  qed
qed auto

declare visit.simps [simp del]

definition containsCycle :: "dep_graph \<Rightarrow> bool" where
  "containsCycle g \<longleftrightarrow> visit_some g [] [] (map fst g) = None"

subsection \<open>The directed graph the map stands for\<close>

definition edges :: "dep_graph \<Rightarrow> (string \<times> string) set" where
  "edges g = {(a, b). b \<in> set (successors g a)}"

lemma finite_edges: "finite (edges g)"
proof -
  have "edges g \<subseteq> (\<Union>a \<in> fst ` set g. {a} \<times> set (successors g a))"
  proof
    fix e assume "e \<in> edges g"
    then obtain a b where e: "e = (a, b)" and b: "b \<in> set (successors g a)" by (auto simp: edges_def)
    then have "successors g a \<noteq> []" by auto
    from successors_key [OF this] e b show "e \<in> (\<Union>a \<in> fst ` set g. {a} \<times> set (successors g a))"
      by blast
  qed
  then show ?thesis by (rule finite_subset) auto
qed

text \<open>
  What holds between calls: the path from the root to the current node runs backwards through
  \<open>visiting\<close>, and the finished nodes are closed under edges and start no cycle.
\<close>

fun back_path :: "dep_graph \<Rightarrow> string list \<Rightarrow> string \<Rightarrow> bool" where
  "back_path g [] i \<longleftrightarrow> True"
| "back_path g (a # as) i \<longleftrightarrow> (a, i) \<in> edges g \<and> back_path g as a"

definition finished :: "dep_graph \<Rightarrow> string list \<Rightarrow> bool" where
  "finished g visited \<longleftrightarrow>
     (\<forall>a \<in> set visited. (a, a) \<notin> (edges g)\<^sup>+ \<and> set (successors g a) \<subseteq> set visited)"

lemma back_path_reaches: "back_path g as i \<Longrightarrow> a \<in> set as \<Longrightarrow> (a, i) \<in> (edges g)\<^sup>+"
  by (induction as arbitrary: i) (auto intro: trancl_into_trancl)

lemma finished_reach:
  assumes "finished g visited" and "(a, b) \<in> (edges g)\<^sup>+" and "a \<in> set visited"
  shows "b \<in> set visited"
  using assms(2,1,3) by (induction rule: trancl_induct) (auto simp: finished_def edges_def)

text \<open>A reported cycle is one.\<close>

lemma visit_None_cycle:
  "visit g visiting visited i = None \<Longrightarrow> back_path g visiting i \<Longrightarrow> \<exists>a. (a, a) \<in> (edges g)\<^sup>+"
  "visit_some g visiting visited is = None \<Longrightarrow> (\<And>i. i \<in> set is \<Longrightarrow> back_path g visiting i) \<Longrightarrow>
     \<exists>a. (a, a) \<in> (edges g)\<^sup>+"
proof (induction g visiting visited i and g visiting visited "is" rule: visit_visit_some.induct)
  case (1 g visiting visited i)
  show ?case
  proof (cases "i \<in> set visiting")
    case True
    with "1.prems" show ?thesis using back_path_reaches by blast
  next
    case False
    with "1.prems" have "i \<notin> set visited"
      and "visit_some g (i # visiting) visited (successors g i) = None"
      by (auto simp: visit.simps [of g visiting visited i] split: if_splits option.splits)
    moreover have "\<And>j. j \<in> set (successors g i) \<Longrightarrow> back_path g (i # visiting) j"
      using "1.prems"(2) by (simp add: edges_def)
    ultimately show ?thesis using "1.IH" False by blast
  qed
next
  case (3 g visiting visited i "is")
  then show ?case by (cases "visit g visiting visited i") auto
qed simp

text \<open>A finished search leaves only finished nodes, and visits every node it was started on.\<close>

definition extends :: "string list \<Rightarrow> string list \<Rightarrow> string list \<Rightarrow> bool" where
  "extends visiting visited visited' \<longleftrightarrow>
     set visited \<subseteq> set visited' \<and> (set visited' - set visited) \<inter> set visiting = {}"

lemma finished_Cons:
  assumes "finished g v" and "set (successors g i) \<subseteq> set v" and "i \<notin> set v"
  shows "finished g (i # v)"
proof -
  have "(i, i) \<notin> (edges g)\<^sup>+"
  proof
    assume "(i, i) \<in> (edges g)\<^sup>+"
    then obtain j where "(i, j) \<in> edges g" and ji: "j = i \<or> (j, i) \<in> (edges g)\<^sup>+"
      by (metis tranclD rtrancl_eq_or_trancl)
    then have "j \<in> set v" using assms(2) by (auto simp: edges_def)
    with ji show False using finished_reach [OF assms(1)] assms(3) by blast
  qed
  with assms show ?thesis by (auto simp: finished_def)
qed

lemma visit_Some_finished:
  "visit g visiting visited i = Some v \<Longrightarrow> finished g visited \<Longrightarrow>
     finished g v \<and> i \<in> set v \<and> extends visiting visited v"
  "visit_some g visiting visited is = Some v \<Longrightarrow> finished g visited \<Longrightarrow>
     finished g v \<and> set is \<subseteq> set v \<and> extends visiting visited v"
proof (induction g visiting visited i and g visiting visited "is" arbitrary: v and v
    rule: visit_visit_some.induct)
  case (1 g visiting visited i)
  show ?case
  proof (cases "i \<in> set visited")
    case True
    with "1.prems" show ?thesis
      by (auto simp: extends_def visit.simps [of g visiting visited i] split: if_splits)
  next
    case False
    with "1.prems" obtain w where ni: "i \<notin> set visiting" and v: "v = i # w"
      and w: "visit_some g (i # visiting) visited (successors g i) = Some w"
      by (auto simp: visit.simps [of g visiting visited i] split: if_splits option.splits)
    have *: "finished g w" "set (successors g i) \<subseteq> set w" "extends (i # visiting) visited w"
      using "1.IH" [OF ni False w] "1.prems"(2) by blast+
    then have "i \<notin> set w" using False by (auto simp: extends_def)
    with * ni show ?thesis by (auto simp: v extends_def intro: finished_Cons)
  qed
next
  case (2 g visiting visited)
  then show ?case by (simp add: extends_def)
next
  case (3 g visiting visited i "is")
  then obtain w where w: "visit g visiting visited i = Some w"
    and v: "visit_some g visiting w is = Some v"
    by (auto split: option.splits)
  note a = "3.IH"(1) [OF w "3.prems"(2)]
  note b = "3.IH"(2) [OF w v conjunct1 [OF a]]
  from a b show ?case by (auto simp: extends_def)
qed

lemma no_outgoing_outside: "(a, b) \<in> (edges g)\<^sup>+ \<Longrightarrow> a \<in> fst ` set g"
  by (metis (no_types, lifting) edges_def case_prodD mem_Collect_eq tranclD successors_key
      list.set_cases list.distinct(1))

lemma containsCycle_iff: "containsCycle g \<longleftrightarrow> \<not> acyclic (edges g)"
proof
  assume "containsCycle g"
  then have "visit_some g [] [] (map fst g) = None" by (simp add: containsCycle_def)
  from visit_None_cycle(2) [OF this] show "\<not> acyclic (edges g)" by (auto simp: acyclic_def)
next
  assume cyc: "\<not> acyclic (edges g)"
  show "containsCycle g"
  proof (rule ccontr)
    assume "\<not> containsCycle g"
    then obtain v where v: "visit_some g [] [] (map fst g) = Some v"
      by (auto simp: containsCycle_def)
    have "finished g v" and sub: "fst ` set g \<subseteq> set v"
      using visit_Some_finished(2) [OF v] by (auto simp: finished_def)
    moreover obtain a where "(a, a) \<in> (edges g)\<^sup>+" using cyc by (auto simp: acyclic_def)
    ultimately show False using no_outgoing_outside by (fastforce simp: finished_def)
  qed
qed

text \<open>
  The depth-first search of the validator reports a cycle exactly when the dependency
  map has one, on every input, including maps that mention unknown ids.
\<close>

theorem contains_cycle_exact: "containsCycle g \<longleftrightarrow> (\<exists>i. (i, i) \<in> (edges g)\<^sup>+)"
  by (auto simp: containsCycle_iff acyclic_def)

end
