(* ===== verification/Work_Graph_Validation.thy ===== *)
theory Work_Graph_Validation
  imports Work_Graph Graph_Cycle
begin

text \<open>
  Structural validation of a proposed Work Graph (\<open>src/src/work-graph/validation.ts\<close>): every
  violation the source pushes, in its order, then the sort of the report. The second half states
  what a graph must satisfy as a predicate of its own and proves that an empty report means
  exactly that.
\<close>

datatype WorkGraphViolationCode =
    acceptance_count_invalid | attachment_reference_invalid | dependency_cycle
  | dependency_items_count_invalid | description_invalid | duplicate_acceptance_key
  | duplicate_context_ref | duplicate_dependency | duplicate_dependency_item_key
  | duplicate_subtask_id | empty_subtask_id | empty_work_graph
  | evidence_requirements_count_invalid | file_outputs_invalid | invalid_key
  | mergeable_same_agent_chain | missing_entry_node | self_dependency
  | too_many_context_refs | unknown_dependency | workspace_effect_invalid

fun code_name :: "WorkGraphViolationCode \<Rightarrow> string" where
  "code_name acceptance_count_invalid = ''acceptance_count_invalid''"
| "code_name attachment_reference_invalid = ''attachment_reference_invalid''"
| "code_name dependency_cycle = ''dependency_cycle''"
| "code_name dependency_items_count_invalid = ''dependency_items_count_invalid''"
| "code_name description_invalid = ''description_invalid''"
| "code_name duplicate_acceptance_key = ''duplicate_acceptance_key''"
| "code_name duplicate_context_ref = ''duplicate_context_ref''"
| "code_name duplicate_dependency = ''duplicate_dependency''"
| "code_name duplicate_dependency_item_key = ''duplicate_dependency_item_key''"
| "code_name duplicate_subtask_id = ''duplicate_subtask_id''"
| "code_name empty_subtask_id = ''empty_subtask_id''"
| "code_name empty_work_graph = ''empty_work_graph''"
| "code_name evidence_requirements_count_invalid = ''evidence_requirements_count_invalid''"
| "code_name file_outputs_invalid = ''file_outputs_invalid''"
| "code_name invalid_key = ''invalid_key''"
| "code_name mergeable_same_agent_chain = ''mergeable_same_agent_chain''"
| "code_name missing_entry_node = ''missing_entry_node''"
| "code_name self_dependency = ''self_dependency''"
| "code_name too_many_context_refs = ''too_many_context_refs''"
| "code_name unknown_dependency = ''unknown_dependency''"
| "code_name workspace_effect_invalid = ''workspace_effect_invalid''"

record WorkGraphViolation =
  vCode :: WorkGraphViolationCode
  vSubtaskIds :: "string list"
  vPath :: string
  vMessage :: string

definition violation ::
  "WorkGraphViolationCode \<Rightarrow> string list \<Rightarrow> string \<Rightarrow> string \<Rightarrow> WorkGraphViolation"
where
  "violation code ids path message =
     \<lparr>vCode = code, vSubtaskIds = ids, vPath = path, vMessage = message\<rparr>"

definition compareViolations :: "js_runtime \<Rightarrow> WorkGraphViolation \<Rightarrow> WorkGraphViolation \<Rightarrow> int" where
  "compareViolations rt l r =
     cmp_or (localeCompare rt (code_name (vCode l)) (code_name (vCode r)))
       (cmp_or (localeCompare rt (vPath l) (vPath r))
         (localeCompare rt (js_join [CHR 0x00] (vSubtaskIds l)) (js_join [CHR 0x00] (vSubtaskIds r))))"

subsection \<open>Keys and descriptions\<close>

text \<open>\<^verbatim>\<open>/^[a-z][a-z0-9_-]{0,63}$/\<close>\<close>

definition work_graph_key :: "string \<Rightarrow> bool" where
  "work_graph_key k = (case k of [] \<Rightarrow> False
     | c # cs \<Rightarrow> is_lower c \<and> length cs \<le> 63
         \<and> list_all (\<lambda>d. is_lower d \<or> is_digit d \<or> d = CHR ''_'' \<or> d = CHR ''-'') cs)"

definition side_name :: "interaction_side \<Rightarrow> string" where
  "side_name s = (case s of UserSide \<Rightarrow> ''user'' | AssistantSide \<Rightarrow> ''assistant'')"

fun contextRefKey :: "ContextRef \<Rightarrow> string result" where
  "contextRefKey CurrentUserInput = Inr ''current_user_input''"
| "contextRefKey (Interaction i s) = Inr (''interaction:'' @ i @ '':'' @ side_name s)"
| "contextRefKey (Attachment i) = Inr (''attachment:'' @ i)"
| "contextRefKey (Artifact i) = Inr (''artifact:'' @ i)"
| "contextRefKey (TaskResource l) = Inr (''task_resource:'' @ l)"
| "contextRefKey (TaskEvidence i) = Inr (''task_evidence:'' @ i)"
| "contextRefKey (MemoryRef i rv) =
     Inr (''memory:'' @ i @ '':'' @ (case rv of None \<Rightarrow> ''legacy'' | Some r \<Rightarrow> r))"
| "contextRefKey (RetiredRef kind) = Inl (''context_ref_not_supported: '' @ kind)"

datatype key_scope = DependencyScope | AcceptanceScope

definition scope_name :: "key_scope \<Rightarrow> string" where
  "scope_name s = (case s of DependencyScope \<Rightarrow> ''dependency'' | AcceptanceScope \<Rightarrow> ''acceptance'')"

definition description_ok :: "string \<Rightarrow> bool" where
  "description_ok d \<longleftrightarrow> js_trim d \<noteq> [] \<and> length d \<le> 500"

fun keyed_descriptions ::
  "string \<Rightarrow> string \<Rightarrow> key_scope \<Rightarrow> nat \<Rightarrow> string list \<Rightarrow> (string \<times> string) list \<Rightarrow> WorkGraphViolation list"
where
  "keyed_descriptions path subtaskId scope index seen [] = []"
| "keyed_descriptions path subtaskId scope index seen ((key, description) # rest) =
     (let base = path @ ''.'' @ show_nat index in
      (if work_graph_key key then [] else
        [violation invalid_key [subtaskId] (base @ ''.key'')
          (scope_name scope @ '' key '' @ (if key = [] then ''(empty)'' else key) @ '' is invalid'')])
      @ (if key \<notin> set seen then [] else
        [violation (case scope of DependencyScope \<Rightarrow> duplicate_dependency_item_key
                               | AcceptanceScope \<Rightarrow> duplicate_acceptance_key)
          [subtaskId] (base @ ''.key'') (scope_name scope @ '' key '' @ key @ '' is duplicated'')])
      @ (if description_ok description then [] else
        [violation description_invalid [subtaskId] (base @ ''.description'')
          (scope_name scope @ '' description must contain 1 to 500 characters'')])
      @ keyed_descriptions path subtaskId scope (index + 1) (key # seen) rest)"

definition validateKeyedDescriptions ::
  "(string \<times> string) list \<Rightarrow> string \<Rightarrow> string \<Rightarrow> key_scope \<Rightarrow> WorkGraphViolation list"
where
  "validateKeyedDescriptions values path subtaskId scope =
     keyed_descriptions path subtaskId scope 0 [] values"

subsection \<open>The contract of one Subtask\<close>

definition subtask_path :: "nat \<Rightarrow> string" where
  "subtask_path index = ''subtasks.'' @ show_nat index"

fun context_ref_violations ::
  "string \<Rightarrow> string \<Rightarrow> nat \<Rightarrow> string list \<Rightarrow> ContextRef list \<Rightarrow> WorkGraphViolation list result"
where
  "context_ref_violations sid base index keys [] = Inr []"
| "context_ref_violations sid base index keys (ref # refs) =
     rbind (contextRefKey ref) (\<lambda>key.
     rbind (context_ref_violations sid base (index + 1) (key # keys) refs) (\<lambda>rest.
       Inr ((if key \<in> set keys
             then [violation duplicate_context_ref [sid] (base @ ''.contextRefs.'' @ show_nat index)
                    (''subtask '' @ sid @ '' repeats context ref '' @ key)]
             else []) @ rest)))"

fun dependency_item_violations ::
  "string \<Rightarrow> string \<Rightarrow> nat \<Rightarrow> WorkGraphDependency list \<Rightarrow> WorkGraphViolation list"
where
  "dependency_item_violations sid base index [] = []"
| "dependency_item_violations sid base index (d # ds) =
     (let path = base @ ''.dependencies.'' @ show_nat index @ ''.requiredItems'' in
      (if length (requiredItems d) < 1 \<or> length (requiredItems d) > 12
       then [violation dependency_items_count_invalid [sid, fromSubtaskId d] path
              (''dependency '' @ fromSubtaskId d @ '' -> '' @ sid @ '' must require 1 to 12 items'')]
       else [])
      @ validateKeyedDescriptions (map (\<lambda>i. (itemKey i, itemDescription i)) (requiredItems d))
          path sid DependencyScope
      @ dependency_item_violations sid base (index + 1) ds)"

fun evidence_violations ::
  "string \<Rightarrow> string \<Rightarrow> nat \<Rightarrow> WorkGraphAcceptanceCriterion list \<Rightarrow> WorkGraphViolation list"
where
  "evidence_violations sid base index [] = []"
| "evidence_violations sid base index (a # as) =
     (if length (requiredEvidence a) > 4
      then [violation evidence_requirements_count_invalid [sid]
             (base @ ''.acceptance.'' @ show_nat index @ ''.requiredEvidence'')
             (''acceptance '' @ accKey a @ '' may require at most 4 evidence kinds'')]
      else []) @ evidence_violations sid base (index + 1) as"

definition file_outputs_bad :: "WorkGraphSubtask \<Rightarrow> string list \<Rightarrow> bool" where
  "file_outputs_bad s outputs \<longleftrightarrow>
     length outputs > 100 \<or> (\<exists>p \<in> set outputs. \<not> isValidFileOutput p) \<or> \<not> distinct outputs
     \<or> (outputs = [] \<and> (\<exists>c \<in> set (wgRequiredCapabilities s). c = ''image-generation'' \<or> c = ''image-editing''))"

definition validateSubtaskContract :: "WorkGraphSubtask \<Rightarrow> nat \<Rightarrow> WorkGraphViolation list result" where
  "validateSubtaskContract s index =
     (let base = subtask_path index; sid = wgId s in
      rbind (context_ref_violations sid base 0 [] (wgContextRefs s)) (\<lambda>refViolations.
        Inr
         ((case wgWorkspaceEffect s of None \<Rightarrow> []
            | Some e \<Rightarrow> if e \<in> {''read_only'', ''write'', ''unknown''} then []
                else [violation workspace_effect_invalid [sid] (base @ ''.workspaceEffect'')
                        ''Invalid node Workspace effect''])
          @ (case wgFileOutputs s of None \<Rightarrow> []
            | Some outputs \<Rightarrow> if file_outputs_bad s outputs
                then [violation file_outputs_invalid [sid] (base @ ''.fileOutputs'')
                  ''fileOutputs must contain unique safe relative paths; image tasks require file delivery'']
                else [])
          @ (if length (wgContextRefs s) > 12
             then [violation too_many_context_refs [sid] (base @ ''.contextRefs'')
                    (''subtask '' @ sid @ '' has more than 12 context refs'')]
             else [])
          @ refViolations
          @ dependency_item_violations sid base 0 (wgDependencies s)
          @ (if length (wgAcceptance s) < 1 \<or> length (wgAcceptance s) > 12
             then [violation acceptance_count_invalid [sid] (base @ ''.acceptance'')
                    (''subtask '' @ sid @ '' must declare 1 to 12 acceptance criteria'')]
             else [])
          @ validateKeyedDescriptions (map (\<lambda>a. (accKey a, accDescription a)) (wgAcceptance s))
              (base @ ''.acceptance'') sid AcceptanceScope
          @ evidence_violations sid base 0 (wgAcceptance s))))"

subsection \<open>The graph\<close>

type_synonym subtask_map = "(string \<times> WorkGraphSubtask) list"

fun register_subtasks ::
  "nat \<Rightarrow> subtask_map \<Rightarrow> WorkGraphSubtask list \<Rightarrow> (subtask_map \<times> WorkGraphViolation list) result"
where
  "register_subtasks index byId [] = Inr (byId, [])"
| "register_subtasks index byId (s # ss) =
     (let path = subtask_path index @ ''.id'';
          blank = js_trim (wgId s) = [];
          known = wgId s \<in> fst ` set byId;
          byId' = (if blank \<or> known then byId else AList.update (wgId s) s byId);
          idViolations =
            (if blank then [violation empty_subtask_id [] path ''work graph contains an empty subtask id'']
             else if known then [violation duplicate_subtask_id [wgId s] path
                                   (''work graph repeats subtask id '' @ wgId s)]
             else [])
      in rbind (validateSubtaskContract s index) (\<lambda>contract.
         rbind (register_subtasks (index + 1) byId' ss) (\<lambda>(m, rest).
           Inr (m, idViolations @ contract @ rest))))"

definition artifact_handoff_missing :: "subtask_map \<Rightarrow> WorkGraphDependency \<Rightarrow> bool" where
  "artifact_handoff_missing byId d \<longleftrightarrow>
     (\<exists>item \<in> set (requiredItems d). itemType item = ArtifactItem)
     \<and> (case map_of byId (fromSubtaskId d) of None \<Rightarrow> False | Some p \<Rightarrow> wgFileOutputs p = Some [])"

fun dependency_violations ::
  "subtask_map \<Rightarrow> string \<Rightarrow> nat \<Rightarrow> nat \<Rightarrow> string list \<Rightarrow> WorkGraphDependency list
    \<Rightarrow> string list \<times> WorkGraphViolation list"
where
  "dependency_violations byId sid index depIndex seen [] = ([], [])"
| "dependency_violations byId sid index depIndex seen (d # ds) =
     (let path = subtask_path index @ ''.dependencies.'' @ show_nat depIndex @ ''.fromSubtaskId'';
          did = fromSubtaskId d
      in if did \<in> set seen then
           (let (known, vs) = dependency_violations byId sid index (depIndex + 1) seen ds in
            (known, violation duplicate_dependency [sid, did] path
               (''subtask '' @ sid @ '' repeats dependency '' @ did) # vs))
         else
           (let (known, vs) = dependency_violations byId sid index (depIndex + 1) (did # seen) ds in
            if did = sid then
              (known, violation self_dependency [sid] path (''subtask '' @ sid @ '' depends on itself'') # vs)
            else if did \<notin> fst ` set byId then
              (known, violation unknown_dependency [sid, did] path
                 (''subtask '' @ sid @ '' depends on unknown subtask '' @ did) # vs)
            else
              (did # known,
               (if artifact_handoff_missing byId d
                then [violation file_outputs_invalid [did, sid] path
                       ''artifact handoff requires fileOutputs on the producing subtask'']
                else []) @ vs)))"

fun collect_dependencies ::
  "subtask_map \<Rightarrow> nat \<Rightarrow> dep_graph \<Rightarrow> WorkGraphSubtask list \<Rightarrow> dep_graph \<times> WorkGraphViolation list"
where
  "collect_dependencies byId index g [] = (g, [])"
| "collect_dependencies byId index g (s # ss) =
     (let (known, vs) = dependency_violations byId (wgId s) index 0 [] (wgDependencies s);
          (g', vs') = collect_dependencies byId (index + 1) (AList.update (wgId s) known g) ss
      in (g', vs @ vs'))"

text \<open>\<open>children.get(id)\<close>: the Subtasks that list \<open>id\<close>, once per mention.\<close>

definition children_of :: "WorkGraphSubtask list \<Rightarrow> string \<Rightarrow> string list option" where
  "children_of subtasks i =
     (if i \<in> wgId ` set subtasks
      then Some (concat (map (\<lambda>s. map (\<lambda>_. wgId s) (filter (\<lambda>d. fromSubtaskId d = i) (wgDependencies s))) subtasks))
      else None)"

definition preferred_agent :: "WorkGraphSubtask \<Rightarrow> string option" where
  "preferred_agent s = (case wgExecutorBindings s of [] \<Rightarrow> None | b # _ \<Rightarrow> Some (pbAgentClassRef b))"

text \<open>The upstream id and agent of a chain link that one Subtask could have done.\<close>

definition mergeable_link ::
  "subtask_map \<Rightarrow> WorkGraphSubtask list \<Rightarrow> WorkGraphSubtask \<Rightarrow> (string \<times> string) option"
where
  "mergeable_link byId subtasks downstream =
     (case wgDependencies downstream of
        [d] \<Rightarrow>
          (if (case children_of subtasks (fromSubtaskId d) of Some cs \<Rightarrow> length cs = 1 | None \<Rightarrow> False)
           then (case Option.bind (map_of byId (fromSubtaskId d)) preferred_agent of
                   None \<Rightarrow> None
                 | Some preferred \<Rightarrow>
                     if preferred = [] \<or> preferred_agent downstream \<noteq> Some preferred then None
                     else Some (fromSubtaskId d, preferred))
           else None)
      | _ \<Rightarrow> None)"

fun mergeable_violations ::
  "subtask_map \<Rightarrow> WorkGraphSubtask list \<Rightarrow> nat \<Rightarrow> WorkGraphSubtask list \<Rightarrow> WorkGraphViolation list"
where
  "mergeable_violations byId subtasks index [] = []"
| "mergeable_violations byId subtasks index (s # ss) =
     (case mergeable_link byId subtasks s of
        None \<Rightarrow> []
      | Some (upstreamId, preferred) \<Rightarrow>
          [violation mergeable_same_agent_chain [upstreamId, wgId s]
             (subtask_path index @ ''.dependencies.0'')
             (''subtasks '' @ upstreamId @ '' -> '' @ wgId s @ '' form a mergeable '' @ preferred @ '' single chain'')])
     @ mergeable_violations byId subtasks (index + 1) ss"

definition validateWorkGraph :: "js_runtime \<Rightarrow> WorkGraphSubtask list \<Rightarrow> WorkGraphViolation list result" where
  "validateWorkGraph rt subtasks =
     rbind (register_subtasks 0 [] subtasks) (\<lambda>(byId, vs1).
       let (g, vs2) = collect_dependencies byId 0 [] subtasks;
           vs0 = (if subtasks = [] then [violation empty_work_graph [] ''subtasks'' ''work graph has no subtasks''] else []);
           vs3 = (if subtasks \<noteq> [] \<and> list_all (\<lambda>s. wgDependencies s \<noteq> []) subtasks
                  then [violation missing_entry_node [] ''subtasks'' ''work graph has no dependency-free entry subtask'']
                  else []);
           vs4 = (if containsCycle g
                  then [violation dependency_cycle [] ''subtasks'' ''work graph contains a dependency cycle'']
                  else []);
           vs5 = mergeable_violations byId subtasks 0 subtasks
       in Inr (js_sort (compareViolations rt) (vs0 @ vs1 @ vs2 @ vs3 @ vs4 @ vs5)))"

subsection \<open>What a valid graph is\<close>

text \<open>
  The same demands without indices, messages or loops: this is the specification the validator
  is measured against.
\<close>

definition keys_ok :: "(string \<times> string) list \<Rightarrow> bool" where
  "keys_ok kds \<longleftrightarrow> distinct (map fst kds) \<and> (\<forall>(k, d) \<in> set kds. work_graph_key k \<and> description_ok d)"

definition refs_ok :: "ContextRef list \<Rightarrow> bool" where
  "refs_ok refs \<longleftrightarrow> length refs \<le> 12 \<and> (\<forall>r \<in> set refs. isl (contextRefKey r) = False)
     \<and> distinct (map contextRefKey refs)"

definition contract_ok :: "WorkGraphSubtask \<Rightarrow> bool" where
  "contract_ok s \<longleftrightarrow>
     (\<forall>e. wgWorkspaceEffect s = Some e \<longrightarrow> e \<in> {''read_only'', ''write'', ''unknown''})
     \<and> (\<forall>outputs. wgFileOutputs s = Some outputs \<longrightarrow> \<not> file_outputs_bad s outputs)
     \<and> refs_ok (wgContextRefs s)
     \<and> (\<forall>d \<in> set (wgDependencies s). requiredItems d \<noteq> [] \<and> length (requiredItems d) \<le> 12
          \<and> keys_ok (map (\<lambda>i. (itemKey i, itemDescription i)) (requiredItems d)))
     \<and> wgAcceptance s \<noteq> [] \<and> length (wgAcceptance s) \<le> 12
     \<and> keys_ok (map (\<lambda>a. (accKey a, accDescription a)) (wgAcceptance s))
     \<and> (\<forall>a \<in> set (wgAcceptance s). length (requiredEvidence a) \<le> 4)"

definition dependency_ids :: "WorkGraphSubtask \<Rightarrow> string list" where
  "dependency_ids s = map fromSubtaskId (wgDependencies s)"

definition dependency_relation :: "WorkGraphSubtask list \<Rightarrow> (string \<times> string) set" where
  "dependency_relation subtasks = {(wgId s, d) | s d. s \<in> set subtasks \<and> d \<in> set (dependency_ids s)}"

definition handoffs_ok :: "WorkGraphSubtask list \<Rightarrow> bool" where
  "handoffs_ok subtasks \<longleftrightarrow> (\<forall>s \<in> set subtasks. \<forall>d \<in> set (wgDependencies s). \<forall>p \<in> set subtasks.
     wgId p = fromSubtaskId d \<and> wgFileOutputs p = Some []
       \<longrightarrow> (\<forall>item \<in> set (requiredItems d). itemType item = TextItem))"

definition by_id :: "WorkGraphSubtask list \<Rightarrow> subtask_map" where
  "by_id subtasks = map (\<lambda>s. (wgId s, s)) subtasks"

definition valid_work_graph :: "WorkGraphSubtask list \<Rightarrow> bool" where
  "valid_work_graph subtasks \<longleftrightarrow>
     subtasks \<noteq> []
     \<and> distinct (map wgId subtasks) \<and> (\<forall>s \<in> set subtasks. js_trim (wgId s) \<noteq> [])
     \<and> (\<forall>s \<in> set subtasks. contract_ok s)
     \<and> (\<forall>s \<in> set subtasks. distinct (dependency_ids s) \<and> wgId s \<notin> set (dependency_ids s)
          \<and> set (dependency_ids s) \<subseteq> wgId ` set subtasks)
     \<and> handoffs_ok subtasks
     \<and> (\<exists>s \<in> set subtasks. wgDependencies s = [])
     \<and> acyclic (dependency_relation subtasks)
     \<and> (\<forall>s \<in> set subtasks. mergeable_link (by_id subtasks) subtasks s = None)"


subsection \<open>The report is empty exactly for valid graphs\<close>

lemma keyed_descriptions_Nil_iff:
  "keyed_descriptions path sid scope i seen kds = [] \<longleftrightarrow> keys_ok kds \<and> fst ` set kds \<inter> set seen = {}"
  by (induction path sid scope i seen kds rule: keyed_descriptions.induct)
    (auto simp: keys_ok_def Let_def)

lemma validateKeyedDescriptions_Nil_iff:
  "validateKeyedDescriptions kds path sid scope = [] \<longleftrightarrow> keys_ok kds"
  by (simp add: validateKeyedDescriptions_def keyed_descriptions_Nil_iff)

lemma context_ref_violations_Nil_iff:
  "context_ref_violations sid base i keys refs = Inr [] \<longleftrightarrow>
     (\<forall>r \<in> set refs. \<not> isl (contextRefKey r)) \<and> distinct (map contextRefKey refs)
     \<and> (\<forall>r \<in> set refs. contextRefKey r \<notin> Inr ` set keys)"
proof (induction sid base i keys refs rule: context_ref_violations.induct)
  case (2 sid base index keys ref refs)
  show ?case
  proof (cases "contextRefKey ref")
    case (Inl e)
    then show ?thesis by simp
  next
    case (Inr k)
    with "2" [of k] show ?thesis by (auto simp: image_iff)
  qed
qed simp

lemma dependency_item_violations_Nil_iff:
  "dependency_item_violations sid base i ds = [] \<longleftrightarrow>
     (\<forall>d \<in> set ds. requiredItems d \<noteq> [] \<and> length (requiredItems d) \<le> 12
        \<and> keys_ok (map (\<lambda>i. (itemKey i, itemDescription i)) (requiredItems d)))"
  by (induction sid base i ds rule: dependency_item_violations.induct)
    (auto simp: Let_def validateKeyedDescriptions_Nil_iff)

lemma evidence_violations_Nil_iff:
  "evidence_violations sid base i as = [] \<longleftrightarrow> (\<forall>a \<in> set as. length (requiredEvidence a) \<le> 4)"
  by (induction sid base i as rule: evidence_violations.induct) auto

lemma validateSubtaskContract_Nil_iff:
  "validateSubtaskContract s i = Inr [] \<longleftrightarrow> contract_ok s"
  unfolding validateSubtaskContract_def contract_ok_def refs_ok_def Let_def
  by (auto simp: context_ref_violations_Nil_iff dependency_item_violations_Nil_iff
      validateKeyedDescriptions_Nil_iff evidence_violations_Nil_iff split: option.splits if_splits)

lemma alist_update_fresh: "k \<notin> fst ` set m \<Longrightarrow> AList.update k v m = m @ [(k, v)]"
  by (induction m) auto

lemma register_subtasks_Nil_iff:
  "register_subtasks i byId ss = Inr (m, []) \<longleftrightarrow>
     (\<forall>s \<in> set ss. js_trim (wgId s) \<noteq> [] \<and> contract_ok s) \<and> distinct (map wgId ss)
     \<and> wgId ` set ss \<inter> fst ` set byId = {} \<and> m = byId @ by_id ss"
proof (induction i byId ss arbitrary: m rule: register_subtasks.induct)
  case (2 i byId s ss)
  show ?case
  proof (cases "js_trim (wgId s) = [] \<or> wgId s \<in> fst ` set byId")
    case True
    then show ?thesis by (auto simp: Let_def split: prod.splits)
  next
    case False
    with "2.IH" [OF refl refl refl refl refl] show ?thesis
      by (simp add: Let_def split_beta validateSubtaskContract_Nil_iff alist_update_fresh by_id_def)
        (fastforce simp: validateSubtaskContract_Nil_iff)
  qed
qed (auto simp: by_id_def)

lemma dependency_violations_Nil_iff:
  "dependency_violations byId sid i j seen ds = (known, []) \<longleftrightarrow>
     distinct (map fromSubtaskId ds) \<and> fromSubtaskId ` set ds \<inter> set seen = {}
     \<and> sid \<notin> fromSubtaskId ` set ds \<and> fromSubtaskId ` set ds \<subseteq> fst ` set byId
     \<and> (\<forall>d \<in> set ds. \<not> artifact_handoff_missing byId d) \<and> known = map fromSubtaskId ds"
proof (induction byId sid i j seen ds arbitrary: known rule: dependency_violations.induct)
  case (2 byId sid i j seen d ds)
  let ?did = "fromSubtaskId d"
  show ?case
  proof (cases "?did \<in> set seen \<or> ?did = sid \<or> ?did \<notin> fst ` set byId")
    case True
    then show ?thesis by (auto simp: Let_def split_beta)
  next
    case False
    obtain k vs where rec: "dependency_violations byId sid i (j + 1) (?did # seen) ds = (k, vs)"
      by fastforce
    have "dependency_violations byId sid i j seen (d # ds) = (known, []) \<longleftrightarrow>
        vs = [] \<and> known = ?did # k \<and> \<not> artifact_handoff_missing byId d"
      using False rec by (auto simp: Let_def)
    moreover have "vs = [] \<and> k = k' \<longleftrightarrow>
        distinct (map fromSubtaskId ds) \<and> fromSubtaskId ` set ds \<inter> set (?did # seen) = {}
        \<and> sid \<notin> fromSubtaskId ` set ds \<and> fromSubtaskId ` set ds \<subseteq> fst ` set byId
        \<and> (\<forall>d \<in> set ds. \<not> artifact_handoff_missing byId d) \<and> k' = map fromSubtaskId ds" for k'
      using "2.IH"(2) [OF refl refl, of k'] False rec by auto
    from this [of "tl known"] have "vs = [] \<and> k = tl known \<longleftrightarrow>
        distinct (map fromSubtaskId ds) \<and> fromSubtaskId ` set ds \<inter> set (?did # seen) = {}
        \<and> sid \<notin> fromSubtaskId ` set ds \<and> fromSubtaskId ` set ds \<subseteq> fst ` set byId
        \<and> (\<forall>d \<in> set ds. \<not> artifact_handoff_missing byId d) \<and> tl known = map fromSubtaskId ds" .
    ultimately show ?thesis using False by (cases known) auto
  qed
qed auto

definition dependencies_ok :: "subtask_map \<Rightarrow> WorkGraphSubtask \<Rightarrow> bool" where
  "dependencies_ok byId s \<longleftrightarrow> distinct (dependency_ids s) \<and> wgId s \<notin> set (dependency_ids s)
     \<and> set (dependency_ids s) \<subseteq> fst ` set byId
     \<and> (\<forall>d \<in> set (wgDependencies s). \<not> artifact_handoff_missing byId d)"

lemma collect_dependencies_Nil:
  assumes "distinct (map wgId ss)" and "wgId ` set ss \<inter> fst ` set g = {}"
  shows "snd (collect_dependencies byId i g ss) = [] \<longleftrightarrow> (\<forall>s \<in> set ss. dependencies_ok byId s)"
    and "(\<forall>s \<in> set ss. dependencies_ok byId s) \<Longrightarrow>
           fst (collect_dependencies byId i g ss) = g @ map (\<lambda>s. (wgId s, dependency_ids s)) ss"
  using assms
proof (induction byId i g ss rule: collect_dependencies.induct)
  case (2 byId i g s ss)
  obtain known vs where dv: "dependency_violations byId (wgId s) i 0 [] (wgDependencies s) = (known, vs)"
    by fastforce
  have ok: "vs = [] \<longleftrightarrow> dependencies_ok byId s" and kn: "vs = [] \<Longrightarrow> known = dependency_ids s"
    using dependency_violations_Nil_iff [of byId "wgId s" i 0 "[]" "wgDependencies s" known] dv
      dependency_violations_Nil_iff [of byId "wgId s" i 0 "[]" "wgDependencies s" "dependency_ids s"]
    by (auto simp: dependencies_ok_def dependency_ids_def)
  have fresh: "AList.update (wgId s) known g = g @ [(wgId s, known)]"
    if "wgId ` set (s # ss) \<inter> fst ` set g = {}"
    using that by (intro alist_update_fresh) auto
  {
    case 1
    have "distinct (map wgId ss)" "wgId ` set ss \<inter> fst ` set (AList.update (wgId s) known g) = {}"
      using 1 by auto
    with "2.IH"(1) [OF dv [symmetric] refl] ok dv show ?case by (auto split: prod.splits)
  next
    case 2
    have "distinct (map wgId ss)" "wgId ` set ss \<inter> fst ` set (AList.update (wgId s) known g) = {}"
      using 2 by auto
    with "2.IH"(2) [OF dv [symmetric] refl] 2 ok kn fresh dv show ?case by (auto split: prod.splits)
  }
qed simp_all

lemma map_of_by_id:
  assumes "distinct (map wgId ss)" and "p \<in> set ss"
  shows "map_of (by_id ss) (wgId p) = Some p"
  using assms by (intro map_of_is_SomeI) (auto simp: by_id_def comp_def)

lemma map_of_by_id_SomeD: "map_of (by_id ss) i = Some p \<Longrightarrow> p \<in> set ss \<and> wgId p = i"
  by (auto simp: by_id_def dest!: map_of_SomeD)

lemma handoffs_by_id:
  assumes "distinct (map wgId ss)"
  shows "handoffs_ok ss \<longleftrightarrow>
    (\<forall>s \<in> set ss. \<forall>d \<in> set (wgDependencies s). \<not> artifact_handoff_missing (by_id ss) d)"
    (is "_ \<longleftrightarrow> ?R")
proof
  assume "handoffs_ok ss"
  then show ?R
    by (auto simp: handoffs_ok_def artifact_handoff_missing_def split: option.splits
        dest!: map_of_by_id_SomeD) (metis WorkGraphItemType.distinct(1))+
next
  assume r: ?R
  show "handoffs_ok ss"
    unfolding handoffs_ok_def
  proof (intro ballI impI)
    fix s d p item
    assume s: "s \<in> set ss" and d: "d \<in> set (wgDependencies s)" and p: "p \<in> set ss"
      and e: "wgId p = fromSubtaskId d \<and> wgFileOutputs p = Some []" and i: "item \<in> set (requiredItems d)"
    from e map_of_by_id [OF assms p] have "map_of (by_id ss) (fromSubtaskId d) = Some p" by simp
    then have "artifact_handoff_missing (by_id ss) d" if "itemType item = ArtifactItem"
      using that i e by (auto simp: artifact_handoff_missing_def)
    with r s d show "itemType item = TextItem" by (cases "itemType item") auto
  qed
qed

lemma edges_dependency_relation:
  assumes "distinct (map wgId ss)"
  shows "edges (map (\<lambda>s. (wgId s, dependency_ids s)) ss) = dependency_relation ss"
proof -
  let ?g = "map (\<lambda>s. (wgId s, dependency_ids s)) ss"
  have fwd: "map_of ?g (wgId s) = Some (dependency_ids s)" if "s \<in> set ss" for s
    using assms that by (intro map_of_is_SomeI) (auto simp: comp_def)
  have bwd: "\<exists>s \<in> set ss. wgId s = i \<and> dependency_ids s = ds" if "map_of ?g i = Some ds" for i ds
    using that by (auto dest!: map_of_SomeD)
  have "b \<in> set (successors ?g a) \<longleftrightarrow> (\<exists>s \<in> set ss. wgId s = a \<and> b \<in> set (dependency_ids s))" for a b
  proof (cases "map_of ?g a")
    case None
    then show ?thesis using fwd by (auto simp: successors_def)
  next
    case (Some ds)
    with bwd obtain s where "s \<in> set ss" "wgId s = a" "dependency_ids s = ds" by blast
    moreover have "dependency_ids s' = ds" if "s' \<in> set ss" "wgId s' = a" for s'
      using fwd [OF that(1)] that(2) Some by simp
    ultimately show ?thesis using Some by (auto simp: successors_def)
  qed
  then show ?thesis by (auto simp: edges_def dependency_relation_def)
qed

lemma mergeable_violations_Nil_iff:
  "mergeable_violations byId all i ss = [] \<longleftrightarrow> (\<forall>s \<in> set ss. mergeable_link byId all s = None)"
  by (induction byId all i ss rule: mergeable_violations.induct) (auto split: option.splits)

lemma keys_by_id: "fst ` set (by_id ss) = wgId ` set ss"
  by (force simp: by_id_def)

lemma validateWorkGraph_Nil_iff: "validateWorkGraph rt ss = Inr [] \<longleftrightarrow> valid_work_graph ss"
proof (cases "register_subtasks 0 [] ss = Inr (by_id ss, [])")
  case False
  then have "\<not> valid_work_graph ss"
    by (auto simp: register_subtasks_Nil_iff valid_work_graph_def)
  moreover have "validateWorkGraph rt ss \<noteq> Inr []"
    using False register_subtasks_Nil_iff [of 0 "[]" ss]
    by (auto simp: validateWorkGraph_def Let_def split: prod.splits)
  ultimately show ?thesis by simp
next
  case True
  then have reg: "distinct (map wgId ss)" "\<forall>s \<in> set ss. js_trim (wgId s) \<noteq> [] \<and> contract_ok s"
    by (simp_all add: register_subtasks_Nil_iff)
  obtain g vs2 where c: "collect_dependencies (by_id ss) 0 [] ss = (g, vs2)" by fastforce
  have deps: "vs2 = [] \<longleftrightarrow> (\<forall>s \<in> set ss. dependencies_ok (by_id ss) s)"
    and g: "vs2 = [] \<Longrightarrow> containsCycle g \<longleftrightarrow> \<not> acyclic (dependency_relation ss)"
    using collect_dependencies_Nil [of ss "[]" "by_id ss" 0] reg(1) c
    by (auto simp: containsCycle_iff edges_dependency_relation)
  have "validateWorkGraph rt ss = Inr [] \<longleftrightarrow>
      ss \<noteq> [] \<and> vs2 = [] \<and> \<not> list_all (\<lambda>s. wgDependencies s \<noteq> []) ss \<and> \<not> containsCycle g
      \<and> (\<forall>s \<in> set ss. mergeable_link (by_id ss) ss s = None)"
    by (auto simp: validateWorkGraph_def True c Let_def mergeable_violations_Nil_iff)
  also have "\<dots> \<longleftrightarrow> valid_work_graph ss"
    using reg deps g handoffs_by_id [OF reg(1)]
    by (auto simp: valid_work_graph_def dependencies_ok_def keys_by_id list_all_iff)
  finally show ?thesis .
qed

text \<open>
  Claim C15. Validation is sound and complete for the declarative specification of a Work Graph:
  it returns an empty report exactly for the non-empty graphs with distinct, non-blank ids, sound
  contracts and handoffs, known dependencies, an entry Subtask, no cycle and no mergeable chain.
\<close>

theorem validation_exact: "validateWorkGraph rt ss = Inr [] \<longleftrightarrow> valid_work_graph ss"
  by (rule validateWorkGraph_Nil_iff)

end
