(* ===== verification/Work_Graph_Frontier.thy ===== *)
theory Work_Graph_Frontier
  imports Work_Graph_Validation
begin

text \<open>
  The runnable frontier of a Work Graph (\<open>src/src/work-graph/frontier.ts\<close>): which Subtasks may
  be dispatched now, in which order. The memoised layer search keeps the source's \<open>layers\<close> map
  and \<open>visiting\<close> set; it terminates on cyclic graphs too.
\<close>

datatype WorkGraphRuntimeStatus =
  SReady | SRunning | SAwaitingIntegration | SAwaitingDecision | SBlocked | SDone | SCancelled

record WorkGraphRuntimeFact =
  rfSubtaskId :: string
  rfStatus :: WorkGraphRuntimeStatus
  rfFirstDispatchOrder :: "int option"
  rfHasPendingOrActiveAttempt :: bool

type_synonym fact_map = "string \<rightharpoonup> WorkGraphRuntimeFact"

definition facts_by_id :: "WorkGraphRuntimeFact list \<Rightarrow> fact_map" where
  "facts_by_id facts = map_of (js_map_of (map (\<lambda>f. (rfSubtaskId f, f)) facts))"

definition isRunnable :: "fact_map \<Rightarrow> WorkGraphSubtask \<Rightarrow> bool" where
  "isRunnable factsById s =
     (case factsById (wgId s) of
        None \<Rightarrow> False
      | Some fct \<Rightarrow>
          if rfStatus fct \<noteq> SReady \<or> rfHasPendingOrActiveAttempt fct then False
          else list_all (\<lambda>d. map_option rfStatus (factsById (fromSubtaskId d)) = Some SDone) (wgDependencies s))"

subsection \<open>Topology layers\<close>

type_synonym layer_map = "(string \<times> int) list"

fun max_layer :: "int list \<Rightarrow> int" where
  "max_layer [] = 0"
| "max_layer [l] = l"
| "max_layer (l # ls) = max l (max_layer ls)"

function derive :: "subtask_map \<Rightarrow> string list \<Rightarrow> layer_map \<Rightarrow> string \<Rightarrow> int \<times> layer_map"
  and derive_all :: "subtask_map \<Rightarrow> string list \<Rightarrow> layer_map \<Rightarrow> string list \<Rightarrow> int list \<times> layer_map"
where
  "derive byId visiting layers i =
     (case map_of layers i of
        Some cached \<Rightarrow> (cached, layers)
      | None \<Rightarrow>
          if i \<in> set visiting then (MAX_SAFE_INTEGER, layers)
          else (case map_of byId i of
                  None \<Rightarrow> (MAX_SAFE_INTEGER, layers)
                | Some s \<Rightarrow>
                    (let (ls, layers') = derive_all byId (i # visiting) layers (dependency_ids s);
                         layer = (if ls = [] then 0 else js_inc (max_layer ls))
                     in (layer, AList.update i layer layers'))))"
| "derive_all byId visiting layers [] = ([], layers)"
| "derive_all byId visiting layers (i # is) =
     (let (l, layers') = derive byId visiting layers i;
          (ls, layers'') = derive_all byId visiting layers' is
      in (l # ls, layers''))"
  by pat_completeness auto
termination
proof (relation "measures
    [\<lambda>x. case x of Inl (m, v, l, i) \<Rightarrow> card (fst ` set m - set v) | Inr (m, v, l, is) \<Rightarrow> card (fst ` set m - set v),
     \<lambda>x. case x of Inl (m, v, l, i) \<Rightarrow> 0 | Inr (m, v, l, is) \<Rightarrow> length is]", goal_cases)
  case (2 byId visiting layers i s)
  then have "i \<in> fst ` set byId" by (auto dest: map_of_SomeD intro: rev_image_eqI)
  with 2 have "fst ` set byId - set (i # visiting) \<subset> fst ` set byId - set visiting" by auto
  then have "card (fst ` set byId - set (i # visiting)) < card (fst ` set byId - set visiting)"
    by (intro psubset_card_mono) auto
  then show ?case by simp
qed auto

declare derive.simps [simp del]

definition deriveTopologyLayers :: "subtask_map \<Rightarrow> layer_map" where
  "deriveTopologyLayers byId = snd (derive_all byId [] [] (map fst byId))"

subsection \<open>The frontier\<close>

definition or_max :: "int option \<Rightarrow> int" where
  "or_max x = (case x of None \<Rightarrow> MAX_SAFE_INTEGER | Some n \<Rightarrow> n)"

definition dispatch_order :: "fact_map \<Rightarrow> string \<Rightarrow> int" where
  "dispatch_order factsById i = or_max (Option.bind (factsById i) rfFirstDispatchOrder)"

definition frontier_compare ::
  "js_runtime \<Rightarrow> layer_map \<Rightarrow> fact_map \<Rightarrow> WorkGraphSubtask \<Rightarrow> WorkGraphSubtask \<Rightarrow> int"
where
  "frontier_compare rt layers factsById l r =
     (let layerDifference = or_max (map_of layers (wgId l)) - or_max (map_of layers (wgId r)) in
      if layerDifference \<noteq> 0 then layerDifference
      else (let leftOrder = dispatch_order factsById (wgId l); rightOrder = dispatch_order factsById (wgId r) in
            if leftOrder \<noteq> rightOrder then leftOrder - rightOrder
            else localeCompare rt (wgId l) (wgId r)))"

definition deriveRunnableFrontier ::
  "js_runtime \<Rightarrow> WorkGraphSubtask list \<Rightarrow> WorkGraphRuntimeFact list \<Rightarrow> string list"
where
  "deriveRunnableFrontier rt subtasks facts =
     (let byId = js_map_of (by_id subtasks);
          factsById = facts_by_id facts;
          layers = deriveTopologyLayers byId
      in map wgId (js_sort (frontier_compare rt layers factsById)
           (filter (isRunnable factsById) subtasks)))"

subsection \<open>Which Subtasks are on it\<close>

lemma frontier_mem_iff:
  "i \<in> set (deriveRunnableFrontier rt subtasks facts) \<longleftrightarrow>
     (\<exists>s \<in> set subtasks. wgId s = i \<and> isRunnable (facts_by_id facts) s)"
  by (auto simp: deriveRunnableFrontier_def Let_def)

lemma isRunnable_iff:
  "isRunnable m s \<longleftrightarrow> (\<exists>f. m (wgId s) = Some f \<and> rfStatus f = SReady \<and> \<not> rfHasPendingOrActiveAttempt f)
     \<and> (\<forall>d \<in> set (dependency_ids s). \<exists>f. m d = Some f \<and> rfStatus f = SDone)"
  by (auto simp: isRunnable_def dependency_ids_def list_all_iff split: option.splits)

text \<open>
  A finite acyclic relation has a minimal element in every nonempty set: the argument that a
  valid graph never deadlocks on its own dependencies.
\<close>

lemma finite_dependency_relation: "finite (dependency_relation ss)"
proof -
  have "dependency_relation ss = (\<Union>s \<in> set ss. {wgId s} \<times> set (dependency_ids s))"
    by (auto simp: dependency_relation_def)
  then show ?thesis by simp
qed

lemma minimal_unfinished:
  assumes "acyclic (dependency_relation ss)" and "s \<in> set ss" and "P (wgId s)"
  shows "\<exists>t \<in> set ss. P (wgId t) \<and> (\<forall>d \<in> set (dependency_ids t). d \<in> wgId ` set ss \<longrightarrow> \<not> P d)"
proof -
  have "wf ((dependency_relation ss)\<inverse>)"
    using assms(1) by (simp add: finite_acyclic_wf_converse finite_dependency_relation)
  moreover have "wgId s \<in> {i \<in> wgId ` set ss. P i}" using assms(2,3) by simp
  ultimately obtain i where i: "i \<in> {i \<in> wgId ` set ss. P i}"
    and min: "\<And>j. (j, i) \<in> (dependency_relation ss)\<inverse> \<Longrightarrow> j \<notin> {i \<in> wgId ` set ss. P i}"
    by (rule wfE_min) blast
  from i obtain t where "t \<in> set ss" and "wgId t = i" and "P i" by auto
  with min show ?thesis by (intro bexI [of _ t]) (auto simp: dependency_relation_def)
qed

subsection \<open>Layers of an acyclic graph\<close>

text \<open>
  On an acyclic graph whose dependencies are all known the map satisfies the equation of the
  longest dependency chain.
\<close>

definition chain_layer :: "layer_map \<Rightarrow> WorkGraphSubtask \<Rightarrow> int" where
  "chain_layer layers s = (if dependency_ids s = [] then 0
     else js_inc (max_layer (map (\<lambda>d. the (map_of layers d)) (dependency_ids s))))"

definition layer_eq :: "subtask_map \<Rightarrow> layer_map \<Rightarrow> string \<Rightarrow> bool" where
  "layer_eq byId layers i \<longleftrightarrow> (\<exists>s. map_of byId i = Some s
     \<and> set (dependency_ids s) \<subseteq> dom (map_of layers)
     \<and> map_of layers i = Some (chain_layer layers s))"

definition layers_ok :: "subtask_map \<Rightarrow> layer_map \<Rightarrow> bool" where
  "layers_ok byId layers \<longleftrightarrow> (\<forall>i \<in> dom (map_of layers). layer_eq byId layers i)"

definition layers_extend :: "string list \<Rightarrow> layer_map \<Rightarrow> layer_map \<Rightarrow> bool" where
  "layers_extend visiting layers layers' \<longleftrightarrow> map_of layers \<subseteq>\<^sub>m map_of layers'
     \<and> (dom (map_of layers') - dom (map_of layers)) \<inter> set visiting = {}"

definition known_graph :: "subtask_map \<Rightarrow> bool" where
  "known_graph byId \<longleftrightarrow> acyclic {(i, d). \<exists>s. map_of byId i = Some s \<and> d \<in> set (dependency_ids s)}
     \<and> (\<forall>i s. map_of byId i = Some s \<longrightarrow> set (dependency_ids s) \<subseteq> dom (map_of byId))"

fun dep_path :: "subtask_map \<Rightarrow> string list \<Rightarrow> string \<Rightarrow> bool" where
  "dep_path byId [] i \<longleftrightarrow> True"
| "dep_path byId (a # as) i \<longleftrightarrow>
     (\<exists>s. map_of byId a = Some s \<and> i \<in> set (dependency_ids s)) \<and> dep_path byId as a"

lemma dep_path_fresh:
  assumes "known_graph byId" and "dep_path byId as i"
  shows "i \<notin> set as"
proof -
  let ?r = "{(i, d). \<exists>s. map_of byId i = Some s \<and> d \<in> set (dependency_ids s)}"
  have "a \<in> set as \<Longrightarrow> (a, i) \<in> ?r\<^sup>+" for a
    using assms(2) by (induction as arbitrary: i) (auto intro: trancl_into_trancl)
  then show ?thesis using assms(1) by (auto simp: known_graph_def acyclic_def)
qed

lemma map_the_le:
  "map_of m \<subseteq>\<^sub>m map_of m' \<Longrightarrow> set is \<subseteq> dom (map_of m) \<Longrightarrow>
     map (\<lambda>d. the (map_of m' d)) is = map (\<lambda>d. the (map_of m d)) is"
  by (induction "is") (auto simp: map_le_def domI)

lemma map_Some_the:
  "map (map_of m) is = map Some ls \<Longrightarrow>
     ls = map (\<lambda>d. the (map_of m d)) is \<and> set is \<subseteq> dom (map_of m)"
  by (induction "is" arbitrary: ls) (auto simp: domI)

lemma chain_layer_le:
  "map_of m \<subseteq>\<^sub>m map_of m' \<Longrightarrow> set (dependency_ids s) \<subseteq> dom (map_of m) \<Longrightarrow>
     chain_layer m' s = chain_layer m s"
  using map_the_le [of m m' "dependency_ids s"] by (simp only: chain_layer_def)

lemma layer_eq_mono:
  assumes "layer_eq byId layers i" and "map_of layers \<subseteq>\<^sub>m map_of layers'"
  shows "layer_eq byId layers' i"
proof -
  from assms(1) obtain s where s: "map_of byId i = Some s" "set (dependency_ids s) \<subseteq> dom (map_of layers)"
    "map_of layers i = Some (chain_layer layers s)"
    by (auto simp: layer_eq_def)
  have "map_of layers' i = map_of layers i"
    using s(3) assms(2) by (metis map_le_def domI)
  moreover have "set (dependency_ids s) \<subseteq> dom (map_of layers')"
    using s(2) assms(2) map_le_implies_dom_le by blast
  ultimately show ?thesis
    using s chain_layer_le [OF assms(2) s(2)] by (auto simp: layer_eq_def)
qed

lemma layers_ok_update:
  assumes ok: "layers_ok byId layers" and s: "map_of byId i = Some s"
    and sub: "set (dependency_ids s) \<subseteq> dom (map_of layers)" and fresh: "i \<notin> dom (map_of layers)"
  shows "layers_ok byId (AList.update i (chain_layer layers s) layers)"
proof -
  let ?new = "AList.update i (chain_layer layers s) layers"
  have le: "map_of layers \<subseteq>\<^sub>m map_of ?new" using fresh by (auto simp: update_conv' map_le_def)
  have "map_of ?new i = Some (chain_layer layers s)" by (simp add: update_conv')
  moreover have "set (dependency_ids s) \<subseteq> dom (map_of ?new)"
    using sub map_le_implies_dom_le [OF le] by blast
  ultimately have "layer_eq byId ?new i"
    using s chain_layer_le [OF le sub] by (auto simp: layer_eq_def)
  moreover have "layer_eq byId ?new j" if "j \<in> dom (map_of layers)" for j
    using ok that le by (auto simp: layers_ok_def intro: layer_eq_mono)
  moreover have "dom (map_of ?new) = insert i (dom (map_of layers))" by (simp add: update_conv')
  ultimately show ?thesis by (auto simp: layers_ok_def)
qed

lemma derive_ok:
  "derive byId visiting layers i = (l, layers') \<Longrightarrow> known_graph byId \<Longrightarrow> layers_ok byId layers \<Longrightarrow>
     dep_path byId visiting i \<Longrightarrow> i \<in> dom (map_of byId) \<Longrightarrow>
     layers_ok byId layers' \<and> map_of layers' i = Some l \<and> layers_extend visiting layers layers'"
  "derive_all byId visiting layers is = (ls, layers') \<Longrightarrow> known_graph byId \<Longrightarrow> layers_ok byId layers \<Longrightarrow>
     (\<And>i. i \<in> set is \<Longrightarrow> dep_path byId visiting i \<and> i \<in> dom (map_of byId)) \<Longrightarrow>
     layers_ok byId layers' \<and> map (map_of layers') is = map Some ls \<and> layers_extend visiting layers layers'"
proof (induction byId visiting layers i and byId visiting layers "is" arbitrary: l layers' and ls layers'
    rule: derive_derive_all.induct)
  case (1 byId visiting layers i)
  note fresh = dep_path_fresh [OF "1.prems"(2,4)]
  show ?case
  proof (cases "map_of layers i")
    case (Some c)
    with "1.prems" show ?thesis
      by (auto simp: derive.simps [of byId visiting layers i] layers_extend_def)
  next
    case None
    from "1.prems"(5) obtain s where s: "map_of byId i = Some s" by auto
    obtain ls w where r: "derive_all byId (i # visiting) layers (dependency_ids s) = (ls, w)" by fastforce
    have kids: "dep_path byId (i # visiting) d \<and> d \<in> dom (map_of byId)" if "d \<in> set (dependency_ids s)" for d
      using that s "1.prems"(2,4) by (auto simp: known_graph_def)
    have a: "layers_ok byId w" "map (map_of w) (dependency_ids s) = map Some ls" "layers_extend (i # visiting) layers w"
      using "1.IH" [OF None fresh s r "1.prems"(2,3) kids] by auto
    have ls: "ls = map (\<lambda>d. the (map_of w d)) (dependency_ids s)"
      and sub: "set (dependency_ids s) \<subseteq> dom (map_of w)"
      using map_Some_the [OF a(2)] by auto
    have nw: "i \<notin> dom (map_of w)" using a(3) None by (auto simp: layers_extend_def)
    have eq: "layers' = AList.update i l w" and l: "l = chain_layer w s"
      using "1.prems"(1) None fresh s r ls
      by (auto simp: derive.simps [of byId visiting layers i] Let_def chain_layer_def)
    from layers_ok_update [OF a(1) s sub nw] a(3) nw fresh None show ?thesis
      by (auto simp: eq l layers_extend_def update_conv' map_le_def)
  qed
next
  case (2 byId visiting layers)
  then show ?case by (simp add: layers_extend_def)
next
  case (3 byId visiting layers i "is")
  obtain l w where d: "derive byId visiting layers i = (l, w)" by fastforce
  obtain ms v where da: "derive_all byId visiting w is = (ms, v)" by fastforce
  have e: "ls = l # ms" "layers' = v" using "3.prems"(1) d da by auto
  have a: "layers_ok byId w" "map_of w i = Some l" "layers_extend visiting layers w"
    using "3.IH"(1) [OF d "3.prems"(2,3)] "3.prems"(4) by auto
  have b: "layers_ok byId v" "map (map_of v) is = map Some ms" "layers_extend visiting w v"
    using "3.IH"(2) [OF d [symmetric] refl da "3.prems"(2) a(1)] "3.prems"(4) by auto
  have "map_of v i = Some l" using a(2) b(3) by (auto simp: layers_extend_def map_le_def dom_def)
  moreover have "layers_extend visiting layers v"
    using a(3) b(3) unfolding layers_extend_def by (blast intro: map_le_trans)
  ultimately show ?case using a b by (simp add: e)
qed

subsection \<open>Valid graphs\<close>

lemma js_map_of_by_id: "map_of (js_map_of (by_id ss)) = map_of (rev (by_id ss))"
  by (rule map_of_js_map_of)

lemma map_of_js_by_id:
  assumes "distinct (map wgId ss)"
  shows "map_of (js_map_of (by_id ss)) i = Some s \<longleftrightarrow> s \<in> set ss \<and> wgId s = i"
proof
  assume "map_of (js_map_of (by_id ss)) i = Some s"
  then have "map_of (rev (by_id ss)) i = Some s" by (simp only: js_map_of_by_id)
  then show "s \<in> set ss \<and> wgId s = i" by (auto simp: by_id_def dest!: map_of_SomeD)
next
  assume "s \<in> set ss \<and> wgId s = i"
  then show "map_of (js_map_of (by_id ss)) i = Some s"
    using map_of_rev_key_Some [OF assms, of s "\<lambda>s. s"] by (auto simp: map_of_js_map_of by_id_def)
qed

lemma valid_known_graph:
  assumes "valid_work_graph ss"
  shows "known_graph (js_map_of (by_id ss))"
proof -
  have d: "distinct (map wgId ss)" using assms by (simp add: valid_work_graph_def)
  have "{(i, dep). \<exists>s. map_of (js_map_of (by_id ss)) i = Some s \<and> dep \<in> set (dependency_ids s)}
      = dependency_relation ss"
    by (auto simp: map_of_js_by_id [OF d] dependency_relation_def)
  moreover have "set (dependency_ids s) \<subseteq> dom (map_of (js_map_of (by_id ss)))" if "s \<in> set ss" for s
  proof
    fix x assume "x \<in> set (dependency_ids s)"
    with that assms obtain t where "t \<in> set ss" "wgId t = x" unfolding valid_work_graph_def by blast
    then show "x \<in> dom (map_of (js_map_of (by_id ss)))" using map_of_js_by_id [OF d] by blast
  qed
  ultimately show ?thesis
    using assms by (auto simp: known_graph_def valid_work_graph_def map_of_js_by_id [OF d])
qed

lemma deriveTopologyLayers_ok:
  assumes "known_graph byId"
  shows "layers_ok byId (deriveTopologyLayers byId)
    \<and> fst ` set byId \<subseteq> dom (map_of (deriveTopologyLayers byId))"
proof -
  obtain ls w where r: "derive_all byId [] [] (map fst byId) = (ls, w)" by fastforce
  have keys: "i \<in> dom (map_of byId)" if "i \<in> set (map fst byId)" for i
    using that by (auto simp: dom_map_of_conv_image_fst)
  have "layers_ok byId w \<and> map (map_of w) (map fst byId) = map Some ls"
    using derive_ok(2) [OF r assms] keys by (auto simp: layers_ok_def)
  with map_Some_the [of w "map fst byId" ls] show ?thesis
    by (simp add: deriveTopologyLayers_def r)
qed

lemma comparator_frontier:
  assumes "comparator (localeCompare rt)"
  shows "comparator (frontier_compare rt layers facts)"
proof
  fix x y z
  show "frontier_compare rt layers facts x y \<le> 0 \<or> frontier_compare rt layers facts y x \<le> 0"
    using comparator.cmp_total [OF assms, of "wgId x" "wgId y"]
    by (auto simp: frontier_compare_def Let_def split: if_splits)
  assume "frontier_compare rt layers facts x y \<le> 0" and "frontier_compare rt layers facts y z \<le> 0"
  then show "frontier_compare rt layers facts x z \<le> 0"
    using comparator.cmp_trans [OF assms, of "wgId x" "wgId y" "wgId z"]
    by (simp add: frontier_compare_def Let_def split: if_splits)
qed

subsection \<open>Properties\<close>

text \<open>A two-step graph for evaluations: \<open>write\<close> needs a text item of \<open>read\<close>.\<close>

definition sample_subtask :: "string \<Rightarrow> string \<Rightarrow> WorkGraphDependency list \<Rightarrow> WorkGraphSubtask" where
  "sample_subtask i agent deps = \<lparr>wgId = i, wgTitle = ''t'', wgGoal = ''g'', wgDependencies = deps,
     wgContextRefs = [CurrentUserInput], wgRequiredCapabilities = [''code''],
     wgExecutorBindings = [\<lparr>pbAgentClassRef = agent, pbModelSelection = AgentClassDefault\<rparr>],
     wgWorkspaceEffect = Some ''write'', wgDeliveryKind = EditDelivery, wgFileOutputs = None,
     wgAcceptance = [\<lparr>accKey = ''done'', accDescription = ''d'', requiredEvidence = [''log'']\<rparr>],
     wgRiskLevel = LowRisk\<rparr>"

definition sample_graph :: "WorkGraphSubtask list" where
  "sample_graph = [sample_subtask ''read'' ''pi'' [],
     sample_subtask ''write'' ''codex'' [\<lparr>fromSubtaskId = ''read'',
       requiredItems = [\<lparr>itemKey = ''notes'', itemType = TextItem, itemDescription = ''n''\<rparr>]\<rparr>]]"

definition sample_facts :: "WorkGraphRuntimeFact list" where
  "sample_facts = [\<lparr>rfSubtaskId = ''read'', rfStatus = SDone, rfFirstDispatchOrder = Some 1,
       rfHasPendingOrActiveAttempt = False\<rparr>,
     \<lparr>rfSubtaskId = ''write'', rfStatus = SReady, rfFirstDispatchOrder = None,
       rfHasPendingOrActiveAttempt = False\<rparr>]"

lemma sample_facts_by_id:
  "facts_by_id sample_facts ''read'' = Some (sample_facts ! 0)"
  "facts_by_id sample_facts ''write'' = Some (sample_facts ! 1)"
  by code_simp+

lemma sample_graph_valid: "validateWorkGraph sample_runtime sample_graph = Inr []"
  by code_simp

text \<open>
  Claim C27. A graph that passes validation never deadlocks on its own dependencies: while every
  Subtask is either done or ready with no attempt in flight, and some Subtask is not done, the
  frontier offers work.
\<close>

theorem frontier_progress:
  assumes valid: "validateWorkGraph rt ss = Inr []"
    and settled: "\<forall>s \<in> set ss. \<exists>f. facts_by_id facts (wgId s) = Some f
          \<and> rfStatus f \<in> {SReady, SDone} \<and> \<not> rfHasPendingOrActiveAttempt f"
    and open_work: "\<exists>s \<in> set ss. map_option rfStatus (facts_by_id facts (wgId s)) \<noteq> Some SDone"
  shows "deriveRunnableFrontier rt ss facts \<noteq> []"
proof -
  have v: "valid_work_graph ss" using valid by (simp add: validateWorkGraph_Nil_iff)
  let ?P = "\<lambda>i. map_option rfStatus (facts_by_id facts i) \<noteq> Some SDone"
  from open_work obtain s where "s \<in> set ss" and "?P (wgId s)" by blast
  with v obtain t where t: "t \<in> set ss" "?P (wgId t)"
    "\<forall>d \<in> set (dependency_ids t). d \<in> wgId ` set ss \<longrightarrow> \<not> ?P d"
    using minimal_unfinished [of ss s ?P] by (auto simp: valid_work_graph_def)
  have "set (dependency_ids t) \<subseteq> wgId ` set ss" using v t(1) by (auto simp: valid_work_graph_def)
  with t settled have "isRunnable (facts_by_id facts) t" by (fastforce simp: isRunnable_iff)
  with t(1) have "wgId t \<in> set (deriveRunnableFrontier rt ss facts)" by (auto simp: frontier_mem_iff)
  then show ?thesis by auto
qed

theorem frontier_progress_witness: "deriveRunnableFrontier sample_runtime sample_graph sample_facts \<noteq> []"
  by (rule frontier_progress [OF sample_graph_valid])
     (auto simp: sample_facts_by_id sample_graph_def sample_subtask_def, auto simp: sample_facts_def)

text \<open>
  The frontier is exactly the set of Subtasks that are ready, have no attempt pending or
  active, and whose dependencies are all done; missing facts exclude a Subtask.
\<close>

theorem frontier_exact:
  "i \<in> set (deriveRunnableFrontier rt ss facts) \<longleftrightarrow>
     (\<exists>s \<in> set ss. wgId s = i
        \<and> (\<exists>f. facts_by_id facts i = Some f \<and> rfStatus f = SReady \<and> \<not> rfHasPendingOrActiveAttempt f)
        \<and> (\<forall>d \<in> set (dependency_ids s). \<exists>f. facts_by_id facts d = Some f \<and> rfStatus f = SDone))"
  by (auto simp: frontier_mem_iff isRunnable_iff)

theorem frontier_exact_witness: "''write'' \<in> set (deriveRunnableFrontier sample_runtime sample_graph sample_facts)"
  unfolding frontier_exact
  by (auto simp: sample_facts_by_id sample_graph_def sample_subtask_def dependency_ids_def)
     (auto simp: sample_facts_def)

text \<open>
  On a graph that passes validation the memoised search computes the longest dependency
  chain: an entry Subtask is on layer 0 and every other Subtask one above its highest dependency.
\<close>

theorem topology_layers_longest_chain:
  assumes "validateWorkGraph rt ss = Inr []" and "s \<in> set ss"
  shows "map_of (deriveTopologyLayers (js_map_of (by_id ss))) (wgId s) =
    Some (chain_layer (deriveTopologyLayers (js_map_of (by_id ss))) s)"
proof -
  have v: "valid_work_graph ss" using assms(1) by (simp add: validateWorkGraph_Nil_iff)
  then have d: "distinct (map wgId ss)" by (simp add: valid_work_graph_def)
  have s: "map_of (js_map_of (by_id ss)) (wgId s) = Some s" using assms(2) by (simp add: map_of_js_by_id [OF d])
  then have "wgId s \<in> fst ` set (js_map_of (by_id ss))" by (auto dest: map_of_SomeD intro: rev_image_eqI)
  with deriveTopologyLayers_ok [OF valid_known_graph [OF v]]
  have "layer_eq (js_map_of (by_id ss)) (deriveTopologyLayers (js_map_of (by_id ss))) (wgId s)"
    unfolding layers_ok_def by blast
  with s show ?thesis by (simp add: layer_eq_def)
qed

theorem topology_layers_longest_chain_witness:
  "map_of (deriveTopologyLayers (js_map_of (by_id sample_graph))) ''write'' =
    Some (chain_layer (deriveTopologyLayers (js_map_of (by_id sample_graph))) (sample_graph ! 1))"
proof -
  have s: "sample_graph ! 1 \<in> set sample_graph" "wgId (sample_graph ! 1) = ''write''"
    by (simp_all add: sample_graph_def sample_subtask_def)
  show ?thesis using topology_layers_longest_chain [OF sample_graph_valid s(1)] unfolding s(2) .
qed

text \<open>
  With a consistent collation the frontier is ordered by layer: no Subtask precedes one
  of a lower layer.
\<close>

theorem frontier_layer_order:
  assumes "comparator (localeCompare rt)"
  shows "sorted_wrt (\<lambda>i j. or_max (map_of (deriveTopologyLayers (js_map_of (by_id ss))) i)
                         \<le> or_max (map_of (deriveTopologyLayers (js_map_of (by_id ss))) j))
           (deriveRunnableFrontier rt ss facts)"
proof -
  let ?l = "deriveTopologyLayers (js_map_of (by_id ss))"
  let ?cmp = "frontier_compare rt ?l (facts_by_id facts)"
  have "sorted_wrt (\<lambda>a b. ?cmp a b \<le> 0) (js_sort ?cmp (filter (isRunnable (facts_by_id facts)) ss))"
    by (rule comparator.sort_sorted [OF comparator_frontier [OF assms]])
  then have "sorted_wrt (\<lambda>a b. or_max (map_of ?l (wgId a)) \<le> or_max (map_of ?l (wgId b)))
      (js_sort ?cmp (filter (isRunnable (facts_by_id facts)) ss))"
    by (rule sorted_wrt_mono_rel [rotated]) (auto simp: frontier_compare_def Let_def split: if_splits)
  then show ?thesis by (simp add: deriveRunnableFrontier_def Let_def sorted_wrt_map)
qed

theorem frontier_layer_order_witness:
  "sorted_wrt (\<lambda>i j. or_max (map_of (deriveTopologyLayers (js_map_of (by_id sample_graph))) i)
                   \<le> or_max (map_of (deriveTopologyLayers (js_map_of (by_id sample_graph))) j))
     (deriveRunnableFrontier sample_runtime sample_graph sample_facts)"
  by (rule frontier_layer_order [OF sample_runtime_comparator])

end
