(* ===== verification/Executor_Status.thy ===== *)
theory Executor_Status
  imports Prelude
begin

text \<open>
  Executor failures and availability: the sanitised failure fact (\<open>src/src/core/kernel-failure.ts\<close>),
  the bounded status projection (\<open>src/src/kernel/executor-status-projection.ts\<close>), the circuit
  breaker derived from it (\<open>agent-availability.ts\<close>, with its default policy, the only one the
  repository uses) and the set of unavailable AgentClasses (\<open>plan-routing-eligibility.ts\<close>).
\<close>

subsection \<open>Failures\<close>

datatype KernelFailureKind =
  NetworkFailure | TimeoutFailure | InfrastructureFailure | HeartbeatLost | PermissionFailure
  | AuthenticationFailure | ProviderQuota | ConfigurationFailure | AdapterFailure
  | CapabilityMismatch | TaskFailed | QualityFailed | CancelledFailure | StaleFailure | UnknownFailure

datatype KernelFailureScope = AttemptFailure | TaskFailure | AgentClassFailure

datatype KernelFailureOrigin = PlannerOrigin | ExecutorOrigin | HarnessOrigin | ProviderOrigin | KernelOrigin

datatype SideEffect = SideEffectKnown bool | SideEffectUnknown

record KernelFailureActor =
  faAgentClassRef :: "string option"
  faHarnessRef :: "string option"
  faProviderRef :: "string option"
  faModelRef :: "string option"
  faAttemptId :: "string option"
  faSubtaskId :: "string option"

record KernelFailureProvider =
  fpHttpStatus :: "int option"
  fpRequestId :: "string option"

record KernelFailure =
  kfKind :: KernelFailureKind
  kfScope :: KernelFailureScope
  kfCode :: string
  kfSummary :: string
  kfLabel :: "string option"
  kfDetail :: "string option"
  kfOrigin :: "KernelFailureOrigin option"
  kfStage :: "string option"
  kfActor :: "KernelFailureActor option"
  kfProvider :: "KernelFailureProvider option"
  kfStep :: "string option"
  kfRetryable :: "bool option"
  kfAttemptStarted :: "bool option"
  kfExternalSideEffect :: "SideEffect option"
  kfUserAction :: "string option"

text \<open>\<open>s.replace(/P+/g, c)\<close>: every maximal run of matching characters becomes one \<open>c\<close>.\<close>

fun collapse_runs :: "(char \<Rightarrow> bool) \<Rightarrow> char \<Rightarrow> bool \<Rightarrow> string \<Rightarrow> string" where
  "collapse_runs P r in_run [] = []"
| "collapse_runs P r in_run (c # cs) =
     (if P c then (if in_run then collapse_runs P r True cs else r # collapse_runs P r True cs)
      else c # collapse_runs P r False cs)"

definition line_break :: "char \<Rightarrow> bool" where
  "line_break c \<longleftrightarrow> c = CHR 0x0D \<or> c = CHR 0x0A"

definition one_line :: "string \<Rightarrow> string" where
  "one_line s = collapse_runs line_break (CHR 0x20) False s"

definition singleLine :: "string \<Rightarrow> nat \<Rightarrow> string" where
  "singleLine s n = take n (js_trim (collapse_runs js_space (CHR 0x20) False (one_line s)))"

text \<open>The characters of \<^verbatim>\<open>[\u0000-\u0008\u000b\u000c\u000e-\u001f]\<close>.\<close>

definition detail_control :: "char \<Rightarrow> bool" where
  "detail_control c \<longleftrightarrow> (let n = of_char c :: int in n \<le> 8 \<or> n = 11 \<or> n = 12 \<or> (14 \<le> n \<and> n \<le> 31))"

definition slice_end :: "nat \<Rightarrow> string \<Rightarrow> string" where
  "slice_end n s = drop (length s - n) s"

definition boundedDetail :: "string \<Rightarrow> string" where
  "boundedDetail s = slice_end 4000 (filter (\<lambda>c. \<not> detail_control c) s)"

definition actor_field :: "string option \<Rightarrow> string option" where
  "actor_field v = (case v of None \<Rightarrow> None | Some s \<Rightarrow> if js_trim s = [] then None else Some (singleLine s 200))"

definition sanitizedActor :: "KernelFailureActor \<Rightarrow> KernelFailureActor" where
  "sanitizedActor a =
     \<lparr>faAgentClassRef = actor_field (faAgentClassRef a), faHarnessRef = actor_field (faHarnessRef a),
      faProviderRef = actor_field (faProviderRef a), faModelRef = actor_field (faModelRef a),
      faAttemptId = actor_field (faAttemptId a), faSubtaskId = actor_field (faSubtaskId a)\<rparr>"

text \<open>\<open>x ? f(x) : undefined\<close> for an optional string: the empty string is falsy.\<close>

definition when_text :: "(string \<Rightarrow> string) \<Rightarrow> string option \<Rightarrow> string option" where
  "when_text f v = (case v of None \<Rightarrow> None | Some s \<Rightarrow> if s = [] then None else Some (f s))"

definition sanitizedProvider :: "KernelFailureProvider \<Rightarrow> KernelFailureProvider" where
  "sanitizedProvider p =
     \<lparr>fpHttpStatus = (case fpHttpStatus p of None \<Rightarrow> None
        | Some n \<Rightarrow> if 100 \<le> n \<and> n \<le> 599 then Some n else None),
      fpRequestId = Option.bind (when_text (\<lambda>s. singleLine s 200) (fpRequestId p))
                      (\<lambda>s. if s = [] then None else Some s)\<rparr>"

definition failure_code_char :: "char \<Rightarrow> bool" where
  "failure_code_char c \<longleftrightarrow> is_lower c \<or> is_upper c \<or> is_digit c \<or> c \<in> {CHR ''_'', CHR ''.'', CHR '':'', CHR ''-''}"

text \<open>\<open>...(x ? { k: f(x) } : {})\<close> after \<open>...input\<close>: a falsy field keeps the input's value.\<close>

definition keep_or :: "(string \<Rightarrow> string) \<Rightarrow> string option \<Rightarrow> string option" where
  "keep_or f v = (case v of None \<Rightarrow> None | Some s \<Rightarrow> if s = [] then Some s else Some (f s))"

definition kernelFailure :: "KernelFailure \<Rightarrow> KernelFailure" where
  "kernelFailure f =
     (let code = take 96 (map (\<lambda>c. if failure_code_char c then c else CHR ''_'') (kfCode f)) in
      f\<lparr>kfCode := (if code = [] then ''unknown'' else code),
        kfSummary := take 320 (one_line (kfSummary f)),
        kfLabel := keep_or (\<lambda>s. singleLine s 200) (kfLabel f),
        kfDetail := keep_or boundedDetail (kfDetail f),
        kfActor := map_option sanitizedActor (kfActor f),
        kfProvider := map_option sanitizedProvider (kfProvider f),
        kfStep := keep_or (\<lambda>s. singleLine s 200) (kfStep f),
        kfUserAction := keep_or (\<lambda>s. singleLine s 320) (kfUserAction f)\<rparr>)"

subsection \<open>Status projection\<close>

datatype AgentClassHealth = Unverified | Healthy | ErrorHealth | DisabledHealth

datatype AttemptResult = Succeeded | Failed

record RecentExecutionAttempt =
  raAttemptId :: "string option"
  raCompletedAt :: string
  raOutcome :: AttemptResult
  raFailure :: "KernelFailure option"

datatype RecoveryTrigger = SessionStart | PlanningCycle | TaskRecovery | ExecutorChanged | ManualTrigger

datatype RecoveryOutcome = Recovered | StillError | ProbeTimeout

record RecentExecutorRecoveryCheck =
  rcCheckId :: string
  rcTrigger :: RecoveryTrigger
  rcStartedAt :: string
  rcCompletedAt :: string
  rcOutcome :: RecoveryOutcome
  rcFailure :: "KernelFailure option"

record KernelExecutorStatusProjection =
  esAgentClassName :: string
  esClassHealth :: AgentClassHealth
  esRecentAttempts :: "RecentExecutionAttempt list"
  esRecentRecoveryChecks :: "RecentExecutorRecoveryCheck list"
  esUpdatedAt :: string

record ExecutionOutcomeInput =
  oiAgentClassName :: string
  oiAttemptId :: string
  oiOutcome :: AttemptResult
  oiCompletedAt :: string
  oiFailure :: "KernelFailure option"

definition unknown_failure :: KernelFailure where
  "unknown_failure = \<lparr>kfKind = UnknownFailure, kfScope = AttemptFailure, kfCode = ''unknown'',
     kfSummary = ''unknown executor failure'', kfLabel = None, kfDetail = None, kfOrigin = None,
     kfStage = None, kfActor = None, kfProvider = None, kfStep = None, kfRetryable = None,
     kfAttemptStarted = None, kfExternalSideEffect = None, kfUserAction = None\<rparr>"

definition permanentClassFault :: "KernelFailure option \<Rightarrow> bool" where
  "permanentClassFault failure = (case failure of None \<Rightarrow> False
     | Some f \<Rightarrow> kfScope f = AgentClassFailure
         \<and> kfKind f \<in> {AuthenticationFailure, ConfigurationFailure, AdapterFailure})"

definition projectExecutionOutcome ::
  "KernelExecutorStatusProjection option \<Rightarrow> ExecutionOutcomeInput \<Rightarrow> KernelExecutorStatusProjection"
where
  "projectExecutionOutcome current input =
     (let recent = (case current of None \<Rightarrow> [] | Some c \<Rightarrow> esRecentAttempts c);
          failure = (if oiOutcome input = Failed
                     then Some (kernelFailure (case oiFailure input of None \<Rightarrow> unknown_failure | Some f \<Rightarrow> f))
                     else None);
          attempt = \<lparr>raAttemptId = Some (oiAttemptId input), raCompletedAt = oiCompletedAt input,
                     raOutcome = oiOutcome input, raFailure = failure\<rparr>;
          fresh = \<lparr>esAgentClassName = oiAgentClassName input,
             esClassHealth =
               (if map_option esClassHealth current = Some DisabledHealth then DisabledHealth
                else if oiOutcome input = Succeeded then Healthy
                else if permanentClassFault failure then ErrorHealth
                else case current of None \<Rightarrow> Unverified | Some c \<Rightarrow> esClassHealth c),
             esRecentAttempts = take 10 (attempt # recent),
             esRecentRecoveryChecks = (case current of None \<Rightarrow> [] | Some c \<Rightarrow> esRecentRecoveryChecks c),
             esUpdatedAt = oiCompletedAt input\<rparr>
      in case current of
           None \<Rightarrow> fresh
         | Some c \<Rightarrow> if \<exists>a \<in> set (esRecentAttempts c). raAttemptId a = Some (oiAttemptId input) then c else fresh)"

definition projectRecoveryCheck ::
  "KernelExecutorStatusProjection \<Rightarrow> RecentExecutorRecoveryCheck \<Rightarrow> KernelExecutorStatusProjection"
where
  "projectRecoveryCheck current input =
     (if \<exists>c \<in> set (esRecentRecoveryChecks current). rcCheckId c = rcCheckId input then current
      else current\<lparr>
        esClassHealth := (if esClassHealth current = ErrorHealth \<and> rcOutcome input = Recovered
                          then Healthy else esClassHealth current),
        esRecentRecoveryChecks := take 10 (input\<lparr>rcFailure := map_option kernelFailure (rcFailure input)\<rparr>
                                            # esRecentRecoveryChecks current),
        esUpdatedAt := rcCompletedAt input\<rparr>)"

subsection \<open>Availability\<close>

datatype DerivedAgentAvailability =
  Available | PermanentlyUnavailable | TemporarilyUnavailable | ProbeEligible

record AgentAvailabilityPolicy =
  failureWindowMs :: int
  consecutiveFailureThreshold :: nat
  cooldownMs :: int

definition DEFAULT_AGENT_AVAILABILITY_POLICY :: AgentAvailabilityPolicy where
  "DEFAULT_AGENT_AVAILABILITY_POLICY =
     \<lparr>failureWindowMs = 10 * 60000, consecutiveFailureThreshold = 3, cooldownMs = 5 * 60000\<rparr>"

definition isTransientClassFailure :: "RecentExecutionAttempt \<Rightarrow> bool" where
  "isTransientClassFailure a \<longleftrightarrow> raOutcome a = Failed
     \<and> (case raFailure a of None \<Rightarrow> False
        | Some f \<Rightarrow> kfScope f = AgentClassFailure
            \<and> kfKind f \<in> {NetworkFailure, TimeoutFailure, InfrastructureFailure})"

text \<open>The completion times the loop collects, newest first, until the run of failures breaks.\<close>

fun consecutive_failures :: "js_runtime \<Rightarrow> int \<Rightarrow> RecentExecutionAttempt list \<Rightarrow> int list" where
  "consecutive_failures rt now [] = []"
| "consecutive_failures rt now (a # as) =
     (if \<not> isTransientClassFailure a then []
      else case dateParse rt (raCompletedAt a) of
             None \<Rightarrow> []
           | Some t \<Rightarrow>
               if t > now \<or> now - t > failureWindowMs DEFAULT_AGENT_AVAILABILITY_POLICY then []
               else t # consecutive_failures rt now as)"

definition deriveAgentAvailability ::
  "js_runtime \<Rightarrow> KernelExecutorStatusProjection option \<Rightarrow> string \<Rightarrow> DerivedAgentAvailability"
where
  "deriveAgentAvailability rt projection occurredAt =
     (case projection of
        None \<Rightarrow> Available
      | Some p \<Rightarrow>
          if esClassHealth p = DisabledHealth \<or> esClassHealth p = ErrorHealth then PermanentlyUnavailable
          else case dateParse rt occurredAt of
                 None \<Rightarrow> Available
               | Some now \<Rightarrow>
                   (let consecutive = consecutive_failures rt now (esRecentAttempts p) in
                    if length consecutive < consecutiveFailureThreshold DEFAULT_AGENT_AVAILABILITY_POLICY
                    then Available
                    else if now - hd consecutive < cooldownMs DEFAULT_AGENT_AVAILABILITY_POLICY
                    then TemporarilyUnavailable else ProbeEligible))"

definition unavailableAgentClasses :: "js_runtime \<Rightarrow> KernelExecutorStatusProjection list \<Rightarrow> string \<Rightarrow> string list" where
  "unavailableAgentClasses rt statuses occurredAt =
     map esAgentClassName (filter (\<lambda>s. deriveAgentAvailability rt (Some s) occurredAt
       \<in> {PermanentlyUnavailable, TemporarilyUnavailable}) statuses)"

subsection \<open>Sanitised failures are bounded\<close>

lemma collapse_runs_chars:
  "c \<in> set (collapse_runs P r b s) \<Longrightarrow> c = r \<or> (c \<in> set s \<and> \<not> P c)"
  by (induction P r b s rule: collapse_runs.induct) (auto split: if_splits)

lemma one_line_no_break: "\<not> P (CHR 0x20) \<Longrightarrow> P = line_break \<Longrightarrow> c \<in> set (one_line s) \<Longrightarrow> \<not> P c"
  by (auto simp: one_line_def dest!: collapse_runs_chars)

lemma length_singleLine: "length (singleLine s n) \<le> n"
  by (simp add: singleLine_def)

lemma length_boundedDetail: "length (boundedDetail s) \<le> 4000"
  by (simp add: boundedDetail_def slice_end_def)

definition optional_length :: "string option \<Rightarrow> nat" where
  "optional_length v = (case v of None \<Rightarrow> 0 | Some s \<Rightarrow> length s)"

lemma keep_or_length: "(\<And>s. length (f s) \<le> n) \<Longrightarrow> optional_length (keep_or f v) \<le> n"
  by (auto simp: keep_or_def optional_length_def split: option.splits)

text \<open>
  A failure fact that enters the Kernel is bounded and single-line whatever the adapter
  reported: a non-empty code of at most 96 safe characters, a summary of at most 320 characters
  without line breaks, and at most 200, 4000, 200 and 320 characters of label, detail, step and
  user action.
\<close>

theorem kernel_failure_bounded:
  "kfCode (kernelFailure f) \<noteq> [] \<and> length (kfCode (kernelFailure f)) \<le> 96
   \<and> list_all failure_code_char (kfCode (kernelFailure f))
   \<and> length (kfSummary (kernelFailure f)) \<le> 320 \<and> \<not> list_ex line_break (kfSummary (kernelFailure f))
   \<and> optional_length (kfLabel (kernelFailure f)) \<le> 200 \<and> optional_length (kfDetail (kernelFailure f)) \<le> 4000
   \<and> optional_length (kfStep (kernelFailure f)) \<le> 200 \<and> optional_length (kfUserAction (kernelFailure f)) \<le> 320"
proof -
  have "list_all failure_code_char ''unknown''" by code_simp
  moreover have "failure_code_char (CHR ''_'')" by (simp add: failure_code_char_def)
  moreover have "\<not> line_break c" if "c \<in> set (take 320 (one_line s))" for c s
    using that one_line_no_break [of line_break c s] by (auto simp: line_break_def dest: in_set_takeD)
  ultimately show ?thesis
    by (auto simp: kernelFailure_def Let_def list_all_iff list_ex_iff length_boundedDetail length_singleLine
        dest!: in_set_takeD intro!: keep_or_length)
qed

subsection \<open>The projection\<close>

definition projection_ok :: "KernelExecutorStatusProjection \<Rightarrow> bool" where
  "projection_ok p \<longleftrightarrow> length (esRecentAttempts p) \<le> 10 \<and> length (esRecentRecoveryChecks p) \<le> 10"

lemma project_outcome_new:
  assumes "\<And>c. current = Some c \<Longrightarrow> \<forall>a \<in> set (esRecentAttempts c). raAttemptId a \<noteq> Some (oiAttemptId input)"
  shows "\<exists>a. hd (esRecentAttempts (projectExecutionOutcome current input)) = a \<and> raOutcome a = oiOutcome input
    \<and> raAttemptId a = Some (oiAttemptId input)
    \<and> esRecentAttempts (projectExecutionOutcome current input) \<noteq> []"
  using assms by (cases current) (auto simp: projectExecutionOutcome_def Let_def)

lemma project_outcome_member:
  "\<exists>a \<in> set (esRecentAttempts (projectExecutionOutcome current input)). raAttemptId a = Some (oiAttemptId input)"
  by (cases current) (auto simp: projectExecutionOutcome_def Let_def)

lemma project_seen:
  "\<exists>a \<in> set (esRecentAttempts c). raAttemptId a = Some (oiAttemptId input) \<Longrightarrow> projectExecutionOutcome (Some c) input = c"
  by (simp add: projectExecutionOutcome_def)

text \<open>
  The executor status projection is idempotent per attempt and bounded: projecting the
  same attempt again, with any other reported facts, changes nothing; histories never exceed ten
  entries and a disabled class stays disabled.
\<close>

theorem execution_projection_idempotent:
  assumes "\<And>c. current = Some c \<Longrightarrow> projection_ok c"
  shows "projection_ok (projectExecutionOutcome current input)
    \<and> projectExecutionOutcome (Some (projectExecutionOutcome current input)) (input'\<lparr>oiAttemptId := oiAttemptId input\<rparr>)
        = projectExecutionOutcome current input
    \<and> (map_option esClassHealth current = Some DisabledHealth \<longrightarrow>
        esClassHealth (projectExecutionOutcome current input) = DisabledHealth)"
proof (intro conjI impI)
  show "projection_ok (projectExecutionOutcome current input)"
    using assms by (cases current) (auto simp: projectExecutionOutcome_def Let_def projection_ok_def)
  show "projectExecutionOutcome (Some (projectExecutionOutcome current input)) (input'\<lparr>oiAttemptId := oiAttemptId input\<rparr>)
      = projectExecutionOutcome current input"
    by (rule project_seen) (simp add: project_outcome_member)
  show "esClassHealth (projectExecutionOutcome current input) = DisabledHealth"
    if "map_option esClassHealth current = Some DisabledHealth"
    using that by (cases current) (auto simp: projectExecutionOutcome_def Let_def)
qed

subsection \<open>The circuit breaker\<close>

definition in_failure_window :: "js_runtime \<Rightarrow> int \<Rightarrow> RecentExecutionAttempt \<Rightarrow> bool" where
  "in_failure_window rt now a \<longleftrightarrow> isTransientClassFailure a
     \<and> (\<exists>t. dateParse rt (raCompletedAt a) = Some t \<and> t \<le> now \<and> now - t \<le> 600000)"

lemma consecutive_failures_takeWhile:
  "consecutive_failures rt now as =
     map (\<lambda>a. the (dateParse rt (raCompletedAt a))) (takeWhile (in_failure_window rt now) as)"
  by (induction rt now as rule: consecutive_failures.induct)
     (auto simp: in_failure_window_def DEFAULT_AGENT_AVAILABILITY_POLICY_def split: option.splits)

lemma takeWhile_three: "3 \<le> length (takeWhile P xs) \<longleftrightarrow> (\<exists>a b c r. xs = a # b # c # r \<and> P a \<and> P b \<and> P c)"
  by (cases xs; cases "tl xs"; cases "tl (tl xs)") (auto simp: numeral_3_eq_3)

text \<open>
  The breaker opens only on evidence and closes by itself: an AgentClass that is neither
  disabled nor in error is temporarily unavailable exactly when its three newest attempts are all
  transient class-level failures within the last ten minutes and the newest is less than five
  minutes old; so it is never locked out once that cooldown has passed.
\<close>

theorem breaker_opens_exactly:
  "deriveAgentAvailability rt (Some p) occurredAt = TemporarilyUnavailable \<longleftrightarrow>
     (esClassHealth p \<noteq> DisabledHealth \<and> esClassHealth p \<noteq> ErrorHealth)
     \<and> (\<exists>now t a b c rest. dateParse rt occurredAt = Some now \<and> esRecentAttempts p = a # b # c # rest
          \<and> in_failure_window rt now a \<and> in_failure_window rt now b \<and> in_failure_window rt now c
          \<and> dateParse rt (raCompletedAt a) = Some t \<and> now - t < 300000)"
    (is "?l \<longleftrightarrow> ?h \<and> ?r")
proof (cases "dateParse rt occurredAt")
  case (Some now)
  let ?run = "takeWhile (in_failure_window rt now) (esRecentAttempts p)"
  have "?l \<longleftrightarrow> ?h \<and> 3 \<le> length ?run
      \<and> now - hd (map (\<lambda>a. the (dateParse rt (raCompletedAt a))) ?run) < 300000"
    by (auto simp: deriveAgentAvailability_def Some Let_def consecutive_failures_takeWhile
        DEFAULT_AGENT_AVAILABILITY_POLICY_def)
  also have "\<dots> \<longleftrightarrow> ?h \<and> ?r"
    unfolding takeWhile_three using Some by (fastforce simp: in_failure_window_def)
  finally show ?thesis .
qed (simp add: deriveAgentAvailability_def)

text \<open>
  A success restores an executor: after projecting a new succeeded attempt for a class
  that is not disabled, the class is available at every later evaluation time.
\<close>

theorem success_restores_availability:
  assumes "map_option esClassHealth current \<noteq> Some DisabledHealth" and "oiOutcome input = Succeeded"
    and "\<And>c. current = Some c \<Longrightarrow> \<forall>a \<in> set (esRecentAttempts c). raAttemptId a \<noteq> Some (oiAttemptId input)"
  shows "deriveAgentAvailability rt (Some (projectExecutionOutcome current input)) occurredAt = Available"
proof -
  have "esClassHealth (projectExecutionOutcome current input) = Healthy"
    using assms by (cases current) (auto simp: projectExecutionOutcome_def Let_def)
  moreover have "consecutive_failures rt now (esRecentAttempts (projectExecutionOutcome current input)) = []" for now
    using assms by (cases current) (auto simp: projectExecutionOutcome_def Let_def isTransientClassFailure_def)
  ultimately show ?thesis
    by (auto simp: deriveAgentAvailability_def DEFAULT_AGENT_AVAILABILITY_POLICY_def Let_def split: option.splits)
qed

definition sample_outcome :: "string \<Rightarrow> AttemptResult \<Rightarrow> string \<Rightarrow> ExecutionOutcomeInput" where
  "sample_outcome i r at =
     \<lparr>oiAgentClassName = ''pi'', oiAttemptId = i, oiOutcome = r, oiCompletedAt = at,
      oiFailure = Some (unknown_failure\<lparr>kfKind := NetworkFailure, kfScope := AgentClassFailure\<rparr>)\<rparr>"

definition sample_failing :: KernelExecutorStatusProjection where
  "sample_failing = fold (\<lambda>i p. projectExecutionOutcome (Some p) i)
     [sample_outcome ''a2'' Failed ''20'', sample_outcome ''a3'' Failed ''30'']
     (projectExecutionOutcome None (sample_outcome ''a1'' Failed ''10''))"

definition sample_attempt :: "string \<Rightarrow> string \<Rightarrow> RecentExecutionAttempt" where
  "sample_attempt i at = \<lparr>raAttemptId = Some i, raCompletedAt = at, raOutcome = Failed,
     raFailure = map_option kernelFailure (oiFailure (sample_outcome i Failed at))\<rparr>"

theorem breaker_opens_exactly_witness:
  "deriveAgentAvailability sample_runtime (Some sample_failing) ''40'' = TemporarilyUnavailable"
proof -
  have s: "esClassHealth sample_failing = Unverified" "dateParse sample_runtime ''40'' = Some 40"
    "dateParse sample_runtime ''30'' = Some 30" "dateParse sample_runtime ''20'' = Some 20"
    "dateParse sample_runtime ''10'' = Some 10"
    by code_simp+
  have r: "esRecentAttempts sample_failing =
      [sample_attempt ''a3'' ''30'', sample_attempt ''a2'' ''20'', sample_attempt ''a1'' ''10'']"
    by code_simp
  have "isTransientClassFailure (sample_attempt i at)" for i at
    by (simp add: sample_attempt_def sample_outcome_def isTransientClassFailure_def kernelFailure_def Let_def)
  then have w: "in_failure_window sample_runtime 40 (sample_attempt ''a3'' ''30'')"
    "in_failure_window sample_runtime 40 (sample_attempt ''a2'' ''20'')"
    "in_failure_window sample_runtime 40 (sample_attempt ''a1'' ''10'')"
    using s by (auto simp: in_failure_window_def) (simp_all add: sample_attempt_def)
  have "raCompletedAt (sample_attempt ''a3'' ''30'') = ''30''" by (simp add: sample_attempt_def)
  with s r w show ?thesis unfolding breaker_opens_exactly by auto
qed

theorem success_restores_availability_witness:
  "deriveAgentAvailability sample_runtime
     (Some (projectExecutionOutcome (Some sample_failing) (sample_outcome ''a4'' Succeeded ''50''))) ''60'' = Available"
proof (rule success_restores_availability)
  have "list_all (\<lambda>a. raAttemptId a \<noteq> Some ''a4'') (esRecentAttempts sample_failing)" by code_simp
  then show "\<forall>a \<in> set (esRecentAttempts c). raAttemptId a \<noteq> Some (oiAttemptId (sample_outcome ''a4'' Succeeded ''50''))"
    if "Some sample_failing = Some c" for c
    using that by (auto simp: list_all_iff sample_outcome_def)
  show "map_option esClassHealth (Some sample_failing) \<noteq> Some DisabledHealth" by code_simp
qed (simp add: sample_outcome_def)

theorem execution_projection_idempotent_witness:
  "projectExecutionOutcome (Some (projectExecutionOutcome (Some sample_failing) (sample_outcome ''a4'' Failed ''50'')))
     ((sample_outcome ''a4'' Succeeded ''60'')\<lparr>oiAttemptId := oiAttemptId (sample_outcome ''a4'' Failed ''50'')\<rparr>)
   = projectExecutionOutcome (Some sample_failing) (sample_outcome ''a4'' Failed ''50'')"
proof -
  have "projection_ok sample_failing" by code_simp
  then have "\<And>c. Some sample_failing = Some c \<Longrightarrow> projection_ok c" by simp
  from execution_projection_idempotent [OF this] show ?thesis by blast
qed

end
