(* ===== verification/Task_Lifecycle.thy ===== *)
theory Task_Lifecycle
  imports Task_State Work_Graph_Frontier Executor_Status
begin

text \<open>
  The durable lifecycle of Tasks and Subtasks: the Subtask and Attempt machines
  (\<open>src/src/task/task-lifecycle.ts\<close>), the single Task state entry \<open>applyTaskChange\<close> and the Subtask
  port (\<open>src/src/task/task-lifecycle-transition-port.ts\<close>), over the store contract the Task domain
  declares and its SQLite adapter (\<open>src/src/storage/task-lifecycle-port-adapter.ts\<close>,
  \<open>task-repo.ts\<close>, \<open>task-state-change-repo.ts\<close>, \<open>subtask-repo.ts\<close>).

  A database is a value, a transaction that throws leaves it as it was. A JSON column holds the
  \<^typ>\<open>json\<close> value its text parses to. The clock reading of an operation is its argument \<open>at\<close>.
\<close>

subsection \<open>Subtask and Attempt machines\<close>

datatype SubtaskLifecycleState = LPending | LExecuting | LAwaitingCompletion | LCompleted | LBlocked | LCancelled

datatype AttemptLifecycleState = AAuthorized | ALaunched | ARunning | ASettling | ASettled

datatype AttemptOutcome = OSucceeded | OFailed | OHeartbeatLost | OCancelled | OUnknown

datatype KernelDispatchItemStatus =
  DPendingLaunch | DLaunching | DRunning | DCancelling | DTerminal | DCancelled | DUncertain

datatype ExecutorAttemptTerminalState =
  XCompleted | XUncertifiedResult | XContractBlocked | XExecutorFailed | XHeartbeatLost | XCancelledOrStale

fun toSubtaskLifecycleState :: "WorkGraphRuntimeStatus \<Rightarrow> SubtaskLifecycleState" where
  "toSubtaskLifecycleState SReady = LPending"
| "toSubtaskLifecycleState SRunning = LExecuting"
| "toSubtaskLifecycleState SAwaitingIntegration = LAwaitingCompletion"
| "toSubtaskLifecycleState SAwaitingDecision = LAwaitingCompletion"
| "toSubtaskLifecycleState SBlocked = LBlocked"
| "toSubtaskLifecycleState SDone = LCompleted"
| "toSubtaskLifecycleState SCancelled = LCancelled"

fun toAttemptLifecycleState :: "KernelDispatchItemStatus \<Rightarrow> AttemptLifecycleState" where
  "toAttemptLifecycleState DPendingLaunch = AAuthorized"
| "toAttemptLifecycleState DLaunching = ALaunched"
| "toAttemptLifecycleState DRunning = ARunning"
| "toAttemptLifecycleState DCancelling = ASettling"
| "toAttemptLifecycleState DTerminal = ASettled"
| "toAttemptLifecycleState DCancelled = ASettled"
| "toAttemptLifecycleState DUncertain = ASettled"

definition toAttemptOutcome :: "ExecutorAttemptTerminalState option \<Rightarrow> KernelFailure option \<Rightarrow> AttemptOutcome option" where
  "toAttemptOutcome terminalState failure = (case terminalState of
      None \<Rightarrow> None
    | Some t \<Rightarrow>
        Some (if t = XCompleted \<or> t = XUncertifiedResult then OSucceeded
              else if t = XCancelledOrStale then OCancelled
              else if t = XHeartbeatLost then OHeartbeatLost
              else if t = XExecutorFailed \<or> t = XContractBlocked
                then (if map_option kfKind failure = Some HeartbeatLost then OHeartbeatLost else OFailed)
              else OUnknown))"

definition isActiveDispatchStatus :: "KernelDispatchItemStatus \<Rightarrow> bool" where
  "isActiveDispatchStatus s \<longleftrightarrow> s = DPendingLaunch \<or> s = DLaunching \<or> s = DRunning \<or> s = DCancelling"

definition isSettledDispatchStatus :: "KernelDispatchItemStatus \<Rightarrow> bool" where
  "isSettledDispatchStatus s \<longleftrightarrow> s = DTerminal \<or> s = DCancelled \<or> s = DUncertain"

fun subtask_transitions :: "SubtaskLifecycleState \<Rightarrow> SubtaskLifecycleState list" where
  "subtask_transitions LPending = [LExecuting, LAwaitingCompletion, LBlocked, LCancelled]"
| "subtask_transitions LExecuting = [LPending, LAwaitingCompletion, LBlocked, LCompleted, LCancelled]"
| "subtask_transitions LAwaitingCompletion = [LPending, LExecuting, LCompleted, LBlocked, LCancelled]"
| "subtask_transitions LCompleted = [LAwaitingCompletion]"
| "subtask_transitions LBlocked = [LPending, LExecuting, LAwaitingCompletion, LCompleted, LCancelled]"
| "subtask_transitions LCancelled = []"

definition isSubtaskReopen :: "SubtaskLifecycleState \<Rightarrow> SubtaskLifecycleState \<Rightarrow> bool" where
  "isSubtaskReopen a b \<longleftrightarrow> a = LCompleted \<and> b = LAwaitingCompletion"

definition isSubtaskTransitionAllowed :: "SubtaskLifecycleState \<Rightarrow> SubtaskLifecycleState \<Rightarrow> bool" where
  "isSubtaskTransitionAllowed a b \<longleftrightarrow> a = b \<or> b \<in> set (subtask_transitions a)"

definition isTerminalSubtaskLifecycle :: "SubtaskLifecycleState \<Rightarrow> bool" where
  "isTerminalSubtaskLifecycle s \<longleftrightarrow> s = LCompleted \<or> s = LCancelled"

subsection \<open>Commands, records and the store contract\<close>

datatype TaskTransitionActor =
  KernelExecutionRuntime | TaskCancellationCoordinator | WorkGraphRuntimeService
  | WorkspacePublicationWorker | SubtaskAttemptRunner | SessionKernelRuntime | AccountStartupRecovery
  | TaskDomain

text \<open>The columns of a Task the lifecycle reads and writes.\<close>

record Task =
  taskId :: string
  taskAccountId :: "string option"
  taskConversationId :: "string option"
  taskStatus :: TaskStatus
  taskStateVersion :: int
  taskStateDetail :: TaskStateDetail
  taskCompletedAt :: "string option"
  taskUpdatedAt :: string

record TaskStateChangeRecord =
  chTaskId :: string
  chVersion :: int
  chOperationKey :: string
  chDecisionId :: string
  chFromStatus :: TaskStatus
  chToStatus :: TaskStatus
  chDetail :: TaskStateDetail
  chEvidenceRefs :: "string list"
  chCreatedAt :: string

record TaskStateProjection =
  pjTaskId :: string
  pjAccountId :: string
  pjConversationId :: string
  pjStateVersion :: int
  pjStatus :: TaskStatus
  pjDetail :: TaskStateDetail
  pjCreatedAt :: string

record ApplyTaskStateInput =
  asTaskId :: string
  asExpectedVersion :: int
  asFrom :: TaskStatus
  asTo :: TaskStatus
  asDetail :: TaskStateDetail
  asCompletedAt :: "string option"
  asAt :: string

datatype lifecycle_id = TaskTransition string TaskStatus TaskStatus | SubtaskTransition string SubtaskLifecycleState SubtaskLifecycleState

record TaskLifecycleTransitionRecord =
  trTransition :: lifecycle_id
  trActor :: TaskTransitionActor
  trReason :: string
  trAt :: string

datatype lifecycle_error =
    TargetMissing string
  | StaleTaskState string int int
  | TaskOperationConflict string string
  | InvalidTaskTransition string TaskStatus TaskStatus TaskTransitionActor string
  | InvalidSubtaskTransition string SubtaskLifecycleState SubtaskLifecycleState TaskTransitionActor string
  | TaskDisappeared string
  | ConstraintViolation string
  | FactsError string

record 'db TaskLifecycleStorePort =
  findTask :: "'db \<Rightarrow> string \<Rightarrow> Task option"
  findChangeByOperationKey :: "'db \<Rightarrow> string \<Rightarrow> string \<Rightarrow> TaskStateChangeRecord option"
  applyTaskState :: "'db \<Rightarrow> ApplyTaskStateInput \<Rightarrow> 'db \<times> Task option"
  appendChange :: "'db \<Rightarrow> TaskStateChangeRecord \<Rightarrow> lifecycle_error + 'db"
  appendProjection :: "'db \<Rightarrow> TaskStateProjection \<Rightarrow> lifecycle_error + 'db"
  activeGraph :: "'db \<Rightarrow> string \<Rightarrow> (string \<times> int) option"
  listChanges :: "'db \<Rightarrow> string \<Rightarrow> nat \<Rightarrow> TaskStateChangeRecord list"

text \<open>
  A command. \<open>acFacts\<close> is the caller's closure that writes further domain facts in the same
  transaction: it may change the database, and may throw.
\<close>

record 'db ApplyTaskChangeCommand =
  acTaskId :: string
  acDecisionId :: string
  acOperationKey :: string
  acExpectedVersion :: int
  acGenerationId :: "string option"
  acGraphRevision :: "int option"
  acTo :: TaskStatus
  acDetail :: TaskStateDetail
  acActor :: TaskTransitionActor
  acReason :: string
  acEvidenceRefs :: "string list option"
  acFacts :: "('db \<Rightarrow> lifecycle_error + 'db \<times> string list) option"

record ApplyOutcome =
  aoRecord :: TaskLifecycleTransitionRecord
  aoApplied :: bool

record TaskStateApplyResult =
  arTask :: Task
  arApplied :: bool
  arRecord :: TaskLifecycleTransitionRecord

subsection \<open>The Task state entry\<close>

definition isProvenSystemBlockCorrection :: "Task \<Rightarrow> 'db ApplyTaskChangeCommand \<Rightarrow> bool" where
  "isProvenSystemBlockCorrection task command \<longleftrightarrow>
     taskStatus task = TNeedsAction \<and> acTo command = TSucceeded \<and> sdPendingActions (acDetail command) = []"

definition same_payload :: "TaskStateChangeRecord \<Rightarrow> 'db ApplyTaskChangeCommand \<Rightarrow> TaskStateDetail \<Rightarrow> bool" where
  "same_payload existing command detail \<longleftrightarrow>
     chDecisionId existing = acDecisionId command \<and> chToStatus existing = acTo command
     \<and> json_text (detail_json (chDetail existing)) = json_text (detail_json detail)"

definition stale_graph :: "'db TaskLifecycleStorePort \<Rightarrow> 'db \<Rightarrow> Task \<Rightarrow> 'db ApplyTaskChangeCommand \<Rightarrow> bool" where
  "stale_graph store db task command =
     (case (acGenerationId command, acGraphRevision command) of
        (Some g, Some r) \<Rightarrow> activeGraph store db (taskId task) \<noteq> Some (g, r)
      | _ \<Rightarrow> False)"

definition run_facts :: "'db ApplyTaskChangeCommand \<Rightarrow> 'db \<Rightarrow> lifecycle_error + 'db \<times> string list" where
  "run_facts command db = (case acFacts command of None \<Rightarrow> Inr (db, []) | Some facts \<Rightarrow> facts db)"

text \<open>The guards between the lookup of the Task and the first write.\<close>

definition change_guard ::
  "'db TaskLifecycleStorePort \<Rightarrow> 'db \<Rightarrow> Task \<Rightarrow> 'db ApplyTaskChangeCommand \<Rightarrow> lifecycle_error option"
where
  "change_guard store db task command =
     (if taskStateVersion task \<noteq> acExpectedVersion command
      then Some (StaleTaskState (taskId task) (acExpectedVersion command) (taskStateVersion task))
      else if \<not> isTaskStatusTransitionAllowed (taskStatus task) (acTo command)
              \<and> \<not> isProvenSystemBlockCorrection task command
      then Some (InvalidTaskTransition (taskId task) (taskStatus task) (acTo command) (acActor command) (acReason command))
      else if taskStatus task = TCancelled \<and> acTo command \<noteq> TCancelled
      then Some (TaskOperationConflict (taskId task) (acOperationKey command))
      else if stale_graph store db task command
      then Some (StaleTaskState (taskId task) (acExpectedVersion command) (taskStateVersion task))
      else None)"

definition write_change ::
  "'db TaskLifecycleStorePort \<Rightarrow> 'db \<Rightarrow> Task \<Rightarrow> 'db ApplyTaskChangeCommand \<Rightarrow> TaskStateDetail \<Rightarrow> string
   \<Rightarrow> lifecycle_error + 'db \<times> ApplyOutcome"
where
  "write_change store db task command detail at =
     (case run_facts command db of
        Inl e \<Rightarrow> Inl e
      | Inr (db1, factRefs) \<Rightarrow>
          (case applyTaskState store db1
                  \<lparr>asTaskId = taskId task, asExpectedVersion = acExpectedVersion command,
                   asFrom = taskStatus task, asTo = acTo command, asDetail = detail,
                   asCompletedAt = (if isTerminalTaskStatus (acTo command)
                                    then Some (or_else (taskCompletedAt task) at) else None),
                   asAt = at\<rparr> of
             (_, None) \<Rightarrow> Inl (StaleTaskState (taskId task) (acExpectedVersion command) (taskStateVersion task))
           | (db2, Some updated) \<Rightarrow>
               (case appendChange store db2
                       \<lparr>chTaskId = taskId task, chVersion = taskStateVersion updated,
                        chOperationKey = acOperationKey command, chDecisionId = acDecisionId command,
                        chFromStatus = taskStatus task, chToStatus = acTo command, chDetail = detail,
                        chEvidenceRefs = or_else (acEvidenceRefs command) [] @ factRefs,
                        chCreatedAt = at\<rparr> of
                  Inl e \<Rightarrow> Inl e
                | Inr db3 \<Rightarrow>
                    (case appendProjection store db3
                            \<lparr>pjTaskId = taskId task,
                             pjAccountId = or_else (taskAccountId task) ''legacy-account'',
                             pjConversationId = or_else (taskConversationId task) ''legacy-conversation'',
                             pjStateVersion = taskStateVersion updated, pjStatus = acTo command,
                             pjDetail = detail, pjCreatedAt = at\<rparr> of
                       Inl e \<Rightarrow> Inl e
                     | Inr db4 \<Rightarrow>
                         Inr (db4, \<lparr>aoRecord = \<lparr>trTransition = TaskTransition (taskId task) (taskStatus task) (acTo command),
                                                 trActor = acActor command, trReason = acReason command, trAt = at\<rparr>,
                                    aoApplied = True\<rparr>)))))"

definition applyInTransaction ::
  "'db TaskLifecycleStorePort \<Rightarrow> 'db \<Rightarrow> 'db ApplyTaskChangeCommand \<Rightarrow> string \<Rightarrow> lifecycle_error + 'db \<times> ApplyOutcome"
where
  "applyInTransaction store db command at =
     (let detail = normalizeTaskStateDetail (detail_json (acDetail command)) in
      case findChangeByOperationKey store db (acTaskId command) (acOperationKey command) of
        Some existing \<Rightarrow>
          if same_payload existing command detail
          then Inr (db, \<lparr>aoRecord = \<lparr>trTransition = TaskTransition (acTaskId command) (chToStatus existing) (chToStatus existing),
                                      trActor = acActor command, trReason = acReason command,
                                      trAt = chCreatedAt existing\<rparr>,
                         aoApplied = False\<rparr>)
          else Inl (TaskOperationConflict (acTaskId command) (acOperationKey command))
      | None \<Rightarrow>
          (case findTask store db (acTaskId command) of
             None \<Rightarrow> Inl (TargetMissing (acTaskId command))
           | Some task \<Rightarrow>
               (case change_guard store db task command of
                  Some e \<Rightarrow> Inl e
                | None \<Rightarrow> write_change store db task command detail at)))"

text \<open>The port operation: the transaction commits or leaves the database, then the Task is read back.\<close>

definition applyTaskChange ::
  "'db TaskLifecycleStorePort \<Rightarrow> 'db \<Rightarrow> 'db ApplyTaskChangeCommand \<Rightarrow> string
   \<Rightarrow> 'db \<times> (lifecycle_error + TaskStateApplyResult)"
where
  "applyTaskChange store db command at =
     (case applyInTransaction store db command at of
        Inl e \<Rightarrow> (db, Inl e)
      | Inr (db', outcome) \<Rightarrow>
          (db', case findTask store db' (acTaskId command) of
                  None \<Rightarrow> Inl (TaskDisappeared (acTaskId command))
                | Some task \<Rightarrow> Inr \<lparr>arTask = task, arApplied = aoApplied outcome, arRecord = aoRecord outcome\<rparr>))"

definition listTransitions :: "'db TaskLifecycleStorePort \<Rightarrow> 'db \<Rightarrow> string \<Rightarrow> nat \<Rightarrow> TaskLifecycleTransitionRecord list" where
  "listTransitions store db i limit = map (\<lambda>c.
     \<lparr>trTransition = TaskTransition i (chFromStatus c) (chToStatus c), trActor = TaskDomain,
      trReason = chOperationKey c, trAt = chCreatedAt c\<rparr>) (listChanges store db i limit)"

subsection \<open>What a store promises\<close>

text \<open>
  The contract behind \<open>TaskLifecycleStorePort\<close>: \<open>valid\<close> is the store's own integrity, \<open>history\<close>
  the recorded changes of a Task, oldest first, as they read back.
\<close>

definition read_back :: "TaskStateChangeRecord \<Rightarrow> TaskStateChangeRecord" where
  "read_back c = c\<lparr>chDetail := normalizeTaskStateDetail (detail_json (chDetail c))\<rparr>"

text \<open>The closures a command may carry: they keep to other tables than Tasks and their changes.\<close>

definition local_facts ::
  "'db TaskLifecycleStorePort \<Rightarrow> ('db \<Rightarrow> string \<Rightarrow> TaskStateChangeRecord list) \<Rightarrow> ('db \<Rightarrow> bool)
   \<Rightarrow> 'db ApplyTaskChangeCommand \<Rightarrow> bool"
where
  "local_facts store history valid command \<longleftrightarrow>
     (\<forall>db db' refs. valid db \<longrightarrow> run_facts command db = Inr (db', refs) \<longrightarrow>
        valid db' \<and> findTask store db' = findTask store db \<and> history db' = history db)"

text \<open>A run: commands applied one after another, each with its own clock reading.\<close>

inductive lifecycle_runs ::
  "'db TaskLifecycleStorePort \<Rightarrow> ('db ApplyTaskChangeCommand \<Rightarrow> bool) \<Rightarrow> 'db \<Rightarrow> 'db \<Rightarrow> bool"
  for store :: "'db TaskLifecycleStorePort" and admissible :: "'db ApplyTaskChangeCommand \<Rightarrow> bool"
where
  runs_refl: "lifecycle_runs store admissible db db"
| runs_step: "lifecycle_runs store admissible db db' \<Longrightarrow> admissible command \<Longrightarrow>
    applyTaskChange store db' command at = (db'', r) \<Longrightarrow> lifecycle_runs store admissible db db''"

text \<open>
  A history in order: every entry is a transition of the Task machine, or the correction of a
  system block; versions count up by one; each entry starts from the status the one before
  ended in; the last one is the state of the Task; operation keys are not repeated.
\<close>

definition change_ok :: "TaskStateChangeRecord \<Rightarrow> bool" where
  "change_ok c \<longleftrightarrow> isTaskStatusTransitionAllowed (chFromStatus c) (chToStatus c)
     \<or> chFromStatus c = TNeedsAction \<and> chToStatus c = TSucceeded \<and> sdPendingActions (chDetail c) = []"

fun linked :: "TaskStateChangeRecord list \<Rightarrow> bool" where
  "linked (a # b # cs) \<longleftrightarrow> chVersion b = chVersion a + 1 \<and> chFromStatus b = chToStatus a \<and> linked (b # cs)"
| "linked _ \<longleftrightarrow> True"

definition history_ok :: "TaskStateChangeRecord list \<Rightarrow> Task option \<Rightarrow> bool" where
  "history_ok h task \<longleftrightarrow> list_all change_ok h \<and> linked h \<and> distinct (map chOperationKey h)
     \<and> (h \<noteq> [] \<longrightarrow> (\<exists>t. task = Some t \<and> taskStateVersion t = chVersion (last h) \<and> taskStatus t = chToStatus (last h)))"

lemma linked_append:
  "linked (h @ [c]) \<longleftrightarrow> linked h \<and> (h \<noteq> [] \<longrightarrow> chVersion c = chVersion (last h) + 1 \<and> chFromStatus c = chToStatus (last h))"
  by (induction h rule: linked.induct) auto

lemma normalize_no_actions:
  assumes "sdPendingActions d = []"
  shows "sdPendingActions (normalizeTaskStateDetail (detail_json d)) = []"
  using assms by (simp add: normalizeTaskStateDetail_def detail_json_def json_object_def json_list_def List.map_filter_def)

lemma terminal_transition:
  "isTerminalTaskStatus a \<Longrightarrow> isTaskStatusTransitionAllowed a b \<Longrightarrow> b = a"
  by (auto simp: isTerminalTaskStatus_def isTaskStatusTransitionAllowed_def)

lemma change_guard_None:
  "change_guard store db task command = None \<longleftrightarrow>
     taskStateVersion task = acExpectedVersion command
     \<and> (isTaskStatusTransitionAllowed (taskStatus task) (acTo command) \<or> isProvenSystemBlockCorrection task command)
     \<and> (taskStatus task = TCancelled \<longrightarrow> acTo command = TCancelled)
     \<and> \<not> stale_graph store db task command"
  by (auto simp: change_guard_def)

lemma find_append: "find P (xs @ ys) = (case find P xs of None \<Rightarrow> find P ys | Some x \<Rightarrow> Some x)"
  by (induction xs) auto

text \<open>
  The abstract machine behind the store: a board of statuses and versions on which one Task at a time
  makes a legal move and counts its version up.
\<close>

type_synonym task_board = "string \<rightharpoonup> TaskStatus \<times> int"

inductive board_step :: "task_board \<Rightarrow> task_board \<Rightarrow> bool" where
  advance: "board i = Some (s, v) \<Longrightarrow> isTaskStatusTransitionAllowed s t \<or> s = TNeedsAction \<and> t = TSucceeded
    \<Longrightarrow> board_step board (board(i \<mapsto> (t, v + 1)))"

definition task_board :: "'db TaskLifecycleStorePort \<Rightarrow> 'db \<Rightarrow> task_board" where
  "task_board store db i = map_option (\<lambda>t. (taskStatus t, taskStateVersion t)) (findTask store db i)"

locale lifecycle_store =
  fixes store :: "'db TaskLifecycleStorePort"
    and history :: "'db \<Rightarrow> string \<Rightarrow> TaskStateChangeRecord list"
    and valid :: "'db \<Rightarrow> bool"
  assumes find_id: "findTask store db i = Some t \<Longrightarrow> taskId t = i"
    and find_change: "valid db \<Longrightarrow> findChangeByOperationKey store db i k = find (\<lambda>c. chOperationKey c = k) (history db i)"
    and apply_some: "valid db \<Longrightarrow> applyTaskState store db w = (db', Some t') \<Longrightarrow>
      valid db' \<and> history db' = history db \<and> findTask store db' = (findTask store db)(asTaskId w \<mapsto> t')
      \<and> taskStatus t' = asTo w \<and> taskCompletedAt t' = asCompletedAt w
      \<and> taskStateVersion t' = asExpectedVersion w + 1
      \<and> (\<exists>t. findTask store db (asTaskId w) = Some t \<and> taskStateVersion t = asExpectedVersion w
             \<and> taskStatus t = asFrom w)"
    and append_change: "valid db \<Longrightarrow> appendChange store db c = Inr db' \<Longrightarrow>
      valid db' \<and> findTask store db' = findTask store db
      \<and> history db' = (history db)(chTaskId c := history db (chTaskId c) @ [read_back c])"
    and append_projection: "valid db \<Longrightarrow> appendProjection store db p = Inr db' \<Longrightarrow>
      valid db' \<and> findTask store db' = findTask store db \<and> history db' = history db"
begin

text \<open>What one write does, seen from the Tasks and their histories.\<close>

lemma write_change_effect:
  assumes v: "valid db" and local: "local_facts store history valid command"
    and find: "findTask store db (acTaskId command) = Some task"
    and w: "write_change store db task command detail at = Inr (db', outcome)"
  shows "valid db' \<and> aoApplied outcome
    \<and> (\<exists>updated change. findTask store db' = (findTask store db)(acTaskId command \<mapsto> updated)
         \<and> history db' = (history db)(acTaskId command := history db (acTaskId command) @ [change])
         \<and> taskStatus updated = acTo command \<and> taskStateVersion updated = acExpectedVersion command + 1
         \<and> taskCompletedAt updated = (if isTerminalTaskStatus (acTo command)
              then Some (or_else (taskCompletedAt task) at) else None)
         \<and> chVersion change = taskStateVersion updated \<and> chOperationKey change = acOperationKey command
         \<and> chDecisionId change = acDecisionId command
         \<and> chFromStatus change = taskStatus task \<and> chToStatus change = acTo command
         \<and> chDetail change = normalizeTaskStateDetail (detail_json detail))"
proof -
  have tid: "taskId task = acTaskId command" using find_id [OF find] .
  obtain db1 refs where facts: "run_facts command db = Inr (db1, refs)"
    using w by (auto simp: write_change_def split: sum.splits)
  with local v have one: "valid db1" "findTask store db1 = findTask store db" "history db1 = history db"
    unfolding local_facts_def by blast+
  define inp where "inp = \<lparr>asTaskId = taskId task, asExpectedVersion = acExpectedVersion command,
     asFrom = taskStatus task, asTo = acTo command, asDetail = detail,
     asCompletedAt = (if isTerminalTaskStatus (acTo command)
        then Some (or_else (taskCompletedAt task) at) else None), asAt = at\<rparr>"
  obtain db2 updated where app: "applyTaskState store db1 inp = (db2, Some updated)"
    using w facts by (auto simp: write_change_def inp_def split: prod.splits option.splits)
  note two = apply_some [OF one(1) app]
  define ch where "ch = \<lparr>chTaskId = taskId task, chVersion = taskStateVersion updated,
     chOperationKey = acOperationKey command, chDecisionId = acDecisionId command,
     chFromStatus = taskStatus task, chToStatus = acTo command, chDetail = detail,
     chEvidenceRefs = or_else (acEvidenceRefs command) [] @ refs, chCreatedAt = at\<rparr>"
  obtain db3 where chg: "appendChange store db2 ch = Inr db3"
    using w facts app by (auto simp: write_change_def inp_def ch_def split: sum.splits)
  have three: "valid db3" "findTask store db3 = findTask store db2"
    "history db3 = (history db2)(chTaskId ch := history db2 (chTaskId ch) @ [read_back ch])"
    using append_change [OF _ chg] two by blast+
  obtain p where proj: "appendProjection store db3 p = Inr db'" and out: "aoApplied outcome"
    using w facts app chg by (auto simp: write_change_def inp_def ch_def split: sum.splits)
  note four = append_projection [OF three(1) proj]
  have "findTask store db' = (findTask store db)(acTaskId command \<mapsto> updated)"
    using four three two one tid by (simp add: inp_def)
  moreover have "history db' = (history db)(acTaskId command := history db (acTaskId command) @ [read_back ch])"
    using four three two one tid by (simp add: ch_def)
  ultimately show ?thesis
    using four two out by (intro conjI exI [of _ updated] exI [of _ "read_back ch"])
      (simp_all add: inp_def ch_def read_back_def)
qed

lemma apply_cases:
  assumes v: "valid db" and local: "local_facts store history valid command"
    and a: "applyInTransaction store db command at = Inr (db', outcome)"
  obtains (replay) existing where "find (\<lambda>c. chOperationKey c = acOperationKey command) (history db (acTaskId command)) = Some existing"
      and "same_payload existing command (normalizeTaskStateDetail (detail_json (acDetail command)))"
      and "db' = db" and "\<not> aoApplied outcome"
  | (writes) task where "\<forall>c \<in> set (history db (acTaskId command)). chOperationKey c \<noteq> acOperationKey command"
      and "findTask store db (acTaskId command) = Some task"
      and "change_guard store db task command = None"
      and "write_change store db task command (normalizeTaskStateDetail (detail_json (acDetail command))) at = Inr (db', outcome)"
proof (cases "findChangeByOperationKey store db (acTaskId command) (acOperationKey command)")
  case None
  then have "\<forall>c \<in> set (history db (acTaskId command)). chOperationKey c \<noteq> acOperationKey command"
    by (simp add: find_change [OF v] find_None_all)
  with None a show ?thesis
    by (auto simp: applyInTransaction_def split: option.splits intro: writes)
next
  case (Some existing)
  then have "find (\<lambda>c. chOperationKey c = acOperationKey command) (history db (acTaskId command)) = Some existing"
    by (simp add: find_change [OF v])
  with Some a show ?thesis
    by (auto simp: applyInTransaction_def split: if_splits intro: replay)
qed

text \<open>One committed change: what it did to its Task, and that it did nothing else.\<close>

lemma applied_effect:
  assumes v: "valid db" and local: "local_facts store history valid command"
    and a: "applyInTransaction store db command at = Inr (db', outcome)"
  shows "valid db'
    \<and> (\<forall>j. j \<noteq> acTaskId command \<longrightarrow> findTask store db' j = findTask store db j \<and> history db' j = history db j)
    \<and> (\<not> aoApplied outcome \<and> db' = db \<or>
       aoApplied outcome \<and> (\<exists>task updated change.
         findTask store db (acTaskId command) = Some task \<and> findTask store db' (acTaskId command) = Some updated
         \<and> history db' (acTaskId command) = history db (acTaskId command) @ [change]
         \<and> change_guard store db task command = None
         \<and> (\<forall>c \<in> set (history db (acTaskId command)). chOperationKey c \<noteq> acOperationKey command)
         \<and> taskStatus updated = acTo command \<and> taskStateVersion updated = taskStateVersion task + 1
         \<and> taskCompletedAt updated = (if isTerminalTaskStatus (acTo command)
              then Some (or_else (taskCompletedAt task) at) else None)
         \<and> chVersion change = taskStateVersion updated \<and> chOperationKey change = acOperationKey command
         \<and> chDecisionId change = acDecisionId command
         \<and> chFromStatus change = taskStatus task \<and> chToStatus change = acTo command
         \<and> chDetail change = normalizeTaskStateDetail (detail_json
              (normalizeTaskStateDetail (detail_json (acDetail command))))))"
  using v local a
proof (cases rule: apply_cases)
  case replay
  then show ?thesis using v by auto
next
  case (writes task)
  note eff = write_change_effect [OF v local writes(2,4)]
  then obtain updated change where e:
    "findTask store db' = (findTask store db)(acTaskId command \<mapsto> updated)"
    "history db' = (history db)(acTaskId command := history db (acTaskId command) @ [change])"
    "taskStatus updated = acTo command" "taskStateVersion updated = acExpectedVersion command + 1"
    "taskCompletedAt updated = (if isTerminalTaskStatus (acTo command)
              then Some (or_else (taskCompletedAt task) at) else None)"
    "chVersion change = taskStateVersion updated" "chOperationKey change = acOperationKey command"
    "chDecisionId change = acDecisionId command"
    "chFromStatus change = taskStatus task" "chToStatus change = acTo command"
    "chDetail change = normalizeTaskStateDetail (detail_json
              (normalizeTaskStateDetail (detail_json (acDetail command))))"
    by blast
  have ver: "taskStateVersion task = acExpectedVersion command"
    using writes(3) by (simp add: change_guard_None)
  from eff e ver writes(1-3) show ?thesis by simp
qed

lemma history_ok_step:
  assumes v: "valid db" and local: "local_facts store history valid command"
    and a: "applyInTransaction store db command at = Inr (db', outcome)"
    and h: "history_ok (history db i) (findTask store db i)"
  shows "history_ok (history db' i) (findTask store db' i)"
proof (cases "i = acTaskId command \<and> aoApplied outcome")
  case False
  then show ?thesis using applied_effect [OF v local a] h by (cases "i = acTaskId command") auto
next
  case True
  with applied_effect [OF v local a] obtain task updated change where e:
    "findTask store db i = Some task" "findTask store db' i = Some updated"
    "history db' i = history db i @ [change]" "change_guard store db task command = None"
    "\<forall>c \<in> set (history db i). chOperationKey c \<noteq> acOperationKey command"
    "taskStatus updated = acTo command" "taskStateVersion updated = taskStateVersion task + 1"
    "chVersion change = taskStateVersion updated" "chOperationKey change = acOperationKey command"
    "chFromStatus change = taskStatus task" "chToStatus change = acTo command"
    "chDetail change = normalizeTaskStateDetail (detail_json
              (normalizeTaskStateDetail (detail_json (acDetail command))))"
    by blast
  have "change_ok change"
    using e by (auto simp: change_ok_def change_guard_None isProvenSystemBlockCorrection_def normalize_no_actions)
  moreover have "linked (history db i @ [change])"
    using h e by (auto simp: history_ok_def linked_append)
  ultimately show ?thesis
    using h e by (auto simp: history_ok_def)
qed

lemma terminal_step:
  assumes v: "valid db" and local: "local_facts store history valid command"
    and a: "applyInTransaction store db command at = Inr (db', outcome)"
    and t: "findTask store db i = Some t" "isTerminalTaskStatus (taskStatus t)" "taskCompletedAt t = Some c"
  shows "\<exists>t'. findTask store db' i = Some t' \<and> taskStatus t' = taskStatus t \<and> taskCompletedAt t' = Some c"
proof (cases "i = acTaskId command \<and> aoApplied outcome")
  case False
  then show ?thesis using applied_effect [OF v local a] t by (cases "i = acTaskId command") auto
next
  case True
  with applied_effect [OF v local a] t(1) obtain updated where e:
    "findTask store db' i = Some updated" "change_guard store db t command = None"
    "taskStatus updated = acTo command"
    "taskCompletedAt updated = (if isTerminalTaskStatus (acTo command)
              then Some (or_else (taskCompletedAt t) at) else None)"
    by auto
  have "acTo command = taskStatus t"
    using e(2) t(2) terminal_transition
    by (auto simp: change_guard_None isProvenSystemBlockCorrection_def isTerminalTaskStatus_def)
  with e t show ?thesis by (simp add: or_else_def)
qed

lemma apply_change_inv:
  assumes "applyTaskChange store db command at = (db', r)"
  shows "db' = db \<or> (\<exists>outcome. applyInTransaction store db command at = Inr (db', outcome))"
  using assms by (auto simp: applyTaskChange_def split: sum.splits)

lemma runs_valid:
  assumes "lifecycle_runs store (local_facts store history valid) db db'" and "valid db"
  shows "valid db'"
  using assms
proof (induction rule: lifecycle_runs.induct)
  case (runs_step db db' command at db'' r)
  then show ?case using apply_change_inv applied_effect by metis
qed simp

lemma runs_history_ok:
  assumes "lifecycle_runs store (local_facts store history valid) db db'" and "valid db"
    and "history_ok (history db i) (findTask store db i)"
  shows "history_ok (history db' i) (findTask store db' i)"
  using assms
proof (induction rule: lifecycle_runs.induct)
  case (runs_step db db' command at db'' r)
  then have v: "valid db'" using runs_valid by blast
  from apply_change_inv [OF runs_step.hyps(3)] show ?case
    using runs_step history_ok_step [OF v] by blast
qed simp

lemma runs_terminal:
  assumes "lifecycle_runs store (local_facts store history valid) db db'" and "valid db"
    and "findTask store db i = Some t" and "isTerminalTaskStatus (taskStatus t)" and "taskCompletedAt t = Some c"
  shows "\<exists>t'. findTask store db' i = Some t' \<and> taskStatus t' = taskStatus t \<and> taskCompletedAt t' = Some c"
  using assms
proof (induction rule: lifecycle_runs.induct)
  case (runs_step db db' command at db'' r)
  then have v: "valid db'" using runs_valid by blast
  obtain t' where t': "findTask store db' i = Some t'" "taskStatus t' = taskStatus t" "taskCompletedAt t' = Some c"
    using runs_step by blast
  from apply_change_inv [OF runs_step.hyps(3)] show ?case
    using terminal_step [OF v runs_step.hyps(2) _ t'(1) _ t'(3)] t' runs_step.prems by fastforce
qed simp

lemma runs_extend:
  assumes "lifecycle_runs store (local_facts store history valid) db db'" and "valid db"
  shows "(\<exists>ext. history db' i = history db i @ ext) \<and> (findTask store db i \<noteq> None \<longrightarrow> findTask store db' i \<noteq> None)"
  using assms
proof (induction rule: lifecycle_runs.induct)
  case (runs_step db db' command at db'' r)
  then have v: "valid db'" using runs_valid by blast
  from apply_change_inv [OF runs_step.hyps(3)]
  have "(\<exists>ext. history db'' i = history db' i @ ext) \<and> (findTask store db' i \<noteq> None \<longrightarrow> findTask store db'' i \<noteq> None)"
    using applied_effect [OF v runs_step.hyps(2)] by (cases "i = acTaskId command") fastforce+
  with runs_step show ?case by auto
qed simp

text \<open>Every command, accepted or not, is a step of the board or leaves it as it is.\<close>

lemma apply_simulates:
  assumes v: "valid db" and local: "local_facts store history valid command"
    and a: "applyInTransaction store db command at = Inr (db', outcome)"
  shows "task_board store db' = task_board store db \<or> board_step (task_board store db) (task_board store db')"
proof (cases "aoApplied outcome")
  case False
  with applied_effect [OF v local a] show ?thesis by auto
next
  case True
  with applied_effect [OF v local a] obtain task updated where e:
    "\<forall>j. j \<noteq> acTaskId command \<longrightarrow> findTask store db' j = findTask store db j"
    "findTask store db (acTaskId command) = Some task" "findTask store db' (acTaskId command) = Some updated"
    "change_guard store db task command = None" "taskStatus updated = acTo command"
    "taskStateVersion updated = taskStateVersion task + 1" by blast
  have "task_board store db' = (task_board store db)(acTaskId command \<mapsto> (acTo command, taskStateVersion task + 1))"
    using e by (auto simp: task_board_def fun_eq_iff)
  moreover have "board_step (task_board store db) ((task_board store db)(acTaskId command \<mapsto> (acTo command, taskStateVersion task + 1)))"
    using e(2,4) by (intro advance [of _ _ "taskStatus task"])
      (auto simp: task_board_def change_guard_None isProvenSystemBlockCorrection_def)
  ultimately show ?thesis by simp
qed

lemma runs_simulate:
  assumes "lifecycle_runs store (local_facts store history valid) db db'" and "valid db"
  shows "board_step\<^sup>*\<^sup>* (task_board store db) (task_board store db')"
  using assms
proof (induction rule: lifecycle_runs.induct)
  case (runs_step db db' command at db'' r)
  then have v: "valid db'" using runs_valid by blast
  from apply_change_inv [OF runs_step.hyps(3)] apply_simulates [OF v runs_step.hyps(2)]
  have "task_board store db'' = task_board store db' \<or> board_step (task_board store db') (task_board store db'')" by blast
  with runs_step show ?case by (metis rtranclp.rtrancl_into_rtrancl)
qed simp

text \<open>A command repeated later, with whatever happened between, changes nothing.\<close>

lemma replayed_command:
  assumes v: "valid db" and local: "local_facts store history valid command"
    and normal: "normal_detail (acDetail command)"
    and first: "applyTaskChange store db command at = (db', Inr r)"
    and runs: "lifecycle_runs store (local_facts store history valid) db' db''"
  shows "\<exists>r'. applyTaskChange store db'' command at' = (db'', Inr r') \<and> \<not> arApplied r'"
proof -
  obtain outcome where a: "applyInTransaction store db command at = Inr (db', outcome)"
    using first by (auto simp: applyTaskChange_def split: sum.splits prod.splits)
  have v': "valid db'" using applied_effect [OF v local a] by blast
  have found': "findTask store db' (acTaskId command) \<noteq> None"
    using first a by (auto simp: applyTaskChange_def split: option.splits)
  have norm: "normalizeTaskStateDetail (detail_json (acDetail command)) = acDetail command"
    by (rule normalize_detail_json [OF normal])
  have "\<exists>existing. find (\<lambda>c. chOperationKey c = acOperationKey command) (history db' (acTaskId command)) = Some existing
      \<and> same_payload existing command (acDetail command)"
  proof (cases "aoApplied outcome")
    case True
    with applied_effect [OF v local a] obtain change where e:
      "history db' (acTaskId command) = history db (acTaskId command) @ [change]"
      "\<forall>c \<in> set (history db (acTaskId command)). chOperationKey c \<noteq> acOperationKey command"
      "chOperationKey change = acOperationKey command" "chDecisionId change = acDecisionId command"
      "chToStatus change = acTo command" "chDetail change = acDetail command"
      by (auto simp: norm)
    then have "find (\<lambda>c. chOperationKey c = acOperationKey command) (history db' (acTaskId command)) = Some change"
      by (auto simp: find_append find_None_all [symmetric])
    with e show ?thesis by (simp add: same_payload_def)
  next
    case False
    with a show ?thesis
      by (cases rule: apply_cases [OF v local a]) (use norm write_change_effect [OF v local] in auto)
  qed
  then obtain existing where ex:
    "find (\<lambda>c. chOperationKey c = acOperationKey command) (history db' (acTaskId command)) = Some existing"
    "same_payload existing command (acDetail command)" by blast
  obtain ext where "history db'' (acTaskId command) = history db' (acTaskId command) @ ext"
    using runs_extend [OF runs v'] by blast
  with ex have "find (\<lambda>c. chOperationKey c = acOperationKey command) (history db'' (acTaskId command)) = Some existing"
    by (simp add: find_append)
  then have "findChangeByOperationKey store db'' (acTaskId command) (acOperationKey command) = Some existing"
    using find_change runs_valid [OF runs v'] by metis
  moreover obtain t where "findTask store db'' (acTaskId command) = Some t"
    using runs_extend [OF runs v'] found' by blast
  ultimately show ?thesis
    using ex(2) by (simp add: applyTaskChange_def applyInTransaction_def norm)
qed

text \<open>Of two commands decided on the same version, the second is refused as stale.\<close>

lemma second_writer_stale:
  assumes v: "valid db" and local: "local_facts store history valid c1"
    and first: "applyTaskChange store db c1 at = (db', Inr r)" and applied: "arApplied r"
    and same: "acTaskId c2 = acTaskId c1" "acExpectedVersion c2 = acExpectedVersion c1"
    and fresh: "findChangeByOperationKey store db' (acTaskId c2) (acOperationKey c2) = None"
  shows "applyTaskChange store db' c2 at' = (db', Inl (StaleTaskState (acTaskId c2) (acExpectedVersion c2) (acExpectedVersion c2 + 1)))"
proof -
  obtain outcome where a: "applyInTransaction store db c1 at = Inr (db', outcome)" "aoApplied outcome"
    using first applied by (auto simp: applyTaskChange_def split: sum.splits prod.splits option.splits)
  then obtain task updated where e: "findTask store db' (acTaskId c1) = Some updated"
    "change_guard store db task c1 = None" "taskStateVersion updated = taskStateVersion task + 1"
    using applied_effect [OF v local a(1)] by blast
  then have "taskStateVersion updated = acExpectedVersion c2 + 1"
    using same by (simp add: change_guard_None)
  with e(1) fresh same find_id [OF e(1)] show ?thesis
    by (simp add: applyTaskChange_def applyInTransaction_def change_guard_def)
qed

end

subsection \<open>The SQLite store\<close>

text \<open>The columns of \<open>tasks\<close>, \<open>task_state_changes\<close>, the outbox and \<open>work_graph_revisions\<close> in use.\<close>

record TaskRow =
  rwId :: string
  rwAccountId :: string
  rwConversationId :: string
  rwStatus :: TaskStatus
  rwStateVersion :: int
  rwStateDetail :: json
  rwCompletedAt :: "string option"
  rwUpdatedAt :: string

record TaskStateChangeRow =
  crTaskId :: string
  crVersion :: int
  crOperationKey :: string
  crDecisionId :: string
  crFromStatus :: TaskStatus
  crToStatus :: TaskStatus
  crDetail :: json
  crEvidenceRefs :: "string list"
  crCreatedAt :: string

record OutboxRow =
  obSequence :: int
  obTaskId :: string
  obAccountId :: string
  obConversationId :: string
  obStateVersion :: int
  obStatus :: TaskStatus
  obDetail :: json
  obCreatedAt :: string

record RevisionRow =
  rvTaskId :: string
  rvGenerationId :: string
  rvRevision :: int
  rvActive :: bool

record sqlite_db =
  dbTasks :: "TaskRow list"
  dbChanges :: "TaskStateChangeRow list"
  dbOutbox :: "OutboxRow list"
  dbSequence :: int
  dbRevisions :: "RevisionRow list"

definition rowToTask :: "TaskRow \<Rightarrow> Task" where
  "rowToTask row = \<lparr>taskId = rwId row, taskAccountId = Some (rwAccountId row),
     taskConversationId = Some (rwConversationId row), taskStatus = rwStatus row,
     taskStateVersion = rwStateVersion row, taskStateDetail = normalizeTaskStateDetail (rwStateDetail row),
     taskCompletedAt = rwCompletedAt row, taskUpdatedAt = rwUpdatedAt row\<rparr>"

definition task_findById :: "sqlite_db \<Rightarrow> string \<Rightarrow> Task option" where
  "task_findById db i = map_option rowToTask (find (\<lambda>r. rwId r = i) (dbTasks db))"

definition update_matches :: "ApplyTaskStateInput \<Rightarrow> TaskRow \<Rightarrow> bool" where
  "update_matches w r \<longleftrightarrow> rwId r = asTaskId w \<and> rwStateVersion r = asExpectedVersion w \<and> rwStatus r = asFrom w"

definition updated_row :: "ApplyTaskStateInput \<Rightarrow> TaskRow \<Rightarrow> TaskRow" where
  "updated_row w r = r\<lparr>rwStatus := asTo w, rwStateVersion := rwStateVersion r + 1,
     rwStateDetail := detail_json (asDetail w), rwCompletedAt := asCompletedAt w, rwUpdatedAt := asAt w\<rparr>"

definition repo_applyTaskState :: "sqlite_db \<Rightarrow> ApplyTaskStateInput \<Rightarrow> sqlite_db \<times> Task option" where
  "repo_applyTaskState db w =
     (let db' = db\<lparr>dbTasks := map (\<lambda>r. if update_matches w r then updated_row w r else r) (dbTasks db)\<rparr> in
      (db', if length (filter (update_matches w) (dbTasks db)) \<noteq> 1 then None else task_findById db' (asTaskId w)))"

definition rowToRecord :: "TaskStateChangeRow \<Rightarrow> TaskStateChangeRecord" where
  "rowToRecord row = \<lparr>chTaskId = crTaskId row, chVersion = crVersion row, chOperationKey = crOperationKey row,
     chDecisionId = crDecisionId row, chFromStatus = crFromStatus row, chToStatus = crToStatus row,
     chDetail = normalizeTaskStateDetail (crDetail row), chEvidenceRefs = crEvidenceRefs row,
     chCreatedAt = crCreatedAt row\<rparr>"

definition findByOperationKey :: "sqlite_db \<Rightarrow> string \<Rightarrow> string \<Rightarrow> TaskStateChangeRecord option" where
  "findByOperationKey db i k = map_option rowToRecord (find (\<lambda>r. crTaskId r = i \<and> crOperationKey r = k) (dbChanges db))"

definition listForTask :: "sqlite_db \<Rightarrow> string \<Rightarrow> nat \<Rightarrow> TaskStateChangeRecord list" where
  "listForTask db i limit = map rowToRecord
     (take limit (js_sort (\<lambda>a b. crVersion b - crVersion a) (filter (\<lambda>r. crTaskId r = i) (dbChanges db))))"

text \<open>The inserts fail on the constraints of the schema: keys, positive versions, the foreign key.\<close>

definition insert_change :: "sqlite_db \<Rightarrow> TaskStateChangeRecord \<Rightarrow> lifecycle_error + sqlite_db" where
  "insert_change db c =
     (if chVersion c \<le> 0 \<or> (\<forall>r \<in> set (dbTasks db). rwId r \<noteq> chTaskId c)
         \<or> (\<exists>r \<in> set (dbChanges db). crTaskId r = chTaskId c
              \<and> (crVersion r = chVersion c \<or> crOperationKey r = chOperationKey c))
      then Inl (ConstraintViolation ''task_state_changes'')
      else Inr (db\<lparr>dbChanges := dbChanges db @
        [\<lparr>crTaskId = chTaskId c, crVersion = chVersion c, crOperationKey = chOperationKey c,
          crDecisionId = chDecisionId c, crFromStatus = chFromStatus c, crToStatus = chToStatus c,
          crDetail = detail_json (chDetail c), crEvidenceRefs = chEvidenceRefs c, crCreatedAt = chCreatedAt c\<rparr>]\<rparr>))"

definition outbox_append :: "sqlite_db \<Rightarrow> TaskStateProjection \<Rightarrow> lifecycle_error + sqlite_db" where
  "outbox_append db p =
     (if pjStateVersion p \<le> 0 then Inl (ConstraintViolation ''task_state_projection_outbox'')
      else Inr (db\<lparr>dbOutbox := dbOutbox db @
        [\<lparr>obSequence = dbSequence db + 1, obTaskId = pjTaskId p, obAccountId = pjAccountId p,
          obConversationId = pjConversationId p, obStateVersion = pjStateVersion p, obStatus = pjStatus p,
          obDetail = detail_json (pjDetail p), obCreatedAt = pjCreatedAt p\<rparr>],
        dbSequence := dbSequence db + 1\<rparr>))"

definition findActive :: "sqlite_db \<Rightarrow> string \<Rightarrow> RevisionRow option" where
  "findActive db i = find (\<lambda>r. rvTaskId r = i \<and> rvActive r) (dbRevisions db)"

definition createSqliteTaskLifecycleStore :: "sqlite_db TaskLifecycleStorePort" where
  "createSqliteTaskLifecycleStore =
     \<lparr>findTask = task_findById, findChangeByOperationKey = findByOperationKey,
      applyTaskState = repo_applyTaskState, appendChange = insert_change, appendProjection = outbox_append,
      activeGraph = (\<lambda>db i. map_option (\<lambda>r. (rvGenerationId r, rvRevision r)) (findActive db i)),
      listChanges = listForTask\<rparr>"

definition sqlite_history :: "sqlite_db \<Rightarrow> string \<Rightarrow> TaskStateChangeRecord list" where
  "sqlite_history db i = map rowToRecord (filter (\<lambda>r. crTaskId r = i) (dbChanges db))"

definition sqlite_valid :: "sqlite_db \<Rightarrow> bool" where
  "sqlite_valid db \<longleftrightarrow> distinct (map rwId (dbTasks db))"

lemma find_filter_map:
  "map_option f (find (\<lambda>r. P r \<and> Q r) xs) = find R (map f (filter P xs))" if "\<And>r. Q r \<longleftrightarrow> R (f r)"
  using that by (induction xs) auto

lemma find_distinct_id:
  "distinct (map rwId rows) \<Longrightarrow> r \<in> set rows \<Longrightarrow> find (\<lambda>x. rwId x = rwId r) rows = Some r"
  by (induction rows) (auto simp: rev_image_eqI)

lemma find_map_update:
  assumes "\<And>r. rwId (g r) = rwId r"
  shows "find (\<lambda>r. rwId r = i) (map g rows) = map_option g (find (\<lambda>r. rwId r = i) rows)"
  using assms by (induction rows) auto

lemma sqlite_apply_some:
  assumes v: "sqlite_valid db" and a: "repo_applyTaskState db w = (db', Some t')"
  shows "sqlite_valid db' \<and> sqlite_history db' = sqlite_history db
    \<and> task_findById db' = (task_findById db)(asTaskId w \<mapsto> t')
    \<and> taskStatus t' = asTo w \<and> taskCompletedAt t' = asCompletedAt w \<and> taskStateVersion t' = asExpectedVersion w + 1
    \<and> (\<exists>t. task_findById db (asTaskId w) = Some t \<and> taskStateVersion t = asExpectedVersion w \<and> taskStatus t = asFrom w)"
proof -
  define g where "g = (\<lambda>r. if update_matches w r then updated_row w r else r)"
  have gid: "rwId (g r) = rwId r" for r by (simp add: g_def updated_row_def)
  have db': "db' = db\<lparr>dbTasks := map g (dbTasks db)\<rparr>" and one: "length (filter (update_matches w) (dbTasks db)) = 1"
    and t': "task_findById db' (asTaskId w) = Some t'"
    using a by (auto simp: repo_applyTaskState_def Let_def g_def split: if_splits)
  obtain r where r: "r \<in> set (dbTasks db)" "update_matches w r"
    using one by (metis (no_types, lifting) filter_False length_0_conv zero_neq_one)
  then have rid: "rwId r = asTaskId w" by (simp add: update_matches_def)
  have find: "find (\<lambda>x. rwId x = asTaskId w) (dbTasks db) = Some r"
    using find_distinct_id [of "dbTasks db" r] v r rid by (simp add: sqlite_valid_def)
  have t'_eq: "t' = rowToTask (updated_row w r)"
    using t' r find by (simp add: task_findById_def db' find_map_update gid) (simp add: g_def)
  have "task_findById db' j = ((task_findById db)(asTaskId w \<mapsto> t')) j" for j
  proof (cases "j = asTaskId w")
    case False
    have "map_option (rowToTask \<circ> g) (find (\<lambda>r. rwId r = j) (dbTasks db)) = map_option rowToTask (find (\<lambda>r. rwId r = j) (dbTasks db))"
      using False by (cases "find (\<lambda>r. rwId r = j) (dbTasks db)")
        (auto simp: g_def update_matches_def dest: find_Some_mem)
    with False show ?thesis by (simp add: task_findById_def db' find_map_update gid option.map_comp)
  qed (simp add: t')
  moreover have "sqlite_valid db'" using v by (simp add: sqlite_valid_def db' gid comp_def)
  moreover have "sqlite_history db' = sqlite_history db" by (rule ext) (simp add: sqlite_history_def db')
  ultimately show ?thesis
    using t'_eq find r by (auto simp: rowToTask_def updated_row_def update_matches_def task_findById_def)
qed

interpretation sqlite: lifecycle_store createSqliteTaskLifecycleStore sqlite_history sqlite_valid
proof (unfold_locales, goal_cases)
  case (1 db i t)
  then show ?case by (auto simp: createSqliteTaskLifecycleStore_def task_findById_def rowToTask_def dest: find_Some_mem)
next
  case (2 db i k)
  show ?case
    by (simp add: createSqliteTaskLifecycleStore_def findByOperationKey_def sqlite_history_def)
      (rule find_filter_map, simp add: rowToRecord_def)
next
  case (3 db w db' t')
  then show ?case using sqlite_apply_some by (simp add: createSqliteTaskLifecycleStore_def)
next
  case (4 db c db')
  then show ?case
    by (auto simp: createSqliteTaskLifecycleStore_def insert_change_def sqlite_valid_def sqlite_history_def
        task_findById_def rowToRecord_def read_back_def fun_eq_iff split: if_splits)
next
  case (5 db p db')
  then show ?case
    by (auto simp: createSqliteTaskLifecycleStore_def outbox_append_def sqlite_valid_def sqlite_history_def
        task_findById_def fun_eq_iff split: if_splits)
qed

subsection \<open>The Subtask port\<close>

record SubtaskRow =
  sbId :: string
  sbStatus :: WorkGraphRuntimeStatus
  sbResult :: string
  sbArtifacts :: "string list"
  sbVerification :: json
  sbError :: "string option"
  sbUpdatedAt :: string

record SubtaskChanges =
  scResult :: "string option"
  scArtifacts :: "string list option"
  scVerification :: "json option"
  scError :: "string option option"

record TransitionSubtaskInput =
  tsSubtaskId :: string
  tsTo :: WorkGraphRuntimeStatus
  tsActor :: TaskTransitionActor
  tsReason :: string
  tsChanges :: SubtaskChanges

record subtask_port =
  spRows :: "SubtaskRow list"
  spTransitions :: "TaskLifecycleTransitionRecord list"

definition subtask_findById :: "SubtaskRow list \<Rightarrow> string \<Rightarrow> SubtaskRow option" where
  "subtask_findById rows i = find (\<lambda>r. sbId r = i) rows"

definition updateStatus ::
  "SubtaskRow list \<Rightarrow> string \<Rightarrow> WorkGraphRuntimeStatus \<Rightarrow> SubtaskChanges \<Rightarrow> string \<Rightarrow> SubtaskRow list"
where
  "updateStatus rows i status changes now = map (\<lambda>r. if sbId r \<noteq> i then r else
     r\<lparr>sbStatus := status, sbResult := or_else (scResult changes) (sbResult r),
       sbArtifacts := or_else (scArtifacts changes) (sbArtifacts r),
       sbVerification := or_else (scVerification changes) (sbVerification r),
       sbError := (case scError changes of None \<Rightarrow> sbError r | Some e \<Rightarrow> e), sbUpdatedAt := now\<rparr>) rows"

definition transitionSubtask ::
  "subtask_port \<Rightarrow> TransitionSubtaskInput \<Rightarrow> string \<Rightarrow> lifecycle_error + subtask_port \<times> SubtaskRow"
where
  "transitionSubtask port input at =
     (case subtask_findById (spRows port) (tsSubtaskId input) of
        None \<Rightarrow> Inl (TargetMissing (tsSubtaskId input))
      | Some subtask \<Rightarrow>
          (let source = toSubtaskLifecycleState (sbStatus subtask); target = toSubtaskLifecycleState (tsTo input) in
           if isTerminalSubtaskLifecycle source \<and> source = target then Inr (port, subtask)
           else if \<not> isSubtaskTransitionAllowed source target
           then Inl (InvalidSubtaskTransition (tsSubtaskId input) source target (tsActor input) (tsReason input))
           else (let rows = updateStatus (spRows port) (tsSubtaskId input) (tsTo input) (tsChanges input) at in
                 Inr (port\<lparr>spRows := rows, spTransitions := spTransitions port @
                        [\<lparr>trTransition = SubtaskTransition (tsSubtaskId input) source target,
                          trActor = tsActor input, trReason = tsReason input, trAt = at\<rparr>]\<rparr>,
                      or_else (subtask_findById rows (tsSubtaskId input)) subtask))))"

text \<open>A sequence of port calls; one that throws leaves the rows as they were.\<close>

fun transition_all :: "subtask_port \<Rightarrow> (TransitionSubtaskInput \<times> string) list \<Rightarrow> subtask_port" where
  "transition_all port [] = port"
| "transition_all port ((input, at) # rest) =
     (case transitionSubtask port input at of Inl _ \<Rightarrow> transition_all port rest
      | Inr (port', _) \<Rightarrow> transition_all port' rest)"

lemma find_updateStatus:
  "subtask_findById (updateStatus rows j st ch now) i =
     (if i = j then map_option (\<lambda>r. r\<lparr>sbStatus := st, sbResult := or_else (scResult ch) (sbResult r),
       sbArtifacts := or_else (scArtifacts ch) (sbArtifacts r),
       sbVerification := or_else (scVerification ch) (sbVerification r),
       sbError := (case scError ch of None \<Rightarrow> sbError r | Some e \<Rightarrow> e), sbUpdatedAt := now\<rparr>) (subtask_findById rows i)
      else subtask_findById rows i)"
  by (induction rows) (auto simp: updateStatus_def subtask_findById_def)

lemma lifecycle_cancelled: "toSubtaskLifecycleState st = LCancelled \<longleftrightarrow> st = SCancelled"
  by (cases st) auto

lemma transition_keeps_cancelled:
  assumes "transitionSubtask port input at = Inr (port', s)"
    and "subtask_findById (spRows port) i = Some r" and "sbStatus r = SCancelled"
  shows "subtask_findById (spRows port') i = Some r"
  using assms
  by (auto simp: transitionSubtask_def Let_def find_updateStatus isTerminalSubtaskLifecycle_def
      isSubtaskTransitionAllowed_def split: option.splits if_splits)

lemma transition_done:
  assumes "transitionSubtask port input at = Inr (port', s)"
    and "subtask_findById (spRows port) i = Some r" and "sbStatus r = SDone"
    and "subtask_findById (spRows port') i = Some r'"
  shows "r' = r \<or> sbStatus r' \<in> {SAwaitingIntegration, SAwaitingDecision}"
  using assms
  by (cases "tsTo input")
    (auto simp: transitionSubtask_def Let_def find_updateStatus isTerminalSubtaskLifecycle_def
      isSubtaskTransitionAllowed_def split: option.splits if_splits)

lemma transition_all_cancelled:
  "subtask_findById (spRows port) i = Some r \<Longrightarrow> sbStatus r = SCancelled \<Longrightarrow>
   subtask_findById (spRows (transition_all port calls)) i = Some r"
proof (induction calls arbitrary: port)
  case (Cons call calls)
  then show ?case
    by (cases call) (auto split: sum.splits prod.splits dest: transition_keeps_cancelled)
qed simp

subsection \<open>Properties\<close>

abbreviation sqlite_runs :: "sqlite_db \<Rightarrow> sqlite_db \<Rightarrow> bool" where
  "sqlite_runs \<equiv> lifecycle_runs createSqliteTaskLifecycleStore
     (local_facts createSqliteTaskLifecycleStore sqlite_history sqlite_valid)"

text \<open>
  Claim C11. Whatever commands are applied to a store without changes yet, the recorded history of
  every Task is a chain of legal transitions: each entry is allowed by the Task state machine (or
  is the proven correction of a system block, with no user action pending), versions count up by
  one, each entry starts where the previous one ended, no operation key occurs twice, and the last
  entry is the state and version the Task row holds.
\<close>

theorem lifecycle_history_chain:
  assumes "sqlite_valid db" and "dbChanges db = []" and "sqlite_runs db db'"
  shows "history_ok (sqlite_history db' i) (task_findById db' i)"
proof -
  have "history_ok (sqlite_history db i) (findTask createSqliteTaskLifecycleStore db i)"
    using assms(2) by (simp add: sqlite_history_def history_ok_def)
  from sqlite.runs_history_ok [OF assms(3,1) this] show ?thesis
    by (simp add: createSqliteTaskLifecycleStore_def)
qed

text \<open>
  Claim C10. The SQLite lifecycle store refines the abstract Task board: whatever commands are applied,
  in whatever order, the statuses and versions its rows hold are reached by legal moves of one Task
  at a time, each counting that Task's version up by one and touching no other Task.
\<close>

theorem lifecycle_store_refines_board:
  assumes "sqlite_valid db" and "sqlite_runs db db'"
  shows "board_step\<^sup>*\<^sup>* (task_board createSqliteTaskLifecycleStore db) (task_board createSqliteTaskLifecycleStore db')"
  by (rule sqlite.runs_simulate [OF assms(2,1)])

text \<open>
  Claim C9. A finished Task stays finished: no sequence of commands changes the status of a Task
  that has succeeded, failed or been cancelled, nor the time it was first completed.
\<close>

theorem terminal_task_never_reopened:
  assumes "sqlite_valid db" and "sqlite_runs db db'" and "task_findById db i = Some t"
    and "isTerminalTaskStatus (taskStatus t)" and "taskCompletedAt t = Some c"
  shows "\<exists>t'. task_findById db' i = Some t' \<and> taskStatus t' = taskStatus t \<and> taskCompletedAt t' = Some c"
  using sqlite.runs_terminal [OF assms(2,1), of i t c] assms(3-5)
  by (simp add: createSqliteTaskLifecycleStore_def)

text \<open>
  Commands are idempotent: a command with a normal detail that was accepted once can be
  sent again after any further commands; it is accepted as a replay and the database stays as it is.
\<close>

theorem task_change_replay_noop:
  assumes "sqlite_valid db" and "local_facts createSqliteTaskLifecycleStore sqlite_history sqlite_valid command"
    and "normal_detail (acDetail command)"
    and "applyTaskChange createSqliteTaskLifecycleStore db command at = (db', Inr r)"
    and "sqlite_runs db' db''"
  shows "\<exists>r'. applyTaskChange createSqliteTaskLifecycleStore db'' command at' = (db'', Inr r') \<and> \<not> arApplied r'"
  by (rule sqlite.replayed_command [OF assms])

text \<open>
  No update is lost: when two commands were decided on the same version of a Task and the
  first is applied, the second is refused as stale and changes nothing.
\<close>

theorem concurrent_writer_refused:
  assumes "sqlite_valid db" and "local_facts createSqliteTaskLifecycleStore sqlite_history sqlite_valid c1"
    and "applyTaskChange createSqliteTaskLifecycleStore db c1 at = (db', Inr r)" and "arApplied r"
    and "acTaskId c2 = acTaskId c1" and "acExpectedVersion c2 = acExpectedVersion c1"
    and "findByOperationKey db' (acTaskId c2) (acOperationKey c2) = None"
  shows "applyTaskChange createSqliteTaskLifecycleStore db' c2 at' =
    (db', Inl (StaleTaskState (acTaskId c2) (acExpectedVersion c2) (acExpectedVersion c2 + 1)))"
  by (rule sqlite.second_writer_stale [OF assms(1-6)])
    (simp add: createSqliteTaskLifecycleStore_def assms(7) [simplified])

text \<open>
  A cancelled Subtask is frozen: no sequence of port calls changes anything in its row.
  A finished Subtask changes in one call only by the reopening that awaits completion again.
\<close>

theorem subtask_lifecycle_safe:
  assumes "subtask_findById (spRows port) i = Some r"
  shows "(sbStatus r = SCancelled \<longrightarrow> subtask_findById (spRows (transition_all port calls)) i = Some r)
    \<and> (sbStatus r = SDone \<longrightarrow> transitionSubtask port input at = Inr (port', s) \<longrightarrow>
         subtask_findById (spRows port') i = Some r' \<longrightarrow>
         r' = r \<or> sbStatus r' \<in> {SAwaitingIntegration, SAwaitingDecision})"
  using transition_all_cancelled [OF assms] transition_done [OF _ assms] by blast

subsection \<open>Evaluations\<close>

lemma no_facts_local: "acFacts command = None \<Longrightarrow> local_facts store history valid command"
  by (simp add: local_facts_def run_facts_def)

definition sample_task_row :: "TaskStatus \<Rightarrow> string option \<Rightarrow> TaskRow" where
  "sample_task_row status completed = \<lparr>rwId = ''t1'', rwAccountId = ''a'', rwConversationId = ''c'', rwStatus = status,
     rwStateVersion = 1, rwStateDetail = JObj [], rwCompletedAt = completed, rwUpdatedAt = ''0''\<rparr>"

definition sample_db :: "TaskStatus \<Rightarrow> string option \<Rightarrow> sqlite_db" where
  "sample_db status completed = \<lparr>dbTasks = [sample_task_row status completed], dbChanges = [], dbOutbox = [], dbSequence = 0,
     dbRevisions = []\<rparr>"

definition sample_command :: "string \<Rightarrow> TaskStatus \<Rightarrow> sqlite_db ApplyTaskChangeCommand" where
  "sample_command key to = \<lparr>acTaskId = ''t1'', acDecisionId = ''d'' @ key, acOperationKey = key, acExpectedVersion = 1,
     acGenerationId = None, acGraphRevision = None, acTo = to, acDetail = EMPTY_TASK_STATE_DETAIL,
     acActor = TaskDomain, acReason = ''r'', acEvidenceRefs = None, acFacts = None\<rparr>"

definition sample_after :: "TaskStatus \<Rightarrow> string option \<Rightarrow> TaskStatus \<Rightarrow> sqlite_db" where
  "sample_after status completed to =
     fst (applyTaskChange createSqliteTaskLifecycleStore (sample_db status completed) (sample_command ''k'' to) ''5'')"

lemma sample_command_local [simp]: "local_facts store history valid (sample_command key to)"
  by (rule no_facts_local) (simp add: sample_command_def)

lemma sample_valid [simp]: "sqlite_valid (sample_db status completed)"
  by (simp add: sqlite_valid_def sample_db_def)

lemma sample_runs: "sqlite_runs (sample_db status completed) (sample_after status completed to)"
proof -
  have "applyTaskChange createSqliteTaskLifecycleStore (sample_db status completed) (sample_command ''k'' to) ''5''
      = (sample_after status completed to,
         snd (applyTaskChange createSqliteTaskLifecycleStore (sample_db status completed) (sample_command ''k'' to) ''5''))"
    by (simp add: sample_after_def)
  from lifecycle_runs.runs_step [OF lifecycle_runs.runs_refl _ this] show ?thesis by simp
qed

theorem lifecycle_history_chain_witness:
  "history_ok (sqlite_history (sample_after TRunning None TSucceeded) ''t1'')
     (task_findById (sample_after TRunning None TSucceeded) ''t1'')
   \<and> length (sqlite_history (sample_after TRunning None TSucceeded) ''t1'') = 1"
proof -
  have "length (sqlite_history (sample_after TRunning None TSucceeded) ''t1'') = 1" by code_simp
  moreover have "history_ok (sqlite_history (sample_after TRunning None TSucceeded) ''t1'')
     (task_findById (sample_after TRunning None TSucceeded) ''t1'')"
    by (rule lifecycle_history_chain [OF sample_valid _ sample_runs]) (simp add: sample_db_def)
  ultimately show ?thesis by simp
qed

theorem terminal_task_never_reopened_witness:
  "\<exists>t'. task_findById (sample_after TCancelled (Some ''3'') TRunning) ''t1'' = Some t' \<and> taskStatus t' = TCancelled
     \<and> taskCompletedAt t' = Some ''3''"
proof -
  have "task_findById (sample_db TCancelled (Some ''3'')) ''t1'' = Some (rowToTask (sample_task_row TCancelled (Some ''3'')))"
    by (simp add: task_findById_def sample_db_def sample_task_row_def)
  from terminal_task_never_reopened [OF sample_valid sample_runs this, of "''3''"] show ?thesis
    by (simp add: rowToTask_def sample_task_row_def isTerminalTaskStatus_def)
qed

theorem lifecycle_store_refines_board_witness:
  "board_step\<^sup>*\<^sup>* (task_board createSqliteTaskLifecycleStore (sample_db TQueued None))
     (task_board createSqliteTaskLifecycleStore (sample_after TQueued None TRunning))"
  using lifecycle_store_refines_board [OF sample_valid sample_runs] .

lemma empty_detail_normal: "normal_detail EMPTY_TASK_STATE_DETAIL"
  by code_simp

lemma sample_applied:
  "\<exists>r. applyTaskChange createSqliteTaskLifecycleStore (sample_db TRunning None) (sample_command ''k'' TSucceeded) ''5''
     = (sample_after TRunning None TSucceeded, Inr r) \<and> arApplied r"
proof -
  have "case snd (applyTaskChange createSqliteTaskLifecycleStore (sample_db TRunning None) (sample_command ''k'' TSucceeded) ''5'')
     of Inl _ \<Rightarrow> False | Inr r \<Rightarrow> arApplied r" by code_simp
  then show ?thesis
    by (auto simp: sample_after_def split: sum.splits intro!: prod_eqI)
qed

theorem task_change_replay_noop_witness:
  "\<exists>r'. applyTaskChange createSqliteTaskLifecycleStore (sample_after TRunning None TSucceeded)
     (sample_command ''k'' TSucceeded) ''9'' = (sample_after TRunning None TSucceeded, Inr r') \<and> \<not> arApplied r'"
proof -
  obtain r where a: "applyTaskChange createSqliteTaskLifecycleStore (sample_db TRunning None) (sample_command ''k'' TSucceeded) ''5''
     = (sample_after TRunning None TSucceeded, Inr r)" using sample_applied by blast
  show ?thesis
    by (rule task_change_replay_noop [OF sample_valid sample_command_local _ a runs_refl])
      (simp add: sample_command_def empty_detail_normal)
qed

theorem concurrent_writer_refused_witness:
  "applyTaskChange createSqliteTaskLifecycleStore (sample_after TRunning None TSucceeded) (sample_command ''j'' TFailed) ''9''
     = (sample_after TRunning None TSucceeded, Inl (StaleTaskState ''t1'' 1 2))"
proof -
  obtain r where a: "applyTaskChange createSqliteTaskLifecycleStore (sample_db TRunning None) (sample_command ''k'' TSucceeded) ''5''
     = (sample_after TRunning None TSucceeded, Inr r)" "arApplied r" using sample_applied by blast
  have fresh: "findByOperationKey (sample_after TRunning None TSucceeded) ''t1'' ''j'' = None" by code_simp
  show ?thesis
    using concurrent_writer_refused [OF sample_valid sample_command_local a, of "sample_command ''j'' TFailed" "''9''"] fresh
    by (simp add: sample_command_def)
qed

definition sample_subtasks :: subtask_port where
  "sample_subtasks = \<lparr>spRows = [\<lparr>sbId = ''s1'', sbStatus = SCancelled, sbResult = [], sbArtifacts = [],
     sbVerification = JNull, sbError = None, sbUpdatedAt = ''0''\<rparr>], spTransitions = []\<rparr>"

definition sample_calls :: "(TransitionSubtaskInput \<times> string) list" where
  "sample_calls = [(\<lparr>tsSubtaskId = ''s1'', tsTo = SReady, tsActor = TaskDomain, tsReason = [],
     tsChanges = \<lparr>scResult = Some ''x'', scArtifacts = None, scVerification = None, scError = None\<rparr>\<rparr>, ''4'')]"

theorem subtask_lifecycle_safe_witness:
  "subtask_findById (spRows (transition_all sample_subtasks sample_calls)) ''s1'' = Some (hd (spRows sample_subtasks))"
proof -
  have "subtask_findById (spRows sample_subtasks) ''s1'' = Some (hd (spRows sample_subtasks))"
    by (simp add: subtask_findById_def sample_subtasks_def)
  from subtask_lifecycle_safe [OF this, of sample_calls] show ?thesis by (simp add: sample_subtasks_def)
qed

end
