(* ===== verification/Resource_Partition.thy ===== *)
theory Resource_Partition
  imports Prelude
begin

text \<open>
  Resource partitions and claims (\<open>src/src/resource/types.ts\<close>, \<open>partition.ts\<close>): the normal
  form of a partition identity, its canonical key, the covering order and claim conflicts.
  Every \<open>throw\<close> of the source is \<^const>\<open>Inl\<close> of its message. \<open>normalize('NFC')\<close> is the identity on
  code units up to \<open>0xFF\<close>, and \<open>toLocaleLowerCase('en-US')\<close> is \<^const>\<open>toLowerCase\<close> there.
\<close>

datatype AccessMode = ReadAccess | WriteAccess

datatype PartitionIdentity =
    Repository (repositoryId: string)
  | Worktree (wtRepositoryId: string) (wtWorkspaceId: string)
  | PathPartition (pathMountId: string) (normalizedRelativePath: string)
  | MountRoot (rootMountId: string)
  | Logical (namespace: string) (logicalKey: string)
  | ExternalObject (provider: string) (extAccount: string) (extCollection: string) (objectId: string)

record ResourceClaim =
  partition :: PartitionIdentity
  access :: AccessMode

record MountRegistration =
  mountId :: string
  caseSensitive :: bool

subsection \<open>Normal forms\<close>

abbreviation slash :: char where "slash \<equiv> CHR 0x2F"
abbreviation backslash :: char where "backslash \<equiv> CHR 0x5C"

definition normalizeOpaqueSegment :: "string \<Rightarrow> string \<Rightarrow> bool \<Rightarrow> string result" where
  "normalizeOpaqueSegment value label allowWildcard =
     (let normalized = js_trim value in
      if normalized = [] \<or> (\<exists>c \<in> set normalized. is_control c) \<or> slash \<in> set normalized \<or> backslash \<in> set normalized
      then Inl (label @ '' must be a non-empty opaque segment'')
      else if \<not> allowWildcard \<and> normalized = ''*'' then Inl (label @ '' cannot be a wildcard'')
      else Inr normalized)"

fun safe_segments :: "string \<Rightarrow> bool \<Rightarrow> string list \<Rightarrow> string list result" where
  "safe_segments label allowWildcard [] = Inr []"
| "safe_segments label allowWildcard (segment # rest) =
     (if segment = [] \<or> segment = ''.'' then safe_segments label allowWildcard rest
      else if segment = ''..'' \<or> (\<exists>c \<in> set segment. is_control c)
      then Inl (label @ '' contains an unsafe segment'')
      else if CHR ''*'' \<in> set segment \<and> (\<not> allowWildcard \<or> segment \<noteq> ''*'')
      then Inl (label @ '' supports only whole-segment wildcards'')
      else rbind (safe_segments label allowWildcard rest) (\<lambda>segments. Inr (segment # segments)))"

definition normalizeSegmentedValue :: "string \<Rightarrow> string \<Rightarrow> bool \<Rightarrow> string result" where
  "normalizeSegmentedValue value label allowWildcard =
     rbind (safe_segments label allowWildcard
              (js_split slash (map (\<lambda>c. if c = backslash then slash else c) value)))
       (\<lambda>segments. if segments = [] then Inl (label @ '' must not be empty'')
                   else Inr (js_join [slash] segments))"

definition normalizeMountRegistration :: "MountRegistration \<Rightarrow> MountRegistration result" where
  "normalizeMountRegistration registration =
     rbind (normalizeOpaqueSegment (mountId registration) ''mountId'' False) (\<lambda>m.
       Inr \<lparr>mountId = toLowerCase m, caseSensitive = caseSensitive registration\<rparr>)"

text \<open>\<^verbatim>\<open>/^[a-zA-Z]:[\\/]/u\<close>\<close>

definition windows_absolute_path :: "string \<Rightarrow> bool" where
  "windows_absolute_path s = (case s of a # b # c # _ \<Rightarrow>
     (is_lower a \<or> is_upper a) \<and> b = CHR '':'' \<and> (c = backslash \<or> c = slash) | _ \<Rightarrow> False)"

definition normalizeMountedRelativePath :: "MountRegistration \<Rightarrow> string \<Rightarrow> PartitionIdentity result" where
  "normalizeMountedRelativePath registration input =
     rbind (normalizeMountRegistration registration) (\<lambda>mount.
       let value = js_trim input in
       if startsWith value [slash] \<or> startsWith value [backslash] \<or> windows_absolute_path value
       then Inl ''mounted paths must be relative to a registered mount''
       else rbind (normalizeSegmentedValue value ''path'' False) (\<lambda>p.
              Inr (PathPartition (mountId mount) (if caseSensitive mount then p else toLowerCase p))))"

fun normalizePartitionIdentity :: "PartitionIdentity \<Rightarrow> PartitionIdentity result" where
  "normalizePartitionIdentity (Repository r) =
     rbind (normalizeOpaqueSegment r ''repositoryId'' False) (\<lambda>r'. Inr (Repository r'))"
| "normalizePartitionIdentity (Worktree r w) =
     rbind (normalizeOpaqueSegment r ''repositoryId'' False) (\<lambda>r'.
     rbind (normalizeOpaqueSegment w ''workspaceId'' False) (\<lambda>w'. Inr (Worktree r' w')))"
| "normalizePartitionIdentity (PathPartition m p) =
     rbind (normalizeOpaqueSegment m ''mountId'' False) (\<lambda>m'.
     rbind (normalizeSegmentedValue p ''path'' False) (\<lambda>p'. Inr (PathPartition (toLowerCase m') p')))"
| "normalizePartitionIdentity (MountRoot m) =
     rbind (normalizeOpaqueSegment m ''mountId'' False) (\<lambda>m'. Inr (MountRoot (toLowerCase m')))"
| "normalizePartitionIdentity (Logical n k) =
     rbind (normalizeOpaqueSegment n ''namespace'' True) (\<lambda>n'.
     rbind (normalizeSegmentedValue k ''logical key'' True) (\<lambda>k'. Inr (Logical (toLowerCase n') k')))"
| "normalizePartitionIdentity (ExternalObject p a c ob) =
     rbind (normalizeOpaqueSegment p ''provider'' True) (\<lambda>p'.
     rbind (normalizeOpaqueSegment a ''account'' True) (\<lambda>a'.
     rbind (normalizeOpaqueSegment c ''collection'' True) (\<lambda>c'.
     rbind (normalizeSegmentedValue ob ''objectId'' True) (\<lambda>ob'.
       Inr (ExternalObject (toLowerCase p') a' c' ob')))))"

subsection \<open>Canonical keys\<close>

definition hex_digit :: "nat \<Rightarrow> char" where
  "hex_digit n = (if n < 10 then char_of (48 + n) else char_of (55 + n))"

definition percent_byte :: "nat \<Rightarrow> string" where
  "percent_byte n = [CHR ''%'', hex_digit (n div 16), hex_digit (n mod 16)]"

text \<open>\<open>encodeURIComponent\<close>: the unreserved marks stay, other code units become their UTF-8 bytes.\<close>

definition uri_unreserved :: "char \<Rightarrow> bool" where
  "uri_unreserved c \<longleftrightarrow> is_lower c \<or> is_upper c \<or> is_digit c
     \<or> of_char c \<in> {45::nat, 95, 46, 33, 126, 42, 39, 40, 41}"

definition encode_char :: "char \<Rightarrow> string" where
  "encode_char c = (let n = of_char c :: nat in
     if uri_unreserved c then [c]
     else if n < 128 then percent_byte n
     else percent_byte (192 + n div 64) @ percent_byte (128 + n mod 64))"

definition encodeURIComponent :: "string \<Rightarrow> string" where
  "encodeURIComponent s = concat (map encode_char s)"

text \<open>\<^verbatim>\<open>.replace(/%2F/giu, '/')\<close>\<close>

fun restore_slashes :: "string \<Rightarrow> string" where
  "restore_slashes (a # b # c # rest) =
     (if a = CHR ''%'' \<and> b = CHR ''2'' \<and> (c = CHR ''F'' \<or> c = CHR ''f'')
      then slash # restore_slashes rest else a # restore_slashes (b # c # rest))"
| "restore_slashes s = s"

definition encode :: "string \<Rightarrow> string" where
  "encode value = restore_slashes (encodeURIComponent value)"

fun key_parts :: "PartitionIdentity \<Rightarrow> string list" where
  "key_parts (Repository r) = [''repository'', encode r]"
| "key_parts (Worktree r w) = [''worktree'', encode r, encode w]"
| "key_parts (PathPartition m p) = [''path'', encode m, encode p]"
| "key_parts (MountRoot m) = [''mount_root'', encode m]"
| "key_parts (Logical n k) = [''logical'', encode n, encode k]"
| "key_parts (ExternalObject p a c ob) = map encode [''external_object'', p, a, c, ob]"

definition partitionCanonicalKey :: "PartitionIdentity \<Rightarrow> string result" where
  "partitionCanonicalKey identity =
     rbind (normalizePartitionIdentity identity) (\<lambda>normalized. Inr (js_join '':'' (key_parts normalized)))"

subsection \<open>Covering and conflicts\<close>

definition segmentPatternCovers :: "string \<Rightarrow> string \<Rightarrow> bool" where
  "segmentPatternCovers pattern concrete \<longleftrightarrow>
     list_all2 (\<lambda>segment c. segment = ''*'' \<or> segment = c) (js_split slash pattern) (js_split slash concrete)"

definition pathCovers :: "string \<Rightarrow> string \<Rightarrow> bool" where
  "pathCovers parent child \<longleftrightarrow>
     (let ps = js_split slash parent; cs = js_split slash child in
      length ps \<le> length cs \<and> list_all2 (=) ps (take (length ps) cs))"

definition wildcard_matches :: "string \<Rightarrow> string \<Rightarrow> bool" where
  "wildcard_matches parent child \<longleftrightarrow> parent = ''*'' \<or> parent = child"

fun normal_covers :: "PartitionIdentity \<Rightarrow> PartitionIdentity \<Rightarrow> bool" where
  "normal_covers (Repository r) (Repository r') \<longleftrightarrow> r = r'"
| "normal_covers (Repository r) (Worktree r' w') \<longleftrightarrow> r = r'"
| "normal_covers (Worktree r w) (Worktree r' w') \<longleftrightarrow> r = r' \<and> w = w'"
| "normal_covers (MountRoot m) (MountRoot m') \<longleftrightarrow> m = m'"
| "normal_covers (MountRoot m) (PathPartition m' p') \<longleftrightarrow> m = m'"
| "normal_covers (PathPartition m p) (PathPartition m' p') \<longleftrightarrow> m = m' \<and> pathCovers p p'"
| "normal_covers (Logical n k) (Logical n' k') \<longleftrightarrow> wildcard_matches n n' \<and> segmentPatternCovers k k'"
| "normal_covers (ExternalObject p a c ob) (ExternalObject p' a' c' ob') \<longleftrightarrow>
     wildcard_matches p p' \<and> wildcard_matches a a' \<and> wildcard_matches c c' \<and> segmentPatternCovers ob ob'"
| "normal_covers _ _ \<longleftrightarrow> False"

definition partitionCovers :: "PartitionIdentity \<Rightarrow> PartitionIdentity \<Rightarrow> bool result" where
  "partitionCovers parent child =
     rbind (normalizePartitionIdentity parent) (\<lambda>p.
     rbind (normalizePartitionIdentity child) (\<lambda>c. Inr (normal_covers p c)))"

text \<open>\<open>a || b\<close> on results: the right side is evaluated only if the left side is \<open>false\<close>.\<close>

definition partitionsOverlap :: "PartitionIdentity \<Rightarrow> PartitionIdentity \<Rightarrow> bool result" where
  "partitionsOverlap l r =
     rbind (partitionCovers l r) (\<lambda>b. if b then Inr True else partitionCovers r l)"

definition resourceClaimsConflict :: "ResourceClaim \<Rightarrow> ResourceClaim \<Rightarrow> bool result" where
  "resourceClaimsConflict l r =
     rbind (partitionsOverlap (partition l) (partition r)) (\<lambda>b.
       Inr (b \<and> (access l = WriteAccess \<or> access r = WriteAccess)))"

subsection \<open>Facts about trimming and case folding\<close>

lemma js_trim_ends:
  assumes "js_trim s \<noteq> []"
  shows "\<not> js_space (hd (js_trim s)) \<and> \<not> js_space (last (js_trim s))"
proof -
  let ?t = "dropWhile js_space s"
  let ?d = "dropWhile js_space (rev ?t)"
  have u: "js_trim s = rev ?d" by (simp add: js_trim_def trim_start_def)
  with assms have d: "?d \<noteq> []" by auto
  have "rev ?t = takeWhile js_space (rev ?t) @ ?d" by simp
  then have t: "?t = rev ?d @ rev (takeWhile js_space (rev ?t))" by (metis rev_append rev_rev_ident)
  then have "?t \<noteq> []" and "hd ?t = hd (rev ?d)" using d by (metis append_is_Nil_conv rev_is_Nil_conv, metis hd_append2 rev_is_Nil_conv)
  then have "\<not> js_space (hd (rev ?d))" using hd_dropWhile by metis
  moreover have "\<not> js_space (last (rev ?d))" using d by (simp add: last_rev hd_dropWhile)
  ultimately show ?thesis by (simp add: u)
qed

lemma dropWhile_hd: "xs \<noteq> [] \<Longrightarrow> \<not> P (hd xs) \<Longrightarrow> dropWhile P xs = xs"
  by (cases xs) auto

lemma js_trim_fixed: "s \<noteq> [] \<Longrightarrow> \<not> js_space (hd s) \<Longrightarrow> \<not> js_space (last s) \<Longrightarrow> js_trim s = s"
  by (simp add: js_trim_def trim_start_def dropWhile_hd hd_rev)

lemma of_char_lower:
  "(of_char (lower_char c) :: nat) = (let n = of_char c in
     if (65 \<le> n \<and> n \<le> 90) \<or> (192 \<le> n \<and> n \<le> 222 \<and> n \<noteq> 215) then n + 32 else n)"
  by (auto simp: lower_char_def Let_def)

lemma char_eq_nat: "c = d \<longleftrightarrow> (of_char c :: nat) = of_char d"
  by (metis char_of_char)

lemma lower_char_class [simp]:
  "js_space (lower_char c) \<longleftrightarrow> js_space c"
  "is_control (lower_char c) \<longleftrightarrow> is_control c"
  "lower_char c = slash \<longleftrightarrow> c = slash"
  "lower_char c = backslash \<longleftrightarrow> c = backslash"
  "lower_char c = CHR ''*'' \<longleftrightarrow> c = CHR ''*''"
  "lower_char (lower_char c) = lower_char c"
  by (auto simp: js_space_def is_control_def char_eq_nat of_char_lower Let_def)

lemma toLowerCase_idem [simp]: "toLowerCase (toLowerCase s) = toLowerCase s"
  by (simp add: toLowerCase_def comp_def)

definition opaque :: "bool \<Rightarrow> string \<Rightarrow> bool" where
  "opaque w n \<longleftrightarrow> n \<noteq> [] \<and> \<not> js_space (hd n) \<and> \<not> js_space (last n)
     \<and> (\<forall>c \<in> set n. \<not> is_control c \<and> c \<noteq> slash \<and> c \<noteq> backslash) \<and> (\<not> w \<longrightarrow> n \<noteq> ''*'')"

lemma normalizeOpaqueSegment_Inr:
  "normalizeOpaqueSegment v l w = Inr n \<Longrightarrow> n = js_trim v \<and> opaque w n"
  using js_trim_ends [of v]
  by (auto simp: normalizeOpaqueSegment_def Let_def opaque_def split: if_splits)

lemma normalizeOpaqueSegment_fixed: "opaque w n \<Longrightarrow> normalizeOpaqueSegment n l w = Inr n"
  by (auto simp: normalizeOpaqueSegment_def Let_def opaque_def js_trim_fixed)

lemma opaque_lower: "opaque w n \<Longrightarrow> opaque w (toLowerCase n)"
proof -
  have "map lower_char n = ''*'' \<longleftrightarrow> n = ''*''" by (cases n) (auto simp: Cons_eq_map_conv)
  then show "opaque w n \<Longrightarrow> opaque w (toLowerCase n)"
    by (auto simp: opaque_def toLowerCase_def hd_map last_map)
qed

subsection \<open>Segments\<close>

definition plain_segment :: "bool \<Rightarrow> string \<Rightarrow> bool" where
  "plain_segment w s \<longleftrightarrow> s \<noteq> [] \<and> s \<noteq> ''.'' \<and> s \<noteq> ''..'' \<and> (\<forall>c \<in> set s. \<not> is_control c)
     \<and> (CHR ''*'' \<in> set s \<longrightarrow> w \<and> s = ''*'')"

lemma safe_segments_Inr: "safe_segments l w xs = Inr ys \<Longrightarrow> set ys \<subseteq> set xs \<and> list_all (plain_segment w) ys"
  by (induction xs arbitrary: ys) (auto simp: plain_segment_def split: if_splits)

lemma safe_segments_fixed: "list_all (plain_segment w) ys \<Longrightarrow> safe_segments l w ys = Inr ys"
  by (induction ys) (auto simp: plain_segment_def)

lemma js_split_no_sep_one: "c \<notin> set s \<Longrightarrow> js_split c s = [s]"
  by (induction s) auto

lemma js_split_join:
  "xs \<noteq> [] \<Longrightarrow> (\<And>x. x \<in> set xs \<Longrightarrow> c \<notin> set x) \<Longrightarrow> js_split c (js_join [c] xs) = xs"
  by (induction "[c]" xs rule: js_join.induct) (auto simp: js_split_no_sep_one js_split_append_sep)

lemma set_js_join: "set (js_join sep xs) \<subseteq> set sep \<union> \<Union> (set ` set xs)"
  by (induction sep xs rule: js_join.induct) auto

definition segmented :: "bool \<Rightarrow> string \<Rightarrow> bool" where
  "segmented w s \<longleftrightarrow> (\<exists>xs. xs \<noteq> [] \<and> s = js_join [slash] xs
     \<and> (\<forall>x \<in> set xs. plain_segment w x \<and> slash \<notin> set x \<and> backslash \<notin> set x))"

lemma in_split_chars: "x \<in> set (js_split c s) \<Longrightarrow> set x \<subseteq> set s"
  by (induction s arbitrary: x) (fastforce split: if_splits list.splits)+

lemma normalizeSegmentedValue_Inr: "normalizeSegmentedValue v l w = Inr s \<Longrightarrow> segmented w s"
proof -
  assume "normalizeSegmentedValue v l w = Inr s"
  then obtain xs where xs: "safe_segments l w (js_split slash (map (\<lambda>c. if c = backslash then slash else c) v)) = Inr xs"
    and ne: "xs \<noteq> []" and s: "s = js_join [slash] xs"
    by (auto simp: normalizeSegmentedValue_def split: if_splits)
  from safe_segments_Inr [OF xs]
  have sub: "set xs \<subseteq> set (js_split slash (map (\<lambda>c. if c = backslash then slash else c) v))"
    and pl: "list_all (plain_segment w) xs" by auto
  have "slash \<notin> set x \<and> backslash \<notin> set x" if "x \<in> set xs" for x
    using that sub js_split_no_sep [of x slash] in_split_chars [of x slash]
    by (fastforce split: if_splits)
  with ne s pl show ?thesis unfolding segmented_def list_all_iff by blast
qed

lemma segmented_split:
  assumes "segmented w s"
  shows "list_all (plain_segment w) (js_split slash s) \<and> js_join [slash] (js_split slash s) = s \<and> backslash \<notin> set s"
proof -
  from assms obtain xs where xs: "xs \<noteq> []" "s = js_join [slash] xs"
    "\<And>x. x \<in> set xs \<Longrightarrow> plain_segment w x \<and> slash \<notin> set x \<and> backslash \<notin> set x"
    by (auto simp: segmented_def)
  have "js_split slash s = xs" using xs by (simp add: js_split_join)
  moreover have "backslash \<notin> set s" using xs set_js_join [of "[slash]" xs] by auto
  ultimately show ?thesis using xs by (auto simp: list_all_iff js_join_split)
qed

lemma normalizeSegmentedValue_fixed: "segmented w s \<Longrightarrow> normalizeSegmentedValue s l w = Inr s"
proof -
  assume seg: "segmented w s"
  note f = segmented_split [OF seg]
  have "map (\<lambda>c. if c = backslash then slash else c) s = s"
    using f by (intro map_idI) auto
  with f show ?thesis by (simp add: normalizeSegmentedValue_def safe_segments_fixed)
qed

subsection \<open>Normal identities\<close>

fun normal :: "PartitionIdentity \<Rightarrow> bool" where
  "normal (Repository r) \<longleftrightarrow> opaque False r"
| "normal (Worktree r w) \<longleftrightarrow> opaque False r \<and> opaque False w"
| "normal (PathPartition m p) \<longleftrightarrow> opaque False m \<and> toLowerCase m = m \<and> segmented False p"
| "normal (MountRoot m) \<longleftrightarrow> opaque False m \<and> toLowerCase m = m"
| "normal (Logical n k) \<longleftrightarrow> opaque True n \<and> toLowerCase n = n \<and> segmented True k"
| "normal (ExternalObject p a c ob) \<longleftrightarrow>
     opaque True p \<and> toLowerCase p = p \<and> opaque True a \<and> opaque True c \<and> segmented True ob"

lemma normalize_normal: "normalizePartitionIdentity x = Inr y \<Longrightarrow> normal y"
  by (cases x) (auto dest!: normalizeOpaqueSegment_Inr normalizeSegmentedValue_Inr intro: opaque_lower)

lemma normalize_fixed: "normal y \<Longrightarrow> normalizePartitionIdentity y = Inr y"
  by (cases y) (auto simp: normalizeOpaqueSegment_fixed normalizeSegmentedValue_fixed)

subsection \<open>Canonical keys are unambiguous\<close>

lemma of_char_hex: "n < 16 \<Longrightarrow> (of_char (hex_digit n) :: nat) = (if n < 10 then 48 + n else 55 + n)"
  by (simp add: hex_digit_def)

lemma hex_digit_inject: "m < 16 \<Longrightarrow> n < 16 \<Longrightarrow> hex_digit m = hex_digit n \<longleftrightarrow> m = n"
  by (auto simp: char_eq_nat of_char_hex split: if_splits)

lemma percent_byte_inject:
  assumes "m < 256" and "n < 256"
  shows "percent_byte m @ x = percent_byte n @ y \<longleftrightarrow> m = n \<and> x = y"
proof -
  have "m div 16 < 16" "n div 16 < 16" using assms by auto
  then have "percent_byte m @ x = percent_byte n @ y \<longleftrightarrow> m div 16 = n div 16 \<and> m mod 16 = n mod 16 \<and> x = y"
    by (simp add: percent_byte_def hex_digit_inject)
  also have "\<dots> \<longleftrightarrow> m = n \<and> x = y" by (metis div_mult_mod_eq)
  finally show ?thesis .
qed

definition key_char :: "char \<Rightarrow> string" where
  "key_char c = (if c = slash then [slash] else encode_char c)"

lemma restore_plain: "c \<noteq> CHR ''%'' \<Longrightarrow> restore_slashes (c # rest) = c # restore_slashes rest"
  by (cases "c # rest" rule: restore_slashes.cases) auto

lemma hex_not_percent: "n < 16 \<Longrightarrow> hex_digit n \<noteq> CHR ''%''"
  by (auto simp: char_eq_nat of_char_hex)

lemma restore_byte:
  assumes "n < 256" and "n \<noteq> 47"
  shows "restore_slashes (percent_byte n @ rest) = percent_byte n @ restore_slashes rest"
proof -
  have "\<not> (hex_digit (n div 16) = CHR ''2'' \<and> (hex_digit (n mod 16) = CHR ''F'' \<or> hex_digit (n mod 16) = CHR ''f''))"
  proof -
    have "\<not> (n div 16 = 2 \<and> n mod 16 = 15)" using assms(2) by presburger
    moreover have "n div 16 < 16" using assms(1) by auto
    ultimately show ?thesis by (auto simp: char_eq_nat of_char_hex split: if_splits)
  qed
  with assms show ?thesis by (simp add: percent_byte_def restore_plain hex_not_percent)
qed

lemma of_char_256: "(of_char c :: nat) < 256"
  by (metis of_char_mod_256 mod_less_divisor zero_less_numeral)

lemma utf8_bytes: "192 + (of_char c :: nat) div 64 < 256 \<and> 128 + (of_char c :: nat) mod 64 < 256"
proof -
  have "(of_char c :: nat) div 64 < 4" using of_char_256 [of c] by (auto intro: less_mult_imp_div_less)
  moreover have "(of_char c :: nat) mod 64 < 64" by simp
  ultimately show ?thesis by linarith
qed

lemma restore_encode_char: "restore_slashes (encode_char c @ rest) = key_char c @ restore_slashes rest"
proof (cases "uri_unreserved c")
  case True
  then have "c \<noteq> CHR ''%'' \<and> c \<noteq> slash"
    by (auto simp: uri_unreserved_def is_lower_def is_upper_def is_digit_def)
  with True show ?thesis by (simp add: encode_char_def key_char_def restore_plain)
next
  case False
  have n: "(of_char c :: nat) < 256" by (rule of_char_256)
  show ?thesis
  proof (cases "(of_char c :: nat) < 128")
    case lt: True
    show ?thesis
    proof (cases "c = slash")
      case True
      with False show ?thesis
        unfolding \<open>c = slash\<close>
        by (simp add: encode_char_def key_char_def percent_byte_def hex_digit_def char_eq_nat)
    next
      case False
      then have "(of_char c :: nat) \<noteq> 47" by (simp add: char_eq_nat)
      with False \<open>\<not> uri_unreserved c\<close> lt show ?thesis
        by (simp add: encode_char_def key_char_def restore_byte Let_def)
    qed
  next
    case ge: False
    then have "c \<noteq> slash" by auto
    with False ge utf8_bytes [of c] show ?thesis
      by (simp add: encode_char_def key_char_def restore_byte Let_def)
  qed
qed

lemma encode_concat: "encode s = concat (map key_char s)"
  by (induction s) (simp_all add: encode_def encodeURIComponent_def restore_encode_char)

lemma unreserved_plain: "uri_unreserved c \<Longrightarrow> c \<noteq> CHR ''%'' \<and> c \<noteq> CHR '':''"
  by (auto simp: uri_unreserved_def is_lower_def is_upper_def is_digit_def)

lemma key_char_cases:
  obtains (plain) "key_char c = [c]" "c \<noteq> CHR ''%''" "c \<noteq> CHR '':''"
  | (one) "key_char c = percent_byte (of_char c)" "(of_char c :: nat) < 128"
  | (two) "key_char c = percent_byte (192 + of_char c div 64) @ percent_byte (128 + of_char c mod 64)"
          "128 \<le> (of_char c :: nat)"
proof (cases "c = slash \<or> uri_unreserved c")
  case True
  with that(1) unreserved_plain [of c] show ?thesis by (auto simp: key_char_def encode_char_def)
next
  case False
  with that(2,3) show ?thesis
    by (cases "(of_char c :: nat) < 128") (auto simp: key_char_def encode_char_def Let_def)
qed

lemma percent_byte_hd: "percent_byte n @ x \<noteq> c # y" if "c \<noteq> CHR ''%''"
  using that by (simp add: percent_byte_def)

lemma key_char_prefix_free:
  assumes "key_char c @ x = key_char d @ y"
  shows "c = d \<and> x = y"
proof -
  note bytes = utf8_bytes [of c] utf8_bytes [of d]
  have eq: "c = d" if "(of_char c :: nat) div 64 = of_char d div 64" "(of_char c :: nat) mod 64 = of_char d mod 64"
    using that by (metis div_mult_mod_eq of_char_eq_iff)
  show ?thesis
  proof (cases rule: key_char_cases [of c])
    case plain
    then show ?thesis using assms by (cases rule: key_char_cases [of d]) (auto simp: percent_byte_def)
  next
    case one
    then show ?thesis using assms bytes
      by (cases rule: key_char_cases [of d]) (auto simp: percent_byte_hd percent_byte_inject)
  next
    case two
    then show ?thesis using assms bytes eq
      by (cases rule: key_char_cases [of d]) (auto simp: percent_byte_hd percent_byte_inject)
  qed
qed

lemma encode_inject: "encode s = encode t \<longleftrightarrow> s = t"
proof -
  have ne: "key_char c \<noteq> []" for c by (rule key_char_cases [of c]) (auto simp: percent_byte_def)
  have "concat (map key_char s) = concat (map key_char t) \<Longrightarrow> s = t" for s t
  proof (induction s arbitrary: t)
    case Nil
    then show ?case using ne by (cases t) auto
  next
    case (Cons c s)
    then show ?case using ne key_char_prefix_free [of c] by (cases t) fastforce+
  qed
  then show ?thesis by (auto simp: encode_concat)
qed

lemma hex_not_colon: "n < 16 \<Longrightarrow> hex_digit n \<noteq> CHR '':''"
  by (auto simp: char_eq_nat of_char_hex)

lemma percent_byte_no_colon: "n < 256 \<Longrightarrow> CHR '':'' \<notin> set (percent_byte n)"
proof -
  assume "n < 256"
  then have "n div 16 < 16" by presburger
  then show ?thesis using hex_not_colon [of "n div 16"] hex_not_colon [of "n mod 16"]
    by (auto simp: percent_byte_def)
qed

lemma encode_no_colon: "CHR '':'' \<notin> set (encode s)"
proof -
  have "CHR '':'' \<notin> set (key_char c)" for c
  proof -
    note b = utf8_bytes [of c]
    show ?thesis
      by (rule key_char_cases [of c]) (use b percent_byte_no_colon in \<open>auto\<close>)
  qed
  then show ?thesis by (auto simp: encode_concat)
qed

lemma encode_external_object: "encode ''external_object'' = ''external_object''"
  by code_simp

lemma key_parts_inject: "key_parts x = key_parts y \<longleftrightarrow> x = y"
  by (cases x; cases y) (auto simp: encode_inject encode_external_object)

lemma key_parts_no_colon: "p \<in> set (key_parts x) \<Longrightarrow> CHR '':'' \<notin> set p"
  by (cases x) (auto simp: encode_no_colon)

lemma key_join_inject: "js_join '':'' (key_parts x) = js_join '':'' (key_parts y) \<longleftrightarrow> x = y"
proof -
  have "js_split CHR '':'' (js_join '':'' (key_parts z)) = key_parts z" for z
    by (rule js_split_join) (use key_parts_no_colon in \<open>auto\<close>, cases z, auto)
  then show ?thesis by (metis key_parts_inject)
qed

subsection \<open>The covering order\<close>

lemma list_all2_refl_trans:
  assumes "\<And>x y z. P x y \<Longrightarrow> P y z \<Longrightarrow> P x z"
  shows "list_all2 P xs ys \<Longrightarrow> list_all2 P ys zs \<Longrightarrow> list_all2 P xs zs"
  using list_all2_trans [of P P P] assms by blast

lemma segmentPatternCovers_refl: "segmentPatternCovers k k"
  by (simp add: segmentPatternCovers_def list_all2_same)

lemma segmentPatternCovers_trans:
  "segmentPatternCovers k l \<Longrightarrow> segmentPatternCovers l m \<Longrightarrow> segmentPatternCovers k m"
  unfolding segmentPatternCovers_def by (rule list_all2_refl_trans) auto

lemma pathCovers_prefix: "pathCovers p q \<longleftrightarrow> (\<exists>r. js_split slash q = js_split slash p @ r)"
  by (auto simp: pathCovers_def Let_def list_all2_eq [symmetric]) (metis append_take_drop_id)

lemma normal_covers_refl: "normal_covers x x"
  by (cases x) (auto simp: pathCovers_prefix segmentPatternCovers_refl wildcard_matches_def)

lemma normal_covers_trans: "normal_covers x y \<Longrightarrow> normal_covers y z \<Longrightarrow> normal_covers x z"
  by (cases x; cases y; cases z)
     (auto simp: pathCovers_prefix wildcard_matches_def intro: segmentPatternCovers_trans)

lemma segmentPatternCovers_antisym:
  "segmentPatternCovers k l \<Longrightarrow> segmentPatternCovers l k \<Longrightarrow> k = l"
proof -
  assume "segmentPatternCovers k l" "segmentPatternCovers l k"
  then have "js_split slash k = js_split slash l"
    unfolding segmentPatternCovers_def by (rule list_all2_antisym [rotated]) auto
  then show ?thesis by (metis js_join_split)
qed

lemma pathCovers_antisym: "pathCovers p q \<Longrightarrow> pathCovers q p \<Longrightarrow> p = q"
proof -
  assume "pathCovers p q" "pathCovers q p"
  then have "js_split slash p = js_split slash q" by (auto simp: pathCovers_prefix)
  then show ?thesis by (metis js_join_split)
qed

lemma normal_covers_antisym: "normal_covers x y \<Longrightarrow> normal_covers y x \<Longrightarrow> x = y"
  by (cases x; cases y)
     (auto simp: wildcard_matches_def intro: segmentPatternCovers_antisym pathCovers_antisym)

text \<open>
  The canonical key is exact: for two partition identities that normalise, the keys are
  equal precisely when the normal forms are, so no two different partitions share a lock key.
\<close>

theorem partition_canonical_key_exact:
  assumes "normalizePartitionIdentity x = Inr a" and "normalizePartitionIdentity y = Inr b"
  shows "partitionCanonicalKey x = partitionCanonicalKey y \<longleftrightarrow> a = b"
  using assms by (simp add: partitionCanonicalKey_def key_join_inject)

theorem partition_canonical_key_exact_witness:
  "partitionCanonicalKey (Logical ''DB'' ''t//rows'') = partitionCanonicalKey (Logical ''db '' ''t/rows'')
   \<and> partitionCanonicalKey (Worktree ''a:b'' ''c'') \<noteq> partitionCanonicalKey (Worktree ''a'' ''b:c'')"
  by (intro conjI)
     (subst partition_canonical_key_exact [of _ "Logical ''db'' ''t/rows''" _ "Logical ''db'' ''t/rows''"],
       code_simp, code_simp, simp,
      subst partition_canonical_key_exact [of _ "Worktree ''a:b'' ''c''" _ "Worktree ''a'' ''b:c''"],
       code_simp, code_simp, simp)

text \<open>
  Normalisation is idempotent: what it returns is a fixed point, so an identity read
  back from storage keeps its key.
\<close>

theorem partition_normalize_idempotent:
  assumes "normalizePartitionIdentity x = Inr a"
  shows "normalizePartitionIdentity a = Inr a \<and> partitionCanonicalKey a = partitionCanonicalKey x"
  using normalize_fixed [OF normalize_normal [OF assms]] assms by (simp add: partitionCanonicalKey_def)

theorem partition_normalize_idempotent_witness:
  "partitionCanonicalKey (PathPartition ''data'' ''a/b'') = partitionCanonicalKey (PathPartition '' DATA'' ''./a//b'')"
proof -
  have "normalizePartitionIdentity (PathPartition '' DATA'' ''./a//b'') = Inr (PathPartition ''data'' ''a/b'')"
    by code_simp
  then show ?thesis by (rule partition_normalize_idempotent [THEN conjunct2])
qed

text \<open>
  On identities that normalise, covering is a partial order up to normal form: reflexive,
  transitive, and two partitions that cover each other have the same canonical key.
\<close>

theorem partition_covers_order:
  assumes "normalizePartitionIdentity x = Inr a" and "normalizePartitionIdentity y = Inr b"
    and "normalizePartitionIdentity z = Inr c"
  shows "partitionCovers x x = Inr True
    \<and> (partitionCovers x y = Inr True \<longrightarrow> partitionCovers y z = Inr True \<longrightarrow> partitionCovers x z = Inr True)
    \<and> (partitionCovers x y = Inr True \<longrightarrow> partitionCovers y x = Inr True
         \<longrightarrow> partitionCanonicalKey x = partitionCanonicalKey y)"
  using assms normal_covers_refl normal_covers_trans [of a b c] normal_covers_antisym [of a b]
  by (auto simp: partitionCovers_def partitionCanonicalKey_def)

theorem partition_covers_order_witness:
  "partitionCovers (MountRoot ''M'') (PathPartition ''m'' ''a/b'') = Inr True"
proof -
  have n: "normalizePartitionIdentity (MountRoot ''M'') = Inr (MountRoot ''m'')"
    "normalizePartitionIdentity (PathPartition ''m'' ''a'') = Inr (PathPartition ''m'' ''a'')"
    "normalizePartitionIdentity (PathPartition ''m'' ''a/b'') = Inr (PathPartition ''m'' ''a/b'')"
    by code_simp+
  have "partitionCovers (MountRoot ''M'') (PathPartition ''m'' ''a'') = Inr True"
    "partitionCovers (PathPartition ''m'' ''a'') (PathPartition ''m'' ''a/b'') = Inr True" by code_simp+
  then show ?thesis using partition_covers_order [OF n] by blast
qed

text \<open>
  A claim that writes a partition conflicts with every claim below it in the covering
  order, in either argument position; two reads never conflict.
\<close>

theorem claims_conflict_symmetric_sound:
  assumes "normalizePartitionIdentity (partition l) = Inr a" and "normalizePartitionIdentity (partition r) = Inr b"
  shows "resourceClaimsConflict l r = resourceClaimsConflict r l
    \<and> resourceClaimsConflict l r = Inr (\<not> (access l = ReadAccess \<and> access r = ReadAccess)
           \<and> (normal_covers a b \<or> normal_covers b a))"
  using assms
  by (cases "access l"; cases "access r")
     (auto simp: resourceClaimsConflict_def partitionsOverlap_def partitionCovers_def)

theorem claims_conflict_symmetric_sound_witness:
  "resourceClaimsConflict \<lparr>partition = PathPartition ''m'' ''a'', access = WriteAccess\<rparr>
       \<lparr>partition = PathPartition ''m'' ''a/b'', access = ReadAccess\<rparr> = Inr True"
proof -
  have n: "normalizePartitionIdentity (partition \<lparr>partition = PathPartition ''m'' ''a'', access = WriteAccess\<rparr>)
        = Inr (PathPartition ''m'' ''a'')"
    "normalizePartitionIdentity (partition \<lparr>partition = PathPartition ''m'' ''a/b'', access = ReadAccess\<rparr>)
        = Inr (PathPartition ''m'' ''a/b'')"
    by code_simp+
  show ?thesis unfolding claims_conflict_symmetric_sound [OF n, THEN conjunct2] by code_simp
qed

text \<open>
  The overlap test asks only whether one pattern covers the other. The logical patterns \<open>a/*\<close> and
  \<open>*/b\<close> both cover the key \<open>a/b\<close>, yet two writes of them do not conflict.
\<close>

lemma wildcard_overlap_missed:
  "partitionCovers (Logical ''n'' ''a/*'') (Logical ''n'' ''a/b'') = Inr True
   \<and> partitionCovers (Logical ''n'' ''*/b'') (Logical ''n'' ''a/b'') = Inr True
   \<and> resourceClaimsConflict \<lparr>partition = Logical ''n'' ''a/*'', access = WriteAccess\<rparr>
       \<lparr>partition = Logical ''n'' ''*/b'', access = WriteAccess\<rparr> = Inr False"
  by code_simp

end
