(* ===== verification/Resource_Lease.thy ===== *)
theory Resource_Lease
  imports Resource_Partition Task_State Work_Graph_Frontier
begin

text \<open>
  Durable resource leases and waits (\<open>src/src/storage/resource-lease-repo.ts\<close>,
  \<open>src/src/resource/repositories.ts\<close>, \<open>src/src/execution/resource-lease-service.ts\<close>).

  The tables the repository reads are one record: \<open>resource_leases\<close> and \<open>resource_waits\<close> in
  row order, the attempts of \<open>conversation_attempt_owners\<close>, and the columns of \<open>subtasks\<close>, \<open>tasks\<close>
  and \<open>work_units\<close> its joins and foreign keys use. Time stamps are strings, compared as SQLite
  compares text. A JSON column holds the value it encodes. Every operation is one transaction: it
  returns the next tables and its result, and an error leaves the tables as they were. The identifiers
  \<open>randomUUID\<close> returns during one call are a function \<open>uuid\<close> of the number of the call.
\<close>

subsection \<open>Records\<close>

record ResourceLeaseRecord = ResourceClaim +
  rlId :: string
  rlPartitionKey :: string
  rlTaskId :: string
  rlGenerationId :: string
  rlSubtaskId :: string
  rlAttemptId :: string
  rlWorkUnitId :: string
  rlLeaseToken :: string
  rlHeartbeatAt :: string
  rlExpiresAt :: string
  rlReleasedAt :: "string option"
  rlRevocationRequestedAt :: "string option"
  rlRevocationReason :: "string option"
  rlCreatedAt :: string

datatype ResourceWaitStatus = WaitWaiting | WaitResolved | WaitCancelled

record ResourceWaitRecord = ResourceClaim +
  rwId :: string
  rwTaskId :: string
  rwGenerationId :: string
  rwSubtaskId :: string
  rwAttemptId :: string
  rwPartitionKey :: string
  rwConflictingLeaseIds :: "string list"
  rwStatus :: ResourceWaitStatus
  rwRequestedAt :: string
  rwResolvedAt :: "string option"

record ClaimResourceLeasesInput =
  ciTaskId :: string
  ciGenerationId :: string
  ciSubtaskId :: string
  ciAttemptId :: string
  ciWorkUnitId :: string
  ciLeaseToken :: string
  ciClaims :: "ResourceClaim list"
  ciNow :: string
  ciExpiresAt :: string

datatype ClaimResourceLeasesResult =
    Claimed "ResourceLeaseRecord list"
  | Conflict (conflictWaits: "ResourceWaitRecord list") (conflictingLeases: "ResourceLeaseRecord list")

record subtask_row =
  srId :: string
  srTaskId :: string
  srGenerationId :: string
  srStatus :: WorkGraphRuntimeStatus

record resource_db =
  rdLeases :: "ResourceLeaseRecord list"
  rdWaits :: "ResourceWaitRecord list"
  rdAttemptOwners :: "string list"
  rdSubtasks :: "subtask_row list"
  rdTasks :: "(string \<times> TaskStatus) list"
  rdWorkUnits :: "string list"

subsection \<open>Array methods with a predicate that may throw\<close>

fun result_some :: "('a \<Rightarrow> bool result) \<Rightarrow> 'a list \<Rightarrow> bool result" where
  "result_some p [] = Inr False"
| "result_some p (x # xs) = rbind (p x) (\<lambda>b. if b then Inr True else result_some p xs)"

fun result_filter :: "('a \<Rightarrow> bool result) \<Rightarrow> 'a list \<Rightarrow> 'a list result" where
  "result_filter p [] = Inr []"
| "result_filter p (x # xs) = rbind (p x) (\<lambda>b. rbind (result_filter p xs) (\<lambda>ys. Inr (if b then x # ys else ys)))"

fun result_find :: "('a \<Rightarrow> bool result) \<Rightarrow> 'a list \<Rightarrow> 'a option result" where
  "result_find p [] = Inr None"
| "result_find p (x # xs) = rbind (p x) (\<lambda>b. if b then Inr (Some x) else result_find p xs)"

subsection \<open>Queries\<close>

abbreviation lease_claim :: "ResourceLeaseRecord \<Rightarrow> ResourceClaim" where
  "lease_claim \<equiv> ResourceClaim.truncate"

abbreviation wait_claim :: "ResourceWaitRecord \<Rightarrow> ResourceClaim" where
  "wait_claim \<equiv> ResourceClaim.truncate"

definition lease_order :: "ResourceLeaseRecord \<Rightarrow> ResourceLeaseRecord \<Rightarrow> int" where
  "lease_order l r = cmp_or (code_unit_compare (rlCreatedAt l) (rlCreatedAt r)) (code_unit_compare (rlId l) (rlId r))"

definition wait_order :: "ResourceWaitRecord \<Rightarrow> ResourceWaitRecord \<Rightarrow> int" where
  "wait_order l r = cmp_or (code_unit_compare (rwRequestedAt l) (rwRequestedAt r)) (code_unit_compare (rwId l) (rwId r))"

definition lease_active :: "resource_db \<Rightarrow> string \<Rightarrow> ResourceLeaseRecord \<Rightarrow> bool" where
  "lease_active db now l \<longleftrightarrow> rlReleasedAt l = None \<and> (now < rlExpiresAt l \<or> rlAttemptId l \<in> set (rdAttemptOwners db))"

definition findActiveLeases :: "resource_db \<Rightarrow> string \<Rightarrow> ResourceLeaseRecord list" where
  "findActiveLeases db now = js_sort lease_order (filter (lease_active db now) (rdLeases db))"

definition findWaits :: "resource_db \<Rightarrow> string \<Rightarrow> ResourceWaitRecord list" where
  "findWaits db attemptId = js_sort wait_order (filter (\<lambda>w. rwAttemptId w = attemptId) (rdWaits db))"

text \<open>An empty \<open>taskId\<close> is falsy and does not filter.\<close>

definition in_task_scope :: "string option \<Rightarrow> string \<Rightarrow> bool" where
  "in_task_scope task t \<longleftrightarrow> (case task of None \<Rightarrow> True | Some i \<Rightarrow> i = [] \<or> t = i)"

definition findWaiting :: "resource_db \<Rightarrow> string option \<Rightarrow> ResourceWaitRecord list" where
  "findWaiting db task = js_sort wait_order (filter (\<lambda>w. rwStatus w = WaitWaiting \<and> in_task_scope task (rwTaskId w)) (rdWaits db))"

definition subtask_ready :: "resource_db \<Rightarrow> ResourceWaitRecord \<Rightarrow> bool" where
  "subtask_ready db w \<longleftrightarrow> (\<exists>s \<in> set (rdSubtasks db). srId s = rwSubtaskId w \<and> srTaskId s = rwTaskId w
     \<and> srGenerationId s = rwGenerationId w \<and> srStatus s = SReady)"

definition task_schedulable :: "resource_db \<Rightarrow> string \<Rightarrow> bool" where
  "task_schedulable db t \<longleftrightarrow> (\<exists>(i, st) \<in> set (rdTasks db). i = t \<and> st \<in> {TRunning, TQueued, TNeedsAction})"

definition pending_writer :: "resource_db \<Rightarrow> ResourceWaitRecord \<Rightarrow> bool" where
  "pending_writer db w \<longleftrightarrow> access w = WriteAccess \<and> rwStatus w \<in> {WaitWaiting, WaitResolved}
     \<and> subtask_ready db w \<and> task_schedulable db (rwTaskId w)"

definition pendingWriters :: "resource_db \<Rightarrow> ResourceWaitRecord list" where
  "pendingWriters db = js_sort wait_order (filter (pending_writer db) (rdWaits db))"

definition writer_blocks :: "resource_db \<Rightarrow> string \<Rightarrow> ResourceClaim \<Rightarrow> bool result" where
  "writer_blocks db subtask c =
     (if access c = ReadAccess
      then result_some (\<lambda>w. if rwSubtaskId w \<noteq> subtask then resourceClaimsConflict c (wait_claim w) else Inr False) (pendingWriters db)
      else Inr False)"

subsection \<open>Waiting\<close>

definition same_wait :: "string \<Rightarrow> string \<Rightarrow> AccessMode \<Rightarrow> ResourceWaitRecord \<Rightarrow> bool" where
  "same_wait attempt key mode w \<longleftrightarrow> rwAttemptId w = attempt \<and> rwPartitionKey w = key \<and> access w = mode"

definition unique_violation :: "string \<Rightarrow> string" where
  "unique_violation column = ''UNIQUE constraint failed: '' @ column"

definition upsertWait ::
  "ClaimResourceLeasesInput \<Rightarrow> ResourceClaim \<Rightarrow> string list \<Rightarrow> string \<Rightarrow> resource_db \<Rightarrow> (ResourceWaitRecord \<times> resource_db) result"
where
  "upsertWait input c conflictingLeaseIds uuid db =
     rbind (partitionCanonicalKey (partition c)) (\<lambda>key.
       let waitId = ''resource_wait_'' @ uuid; matches = same_wait (ciAttemptId input) key (access c);
           ids = sort_strings conflictingLeaseIds in
       if list_ex matches (rdWaits db)
       then (let touch = (\<lambda>w. if matches w then w\<lparr>rwConflictingLeaseIds := ids, rwStatus := WaitWaiting,
                   rwRequestedAt := ciNow input, rwResolvedAt := None\<rparr> else w);
                 waits = map touch (rdWaits db) in
             Inr (hd (filter matches waits), db\<lparr>rdWaits := waits\<rparr>))
       else if waitId \<in> rwId ` set (rdWaits db) then Inl (unique_violation ''resource_waits.id'')
       else (let w = \<lparr>partition = partition c, access = access c, rwId = waitId, rwTaskId = ciTaskId input,
                   rwGenerationId = ciGenerationId input, rwSubtaskId = ciSubtaskId input, rwAttemptId = ciAttemptId input,
                   rwPartitionKey = key, rwConflictingLeaseIds = ids, rwStatus = WaitWaiting,
                   rwRequestedAt = ciNow input, rwResolvedAt = None\<rparr> in
             Inr (w, db\<lparr>rdWaits := rdWaits db @ [w]\<rparr>)))"

fun wait_for_leases ::
  "ClaimResourceLeasesInput \<Rightarrow> (nat \<Rightarrow> string) \<Rightarrow> (ResourceClaim \<times> ResourceLeaseRecord list) list
   \<Rightarrow> ResourceWaitRecord list \<Rightarrow> resource_db \<Rightarrow> (ResourceWaitRecord list \<times> resource_db) result"
where
  "wait_for_leases input uuid [] waits db = Inr (waits, db)"
| "wait_for_leases input uuid ((c, conflicts) # rest) waits db =
     rbind (upsertWait input c (map rlId conflicts) (uuid (length waits)) db) (\<lambda>(w, db').
       wait_for_leases input uuid rest (waits @ [w]) db')"

fun wait_for_writers ::
  "ClaimResourceLeasesInput \<Rightarrow> (nat \<Rightarrow> string) \<Rightarrow> ResourceClaim list
   \<Rightarrow> ResourceWaitRecord list \<Rightarrow> resource_db \<Rightarrow> (ResourceWaitRecord list \<times> resource_db) result"
where
  "wait_for_writers input uuid [] waits db = Inr (waits, db)"
| "wait_for_writers input uuid (c # rest) waits db =
     rbind (result_some (\<lambda>w. rbind (partitionCanonicalKey (partition c)) (\<lambda>key. Inr (rwPartitionKey w = key))) waits) (\<lambda>known.
       if known then wait_for_writers input uuid rest waits db
       else rbind (upsertWait input c [] (uuid (length waits)) db) (\<lambda>(w, db').
         wait_for_writers input uuid rest (waits @ [w]) db'))"

subsection \<open>Claiming\<close>

definition new_lease :: "ClaimResourceLeasesInput \<Rightarrow> string \<Rightarrow> string \<Rightarrow> ResourceClaim \<Rightarrow> ResourceLeaseRecord" where
  "new_lease input uuid key c = \<lparr>partition = partition c, access = access c, rlId = ''resource_lease_'' @ uuid,
     rlPartitionKey = key, rlTaskId = ciTaskId input, rlGenerationId = ciGenerationId input, rlSubtaskId = ciSubtaskId input,
     rlAttemptId = ciAttemptId input, rlWorkUnitId = ciWorkUnitId input, rlLeaseToken = ciLeaseToken input,
     rlHeartbeatAt = ciNow input, rlExpiresAt = ciExpiresAt input, rlReleasedAt = None, rlRevocationRequestedAt = None,
     rlRevocationReason = None, rlCreatedAt = ciNow input\<rparr>"

definition lease_identity :: "ResourceLeaseRecord \<Rightarrow> string \<times> string \<times> string \<times> AccessMode" where
  "lease_identity l = (rlAttemptId l, rlLeaseToken l, rlPartitionKey l, access l)"

definition insert_lease :: "ResourceLeaseRecord \<Rightarrow> resource_db \<Rightarrow> resource_db result" where
  "insert_lease l db =
     (if rlId l \<in> rlId ` set (rdLeases db) then Inl (unique_violation ''resource_leases.id'')
      else if lease_identity l \<in> lease_identity ` set (rdLeases db)
      then Inl (unique_violation ''resource_leases.attempt_id, resource_leases.lease_token, resource_leases.partition_key, resource_leases.access_mode'')
      else if rlTaskId l \<in> fst ` set (rdTasks db) \<and> rlSubtaskId l \<in> srId ` set (rdSubtasks db) \<and> rlWorkUnitId l \<in> set (rdWorkUnits db)
      then Inr (db\<lparr>rdLeases := rdLeases db @ [l]\<rparr>)
      else Inl ''FOREIGN KEY constraint failed'')"

text \<open>The loop over the claims: \<open>n\<close> counts the rows inserted so far.\<close>

fun insert_leases ::
  "ClaimResourceLeasesInput \<Rightarrow> (nat \<Rightarrow> string) \<Rightarrow> nat \<Rightarrow> ResourceClaim list
   \<Rightarrow> ResourceLeaseRecord list \<Rightarrow> resource_db \<Rightarrow> (ResourceLeaseRecord list \<times> resource_db) result"
where
  "insert_leases input uuid n [] inserted db = Inr (inserted, db)"
| "insert_leases input uuid n (c # rest) inserted db =
     rbind (partitionCanonicalKey (partition c)) (\<lambda>key.
       if list_ex (\<lambda>l. rlPartitionKey l = key \<and> access l = access c) inserted
       then insert_leases input uuid n rest inserted db
       else rbind (insert_lease (new_lease input (uuid n) key c) db) (\<lambda>db'.
         insert_leases input uuid (Suc n) rest (inserted @ [new_lease input (uuid n) key c]) db'))"

definition cancel_superseded_waits :: "ClaimResourceLeasesInput \<Rightarrow> resource_db \<Rightarrow> resource_db" where
  "cancel_superseded_waits input db = db\<lparr>rdWaits := map (\<lambda>w.
     if rwTaskId w = ciTaskId input \<and> rwGenerationId w = ciGenerationId input \<and> rwSubtaskId w = ciSubtaskId input
        \<and> rwAttemptId w \<noteq> ciAttemptId input \<and> rwStatus w \<noteq> WaitCancelled
     then w\<lparr>rwStatus := WaitCancelled, rwResolvedAt := Some (ciNow input)\<rparr> else w) (rdWaits db)\<rparr>"

definition resolve_own_waits :: "ClaimResourceLeasesInput \<Rightarrow> resource_db \<Rightarrow> resource_db" where
  "resolve_own_waits input db = db\<lparr>rdWaits := map (\<lambda>w.
     if rwAttemptId w = ciAttemptId input \<and> rwStatus w = WaitWaiting
     then w\<lparr>rwStatus := WaitResolved, rwResolvedAt := Some (ciNow input)\<rparr> else w) (rdWaits db)\<rparr>"

definition own_leases :: "ClaimResourceLeasesInput \<Rightarrow> resource_db \<Rightarrow> ResourceLeaseRecord list" where
  "own_leases input db = filter (\<lambda>l. rlAttemptId l = ciAttemptId input \<and> rlLeaseToken l = ciLeaseToken input)
     (findActiveLeases db (ciNow input))"

definition other_leases :: "ClaimResourceLeasesInput \<Rightarrow> resource_db \<Rightarrow> ResourceLeaseRecord list" where
  "other_leases input db = filter (\<lambda>l. rlAttemptId l \<noteq> ciAttemptId input) (findActiveLeases db (ciNow input))"

definition lease_conflicts :: "ClaimResourceLeasesInput \<Rightarrow> resource_db \<Rightarrow> ResourceLeaseRecord list result" where
  "lease_conflicts input db =
     result_filter (\<lambda>l. result_some (\<lambda>c. resourceClaimsConflict c (lease_claim l)) (ciClaims input)) (other_leases input db)"

definition queue_claim ::
  "ClaimResourceLeasesInput \<Rightarrow> (nat \<Rightarrow> string) \<Rightarrow> ResourceLeaseRecord list \<Rightarrow> ResourceClaim list \<Rightarrow> resource_db
   \<Rightarrow> (ClaimResourceLeasesResult \<times> resource_db) result"
where
  "queue_claim input uuid conflicts queued db =
     rbind (result_map (\<lambda>c. rbind (result_filter (\<lambda>l. resourceClaimsConflict c (lease_claim l)) conflicts) (\<lambda>ls. Inr (c, ls)))
              (ciClaims input)) (\<lambda>items.
     rbind (wait_for_leases input uuid (filter (\<lambda>(c, ls). ls \<noteq> []) items) [] db) (\<lambda>(waits, db1).
     rbind (wait_for_writers input uuid queued waits db1) (\<lambda>(waits', db2).
       Inr (Conflict waits' conflicts, db2))))"

definition grant_claim ::
  "ClaimResourceLeasesInput \<Rightarrow> (nat \<Rightarrow> string) \<Rightarrow> resource_db \<Rightarrow> (ClaimResourceLeasesResult \<times> resource_db) result"
where
  "grant_claim input uuid db =
     rbind (insert_leases input uuid 0 (ciClaims input) (own_leases input db) (cancel_superseded_waits input db)) (\<lambda>(inserted, db').
       Inr (Claimed inserted, resolve_own_waits input db'))"

definition claim_result ::
  "ClaimResourceLeasesInput \<Rightarrow> (nat \<Rightarrow> string) \<Rightarrow> resource_db \<Rightarrow> (ClaimResourceLeasesResult \<times> resource_db) result"
where
  "claim_result input uuid db =
     rbind (lease_conflicts input db) (\<lambda>conflicts.
     rbind (result_filter (writer_blocks db (ciSubtaskId input)) (ciClaims input)) (\<lambda>queued.
       if conflicts \<noteq> [] \<or> queued \<noteq> [] then queue_claim input uuid conflicts queued db else grant_claim input uuid db))"

text \<open>\<open>transaction.immediate()\<close>: an error rolls everything back.\<close>

definition transact :: "'db \<Rightarrow> ('a \<times> 'db) result \<Rightarrow> 'a result \<times> 'db" where
  "transact db r = (case r of Inl e \<Rightarrow> (Inl e, db) | Inr (x, db') \<Rightarrow> (Inr x, db'))"

definition claim ::
  "ClaimResourceLeasesInput \<Rightarrow> (nat \<Rightarrow> string) \<Rightarrow> resource_db \<Rightarrow> ClaimResourceLeasesResult result \<times> resource_db"
where
  "claim input uuid db = transact db (claim_result input uuid db)"

subsection \<open>Updates\<close>

text \<open>\<open>UPDATE resource_leases SET f WHERE p\<close>, with the number of changed rows.\<close>

definition update_leases ::
  "(ResourceLeaseRecord \<Rightarrow> bool) \<Rightarrow> (ResourceLeaseRecord \<Rightarrow> ResourceLeaseRecord) \<Rightarrow> resource_db \<Rightarrow> nat \<times> resource_db"
where
  "update_leases p f db = (length (filter p (rdLeases db)), db\<lparr>rdLeases := map (\<lambda>l. if p l then f l else l) (rdLeases db)\<rparr>)"

definition update_waits ::
  "(ResourceWaitRecord \<Rightarrow> bool) \<Rightarrow> (ResourceWaitRecord \<Rightarrow> ResourceWaitRecord) \<Rightarrow> resource_db \<Rightarrow> nat \<times> resource_db"
where
  "update_waits p f db = (length (filter p (rdWaits db)), db\<lparr>rdWaits := map (\<lambda>w. if p w then f w else w) (rdWaits db)\<rparr>)"

definition heartbeat :: "string \<Rightarrow> string \<Rightarrow> string \<Rightarrow> string \<Rightarrow> resource_db \<Rightarrow> nat \<times> resource_db" where
  "heartbeat attemptId leaseToken now expiresAt db =
     update_leases (\<lambda>l. rlAttemptId l = attemptId \<and> rlLeaseToken l = leaseToken \<and> lease_active db now l
         \<and> rlRevocationRequestedAt l = None)
       (\<lambda>l. l\<lparr>rlHeartbeatAt := now, rlExpiresAt := expiresAt\<rparr>) db"

definition releaseAttempt :: "string \<Rightarrow> string \<Rightarrow> string \<Rightarrow> resource_db \<Rightarrow> nat \<times> resource_db" where
  "releaseAttempt attemptId leaseToken releasedAt db =
     update_leases (\<lambda>l. rlAttemptId l = attemptId \<and> rlLeaseToken l = leaseToken \<and> rlReleasedAt l = None)
       (\<lambda>l. l\<lparr>rlReleasedAt := Some releasedAt\<rparr>) db"

definition releaseReconciledAttempt :: "string \<Rightarrow> string \<Rightarrow> resource_db \<Rightarrow> nat \<times> resource_db" where
  "releaseReconciledAttempt attemptId releasedAt db =
     update_leases (\<lambda>l. rlAttemptId l = attemptId \<and> rlReleasedAt l = None) (\<lambda>l. l\<lparr>rlReleasedAt := Some releasedAt\<rparr>) db"

definition releaseRevokedAttempt :: "string \<Rightarrow> string \<Rightarrow> resource_db \<Rightarrow> nat \<times> resource_db" where
  "releaseRevokedAttempt attemptId now db =
     update_leases (\<lambda>l. rlAttemptId l = attemptId \<and> rlReleasedAt l = None \<and> rlRevocationRequestedAt l \<noteq> None)
       (\<lambda>l. l\<lparr>rlReleasedAt := Some now\<rparr>) db"

text \<open>An empty \<open>generationId\<close> is falsy; an empty list of Subtasks changes nothing.\<close>

definition control_scope :: "string \<Rightarrow> string option \<Rightarrow> string list option \<Rightarrow> string \<Rightarrow> string \<Rightarrow> string \<Rightarrow> bool" where
  "control_scope taskId generationId subtaskIds t g s \<longleftrightarrow> t = taskId
     \<and> (case generationId of None \<Rightarrow> True | Some i \<Rightarrow> i = [] \<or> g = i)
     \<and> (case subtaskIds of None \<Rightarrow> True | Some ids \<Rightarrow> s \<in> set ids)"

definition requestRevocation ::
  "string \<Rightarrow> string option \<Rightarrow> string list option \<Rightarrow> string \<Rightarrow> string \<Rightarrow> resource_db \<Rightarrow> nat \<times> resource_db"
where
  "requestRevocation taskId generationId subtaskIds reason now db =
     (if subtaskIds = Some [] then (0, db)
      else update_leases (\<lambda>l. rlReleasedAt l = None
             \<and> control_scope taskId generationId subtaskIds (rlTaskId l) (rlGenerationId l) (rlSubtaskId l))
        (\<lambda>l. l\<lparr>rlRevocationRequestedAt := Some (case rlRevocationRequestedAt l of Some t \<Rightarrow> t | None \<Rightarrow> now),
               rlRevocationReason := Some (case rlRevocationReason l of Some r \<Rightarrow> r | None \<Rightarrow> reason)\<rparr>) db)"

definition cancelWaits ::
  "string \<Rightarrow> string option \<Rightarrow> string list option \<Rightarrow> string \<Rightarrow> resource_db \<Rightarrow> nat \<times> resource_db"
where
  "cancelWaits taskId generationId subtaskIds now db =
     (if subtaskIds = Some [] then (0, db)
      else update_waits (\<lambda>w. rwStatus w = WaitWaiting
             \<and> control_scope taskId generationId subtaskIds (rwTaskId w) (rwGenerationId w) (rwSubtaskId w))
        (\<lambda>w. w\<lparr>rwStatus := WaitCancelled, rwResolvedAt := Some now\<rparr>) db)"

subsection \<open>Resolving waits\<close>

definition update_wait :: "string \<Rightarrow> (ResourceWaitRecord \<Rightarrow> ResourceWaitRecord) \<Rightarrow> resource_db \<Rightarrow> nat \<times> resource_db" where
  "update_wait wid f = update_waits (\<lambda>w. rwId w = wid \<and> rwStatus w = WaitWaiting) f"

fun resolve_waits ::
  "string \<Rightarrow> ResourceLeaseRecord list \<Rightarrow> (ResourceWaitRecord \<Rightarrow> bool result) \<Rightarrow> ResourceWaitRecord list
   \<Rightarrow> ResourceWaitRecord list \<Rightarrow> resource_db \<Rightarrow> (ResourceWaitRecord list \<times> resource_db) result"
where
  "resolve_waits now active blocked [] resolved db = Inr (resolved, db)"
| "resolve_waits now active blocked (w # rest) resolved db =
     rbind (blocked w) (\<lambda>b.
       if b then resolve_waits now active blocked rest resolved db
       else rbind (result_find (\<lambda>l. resourceClaimsConflict (wait_claim w) (lease_claim l)) active) (\<lambda>conflict.
         case conflict of
           Some l \<Rightarrow> resolve_waits now active blocked rest resolved
             (snd (update_wait (rwId w) (\<lambda>x. x\<lparr>rwConflictingLeaseIds := [rlId l]\<rparr>) db))
         | None \<Rightarrow>
             let (changed, db') = update_wait (rwId w) (\<lambda>x. x\<lparr>rwStatus := WaitResolved, rwResolvedAt := Some now\<rparr>) db in
             resolve_waits now active blocked rest
               (if changed = 1 then resolved @ [w\<lparr>rwStatus := WaitResolved, rwResolvedAt := Some now\<rparr>] else resolved) db'))"

definition resolveSatisfiedWaits ::
  "string \<Rightarrow> string option \<Rightarrow> resource_db \<Rightarrow> ResourceWaitRecord list result \<times> resource_db"
where
  "resolveSatisfiedWaits now task db =
     transact db (resolve_waits now (filter (lease_active db now) (rdLeases db))
       (\<lambda>w. writer_blocks db (rwSubtaskId w) (wait_claim w)) (findWaiting db task) [] db)"

subsection \<open>The service\<close>

definition service_expiry :: "js_runtime \<Rightarrow> int \<Rightarrow> string \<Rightarrow> string result" where
  "service_expiry rt leaseDurationMs now = (case dateParse rt now of None \<Rightarrow> Inl ''Invalid time value''
     | Some t \<Rightarrow> Inr (toISOString rt (t + leaseDurationMs)))"

definition service_claim ::
  "js_runtime \<Rightarrow> int \<Rightarrow> string \<Rightarrow> (nat \<Rightarrow> string) \<Rightarrow> string option \<Rightarrow> string option \<Rightarrow> ClaimResourceLeasesInput \<Rightarrow> resource_db
   \<Rightarrow> (ClaimResourceLeasesResult \<times> string) result \<times> resource_db"
where
  "service_claim rt leaseDurationMs clock uuid leaseToken now input db =
     (let now' = (case now of Some t \<Rightarrow> t | None \<Rightarrow> clock);
          token = (case leaseToken of Some t \<Rightarrow> t | None \<Rightarrow> ''resource_token_'' @ uuid 0);
          used = (case leaseToken of Some _ \<Rightarrow> 0 | None \<Rightarrow> 1) in
      case service_expiry rt leaseDurationMs now' of
        Inl e \<Rightarrow> (Inl e, db)
      | Inr expires \<Rightarrow>
          (let (r, db') = claim (input\<lparr>ciLeaseToken := token, ciNow := now', ciExpiresAt := expires\<rparr>) (\<lambda>n. uuid (used + n)) db in
           (rbind r (\<lambda>x. Inr (x, token)), db')))"

definition service_heartbeat ::
  "js_runtime \<Rightarrow> int \<Rightarrow> string \<Rightarrow> string \<Rightarrow> string \<Rightarrow> resource_db \<Rightarrow> nat result \<times> resource_db"
where
  "service_heartbeat rt leaseDurationMs attemptId leaseToken now db =
     (case service_expiry rt leaseDurationMs now of
        Inl e \<Rightarrow> (Inl e, db)
      | Inr expires \<Rightarrow> (let (n, db') = heartbeat attemptId leaseToken now expires db in (Inr n, db')))"

text \<open>A release that changed rows resolves the waits it satisfied; if that throws, the release stays.\<close>

definition resolve_after :: "string \<Rightarrow> nat \<times> resource_db \<Rightarrow> nat result \<times> resource_db" where
  "resolve_after now = (\<lambda>(released, db).
     if 0 < released then (case resolveSatisfiedWaits now None db of (Inl e, db') \<Rightarrow> (Inl e, db') | (Inr _, db') \<Rightarrow> (Inr released, db'))
     else (Inr released, db))"

definition service_release :: "string \<Rightarrow> string \<Rightarrow> string \<Rightarrow> resource_db \<Rightarrow> nat result \<times> resource_db" where
  "service_release attemptId leaseToken now db = resolve_after now (releaseAttempt attemptId leaseToken now db)"

definition service_releaseReconciledAttempt :: "string \<Rightarrow> string \<Rightarrow> resource_db \<Rightarrow> nat result \<times> resource_db" where
  "service_releaseReconciledAttempt attemptId now db = resolve_after now (releaseReconciledAttempt attemptId now db)"

definition service_releaseRevokedAttempt :: "string \<Rightarrow> string \<Rightarrow> resource_db \<Rightarrow> nat result \<times> resource_db" where
  "service_releaseRevokedAttempt attemptId now db = resolve_after now (releaseRevokedAttempt attemptId now db)"

subsection \<open>Facts about the array methods\<close>

lemma result_some_False [simp]: "result_some p xs = Inr False \<longleftrightarrow> (\<forall>x \<in> set xs. p x = Inr False)"
  by (induction xs) auto

lemma result_some_True: "result_some p xs = Inr True \<Longrightarrow> \<exists>x \<in> set xs. p x = Inr True"
  by (induction xs) (auto split: if_splits)

lemma result_filter_set:
  "result_filter p xs = Inr ys \<Longrightarrow> set ys = {x \<in> set xs. p x = Inr True} \<and> (\<forall>x \<in> set xs. p x = Inr True \<or> p x = Inr False)"
  by (induction xs arbitrary: ys) (auto split: if_splits)

lemma result_filter_Nil: "result_filter p xs = Inr [] \<longleftrightarrow> (\<forall>x \<in> set xs. p x = Inr False)"
  by (induction xs) auto

lemma result_find_None: "result_find p xs = Inr None \<longleftrightarrow> (\<forall>x \<in> set xs. p x = Inr False)"
  by (induction xs) auto

lemma result_find_Some: "result_find p xs = Inr (Some x) \<Longrightarrow> x \<in> set xs \<and> p x = Inr True"
  by (induction xs) (auto split: if_splits)

lemma result_some_defined: "result_some p xs = Inr b \<Longrightarrow> x \<in> set xs \<Longrightarrow> p x = Inr True \<Longrightarrow> b"
  by (induction xs) (auto split: if_splits)

lemma result_map_Inr: "result_map f xs = Inr ys \<Longrightarrow> list_all2 (\<lambda>x y. f x = Inr y) xs ys"
  by (induction xs arbitrary: ys) auto

subsection \<open>Conflicts\<close>

definition compatible :: "ResourceClaim \<Rightarrow> ResourceClaim \<Rightarrow> bool" where
  "compatible c d \<longleftrightarrow> resourceClaimsConflict c d = Inr False"

lemma conflict_commute:
  assumes "resourceClaimsConflict c d = Inr b"
  shows "resourceClaimsConflict d c = Inr b"
proof -
  from assms obtain x y where "normalizePartitionIdentity (partition c) = Inr x" "normalizePartitionIdentity (partition d) = Inr y"
    by (auto simp: resourceClaimsConflict_def partitionsOverlap_def partitionCovers_def)
  with assms show ?thesis
    by (cases "normal_covers x y"; cases "normal_covers y x"; cases "access c"; cases "access d")
       (simp_all add: resourceClaimsConflict_def partitionsOverlap_def partitionCovers_def)
qed

lemma compatible_commute: "compatible c d \<Longrightarrow> compatible d c"
  unfolding compatible_def by (rule conflict_commute)

lemma set_findActiveLeases [simp]: "set (findActiveLeases db now) = {l \<in> set (rdLeases db). lease_active db now l}"
  by (simp add: findActiveLeases_def)

lemma truncate_new_lease [simp]: "lease_claim (new_lease input i key c) = c"
  by (simp add: ResourceClaim.truncate_def new_lease_def)

lemma new_lease_simps [simp]:
  "rlAttemptId (new_lease input i key c) = ciAttemptId input" "rlLeaseToken (new_lease input i key c) = ciLeaseToken input"
  "rlReleasedAt (new_lease input i key c) = None" "rlExpiresAt (new_lease input i key c) = ciExpiresAt input"
  "rlPartitionKey (new_lease input i key c) = key" "access (new_lease input i key c) = access c"
  "rlSubtaskId (new_lease input i key c) = ciSubtaskId input" "rlTaskId (new_lease input i key c) = ciTaskId input"
  by (simp_all add: new_lease_def)

subsection \<open>What a claim does to the tables\<close>

lemma insert_lease_Inr: "insert_lease l db = Inr db' \<Longrightarrow> db' = db\<lparr>rdLeases := rdLeases db @ [l]\<rparr>"
  by (auto simp: insert_lease_def split: if_splits)

lemma insert_leases_new:
  "insert_leases input uuid n cs inserted db = Inr (inserted', db') \<Longrightarrow>
   \<exists>new. inserted' = inserted @ new \<and> db' = db\<lparr>rdLeases := rdLeases db @ new\<rparr>
     \<and> (\<forall>l \<in> set new. \<exists>c \<in> set cs. \<exists>i key. l = new_lease input i key c)"
proof (induction input uuid n cs inserted db rule: insert_leases.induct)
  case (2 input uuid n c rest inserted db)
  from "2.prems" obtain key where key: "partitionCanonicalKey (partition c) = Inr key" by auto
  show ?case
  proof (cases "list_ex (\<lambda>l. rlPartitionKey l = key \<and> access l = access c) inserted")
    case True
    with "2.prems" "2.IH"(1) [OF True] key show ?thesis by auto
  next
    case False
    let ?l = "new_lease input (uuid n) key c"
    from False "2.prems" key obtain db1 where db1: "insert_lease ?l db = Inr db1"
      and rest: "insert_leases input uuid (Suc n) rest (inserted @ [?l]) db1 = Inr (inserted', db')" by auto
    from "2.IH"(2) [OF False rest] obtain new where
      "inserted' = (inserted @ [?l]) @ new" "db' = db1\<lparr>rdLeases := rdLeases db1 @ new\<rparr>"
      "\<forall>l \<in> set new. \<exists>c \<in> set rest. \<exists>i key. l = new_lease input i key c" by blast
    with insert_lease_Inr [OF db1] show ?thesis by (intro exI [of _ "?l # new"]) auto
  qed
qed auto

lemma insert_leases_cover:
  "insert_leases input uuid n cs inserted db = Inr (inserted', db') \<Longrightarrow> c \<in> set cs \<Longrightarrow>
   \<exists>l \<in> set inserted'. partitionCanonicalKey (partition c) = Inr (rlPartitionKey l) \<and> access l = access c"
proof (induction input uuid n cs inserted db rule: insert_leases.induct)
  case (2 input uuid n d rest inserted db)
  from "2.prems" obtain key where key: "partitionCanonicalKey (partition d) = Inr key" by auto
  show ?case
  proof (cases "list_ex (\<lambda>l. rlPartitionKey l = key \<and> access l = access d) inserted")
    case True
    with "2.prems" key have rest: "insert_leases input uuid n rest inserted db = Inr (inserted', db')" by simp
    from True obtain l where "l \<in> set inserted" "rlPartitionKey l = key" "access l = access d" by (auto simp: list_ex_iff)
    then show ?thesis using "2.IH"(1) [OF True rest] insert_leases_new [OF rest] "2.prems"(2) key by auto
  next
    case False
    let ?l = "new_lease input (uuid n) key d"
    from False "2.prems" key obtain db1 where db1: "insert_lease ?l db = Inr db1"
      and rest: "insert_leases input uuid (Suc n) rest (inserted @ [?l]) db1 = Inr (inserted', db')" by auto
    have "?l \<in> set inserted'" using insert_leases_new [OF rest] by auto
    then show ?thesis using "2.IH"(2) [OF False rest] "2.prems"(2) key by force
  qed
qed simp

lemma same_waits: "\<exists>xs. (db :: resource_db) = db\<lparr>rdWaits := xs\<rparr>"
  by (rule exI [of _ "rdWaits db"]) simp

lemma upsertWait_leases: "upsertWait input c ids i db = Inr (w, db') \<Longrightarrow> \<exists>ws. db' = db\<lparr>rdWaits := ws\<rparr>"
  by (auto simp: upsertWait_def Let_def split: if_splits)

lemma wait_for_leases_leases: "wait_for_leases input uuid items ws db = Inr (ws', db') \<Longrightarrow> \<exists>xs. db' = db\<lparr>rdWaits := xs\<rparr>"
proof (induction input uuid items ws db rule: wait_for_leases.induct)
  case (2 input uuid c conflicts rest waits db)
  then obtain w db1 where "upsertWait input c (map rlId conflicts) (uuid (length waits)) db = Inr (w, db1)"
    "wait_for_leases input uuid rest (waits @ [w]) db1 = Inr (ws', db')" by auto
  with "2.IH" upsertWait_leases show ?case by fastforce
qed (auto intro: same_waits)

lemma wait_for_writers_leases: "wait_for_writers input uuid cs ws db = Inr (ws', db') \<Longrightarrow> \<exists>xs. db' = db\<lparr>rdWaits := xs\<rparr>"
proof (induction input uuid cs ws db rule: wait_for_writers.induct)
  case (2 input uuid c rest waits db)
  then consider "wait_for_writers input uuid rest waits db = Inr (ws', db')"
    | w db1 where "upsertWait input c [] (uuid (length waits)) db = Inr (w, db1)"
      "wait_for_writers input uuid rest (waits @ [w]) db1 = Inr (ws', db')" by (auto split: if_splits)
  then show ?case
  proof cases
    case 1
    with "2.IH"(1) "2.prems" show ?thesis by (auto split: if_splits)
  next
    case 2
    with "2.IH"(2) "2.prems" upsertWait_leases show ?thesis by fastforce
  qed
qed (auto intro: same_waits)

lemma queue_claim_leases:
  assumes "queue_claim input uuid conflicts queued db = Inr (r, db')"
  shows "\<exists>ws xs. r = Conflict ws conflicts \<and> db' = db\<lparr>rdWaits := xs\<rparr>"
  using assms by (auto simp: queue_claim_def dest!: wait_for_leases_leases wait_for_writers_leases)

lemma grant_claim_leases:
  assumes "grant_claim input uuid db = Inr (r, db')"
  obtains new ws where "r = Claimed (own_leases input db @ new)" "db' = db\<lparr>rdLeases := rdLeases db @ new, rdWaits := ws\<rparr>"
    "\<forall>l \<in> set new. \<exists>c \<in> set (ciClaims input). \<exists>i key. l = new_lease input i key c"
    "\<forall>c \<in> set (ciClaims input). \<exists>l \<in> set (own_leases input db @ new).
       partitionCanonicalKey (partition c) = Inr (rlPartitionKey l) \<and> access l = access c"
proof -
  from assms obtain inserted db1 where ins: "insert_leases input uuid 0 (ciClaims input) (own_leases input db) (cancel_superseded_waits input db) = Inr (inserted, db1)"
    and r: "r = Claimed inserted" "db' = resolve_own_waits input db1" by (auto simp: grant_claim_def)
  from insert_leases_new [OF ins] insert_leases_cover [OF ins] r that show ?thesis
    by (auto simp: cancel_superseded_waits_def resolve_own_waits_def)
qed

lemma granted_compatible:
  assumes "claim_result input uuid db = Inr (Claimed ls, db')" and "c \<in> set (ciClaims input)"
    and "l \<in> set (rdLeases db)" "lease_active db (ciNow input) l" "rlAttemptId l \<noteq> ciAttemptId input"
  shows "compatible c (lease_claim l)"
proof -
  from assms(1) have "lease_conflicts input db = Inr []"
    by (auto simp: claim_result_def dest!: queue_claim_leases split: if_splits)
  with assms show ?thesis by (auto simp: lease_conflicts_def other_leases_def result_filter_Nil compatible_def)
qed

subsection \<open>The contract of a lease table\<close>

text \<open>
  What a holder may rely on, whatever the store: a holding never comes back to life as time passes,
  and in one step at most one attempt gains holdings, each compatible with what the others hold.
  Runs are sequences of steps at non-decreasing times.
\<close>

inductive timed_run :: "('db \<Rightarrow> string \<Rightarrow> 'db \<Rightarrow> bool) \<Rightarrow> 'db \<Rightarrow> string \<Rightarrow> 'db \<Rightarrow> string \<Rightarrow> bool"
  for step
where
  here: "t \<le> t' \<Longrightarrow> timed_run step db t db t'"
| later: "timed_run step db t db1 t1 \<Longrightarrow> step db1 t1 db2 \<Longrightarrow> t1 \<le> t2 \<Longrightarrow> timed_run step db t db2 t2"

locale lease_contract =
  fixes holds :: "'db \<Rightarrow> string \<Rightarrow> string \<Rightarrow> ResourceClaim \<Rightarrow> bool"
    and step :: "'db \<Rightarrow> string \<Rightarrow> 'db \<Rightarrow> bool"
  assumes holds_decays: "t \<le> t' \<Longrightarrow> holds db t' a c \<Longrightarrow> holds db t a c"
    and step_gains: "step db t db' \<Longrightarrow>
      \<exists>a. \<forall>b c. holds db' t b c \<longrightarrow> holds db t b c
        \<or> b = a \<and> (\<forall>b' d. b' \<noteq> a \<longrightarrow> holds db t b' d \<longrightarrow> compatible c d)"
begin

definition exclusively :: "'db \<Rightarrow> string \<Rightarrow> bool" where
  "exclusively db t \<longleftrightarrow> (\<forall>a b c d. a \<noteq> b \<longrightarrow> holds db t a c \<longrightarrow> holds db t b d \<longrightarrow> compatible c d)"

lemma exclusively_later: "exclusively db t \<Longrightarrow> t \<le> t' \<Longrightarrow> exclusively db t'"
  unfolding exclusively_def using holds_decays by blast

lemma exclusively_step:
  assumes "step db t db'" and "exclusively db t"
  shows "exclusively db' t"
proof -
  from step_gains [OF assms(1)] obtain a where gains: "holds db' t b c \<Longrightarrow> holds db t b c
    \<or> b = a \<and> (\<forall>b' d. b' \<noteq> a \<longrightarrow> holds db t b' d \<longrightarrow> compatible c d)" for b c by blast
  show ?thesis
    unfolding exclusively_def
  proof (intro allI impI)
    fix x y c d assume xy: "x \<noteq> y" "holds db' t x c" "holds db' t y d"
    with gains [OF xy(2)] gains [OF xy(3)] assms(2) compatible_commute show "compatible c d"
      unfolding exclusively_def by metis
  qed
qed

lemma exclusively_run: "timed_run step db t db' t' \<Longrightarrow> exclusively db t \<Longrightarrow> exclusively db' t'"
  by (induction rule: timed_run.induct) (blast intro: exclusively_step exclusively_later)+

end

subsection \<open>The repository keeps the contract\<close>

text \<open>
  The steps of the repository, and the changes other modules make to the tables it reads. An attempt
  becomes a worktree owner only while its unreleased leases are live: \<open>claimConversation\<close> runs
  in the attempt that holds them.
\<close>

datatype lease_op =
    ClaimOp ClaimResourceLeasesInput "nat \<Rightarrow> string"
  | HeartbeatOp string string string
  | ReleaseOp string string
  | ReleaseReconciledOp string
  | ReleaseRevokedOp string
  | RevokeOp string "string option" "string list option" string
  | CancelWaitsOp string "string option" "string list option"
  | ResolveWaitsOp "string option"
  | OwnerGained string
  | OwnerLost string
  | RowsChanged "subtask_row list" "(string \<times> TaskStatus) list" "string list"

fun lease_step :: "lease_op \<Rightarrow> string \<Rightarrow> resource_db \<Rightarrow> resource_db" where
  "lease_step (ClaimOp input uuid) now db = snd (claim (input\<lparr>ciNow := now\<rparr>) uuid db)"
| "lease_step (HeartbeatOp a k expires) now db = snd (heartbeat a k now expires db)"
| "lease_step (ReleaseOp a k) now db = snd (releaseAttempt a k now db)"
| "lease_step (ReleaseReconciledOp a) now db = snd (releaseReconciledAttempt a now db)"
| "lease_step (ReleaseRevokedOp a) now db = snd (releaseRevokedAttempt a now db)"
| "lease_step (RevokeOp t g ss reason) now db = snd (requestRevocation t g ss reason now db)"
| "lease_step (CancelWaitsOp t g ss) now db = snd (cancelWaits t g ss now db)"
| "lease_step (ResolveWaitsOp task) now db = snd (resolveSatisfiedWaits now task db)"
| "lease_step (OwnerGained a) now db = db\<lparr>rdAttemptOwners := a # rdAttemptOwners db\<rparr>"
| "lease_step (OwnerLost a) now db = db\<lparr>rdAttemptOwners := removeAll a (rdAttemptOwners db)\<rparr>"
| "lease_step (RowsChanged ss ts us) now db = db\<lparr>rdSubtasks := ss, rdTasks := ts, rdWorkUnits := us\<rparr>"

fun lease_op_allowed :: "lease_op \<Rightarrow> string \<Rightarrow> resource_db \<Rightarrow> bool" where
  "lease_op_allowed (OwnerGained a) now db \<longleftrightarrow>
     list_all (\<lambda>l. rlAttemptId l = a \<and> rlReleasedAt l = None \<longrightarrow> lease_active db now l) (rdLeases db)"
| "lease_op_allowed _ now db \<longleftrightarrow> True"

inductive lease_transition :: "resource_db \<Rightarrow> string \<Rightarrow> resource_db \<Rightarrow> bool" where
  "lease_op_allowed op now db \<Longrightarrow> lease_transition db now (lease_step op now db)"

definition lease_holds :: "resource_db \<Rightarrow> string \<Rightarrow> string \<Rightarrow> ResourceClaim \<Rightarrow> bool" where
  "lease_holds db now a c \<longleftrightarrow> (\<exists>l \<in> set (rdLeases db). lease_active db now l \<and> rlAttemptId l = a \<and> lease_claim l = c)"

lemma lease_holds_decays: "t \<le> t' \<Longrightarrow> lease_holds db t' a c \<Longrightarrow> lease_holds db t a c"
  by (auto simp: lease_holds_def lease_active_def intro: le_less_trans)

lemma lease_holds_waits [simp]: "lease_holds (db\<lparr>rdWaits := ws\<rparr>) = lease_holds db"
  by (intro ext) (simp add: lease_holds_def lease_active_def)

lemma lease_holds_rows [simp]: "lease_holds (db\<lparr>rdSubtasks := ss, rdTasks := ts, rdWorkUnits := us\<rparr>) = lease_holds db"
  by (intro ext) (simp add: lease_holds_def lease_active_def)

lemma update_leases_holds:
  assumes "lease_holds (snd (update_leases p f db)) t a c"
    and "\<And>l. p l \<Longrightarrow> lease_claim (f l) = lease_claim l \<and> rlAttemptId (f l) = rlAttemptId l
        \<and> (lease_active db t (f l) \<longrightarrow> lease_active db t l)"
  shows "lease_holds db t a c"
proof -
  have "lease_active (snd (update_leases p f db)) t = lease_active db t"
    by (intro ext) (simp add: update_leases_def lease_active_def)
  with assms(1) obtain l where "l \<in> set (rdLeases db)" "lease_active db t (if p l then f l else l)"
    "rlAttemptId (if p l then f l else l) = a" "lease_claim (if p l then f l else l) = c"
    by (auto simp: lease_holds_def update_leases_def)
  with assms(2) show ?thesis unfolding lease_holds_def by (metis (full_types))
qed

lemma truncate_updates [simp]:
  "lease_claim (l\<lparr>rlHeartbeatAt := x\<rparr>) = lease_claim l" "lease_claim (l\<lparr>rlExpiresAt := x\<rparr>) = lease_claim l"
  "lease_claim (l\<lparr>rlReleasedAt := y\<rparr>) = lease_claim l" "lease_claim (l\<lparr>rlRevocationRequestedAt := y\<rparr>) = lease_claim l"
  "lease_claim (l\<lparr>rlRevocationReason := y\<rparr>) = lease_claim l"
  by (simp_all add: ResourceClaim.truncate_def)

lemma claim_not_granted:
  assumes "\<nexists>ls. fst (claim input uuid db) = Inr (Claimed ls)"
  shows "\<exists>xs. snd (claim input uuid db) = db\<lparr>rdWaits := xs\<rparr>"
proof (cases "claim_result input uuid db")
  case (Inl e)
  then show ?thesis by (simp add: claim_def transact_def same_waits)
next
  case (Inr p)
  obtain r db' where p: "p = (r, db')" by (cases p)
  with Inr assms have "\<nexists>ls. r = Claimed ls" by (auto simp: claim_def transact_def)
  with Inr p have "\<exists>conflicts queued. queue_claim input uuid conflicts queued db = Inr (r, db')"
    by (auto simp: claim_result_def split: if_splits elim!: grant_claim_leases)
  with Inr p show ?thesis by (auto simp: claim_def transact_def dest!: queue_claim_leases)
qed

lemma claim_gains:
  assumes "lease_holds (snd (claim input uuid db)) (ciNow input) b c"
  shows "lease_holds db (ciNow input) b c
    \<or> b = ciAttemptId input \<and> (\<forall>b' d. b' \<noteq> ciAttemptId input \<longrightarrow> lease_holds db (ciNow input) b' d \<longrightarrow> compatible c d)"
proof (cases "claim_result input uuid db")
  case (Inl e)
  with assms show ?thesis by (simp add: claim_def transact_def)
next
  case (Inr p)
  obtain r db' where p: "p = (r, db')" by (cases p)
  show ?thesis
  proof (cases r)
    case (Conflict ws ls)
    with Inr p claim_not_granted [of input uuid db] assms show ?thesis by (auto simp: claim_def transact_def)
  next
    case (Claimed ls)
    with Inr p have "grant_claim input uuid db = Inr (Claimed ls, db')"
      by (auto simp: claim_result_def dest!: queue_claim_leases split: if_splits)
    then obtain new ws where db': "db' = db\<lparr>rdLeases := rdLeases db @ new, rdWaits := ws\<rparr>"
      and new: "\<forall>l \<in> set new. \<exists>c \<in> set (ciClaims input). \<exists>i key. l = new_lease input i key c"
      by (elim grant_claim_leases) auto
    from assms Inr p obtain l where l: "l \<in> set (rdLeases db')" "lease_active db' (ciNow input) l" "rlAttemptId l = b" "lease_claim l = c"
      by (auto simp: claim_def transact_def lease_holds_def)
    show ?thesis
    proof (cases "l \<in> set new")
      case True
      with new l have "c \<in> set (ciClaims input)" "b = ciAttemptId input" by auto
      then show ?thesis using granted_compatible [of input uuid db ls db'] Inr p Claimed by (auto simp: lease_holds_def)
    next
      case False
      with l db' show ?thesis by (auto simp: lease_holds_def lease_active_def)
    qed
  qed
qed

text \<open>The loop of \<open>resolveSatisfiedWaits\<close> changes one wait at a time.\<close>

definition settle_wait ::
  "string \<Rightarrow> ResourceLeaseRecord list \<Rightarrow> (ResourceWaitRecord \<Rightarrow> bool result) \<Rightarrow> ResourceWaitRecord
   \<Rightarrow> (ResourceWaitRecord \<Rightarrow> ResourceWaitRecord) option result"
where
  "settle_wait now active blocked w = rbind (blocked w) (\<lambda>b. if b then Inr None else
     rbind (result_find (\<lambda>l. resourceClaimsConflict (wait_claim w) (lease_claim l)) active) (\<lambda>conflict. Inr (Some
       (case conflict of Some l \<Rightarrow> (\<lambda>x. x\<lparr>rwConflictingLeaseIds := [rlId l]\<rparr>)
        | None \<Rightarrow> (\<lambda>x. x\<lparr>rwStatus := WaitResolved, rwResolvedAt := Some now\<rparr>)))))"

lemma resolve_waits_step:
  assumes "resolve_waits now active blocked (w # rest) acc db = Inr (r, db')"
  obtains g acc' where "settle_wait now active blocked w = Inr g"
    "resolve_waits now active blocked rest acc' (case g of None \<Rightarrow> db | Some f \<Rightarrow> snd (update_wait (rwId w) f db)) = Inr (r, db')"
proof -
  from assms obtain b where b: "blocked w = Inr b" by auto
  show ?thesis
  proof (cases b)
    case True
    with b assms that [of None acc] show ?thesis by (simp add: settle_wait_def)
  next
    case False
    with b assms obtain conflict where "result_find (\<lambda>l. resourceClaimsConflict (wait_claim w) (lease_claim l)) active = Inr conflict" by auto
    with b False assms that show ?thesis
      by (cases conflict) (auto simp: settle_wait_def Let_def case_prod_unfold)
  qed
qed

lemma resolve_waits_leases: "resolve_waits now active blocked ws acc db = Inr (r, db') \<Longrightarrow> \<exists>xs. db' = db\<lparr>rdWaits := xs\<rparr>"
proof (induction ws arbitrary: acc db)
  case (Cons w ws)
  from resolve_waits_step [OF Cons.prems] obtain g acc' where
    "resolve_waits now active blocked ws acc' (case g of None \<Rightarrow> db | Some f \<Rightarrow> snd (update_wait (rwId w) f db)) = Inr (r, db')" .
  from Cons.IH [OF this] show ?case
    by (cases g) (auto simp: update_wait_def update_waits_def)
qed (auto intro: same_waits)

lemma op_holds:
  assumes "lease_holds (lease_step op now db) now b c" and "lease_op_allowed op now db" and "\<nexists>input uuid. op = ClaimOp input uuid"
  shows "lease_holds db now b c"
proof (cases op)
  case (ResolveWaitsOp task)
  have "\<exists>ws. snd (resolveSatisfiedWaits now task db) = db\<lparr>rdWaits := ws\<rparr>"
    by (auto simp: resolveSatisfiedWaits_def transact_def split: sum.splits prod.splits dest!: resolve_waits_leases intro: same_waits)
  with ResolveWaitsOp assms(1) show ?thesis by auto
next
  case (OwnerGained a)
  with assms show ?thesis by (auto simp: lease_holds_def lease_active_def list_all_iff)
next
  case (OwnerLost a)
  with assms show ?thesis by (auto simp: lease_holds_def lease_active_def)
next
  case (CancelWaitsOp t g ss)
  with assms show ?thesis by (auto simp: cancelWaits_def update_waits_def split: if_splits)
next
  case (RevokeOp t g ss reason)
  with assms show ?thesis
    by (auto simp: requestRevocation_def lease_active_def split: if_splits elim!: update_leases_holds)
next
  case (ClaimOp input uuid)
  with assms(3) show ?thesis by blast
qed (use assms in \<open>auto simp: heartbeat_def releaseAttempt_def releaseReconciledAttempt_def releaseRevokedAttempt_def
      elim!: update_leases_holds simp: lease_active_def\<close>)

interpretation sqlite_leases: lease_contract lease_holds lease_transition
proof
  fix t t' db a c assume "t \<le> t'" "lease_holds db t' a c"
  then show "lease_holds db t a c" by (rule lease_holds_decays)
next
  fix db t db' assume "lease_transition db t db'"
  then obtain op where op: "lease_op_allowed op t db" "db' = lease_step op t db" by (auto elim: lease_transition.cases)
  show "\<exists>a. \<forall>b c. lease_holds db' t b c \<longrightarrow> lease_holds db t b c
      \<or> b = a \<and> (\<forall>b' d. b' \<noteq> a \<longrightarrow> lease_holds db t b' d \<longrightarrow> compatible c d)"
  proof (cases "\<exists>input uuid. op = ClaimOp input uuid")
    case True
    then obtain input uuid where "op = ClaimOp input uuid" by blast
    with op claim_gains [of "input\<lparr>ciNow := t\<rparr>" uuid db] show ?thesis by auto
  next
    case False
    with op op_holds show ?thesis by blast
  qed
qed

subsection \<open>Resolving waits, row by row\<close>

definition unblocked :: "ResourceLeaseRecord list \<Rightarrow> (ResourceWaitRecord \<Rightarrow> bool result) \<Rightarrow> ResourceWaitRecord \<Rightarrow> bool" where
  "unblocked active blocked w \<longleftrightarrow> blocked w = Inr False \<and> (\<forall>l \<in> set active. compatible (wait_claim w) (lease_claim l))"

lemma settle_wait_cases:
  assumes "settle_wait now active blocked w = Inr g"
  obtains (resolved) "unblocked active blocked w" "g = Some (\<lambda>x. x\<lparr>rwStatus := WaitResolved, rwResolvedAt := Some now\<rparr>)"
    | (kept) "\<not> unblocked active blocked w" "g = None"
    | (conflicting) ids where "\<not> unblocked active blocked w" "g = Some (\<lambda>x. x\<lparr>rwConflictingLeaseIds := ids\<rparr>)"
proof -
  from assms obtain b where b: "blocked w = Inr b" by (auto simp: settle_wait_def)
  show ?thesis
  proof (cases b)
    case True
    with b assms kept show ?thesis by (simp add: settle_wait_def unblocked_def)
  next
    case False
    with b assms obtain conflict where f: "result_find (\<lambda>l. resourceClaimsConflict (wait_claim w) (lease_claim l)) active = Inr conflict"
      by (auto simp: settle_wait_def)
    show ?thesis
    proof (cases conflict)
      case None
      with f b False assms have "g = Some (\<lambda>x. x\<lparr>rwStatus := WaitResolved, rwResolvedAt := Some now\<rparr>)" by (simp add: settle_wait_def)
      moreover from None f b False have "unblocked active blocked w" by (simp add: unblocked_def compatible_def result_find_None)
      ultimately show ?thesis using resolved by blast
    next
      case (Some l)
      with f result_find_Some [of _ active l] have "\<not> unblocked active blocked w" by (fastforce simp: unblocked_def compatible_def)
      moreover from Some f b False assms have "g = Some (\<lambda>x. x\<lparr>rwConflictingLeaseIds := [rlId l]\<rparr>)" by (simp add: settle_wait_def)
      ultimately show ?thesis using conflicting by blast
    qed
  qed
qed

lemma resolve_waits_rows:
  "resolve_waits now active blocked ws acc db = Inr (r, db') \<Longrightarrow> distinct (map rwId ws) \<Longrightarrow> x \<in> set (rdWaits db) \<Longrightarrow>
   \<exists>x' \<in> set (rdWaits db'). rwId x' = rwId x
     \<and> rwStatus x' = (if rwStatus x = WaitWaiting \<and> (\<exists>w \<in> set ws. rwId w = rwId x \<and> unblocked active blocked w)
                      then WaitResolved else rwStatus x)"
proof (induction ws arbitrary: acc db x)
  case (Cons w ws)
  obtain g acc' where g: "settle_wait now active blocked w = Inr g" and
    rest: "resolve_waits now active blocked ws acc' (case g of None \<Rightarrow> db | Some f \<Rightarrow> snd (update_wait (rwId w) f db)) = Inr (r, db')"
    by (rule resolve_waits_step [OF Cons.prems(1)])
  let ?hit = "rwId x = rwId w \<and> rwStatus x = WaitWaiting"
  define y where "y = (case g of None \<Rightarrow> x | Some f \<Rightarrow> if ?hit then f x else x)"
  have "y \<in> set (rdWaits (case g of None \<Rightarrow> db | Some f \<Rightarrow> snd (update_wait (rwId w) f db)))"
    using Cons.prems(3) by (cases g) (auto simp: y_def update_wait_def update_waits_def)
  then obtain x' where x': "x' \<in> set (rdWaits db')" "rwId x' = rwId y"
    "rwStatus x' = (if rwStatus y = WaitWaiting \<and> (\<exists>w \<in> set ws. rwId w = rwId y \<and> unblocked active blocked w)
                    then WaitResolved else rwStatus y)"
    using Cons.IH [OF rest] Cons.prems(2) by auto
  from g have "rwId y = rwId x \<and> rwStatus y = (if ?hit \<and> unblocked active blocked w then WaitResolved else rwStatus x)"
    by (cases rule: settle_wait_cases) (auto simp: y_def)
  then have y: "rwId y = rwId x" "rwStatus y = (if ?hit \<and> unblocked active blocked w then WaitResolved else rwStatus x)" by blast+
  have "\<not> (\<exists>v \<in> set ws. rwId v = rwId w)" using Cons.prems(2) by (auto simp: image_iff)
  then have "rwStatus x' = (if rwStatus x = WaitWaiting \<and> (\<exists>v \<in> set (w # ws). rwId v = rwId x \<and> unblocked active blocked v)
      then WaitResolved else rwStatus x)"
    unfolding x'(3) y by (cases "rwId x = rwId w") auto
  with x'(1,2) y(1) show ?case by (intro bexI [of _ x']) simp_all
qed auto

subsection \<open>Properties\<close>

definition exclusive :: "resource_db \<Rightarrow> string \<Rightarrow> bool" where
  "exclusive db now \<longleftrightarrow> (\<forall>l \<in> set (findActiveLeases db now). \<forall>r \<in> set (findActiveLeases db now).
     rlAttemptId l \<noteq> rlAttemptId r \<longrightarrow> resourceClaimsConflict (lease_claim l) (lease_claim r) = Inr False)"

lemma exclusive_iff: "exclusive db now \<longleftrightarrow> sqlite_leases.exclusively db now"
  unfolding exclusive_def sqlite_leases.exclusively_def lease_holds_def compatible_def set_findActiveLeases by blast

text \<open>
  Claim C5. Mutual exclusion. Along every sequence of repository calls at non-decreasing times,
  interleaved with changes of the worktree owners and of the Task and Subtask rows, two active leases of
  different attempts never conflict: neither writes a partition the other's partition covers or is
  covered by.
\<close>

theorem lease_exclusion:
  assumes "timed_run lease_transition db t db' t'" and "exclusive db t"
  shows "exclusive db' t'"
  using sqlite_leases.exclusively_run assms unfolding exclusive_iff .

text \<open>
  Claim C21. A claim is all or nothing: when it is granted every requested claim has an unreleased lease of
  the attempt and token with its canonical key and access mode; in every other outcome, errors
  included, the lease table is unchanged.
\<close>

theorem claim_all_or_nothing:
  assumes "claim input uuid db = (r, db')"
  shows "if \<exists>ls. r = Inr (Claimed ls)
    then \<forall>c \<in> set (ciClaims input). \<exists>l \<in> set (rdLeases db'). rlAttemptId l = ciAttemptId input
      \<and> rlLeaseToken l = ciLeaseToken input \<and> rlReleasedAt l = None
      \<and> partitionCanonicalKey (partition c) = Inr (rlPartitionKey l) \<and> access l = access c
    else rdLeases db' = rdLeases db"
proof (cases "\<exists>ls. r = Inr (Claimed ls)")
  case True
  then obtain ls where "claim_result input uuid db = Inr (Claimed ls, db')"
    using assms by (auto simp: claim_def transact_def split: sum.splits prod.splits)
  then have "grant_claim input uuid db = Inr (Claimed ls, db')"
    by (auto simp: claim_result_def dest!: queue_claim_leases split: if_splits)
  then obtain new ws where "db' = db\<lparr>rdLeases := rdLeases db @ new, rdWaits := ws\<rparr>"
    "\<forall>l \<in> set new. \<exists>c \<in> set (ciClaims input). \<exists>i key. l = new_lease input i key c"
    and cover: "\<forall>c \<in> set (ciClaims input). \<exists>l \<in> set (own_leases input db @ new).
       partitionCanonicalKey (partition c) = Inr (rlPartitionKey l) \<and> access l = access c"
    by (elim grant_claim_leases) auto
  then have "l \<in> set (own_leases input db @ new) \<Longrightarrow> l \<in> set (rdLeases db') \<and> rlAttemptId l = ciAttemptId input
      \<and> rlLeaseToken l = ciLeaseToken input \<and> rlReleasedAt l = None" for l
    by (auto simp: own_leases_def lease_active_def)
  with cover True show ?thesis by (simp only: if_True simp_thms) meson
next
  case False
  with claim_not_granted [of input uuid db] assms have "\<exists>xs. db' = db\<lparr>rdWaits := xs\<rparr>" by simp
  with False show ?thesis by auto
qed

text \<open>
  Claim C35. A queued writer closes the reader cohort: while another Subtask's write wait is pending (its
  Subtask ready, its Task schedulable) no claim with a conflicting read is granted, and no lease is
  added for it.
\<close>

theorem writer_closes_reader_cohort:
  assumes "w \<in> set (pendingWriters db)" and "rwSubtaskId w \<noteq> ciSubtaskId input"
    and "c \<in> set (ciClaims input)" and "access c = ReadAccess"
    and "resourceClaimsConflict c (wait_claim w) = Inr True"
  shows "(\<nexists>ls. fst (claim input uuid db) = Inr (Claimed ls)) \<and> rdLeases (snd (claim input uuid db)) = rdLeases db"
proof -
  have "writer_blocks db (ciSubtaskId input) c \<noteq> Inr False"
    using assms by (force simp: writer_blocks_def)
  then have "result_filter (writer_blocks db (ciSubtaskId input)) (ciClaims input) \<noteq> Inr []"
    using assms(3) by (auto simp: result_filter_Nil)
  then have "\<nexists>ls db'. claim_result input uuid db = Inr (Claimed ls, db')"
    by (auto simp: claim_result_def dest!: queue_claim_leases split: if_splits)
  then have no: "\<nexists>ls. fst (claim input uuid db) = Inr (Claimed ls)"
    by (auto simp: claim_def transact_def split: sum.splits prod.splits)
  with claim_not_granted [OF no] show ?thesis by auto
qed

text \<open>
  Resolving satisfied waits is exact: a waiting row in scope becomes resolved precisely when no
  active lease conflicts with it and no other Subtask's pending writer blocks it; otherwise it keeps
  waiting.
\<close>

theorem waits_resolved_exactly:
  assumes "resolveSatisfiedWaits now task db = (Inr resolved, db')" and "distinct (map rwId (rdWaits db))"
    and "w \<in> set (rdWaits db)" and "rwStatus w = WaitWaiting" and "in_task_scope task (rwTaskId w)"
  shows "\<exists>w' \<in> set (rdWaits db'). rwId w' = rwId w
    \<and> rwStatus w' = (if writer_blocks db (rwSubtaskId w) (wait_claim w) = Inr False
           \<and> list_all (\<lambda>l. lease_active db now l \<longrightarrow> resourceClaimsConflict (wait_claim w) (lease_claim l) = Inr False) (rdLeases db)
         then WaitResolved else WaitWaiting)"
proof -
  let ?blocked = "\<lambda>w. writer_blocks db (rwSubtaskId w) (wait_claim w)" and ?active = "filter (lease_active db now) (rdLeases db)"
  from assms(1) have run: "resolve_waits now ?active ?blocked (findWaiting db task) [] db = Inr (resolved, db')"
    by (auto simp: resolveSatisfiedWaits_def transact_def split: sum.splits prod.splits)
  have "mset (map rwId (findWaiting db task)) = mset (map rwId (filter (\<lambda>w. rwStatus w = WaitWaiting \<and> in_task_scope task (rwTaskId w)) (rdWaits db)))"
    by (simp add: findWaiting_def)
  then have d: "distinct (map rwId (findWaiting db task))"
    using assms(2) mset_eq_imp_distinct_iff distinct_map_filter by metis
  have "(\<exists>v \<in> set (findWaiting db task). rwId v = rwId w \<and> unblocked ?active ?blocked v) \<longleftrightarrow> unblocked ?active ?blocked w"
    using assms(2-5) by (auto simp: findWaiting_def dest: distinct_map [THEN iffD1] inj_onD)
  with resolve_waits_rows [OF run d assms(3)] assms(4) show ?thesis
    by (simp add: unblocked_def compatible_def list_all_iff Ball_def conj_commute) (metis)
qed

subsection \<open>Witnesses\<close>

definition sample_claims_db :: resource_db where
  "sample_claims_db = \<lparr>rdLeases = [], rdWaits = [], rdAttemptOwners = [],
     rdSubtasks = [\<lparr>srId = ''s1'', srTaskId = ''t1'', srGenerationId = ''g1'', srStatus = SReady\<rparr>,
       \<lparr>srId = ''s2'', srTaskId = ''t1'', srGenerationId = ''g1'', srStatus = SReady\<rparr>],
     rdTasks = [(''t1'', TRunning)], rdWorkUnits = [''u'']\<rparr>"

definition sample_claim :: "string \<Rightarrow> string \<Rightarrow> AccessMode \<Rightarrow> string \<Rightarrow> ClaimResourceLeasesInput" where
  "sample_claim subtask attempt mode now = \<lparr>ciTaskId = ''t1'', ciGenerationId = ''g1'', ciSubtaskId = subtask, ciAttemptId = attempt,
     ciWorkUnitId = ''u'', ciLeaseToken = ''k'', ciClaims = [\<lparr>partition = Repository ''r'', access = mode\<rparr>],
     ciNow = now, ciExpiresAt = ''9''\<rparr>"

definition sample_uuid :: "string \<Rightarrow> nat \<Rightarrow> string" where
  "sample_uuid prefix n = prefix @ show_nat n"

definition sample_read :: resource_db where
  "sample_read = snd (claim (sample_claim ''s1'' ''a1'' ReadAccess ''1'') (sample_uuid ''x'') sample_claims_db)"

definition sample_queued :: resource_db where
  "sample_queued = snd (claim (sample_claim ''s2'' ''a2'' WriteAccess ''2'') (sample_uuid ''y'') sample_read)"

lemma sample_read_leases: "map rlAttemptId (rdLeases sample_read) = [''a1'']"
  by code_simp

lemma sample_queued_waits: "map rwStatus (rdWaits sample_queued) = [WaitWaiting]"
  by code_simp

theorem lease_exclusion_witness: "exclusive sample_queued ''3''"
proof -
  have step: "lease_transition db now (snd (claim input u db))" if "ciNow input = now" for input u db now
  proof -
    have "input\<lparr>ciNow := now\<rparr> = input" using that by (cases input) simp
    with lease_transition.intros [of "ClaimOp input u" now db] show ?thesis by simp
  qed
  have "timed_run lease_transition sample_claims_db ''1'' sample_claims_db ''1''" by (rule timed_run.here) simp
  then have "timed_run lease_transition sample_claims_db ''1'' sample_read ''2''" unfolding sample_read_def
    by (rule timed_run.later) (simp_all add: step sample_claim_def)
  then have "timed_run lease_transition sample_claims_db ''1'' sample_queued ''3''" unfolding sample_queued_def
    by (rule timed_run.later) (simp_all add: step sample_claim_def)
  then show ?thesis by (rule lease_exclusion) (simp add: exclusive_def sample_claims_db_def)
qed

theorem claim_all_or_nothing_witness:
  "rdLeases sample_queued = rdLeases sample_read"
proof -
  obtain r where r: "claim (sample_claim ''s2'' ''a2'' WriteAccess ''2'') (sample_uuid ''y'') sample_read = (r, sample_queued)"
    unfolding sample_queued_def by (cases "claim (sample_claim ''s2'' ''a2'' WriteAccess ''2'') (sample_uuid ''y'') sample_read") simp
  have "\<not> (case fst (claim (sample_claim ''s2'' ''a2'' WriteAccess ''2'') (sample_uuid ''y'') sample_read) of
      Inr (Claimed _) \<Rightarrow> True | _ \<Rightarrow> False)" by code_simp
  with r have "\<nexists>ls. r = Inr (Claimed ls)" by auto
  with claim_all_or_nothing [OF r] show ?thesis by simp
qed

theorem writer_closes_reader_cohort_witness:
  "rdLeases (snd (claim (sample_claim ''s3'' ''a3'' ReadAccess ''3'') (sample_uuid ''z'') sample_queued)) = rdLeases sample_queued"
proof -
  have "map rwSubtaskId (pendingWriters sample_queued) = [''s2''] \<and>
      map (\<lambda>w. resourceClaimsConflict \<lparr>partition = Repository ''r'', access = ReadAccess\<rparr> (wait_claim w)) (pendingWriters sample_queued) = [Inr True]"
    by code_simp
  then obtain w where "w \<in> set (pendingWriters sample_queued)" "rwSubtaskId w = ''s2''"
    "resourceClaimsConflict \<lparr>partition = Repository ''r'', access = ReadAccess\<rparr> (wait_claim w) = Inr True"
    by (auto simp: map_eq_Cons_conv)
  then show ?thesis
    by (intro writer_closes_reader_cohort [THEN conjunct2]) (auto simp: sample_claim_def)
qed

definition sample_released :: resource_db where
  "sample_released = snd (releaseAttempt ''a1'' ''k'' ''4'' sample_queued)"

theorem waits_resolved_exactly_witness:
  "list_ex (\<lambda>w. rwStatus w = WaitResolved) (rdWaits (snd (resolveSatisfiedWaits ''4'' None sample_released)))"
proof -
  have ok: "case fst (resolveSatisfiedWaits ''4'' None sample_released) of Inr _ \<Rightarrow> True | Inl _ \<Rightarrow> False" by code_simp
  obtain resolved where run: "resolveSatisfiedWaits ''4'' None sample_released = (Inr resolved, snd (resolveSatisfiedWaits ''4'' None sample_released))"
    using ok by (cases "resolveSatisfiedWaits ''4'' None sample_released") (auto split: sum.splits)
  have rows: "map (\<lambda>w. (rwStatus w, writer_blocks sample_released (rwSubtaskId w) (wait_claim w),
      list_all (\<lambda>l. lease_active sample_released ''4'' l \<longrightarrow> resourceClaimsConflict (wait_claim w) (lease_claim l) = Inr False) (rdLeases sample_released)))
      (rdWaits sample_released) = [(WaitWaiting, Inr False, True)]" by code_simp
  then obtain w where w: "rdWaits sample_released = [w]" "rwStatus w = WaitWaiting"
    "writer_blocks sample_released (rwSubtaskId w) (wait_claim w) = Inr False"
    "list_all (\<lambda>l. lease_active sample_released ''4'' l \<longrightarrow> resourceClaimsConflict (wait_claim w) (lease_claim l) = Inr False) (rdLeases sample_released)"
    by (auto simp: map_eq_Cons_conv)
  from waits_resolved_exactly [OF run, of w] w show ?thesis by (auto simp: list_ex_iff in_task_scope_def)
qed

text \<open>
  The test does not leave out the leases of the waiting attempt, as \<open>claim\<close> does: an attempt that reads
  a repository and waits to write it keeps waiting after the other reader is gone, although the
  same claim would be granted.
\<close>

definition sample_upgrade :: resource_db where
  "sample_upgrade = snd (releaseAttempt ''a1'' ''k'' ''4'' (snd (claim (sample_claim ''s2'' ''a2'' WriteAccess ''3'') (sample_uuid ''y'')
     (snd (claim (sample_claim ''s2'' ''a2'' ReadAccess ''2'') (sample_uuid ''z'') sample_read)))))"

lemma own_lease_keeps_wait:
  "map rwStatus (rdWaits (snd (resolveSatisfiedWaits ''4'' None sample_upgrade))) = [WaitWaiting]
   \<and> (case fst (claim (sample_claim ''s2'' ''a2'' WriteAccess ''4'') (sample_uuid ''w'') sample_upgrade) of
        Inr (Claimed _) \<Rightarrow> True | _ \<Rightarrow> False)"
  by code_simp

end
