(* ===== verification/Task_Scheduler.thy ===== *)
theory Task_Scheduler
  imports Prelude
begin

text \<open>
  The account task scheduler (\<open>src/src/kernel/task-scheduler.ts\<close>): which waiting Tasks start
  now, with how many attempts each. The function is pure and never preempts.
\<close>

datatype SchedulerPriority = NormalPriority | HighPriority | UrgentPriority

datatype SchedulerSlotState = FreeSlot | OccupiedSlot | ReleasingSlot | RecoveryBlockedSlot

record SchedulerAccount =
  maxConcurrentTasks :: int
  maxConcurrentAttempts :: int
  maxConcurrentAttemptsPerTask :: int
  activeTaskCount :: int
  activeAttemptCount :: int

record SchedulerConversation =
  scConversationId :: string
  scSlotState :: SchedulerSlotState
  scFairnessSequence :: int

record SchedulerCandidate =
  cdTaskId :: string
  cdConversationId :: string
  cdEligibleSince :: string
  cdPriority :: SchedulerPriority
  cdAged :: bool
  cdRunnableAttemptCount :: int
  cdRunnableOperation :: "bool option"
  cdActiveAttemptCount :: int
  cdResourceConflict :: bool

record TaskSchedulerSnapshot =
  tsAccount :: SchedulerAccount
  tsConversations :: "SchedulerConversation list"
  tsCandidates :: "SchedulerCandidate list"

datatype WaitReason = ResourceConflictWait | CapacityWait | ConversationSlotWait

record TaskSchedulerSelection =
  selDispatches :: "(string \<times> int) list"
  selWaiting :: "(string \<times> WaitReason) list"
  selPreemptions :: "string list"

definition priority_rank :: "SchedulerPriority \<Rightarrow> int" where
  "priority_rank p = (case p of NormalPriority \<Rightarrow> 0 | HighPriority \<Rightarrow> 1 | UrgentPriority \<Rightarrow> 2)"

definition slots_of :: "TaskSchedulerSnapshot \<Rightarrow> string \<Rightarrow> SchedulerConversation option" where
  "slots_of snapshot = map_of (js_map_of (map (\<lambda>c. (scConversationId c, c)) (tsConversations snapshot)))"

definition runs_operation :: "SchedulerCandidate \<Rightarrow> bool" where
  "runs_operation c \<longleftrightarrow> cdRunnableOperation c = Some True"

text \<open>The filter with its side effect on \<open>waiting\<close>.\<close>

fun split_eligible ::
  "(string \<Rightarrow> SchedulerConversation option) \<Rightarrow> SchedulerCandidate list
    \<Rightarrow> SchedulerCandidate list \<times> (string \<times> WaitReason) list"
where
  "split_eligible slots [] = ([], [])"
| "split_eligible slots (c # cs) =
     (let (eligible, waiting) = split_eligible slots cs in
      case slots (cdConversationId c) of
        None \<Rightarrow> (eligible, (cdTaskId c, ConversationSlotWait) # waiting)
      | Some conversation \<Rightarrow>
          if scSlotState conversation \<noteq> FreeSlot then (eligible, (cdTaskId c, ConversationSlotWait) # waiting)
          else if cdResourceConflict c then (eligible, (cdTaskId c, ResourceConflictWait) # waiting)
          else if cdRunnableAttemptCount c > 0 \<or> runs_operation c then (c # eligible, waiting)
          else (eligible, waiting))"

definition fairness :: "(string \<Rightarrow> SchedulerConversation option) \<Rightarrow> SchedulerCandidate \<Rightarrow> int" where
  "fairness slots c = (case slots (cdConversationId c) of
     None \<Rightarrow> MAX_SAFE_INTEGER | Some conversation \<Rightarrow> scFairnessSequence conversation)"

definition compareCandidates ::
  "js_runtime \<Rightarrow> SchedulerCandidate \<Rightarrow> SchedulerCandidate \<Rightarrow> int \<Rightarrow> int \<Rightarrow> int"
where
  "compareCandidates rt l r leftFairness rightFairness =
     (let priority = cmp_or (priority_rank (cdPriority r) - priority_rank (cdPriority l))
                       (of_bool (cdAged r) - of_bool (cdAged l))
      in if priority \<noteq> 0 then priority
         else cmp_or (leftFairness - rightFairness)
                (cmp_or (localeCompare rt (cdEligibleSince l) (cdEligibleSince r))
                   (localeCompare rt (cdTaskId l) (cdTaskId r))))"

definition attempt_count :: "SchedulerAccount \<Rightarrow> SchedulerCandidate \<Rightarrow> int \<Rightarrow> int" where
  "attempt_count account c remaining =
     min (min (cdRunnableAttemptCount c)
              (max 0 (maxConcurrentAttemptsPerTask account - cdActiveAttemptCount c))) remaining"

text \<open>The dispatch loop: \<open>selected\<close> and \<open>started\<close> are the conversations and dispatches so far.\<close>

fun dispatch_loop ::
  "SchedulerAccount \<Rightarrow> int \<Rightarrow> string list \<Rightarrow> nat \<Rightarrow> int \<Rightarrow> SchedulerCandidate list
    \<Rightarrow> (string \<times> int) list \<times> (string \<times> WaitReason) list"
where
  "dispatch_loop account taskSlots selected started remaining [] = ([], [])"
| "dispatch_loop account taskSlots selected started remaining (c # cs) =
     (if cdConversationId c \<in> set selected then dispatch_loop account taskSlots selected started remaining cs
      else if int started \<ge> taskSlots \<or> (remaining \<le> 0 \<and> \<not> runs_operation c) then
        (let (ds, ws) = dispatch_loop account taskSlots selected started remaining cs in
         (ds, (cdTaskId c, CapacityWait) # ws))
      else (let n = attempt_count account c remaining in
        if n \<le> 0 \<and> \<not> runs_operation c then dispatch_loop account taskSlots selected started remaining cs
        else (let (ds, ws) = dispatch_loop account taskSlots (cdConversationId c # selected) (started + 1)
                               (remaining - n) cs in
              ((cdTaskId c, n) # ds, ws))))"

definition ordered_candidates :: "js_runtime \<Rightarrow> TaskSchedulerSnapshot \<Rightarrow> SchedulerCandidate list" where
  "ordered_candidates rt snapshot =
     js_sort (\<lambda>l r. compareCandidates rt l r (fairness (slots_of snapshot) l) (fairness (slots_of snapshot) r))
       (fst (split_eligible (slots_of snapshot) (tsCandidates snapshot)))"

definition selectTaskDispatches :: "js_runtime \<Rightarrow> TaskSchedulerSnapshot \<Rightarrow> TaskSchedulerSelection" where
  "selectTaskDispatches rt snapshot =
     (let waiting = snd (split_eligible (slots_of snapshot) (tsCandidates snapshot));
          account = tsAccount snapshot;
          availableTaskSlots = max 0 (maxConcurrentTasks account - activeTaskCount account);
          availableAttemptSlots = max 0 (maxConcurrentAttempts account - activeAttemptCount account);
          (dispatches, capacity) = dispatch_loop account availableTaskSlots [] 0 availableAttemptSlots
             (ordered_candidates rt snapshot)
      in \<lparr>selDispatches = dispatches, selWaiting = waiting @ capacity, selPreemptions = []\<rparr>)"

subsection \<open>What the scheduler guarantees\<close>

definition may_start :: "(string \<Rightarrow> SchedulerConversation option) \<Rightarrow> SchedulerCandidate \<Rightarrow> bool" where
  "may_start slots c \<longleftrightarrow>
     (\<exists>conversation. slots (cdConversationId c) = Some conversation \<and> scSlotState conversation = FreeSlot)
     \<and> \<not> cdResourceConflict c \<and> (cdRunnableAttemptCount c > 0 \<or> runs_operation c)"

definition eligible :: "TaskSchedulerSnapshot \<Rightarrow> SchedulerCandidate \<Rightarrow> bool" where
  "eligible snapshot c \<longleftrightarrow> c \<in> set (tsCandidates snapshot) \<and> may_start (slots_of snapshot) c"

lemma split_eligible_filter: "fst (split_eligible slots cs) = filter (may_start slots) cs"
proof (induction cs)
  case (Cons c cs)
  obtain es ws where "split_eligible slots cs = (es, ws)" by fastforce
  with Cons show ?case by (cases "slots (cdConversationId c)") (auto simp: may_start_def)
qed simp

lemma ordered_eligible: "c \<in> set (ordered_candidates rt snapshot) \<longleftrightarrow> eligible snapshot c"
  by (auto simp: ordered_candidates_def split_eligible_filter eligible_def)

text \<open>
  The loop invariant: the dispatches pair chosen candidates, one per new conversation, with their
  attempt counts; they fit the task slots and the attempts that remain.
\<close>

definition chosen_ok ::
  "SchedulerAccount \<Rightarrow> SchedulerCandidate list \<Rightarrow> string list \<Rightarrow> SchedulerCandidate list \<Rightarrow> (string \<times> int) list \<Rightarrow> bool"
where
  "chosen_ok account cs selected chosen ds \<longleftrightarrow>
     set chosen \<subseteq> set cs \<and> map cdTaskId chosen = map fst ds
     \<and> distinct (map cdConversationId chosen) \<and> set (map cdConversationId chosen) \<inter> set selected = {}
     \<and> list_all2 (\<lambda>c d. snd d \<le> cdRunnableAttemptCount c
          \<and> snd d \<le> max 0 (maxConcurrentAttemptsPerTask account - cdActiveAttemptCount c)
          \<and> (0 < snd d \<or> runs_operation c)) chosen ds"

lemma dispatch_loop_chosen:
  "\<exists>chosen. chosen_ok account cs selected chosen (fst (dispatch_loop account slots selected started remaining cs))"
proof (induction account slots selected started remaining cs rule: dispatch_loop.induct)
  case (1 account slots selected started remaining)
  show ?case by (intro exI [of _ "[]"]) (simp add: chosen_ok_def)
next
  case (2 account slots selected started remaining c cs)
  let ?n = "attempt_count account c remaining"
  have skip: "\<exists>chosen. chosen_ok account (c # cs) selected chosen ds"
    if "\<exists>chosen. chosen_ok account cs selected chosen ds" for ds
    using that unfolding chosen_ok_def by (meson set_subset_Cons subset_trans)
  consider (seen) "cdConversationId c \<in> set selected"
    | (full) "cdConversationId c \<notin> set selected" "int started \<ge> slots \<or> (remaining \<le> 0 \<and> \<not> runs_operation c)"
    | (idle) "cdConversationId c \<notin> set selected" "\<not> (int started \<ge> slots \<or> (remaining \<le> 0 \<and> \<not> runs_operation c))"
        "?n \<le> 0 \<and> \<not> runs_operation c"
    | (take) "cdConversationId c \<notin> set selected" "\<not> (int started \<ge> slots \<or> (remaining \<le> 0 \<and> \<not> runs_operation c))"
        "\<not> (?n \<le> 0 \<and> \<not> runs_operation c)" by blast
  then show ?case
  proof cases
    case seen
    with 2(1) [OF seen] skip show ?thesis by simp
  next
    case full
    with 2(2) [OF full] skip show ?thesis by (simp add: case_prod_beta)
  next
    case idle
    with 2(3) [OF idle(1,2) refl idle(3)] skip show ?thesis by simp
  next
    case take
    let ?rest = "fst (dispatch_loop account slots (cdConversationId c # selected) (started + 1) (remaining - ?n) cs)"
    from 2(4) [OF take(1,2) refl take(3)] obtain chosen where
      ch: "chosen_ok account cs (cdConversationId c # selected) chosen ?rest" by blast
    then have "chosen_ok account (c # cs) selected (c # chosen) ((cdTaskId c, ?n) # ?rest)"
      using take unfolding chosen_ok_def by (auto simp: attempt_count_def)
    moreover have "fst (dispatch_loop account slots selected started remaining (c # cs)) = (cdTaskId c, ?n) # ?rest"
      using take by (auto simp: Let_def case_prod_beta)
    ultimately show ?thesis by metis
  qed
qed

lemma dispatch_loop_capacity:
  assumes "\<forall>c \<in> set cs. 0 \<le> cdRunnableAttemptCount c" and "0 \<le> remaining"
  shows "sum_list (map snd (fst (dispatch_loop account slots selected started remaining cs))) \<le> remaining
    \<and> int started + int (length (fst (dispatch_loop account slots selected started remaining cs))) \<le> max slots (int started)
    \<and> list_all (\<lambda>d. 0 \<le> snd d) (fst (dispatch_loop account slots selected started remaining cs))"
  using assms
proof (induction account slots selected started remaining cs rule: dispatch_loop.induct)
  case (2 account slots selected started remaining c cs)
  let ?n = "attempt_count account c remaining"
  have n: "0 \<le> ?n" "?n \<le> remaining" using 2(5,6) by (auto simp: attempt_count_def)
  consider (seen) "cdConversationId c \<in> set selected"
    | (full) "cdConversationId c \<notin> set selected" "int started \<ge> slots \<or> (remaining \<le> 0 \<and> \<not> runs_operation c)"
    | (idle) "cdConversationId c \<notin> set selected" "\<not> (int started \<ge> slots \<or> (remaining \<le> 0 \<and> \<not> runs_operation c))"
        "?n \<le> 0 \<and> \<not> runs_operation c"
    | (take) "cdConversationId c \<notin> set selected" "\<not> (int started \<ge> slots \<or> (remaining \<le> 0 \<and> \<not> runs_operation c))"
        "\<not> (?n \<le> 0 \<and> \<not> runs_operation c)" by blast
  then show ?case
  proof cases
    case seen
    with 2(1) [OF seen] 2(5,6) show ?thesis by simp
  next
    case full
    with 2(2) [OF full] 2(5,6) show ?thesis by (simp add: case_prod_beta)
  next
    case idle
    with 2(3) [OF idle(1,2) refl idle(3)] 2(5,6) show ?thesis by simp
  next
    case take
    with 2(4) [OF take(1,2) refl take(3)] 2(5,6) n show ?thesis by (auto simp: Let_def case_prod_beta)
  qed
qed simp

text \<open>
  Claim C28. The scheduler respects every capacity: it starts at most as many Tasks as the account
  has free task slots and authorizes at most as many attempts, in total, as the account has free
  attempt slots; it preempts nothing.
\<close>

theorem scheduler_within_capacity:
  assumes "\<forall>c \<in> set (tsCandidates snapshot). 0 \<le> cdRunnableAttemptCount c"
  shows "int (length (selDispatches (selectTaskDispatches rt snapshot)))
      \<le> max 0 (maxConcurrentTasks (tsAccount snapshot) - activeTaskCount (tsAccount snapshot))
    \<and> sum_list (map snd (selDispatches (selectTaskDispatches rt snapshot)))
      \<le> max 0 (maxConcurrentAttempts (tsAccount snapshot) - activeAttemptCount (tsAccount snapshot))
    \<and> selPreemptions (selectTaskDispatches rt snapshot) = []"
proof -
  let ?slots = "max 0 (maxConcurrentTasks (tsAccount snapshot) - activeTaskCount (tsAccount snapshot))"
  let ?attempts = "max 0 (maxConcurrentAttempts (tsAccount snapshot) - activeAttemptCount (tsAccount snapshot))"
  have "\<forall>c \<in> set (ordered_candidates rt snapshot). 0 \<le> cdRunnableAttemptCount c"
    using assms by (auto simp: ordered_eligible eligible_def)
  from dispatch_loop_capacity [OF this, of ?attempts "tsAccount snapshot" ?slots "[]" 0]
  show ?thesis by (simp add: selectTaskDispatches_def Let_def case_prod_beta)
qed

text \<open>
  The scheduler is fair in what it may start: the dispatches belong to eligible
  candidates, whose conversation slot is free and which have no resource conflict, at most one per
  conversation, each within the attempts it can run and the per-Task limit.
\<close>

theorem scheduler_dispatches_eligible:
  "\<exists>chosen. map cdTaskId chosen = map fst (selDispatches (selectTaskDispatches rt snapshot))
     \<and> distinct (map cdConversationId chosen) \<and> (\<forall>c \<in> set chosen. eligible snapshot c)
     \<and> list_all2 (\<lambda>c d. snd d \<le> cdRunnableAttemptCount c
          \<and> snd d \<le> max 0 (maxConcurrentAttemptsPerTask (tsAccount snapshot) - cdActiveAttemptCount c)
          \<and> (0 < snd d \<or> runs_operation c))
         chosen (selDispatches (selectTaskDispatches rt snapshot))"
proof -
  let ?slots = "max 0 (maxConcurrentTasks (tsAccount snapshot) - activeTaskCount (tsAccount snapshot))"
  let ?attempts = "max 0 (maxConcurrentAttempts (tsAccount snapshot) - activeAttemptCount (tsAccount snapshot))"
  obtain chosen where "chosen_ok (tsAccount snapshot) (ordered_candidates rt snapshot) [] chosen
      (fst (dispatch_loop (tsAccount snapshot) ?slots [] 0 ?attempts (ordered_candidates rt snapshot)))"
    using dispatch_loop_chosen by blast
  then show ?thesis
    by (intro exI [of _ chosen])
       (auto simp: chosen_ok_def selectTaskDispatches_def Let_def case_prod_beta dest: subsetD simp flip: ordered_eligible [of _ rt])
qed

definition sample_candidate :: "string \<Rightarrow> string \<Rightarrow> SchedulerPriority \<Rightarrow> SchedulerCandidate" where
  "sample_candidate t c p = \<lparr>cdTaskId = t, cdConversationId = c, cdEligibleSince = ''1'', cdPriority = p,
     cdAged = False, cdRunnableAttemptCount = 3, cdRunnableOperation = None, cdActiveAttemptCount = 0,
     cdResourceConflict = False\<rparr>"

definition sample_schedule :: TaskSchedulerSnapshot where
  "sample_schedule =
     \<lparr>tsAccount = \<lparr>maxConcurrentTasks = 2, maxConcurrentAttempts = 4, maxConcurrentAttemptsPerTask = 3,
        activeTaskCount = 0, activeAttemptCount = 0\<rparr>,
      tsConversations = map (\<lambda>(i, n). \<lparr>scConversationId = i, scSlotState = FreeSlot, scFairnessSequence = n\<rparr>)
        [(''c1'', 1), (''c2'', 2), (''c3'', 3)],
      tsCandidates = [sample_candidate ''t1'' ''c1'' NormalPriority, sample_candidate ''t2'' ''c2'' UrgentPriority,
        sample_candidate ''t3'' ''c3'' HighPriority, sample_candidate ''t4'' ''c2'' NormalPriority]\<rparr>"

theorem scheduler_within_capacity_witness:
  "selDispatches (selectTaskDispatches sample_runtime sample_schedule) = [(''t2'', 3), (''t3'', 1)]
   \<and> sum_list (map snd (selDispatches (selectTaskDispatches sample_runtime sample_schedule))) \<le> 4"
proof
  show "selDispatches (selectTaskDispatches sample_runtime sample_schedule) = [(''t2'', 3), (''t3'', 1)]" by code_simp
  have "\<forall>c \<in> set (tsCandidates sample_schedule). 0 \<le> cdRunnableAttemptCount c" by code_simp
  from scheduler_within_capacity [OF this, of sample_runtime]
  show "sum_list (map snd (selDispatches (selectTaskDispatches sample_runtime sample_schedule))) \<le> 4"
    by (simp add: sample_schedule_def)
qed

theorem scheduler_dispatches_eligible_witness:
  "\<exists>chosen. map cdTaskId chosen = map fst (selDispatches (selectTaskDispatches sample_runtime sample_schedule))
     \<and> distinct (map cdConversationId chosen) \<and> list_all (eligible sample_schedule) chosen"
  unfolding list_all_iff using scheduler_dispatches_eligible [of sample_runtime sample_schedule] by blast

end
