(* ===== verification/Js_Number.thy ===== *)
theory Js_Number
  imports Prelude Complex_Main
begin

text \<open>
  JavaScript numbers that are not integers: confidences, probabilities, prices, scores. A finite
  double is the rational it denotes, so comparing two of them is exact; the constants of the
  source are the doubles their literals denote. No rounding arithmetic is modelled: the functions
  that compute with such numbers take the arithmetic they use as an argument.
\<close>

datatype js_number = JsNaN | JsNegInfinity | JsFinite rat | JsPosInfinity

definition isFinite :: "js_number \<Rightarrow> bool" where
  "isFinite x \<longleftrightarrow> (case x of JsFinite _ \<Rightarrow> True | _ \<Rightarrow> False)"

text \<open>\<open>x < y\<close>: false as soon as one side is \<open>NaN\<close>.\<close>

fun js_less :: "js_number \<Rightarrow> js_number \<Rightarrow> bool" where
  "js_less (JsFinite x) (JsFinite y) \<longleftrightarrow> x < y"
| "js_less JsNegInfinity (JsFinite _) \<longleftrightarrow> True"
| "js_less JsNegInfinity JsPosInfinity \<longleftrightarrow> True"
| "js_less (JsFinite _) JsPosInfinity \<longleftrightarrow> True"
| "js_less _ _ \<longleftrightarrow> False"

text \<open>The doubles of the literals \<open>0.3\<close> and \<open>0.45\<close>.\<close>

definition double_03 :: js_number where
  "double_03 = JsFinite (Fract 5404319552844595 18014398509481984)"

definition double_045 :: js_number where
  "double_045 = JsFinite (Fract 8106479329266893 18014398509481984)"

definition unit_interval :: "js_number \<Rightarrow> bool" where
  "unit_interval x \<longleftrightarrow> isFinite x \<and> \<not> js_less x (JsFinite 0) \<and> \<not> js_less (JsFinite 1) x"

lemma unit_interval_iff: "unit_interval x \<longleftrightarrow> (\<exists>r. x = JsFinite r \<and> 0 \<le> r \<and> r \<le> 1)"
  by (cases x) (auto simp: unit_interval_def isFinite_def)

text \<open>
  The sign of \<open>x - y\<close> as a comparator uses it: a difference of finite doubles is zero only for equal
  ones, and \<open>NaN\<close> counts as zero.
\<close>

fun js_diff :: "js_number \<Rightarrow> js_number \<Rightarrow> int" where
  "js_diff (JsFinite x) (JsFinite y) = (if x < y then -1 else if x = y then 0 else 1)"
| "js_diff JsPosInfinity (JsFinite _) = 1"
| "js_diff JsPosInfinity JsNegInfinity = 1"
| "js_diff JsNegInfinity (JsFinite _) = -1"
| "js_diff JsNegInfinity JsPosInfinity = -1"
| "js_diff (JsFinite _) JsPosInfinity = -1"
| "js_diff (JsFinite _) JsNegInfinity = 1"
| "js_diff _ _ = 0"

text \<open>Rounding arithmetic and locale-dependent case mapping, which the host provides.\<close>

record js_platform =
  fadd :: "js_number \<Rightarrow> js_number \<Rightarrow> js_number"
  fmul :: "js_number \<Rightarrow> js_number \<Rightarrow> js_number"
  fdiv :: "js_number \<Rightarrow> js_number \<Rightarrow> js_number"
  toLocaleLowerCase :: "string \<Rightarrow> string"
  toLocaleUpperCase :: "string \<Rightarrow> string"

definition js_int :: "int \<Rightarrow> js_number" where
  "js_int n = JsFinite (of_int n)"

text \<open>A sample platform: exact arithmetic on finite numbers, no locale.\<close>

definition lift_finite :: "(rat \<Rightarrow> rat \<Rightarrow> rat) \<Rightarrow> js_number \<Rightarrow> js_number \<Rightarrow> js_number" where
  "lift_finite f x y = (case (x, y) of (JsFinite a, JsFinite b) \<Rightarrow> JsFinite (f a b) | _ \<Rightarrow> JsNaN)"

definition sample_platform :: js_platform where
  "sample_platform = \<lparr>fadd = lift_finite (+), fmul = lift_finite (*), fdiv = lift_finite (/),
     toLocaleLowerCase = toLowerCase, toLocaleUpperCase = (\<lambda>s. s)\<rparr>"

end
