(* ===== verification/Executor_Binding.thy ===== *)
theory Executor_Binding
  imports Json
begin

text \<open>
  Identities the Kernel compares: authorized executor bindings and their fingerprints
  (\<open>src/src/core/authorized-executor-binding.ts\<close>), the launch contract of a local service and its
  revision (\<open>src/src/task/local-service.ts\<close>, \<open>src/src/core/local-service-revision.ts\<close>), and the
  identity of a safe result (\<open>src/src/task/safe-result-identity.ts\<close>). SHA-256 is a host service.
\<close>

subsection \<open>Executor bindings\<close>

record AuthorizedExecutorBinding =
  abAgentClassRef :: string
  abHarnessRef :: string
  abProviderRef :: string
  abModelRef :: string
  abPermissionProfileRef :: string
  abConfigurationRevision :: string
  abExecutorDisplayName :: "string option"
  abHarnessDisplayName :: "string option"
  abProviderDisplayName :: "string option"
  abModelDisplayName :: "string option"

definition binding_fields :: "AuthorizedExecutorBinding \<Rightarrow> string list" where
  "binding_fields b = [abAgentClassRef b, abHarnessRef b, abProviderRef b, abModelRef b,
     abPermissionProfileRef b, abConfigurationRevision b]"

definition authorizedExecutorBindingFingerprint :: "js_runtime \<Rightarrow> AuthorizedExecutorBinding \<Rightarrow> string" where
  "authorizedExecutorBindingFingerprint rt b = sha256Hex rt (json_strings (binding_fields b))"

subsection \<open>Local services\<close>

datatype LoopbackHost = LoopbackV4 | LoopbackV6

datatype LocalServiceSpecificationOrigin = ManifestOrigin | DiscoveredOrigin

datatype LocalServiceOperation = StartOperation | StopOperation | RestartOperation | UpdateOperation

text \<open>\<open>restartPolicy\<close> has the single value \<open>'explicit'\<close>.\<close>

record LocalServiceSpecification =
  lsServiceId :: string
  lsTaskId :: string
  lsCommand :: string
  lsArgs :: "string list"
  lsDirectory :: "string option"
  lsEnvironmentReferences :: "(string \<times> string) list"
  lsHost :: LoopbackHost
  lsPort :: "int option"
  lsHealthPath :: "string option"
  lsStartupTimeoutMs :: int
  lsOrigin :: LocalServiceSpecificationOrigin

definition json_option :: "('a \<Rightarrow> json) \<Rightarrow> 'a option \<Rightarrow> json" where
  "json_option f v = (case v of None \<Rightarrow> JNull | Some x \<Rightarrow> f x)"

definition service_contract :: "js_runtime \<Rightarrow> LocalServiceSpecification \<Rightarrow> json list" where
  "service_contract rt s =
     [JStr (lsServiceId s), JStr (lsCommand s), JArr (map JStr (lsArgs s)), json_option JStr (lsDirectory s),
      JArr (map (\<lambda>(k, v). JArr [JStr k, JStr v])
        (js_sort (\<lambda>a b. localeCompare rt (fst a) (fst b)) (lsEnvironmentReferences s))),
      JStr (case lsHost s of LoopbackV4 \<Rightarrow> ''127.0.0.1'' | LoopbackV6 \<Rightarrow> ''::1''),
      json_option JNum (lsPort s), json_option JStr (lsHealthPath s), JNum (lsStartupTimeoutMs s), JStr ''explicit'']"

definition service_material :: "js_runtime \<Rightarrow> LocalServiceSpecification \<Rightarrow> string" where
  "service_material rt s = json_text (JArr
     (if lsOrigin s = DiscoveredOrigin then JStr ''discovered'' # service_contract rt s else service_contract rt s))"

definition localServiceSpecificationRevision :: "js_runtime \<Rightarrow> LocalServiceSpecification \<Rightarrow> string" where
  "localServiceSpecificationRevision rt s = ''service_revision_'' @ take 32 (sha256Hex rt (service_material rt s))"

subsection \<open>Safe results\<close>

record SafeResultReceipt =
  srAttemptId :: string
  srTaskId :: string
  srSubtaskId :: string
  srGenerationId :: string
  srGraphRevision :: "int option"
  srAttemptKind :: "string option"
  srSourceAttemptId :: "string option"
  srParsing :: json

datatype completeness = CompleteResult | PartialResult | IncompleteResult

record SafeResultObject =
  soResultId :: string
  soAccountId :: string
  soTaskId :: string
  soGenerationId :: string
  soSourceSubtaskId :: string
  soAttemptId :: string
  soKind :: string
  soByteLength :: int
  soCompleteness :: completeness

record PendingResultIdentity =
  piTaskId :: string
  piGenerationId :: string
  piGraphRevision :: int
  piSubtaskId :: string
  piAttemptId :: string
  piResultId :: string

record ResolvedSafeResult =
  rrDecisionAttemptId :: string
  rrResultObjectId :: string
  rrResultOwnerAttemptId :: string
  rrSourceAttemptId :: "string option"
  rrObject :: SafeResultObject

definition safeProjectionId :: "SafeResultReceipt \<Rightarrow> string option" where
  "safeProjectionId receipt =
     (case json_get (srParsing receipt) ''resultObjects'' of
        Some refs \<Rightarrow> (case json_get refs ''safeProjectionId'' of
            Some (JStr i) \<Rightarrow> if i = [] then None else Some i
          | _ \<Rightarrow> None)
      | None \<Rightarrow> None)"

definition source_certifies ::
  "SafeResultReceipt \<Rightarrow> SafeResultObject \<Rightarrow> (string \<Rightarrow> SafeResultReceipt option) \<Rightarrow> string option \<Rightarrow> bool"
where
  "source_certifies receipt object findReceipt sourceId =
     (case sourceId of
        None \<Rightarrow> False
      | Some s \<Rightarrow> s \<noteq> [] \<and> soAttemptId object = s \<and>
          (case findReceipt s of
             None \<Rightarrow> False
           | Some source \<Rightarrow> srTaskId source = srTaskId receipt \<and> srSubtaskId source = srSubtaskId receipt
               \<and> srGenerationId source = srGenerationId receipt \<and> srGraphRevision source = srGraphRevision receipt
               \<and> safeProjectionId source = Some (soResultId object)))"

definition resolveSafeResult ::
  "string \<Rightarrow> SafeResultReceipt \<Rightarrow> (string \<Rightarrow> SafeResultObject option) \<Rightarrow> (string \<Rightarrow> SafeResultReceipt option)
   \<Rightarrow> ResolvedSafeResult option"
where
  "resolveSafeResult accountId receipt findObject findReceipt =
     (case Option.bind (safeProjectionId receipt) findObject of
        None \<Rightarrow> None
      | Some object \<Rightarrow>
          if soKind object \<noteq> ''safe_projection'' \<or> soByteLength object \<le> 0 \<or> soCompleteness object = IncompleteResult
             \<or> soAccountId object \<noteq> accountId \<or> soTaskId object \<noteq> srTaskId receipt
             \<or> soSourceSubtaskId object \<noteq> srSubtaskId receipt \<or> soGenerationId object \<noteq> srGenerationId receipt
          then None
          else (let sourceId = (if srAttemptKind receipt = Some ''contract_correction'' then srSourceAttemptId receipt else None) in
                if soAttemptId object \<noteq> srAttemptId receipt \<and> \<not> source_certifies receipt object findReceipt sourceId
                then None
                else Some \<lparr>rrDecisionAttemptId = srAttemptId receipt, rrResultObjectId = soResultId object,
                           rrResultOwnerAttemptId = soAttemptId object, rrSourceAttemptId = sourceId,
                           rrObject = object\<rparr>))"

subsection \<open>What a fingerprint identifies\<close>

text \<open>
  Claim C34. A binding fingerprint identifies the binding: unless SHA-256 collides on the two serialised
  bindings, equal fingerprints mean the same AgentClass, harness, provider, model, permission
  profile and configuration revision; display names play no part.
\<close>

theorem binding_fingerprint_identifies:
  assumes "sha256Hex rt (json_strings (binding_fields a)) = sha256Hex rt (json_strings (binding_fields b)) \<Longrightarrow>
    json_strings (binding_fields a) = json_strings (binding_fields b)"
  shows "authorizedExecutorBindingFingerprint rt a = authorizedExecutorBindingFingerprint rt b \<longleftrightarrow>
    abAgentClassRef a = abAgentClassRef b \<and> abHarnessRef a = abHarnessRef b \<and> abProviderRef a = abProviderRef b
    \<and> abModelRef a = abModelRef b \<and> abPermissionProfileRef a = abPermissionProfileRef b
    \<and> abConfigurationRevision a = abConfigurationRevision b"
proof -
  have "authorizedExecutorBindingFingerprint rt a = authorizedExecutorBindingFingerprint rt b \<longleftrightarrow>
      binding_fields a = binding_fields b"
    using assms unfolding authorizedExecutorBindingFingerprint_def by auto
  then show ?thesis by (simp add: binding_fields_def)
qed

lemma json_option_inject: "inj f \<Longrightarrow> (\<And>x. f x \<noteq> JNull) \<Longrightarrow> json_option f a = json_option f b \<longleftrightarrow> a = b"
  by (cases a; cases b) (auto simp: json_option_def inj_eq, metis)

lemma pairs_inject:
  "map (\<lambda>(k, v). JArr [JStr k, JStr v]) ps = map (\<lambda>(k, v). JArr [JStr k, JStr v]) qs \<longleftrightarrow> ps = qs"
  by (rule inj_map_eq_map) (auto simp: inj_def)

lemma strings_inject: "map JStr ss = map JStr ts \<longleftrightarrow> ss = ts"
  by (rule inj_map_eq_map) (auto simp: inj_def)

lemma service_contract_iff:
  "service_contract rt a = service_contract rt b \<longleftrightarrow>
     lsServiceId a = lsServiceId b \<and> lsCommand a = lsCommand b \<and> lsArgs a = lsArgs b \<and> lsDirectory a = lsDirectory b
     \<and> js_sort (\<lambda>x y. localeCompare rt (fst x) (fst y)) (lsEnvironmentReferences a)
       = js_sort (\<lambda>x y. localeCompare rt (fst x) (fst y)) (lsEnvironmentReferences b)
     \<and> lsHost a = lsHost b \<and> lsPort a = lsPort b \<and> lsHealthPath a = lsHealthPath b
     \<and> lsStartupTimeoutMs a = lsStartupTimeoutMs b"
proof -
  have "(case lsHost a of LoopbackV4 \<Rightarrow> ''127.0.0.1'' | LoopbackV6 \<Rightarrow> ''::1'')
      = (case lsHost b of LoopbackV4 \<Rightarrow> ''127.0.0.1'' | LoopbackV6 \<Rightarrow> ''::1'') \<longleftrightarrow> lsHost a = lsHost b"
    by (cases "lsHost a"; cases "lsHost b") simp_all
  moreover have "inj JStr" "inj JNum" by (auto simp: inj_def)
  ultimately show ?thesis
    by (simp add: service_contract_def strings_inject pairs_inject json_option_inject)
qed

lemma service_material_iff:
  "service_material rt a = service_material rt b \<longleftrightarrow> service_contract rt a = service_contract rt b \<and> lsOrigin a = lsOrigin b"
proof -
  have len: "length (service_contract rt s) = 10" for s by (simp add: service_contract_def)
  have "service_contract rt s \<noteq> JStr ''discovered'' # service_contract rt t" for s t
    using len [of s] len [of t] by (metis length_Cons n_not_Suc_n)
  then show ?thesis
    unfolding service_material_def json_text_inject json.inject
    by (cases "lsOrigin a"; cases "lsOrigin b") (auto, metis)
qed

text \<open>
  A service revision identifies the launch contract: unless the truncated digests of the two
  serialised contracts collide, equal revisions mean the same service, command, arguments,
  directory, environment references, address, port, health path, timeout and origin of the
  contract. The owning Task plays no part.
\<close>

theorem service_revision_identifies_contract:
  assumes "take 32 (sha256Hex rt (service_material rt a)) = take 32 (sha256Hex rt (service_material rt b)) \<Longrightarrow>
    service_material rt a = service_material rt b"
  shows "localServiceSpecificationRevision rt a = localServiceSpecificationRevision rt b \<longleftrightarrow>
    lsServiceId a = lsServiceId b \<and> lsCommand a = lsCommand b \<and> lsArgs a = lsArgs b \<and> lsDirectory a = lsDirectory b
    \<and> js_sort (\<lambda>x y. localeCompare rt (fst x) (fst y)) (lsEnvironmentReferences a)
      = js_sort (\<lambda>x y. localeCompare rt (fst x) (fst y)) (lsEnvironmentReferences b)
    \<and> lsHost a = lsHost b \<and> lsPort a = lsPort b \<and> lsHealthPath a = lsHealthPath b
    \<and> lsStartupTimeoutMs a = lsStartupTimeoutMs b \<and> lsOrigin a = lsOrigin b"
proof -
  have "localServiceSpecificationRevision rt a = localServiceSpecificationRevision rt b \<longleftrightarrow>
      service_material rt a = service_material rt b"
    using assms unfolding localServiceSpecificationRevision_def by auto
  then show ?thesis by (auto simp: service_material_iff service_contract_iff)
qed

subsection \<open>Evaluations\<close>

definition sample_binding :: "string \<Rightarrow> AuthorizedExecutorBinding" where
  "sample_binding agent = \<lparr>abAgentClassRef = agent, abHarnessRef = ''h'', abProviderRef = ''p'', abModelRef = ''m'',
     abPermissionProfileRef = ''std'', abConfigurationRevision = ''r1'', abExecutorDisplayName = None,
     abHarnessDisplayName = None, abProviderDisplayName = None, abModelDisplayName = None\<rparr>"

theorem binding_fingerprint_identifies_witness:
  "authorizedExecutorBindingFingerprint sample_runtime (sample_binding ''pi'')
     \<noteq> authorizedExecutorBindingFingerprint sample_runtime (sample_binding ''codex'')"
  using binding_fingerprint_identifies [of sample_runtime "sample_binding ''pi''" "sample_binding ''codex''"]
  by (simp add: sample_runtime_def sample_binding_def)

definition sample_service :: "string \<Rightarrow> string \<Rightarrow> LocalServiceSpecification" where
  "sample_service service task = \<lparr>lsServiceId = service, lsTaskId = task, lsCommand = ''node'', lsArgs = [''server.js''],
     lsDirectory = None, lsEnvironmentReferences = [(''PORT'', ''port'')], lsHost = LoopbackV4, lsPort = Some 3000,
     lsHealthPath = Some ''/health'', lsStartupTimeoutMs = 5000, lsOrigin = ManifestOrigin\<rparr>"

theorem service_revision_identifies_contract_witness:
  "localServiceSpecificationRevision sample_runtime (sample_service ''web'' ''t1'')
     = localServiceSpecificationRevision sample_runtime (sample_service ''web'' ''t2'')"
  using service_revision_identifies_contract [of sample_runtime "sample_service ''web'' ''t1''" "sample_service ''web'' ''t2''"]
  by (simp add: sample_service_def service_material_iff service_contract_iff)

end
