(* ===== verification/Permission_Policy.thy ===== *)
theory Permission_Policy
  imports Resource_Partition
begin

text \<open>
  Capability permissions (\<open>src/src/resource/types.ts\<close>, \<open>permission-policy.ts\<close>,
  \<open>permission-profiles.ts\<close>): the evaluation of one capability request against the rules, earlier
  denials and exact user authorizations, the limits of a grant, and the rules a permission profile
  gives. A failed \<open>partitionCovers\<close> or timestamp throws and is \<^const>\<open>Inl\<close>.
\<close>

datatype PermissionProfileId = WorkspaceEngineering | PublicWebResearch | RestrictedCustom | StandardAgent

datatype ControlledCapability =
  AdditionalReadResource | NetworkTarget | SealedSecret | ExternalObjectOperation
  | RepositoryPromotion | LogicalResourceOperation

datatype CapabilityScope = OnceScope | AttemptScope

record NormalizedCapabilityRequest =
  rqId :: string
  rqFingerprint :: string
  rqTaskId :: string
  rqGenerationId :: string
  rqSubtaskId :: string
  rqAttemptId :: string
  rqAgentClassName :: string
  rqPermissionProfileId :: PermissionProfileId
  rqPartition :: PartitionIdentity
  rqDistinctRequestOrdinal :: int
  rqCapability :: ControlledCapability
  rqResource :: string
  rqOperation :: string
  rqReason :: string
  rqSuggestedScope :: CapabilityScope

record CapabilityGrantLimits =
  expiresAt :: string
  maxCalls :: int
  maxBytes :: int

record CapabilityGrant =
  grantId :: string
  grantRequestId :: string
  grantFingerprint :: string
  grantTaskId :: string
  grantSubtaskId :: string
  grantAttemptId :: string
  grantCapability :: ControlledCapability
  grantPartition :: PartitionIdentity
  grantOperation :: string
  grantScope :: CapabilityScope
  grantLimits :: CapabilityGrantLimits
  callsUsed :: int
  bytesUsed :: int
  revokedAt :: "string option"

datatype RuleEffect = AllowEffect | DenyEffect | EscalateEffect

text \<open>\<open>ruleCapability = None\<close> is the wildcard \<open>'*'\<close>.\<close>

record PermissionRule =
  ruleId :: string
  ruleEffect :: RuleEffect
  ruleCapability :: "ControlledCapability option"
  ruleOperation :: string
  rulePartition :: "PartitionIdentity option"
  ruleReason :: string

datatype PermissionDecision =
    GrantCapability (grantRule: string) (grantReason: string) (grantedLimits: CapabilityGrantLimits)
  | DenyCapability (denyRule: "string option") (denyReason: string)
  | EscalateCapability (escalateRule: "string option") (escalateReason: string)

record PermissionEvaluationInput =
  peRequest :: NormalizedCapabilityRequest
  peRules :: "PermissionRule list"
  peNow :: string
  pePreviouslyDenied :: "string list"
  peUserAuthorizations :: "string list"
  peMaxDistinctRequests :: "int option"

subsection \<open>Policy\<close>

definition readOrNetwork :: "ControlledCapability \<Rightarrow> bool" where
  "readOrNetwork c \<longleftrightarrow> c = AdditionalReadResource \<or> c = NetworkTarget"

definition alwaysEscalate :: "ControlledCapability \<Rightarrow> bool" where
  "alwaysEscalate c \<longleftrightarrow> c = SealedSecret \<or> c = ExternalObjectOperation \<or> c = RepositoryPromotion"

definition HARD_DENY_TOKENS :: "string list" where
  "HARD_DENY_TOKENS =
    [''privileged'', ''docker_socket'', ''host_device'', ''host_pid'', ''host_ipc'', ''host_network'',
     ''bypass_broker'', ''bypass_egress_proxy'', ''system_credentials'', ''other_task_secret'',
     ''other_task_workspace'', ''modify_permission_policy'', ''modify_kernel_ledger'', ''weaken_sandbox'']"

text \<open>\<open>s.includes(t)\<close>\<close>

fun js_includes :: "string \<Rightarrow> string \<Rightarrow> bool" where
  "js_includes [] t \<longleftrightarrow> t = []"
| "js_includes (c # cs) t \<longleftrightarrow> startsWith (c # cs) t \<or> js_includes cs t"

definition operationMatches :: "string \<Rightarrow> string \<Rightarrow> bool" where
  "operationMatches pattern operation \<longleftrightarrow> pattern = ''*'' \<or> pattern = operation"

fun matchingRule :: "NormalizedCapabilityRequest \<Rightarrow> PermissionRule list \<Rightarrow> PermissionRule option result" where
  "matchingRule request [] = Inr None"
| "matchingRule request (rule # rules) =
     (if (ruleCapability rule = None \<or> ruleCapability rule = Some (rqCapability request))
         \<and> operationMatches (ruleOperation rule) (rqOperation request)
      then (case rulePartition rule of
              None \<Rightarrow> Inr (Some rule)
            | Some p \<Rightarrow> rbind (partitionCovers p (rqPartition request)) (\<lambda>covers.
                          if covers then Inr (Some rule) else matchingRule request rules))
      else matchingRule request rules)"

definition capability_name :: "ControlledCapability \<Rightarrow> string" where
  "capability_name c = (case c of
      AdditionalReadResource \<Rightarrow> ''additional_read_resource'' | NetworkTarget \<Rightarrow> ''network_target''
    | SealedSecret \<Rightarrow> ''sealed_secret'' | ExternalObjectOperation \<Rightarrow> ''external_object_operation''
    | RepositoryPromotion \<Rightarrow> ''repository_promotion'' | LogicalResourceOperation \<Rightarrow> ''logical_resource_operation'')"

definition scope_text :: "CapabilityScope \<Rightarrow> string" where
  "scope_text s = (case s of OnceScope \<Rightarrow> ''once'' | AttemptScope \<Rightarrow> ''attempt'')"

definition capabilityRequestFingerprint :: "js_runtime \<Rightarrow> NormalizedCapabilityRequest \<Rightarrow> string result" where
  "capabilityRequestFingerprint rt request =
     rbind (partitionCanonicalKey (rqPartition request)) (\<lambda>key.
       Inr (sha256Hex rt (js_join [CHR 0x00]
         [rqTaskId request, rqSubtaskId request, capability_name (rqCapability request), key,
          rqOperation request, scope_text (rqSuggestedScope request)])))"

definition defaultGrantLimits ::
  "js_runtime \<Rightarrow> NormalizedCapabilityRequest \<Rightarrow> string \<Rightarrow> CapabilityGrantLimits result"
where
  "defaultGrantLimits rt request now =
     (case dateParse rt now of
        None \<Rightarrow> Inl ''permission evaluation requires an ISO timestamp''
      | Some issuedAt \<Rightarrow>
          (let r = readOrNetwork (rqCapability request);
               expires = issuedAt + (if r then 15 else 5) * 60000 in
           if MAX_DATE < \<bar>expires\<bar> then Inl ''Invalid time value''
           else Inr \<lparr>expiresAt = toISOString rt expires,
                maxCalls = (if r then 100 else 1),
                maxBytes = (if r then 100 * 1024 * 1024 else 1024 * 1024)\<rparr>))"

text \<open>Past the guards, the first matching rule decides, then an exact user authorization.\<close>

definition rule_outcome ::
  "js_runtime \<Rightarrow> PermissionEvaluationInput \<Rightarrow> PermissionRule option \<Rightarrow> PermissionDecision result"
where
  "rule_outcome rt input rule =
     (let request = peRequest input;
          explicitlyAuthorized = rqFingerprint request \<in> set (peUserAuthorizations input);
          grant = (\<lambda>i why. rbind (defaultGrantLimits rt request (peNow input)) (\<lambda>limits.
                     Inr (GrantCapability i why limits)))
      in case rule of
           Some r \<Rightarrow>
             (case ruleEffect r of
                DenyEffect \<Rightarrow> Inr (DenyCapability (Some (ruleId r)) (ruleReason r))
              | EscalateEffect \<Rightarrow> Inr (EscalateCapability (Some (ruleId r)) (ruleReason r))
              | AllowEffect \<Rightarrow> grant (ruleId r) (ruleReason r))
         | None \<Rightarrow>
             if explicitlyAuthorized
             then grant ''user_authorization'' ''exact user authorization covers this request''
             else if alwaysEscalate (rqCapability request)
             then Inr (EscalateCapability None ''capability requires exact user authorization'')
             else Inr (DenyCapability None ''no explicit permission rule covers this request''))"

definition evaluateCapabilityRequest ::
  "js_runtime \<Rightarrow> PermissionEvaluationInput \<Rightarrow> PermissionDecision result"
where
  "evaluateCapabilityRequest rt input =
     (let request = peRequest input; operation = toLowerCase (rqOperation request) in
      case find (js_includes operation) HARD_DENY_TOKENS of
        Some hardDeny \<Rightarrow> Inr (DenyCapability None (''platform hard deny: '' @ hardDeny))
      | None \<Rightarrow>
          if js_trim (rqReason request) = [] then Inr (DenyCapability None ''a concrete reason is required'')
          else if rqDistinctRequestOrdinal request
                    > (case peMaxDistinctRequests input of None \<Rightarrow> 8 | Some n \<Rightarrow> n)
          then Inr (EscalateCapability None ''attempt capability request budget exceeded'')
          else if rqFingerprint request \<in> set (pePreviouslyDenied input)
          then Inr (DenyCapability None ''identical capability request was already denied'')
          else rbind (matchingRule request (peRules input)) (rule_outcome rt input))"

subsection \<open>Profiles\<close>

datatype PublicNetwork = NetworkDisabled | EgressProxy

record PermissionProfile =
  profileId :: PermissionProfileId
  publicNetwork :: PublicNetwork
  workspaceWritable :: bool
  temporaryDirectoryWritable :: bool
  sourceReadOnly :: bool
  inputsReadOnly :: bool
  handoffsReadOnly :: bool
  gitMetadataReadOnly :: bool

definition getPermissionProfile :: "PermissionProfileId \<Rightarrow> PermissionProfile" where
  "getPermissionProfile i =
     \<lparr>profileId = i,
      publicNetwork = (case i of StandardAgent \<Rightarrow> EgressProxy | WorkspaceEngineering \<Rightarrow> NetworkDisabled
                        | PublicWebResearch \<Rightarrow> EgressProxy | RestrictedCustom \<Rightarrow> NetworkDisabled),
      workspaceWritable = True, temporaryDirectoryWritable = True, sourceReadOnly = True,
      inputsReadOnly = True, handoffsReadOnly = True, gitMetadataReadOnly = True\<rparr>"

definition profile_name :: "PermissionProfileId \<Rightarrow> string" where
  "profile_name i = (case i of WorkspaceEngineering \<Rightarrow> ''workspace-engineering''
     | PublicWebResearch \<Rightarrow> ''public-web-research'' | RestrictedCustom \<Rightarrow> ''restricted-custom''
     | StandardAgent \<Rightarrow> ''standard-agent'')"

fun keyed_partitions :: "PartitionIdentity list \<Rightarrow> (string \<times> PartitionIdentity) list result" where
  "keyed_partitions [] = Inr []"
| "keyed_partitions (p # ps) =
     rbind (partitionCanonicalKey p) (\<lambda>key. rbind (keyed_partitions ps) (\<lambda>rest. Inr ((key, p) # rest)))"

definition additional_read_rule :: "PermissionProfileId \<Rightarrow> nat \<Rightarrow> PartitionIdentity \<Rightarrow> PermissionRule" where
  "additional_read_rule profile index p =
     \<lparr>ruleId = ''permission-profile-v1:'' @ profile_name profile @ '':additional-read:'' @ show_nat index,
      ruleEffect = AllowEffect, ruleCapability = Some AdditionalReadResource, ruleOperation = ''*'',
      rulePartition = Some p,
      ruleReason = ''the current Task explicitly registered this read-only resource''\<rparr>"

definition public_http_rule :: "PermissionProfileId \<Rightarrow> PermissionRule" where
  "public_http_rule profile =
     \<lparr>ruleId = ''permission-profile-v1:'' @ profile_name profile @ '':public-http'',
      ruleEffect = AllowEffect, ruleCapability = Some NetworkTarget, ruleOperation = ''*'',
      rulePartition = None,
      ruleReason = ''the AgentClass profile permits normalized public HTTP(S) through the policy egress proxy''\<rparr>"

definition buildPermissionRules ::
  "js_runtime \<Rightarrow> PermissionProfileId \<Rightarrow> PartitionIdentity list \<Rightarrow> PermissionRule list result"
where
  "buildPermissionRules rt profile additionalReadPartitions =
     rbind (keyed_partitions additionalReadPartitions) (\<lambda>items.
       let unique = js_sort (\<lambda>l r. localeCompare rt (fst l) (fst r)) (js_map_of items);
           rules = map (\<lambda>(index, item). additional_read_rule profile index (snd item)) (enumerate 0 unique)
       in Inr (rules @ (if publicNetwork (getPermissionProfile profile) = EgressProxy
                        then [public_http_rule profile] else [])))"

definition buildDefaultResourceClaims ::
  "string \<Rightarrow> string \<Rightarrow> string \<Rightarrow> string \<Rightarrow> string \<Rightarrow> ResourceClaim list"
where
  "buildDefaultResourceClaims workspaceId sourceMountId inputsMountId handoffsMountId gitMetadataMountId =
     [\<lparr>partition = PathPartition workspaceId ''workspace'', access = WriteAccess\<rparr>,
      \<lparr>partition = PathPartition sourceMountId ''source'', access = ReadAccess\<rparr>,
      \<lparr>partition = PathPartition inputsMountId ''inputs'', access = ReadAccess\<rparr>,
      \<lparr>partition = PathPartition handoffsMountId ''handoffs'', access = ReadAccess\<rparr>,
      \<lparr>partition = PathPartition gitMetadataMountId ''git-metadata'', access = ReadAccess\<rparr>]"

subsection \<open>What a grant needs\<close>

lemma js_includes_iff: "js_includes s t \<longleftrightarrow> (\<exists>a b. s = a @ t @ b)"
proof (induction s)
  case (Cons c cs)
  have "(\<exists>a b. c # cs = a @ t @ b) \<longleftrightarrow> (\<exists>b. c # cs = t @ b) \<or> (\<exists>a b. cs = a @ t @ b)"
    by (metis Cons_eq_append_conv append_Cons append_Nil)
  with Cons show ?case by (simp add: startsWith_iff)
qed auto

text \<open>A rule matches a request when capability, operation and partition all fit.\<close>

definition rule_applies :: "NormalizedCapabilityRequest \<Rightarrow> PermissionRule \<Rightarrow> bool" where
  "rule_applies request rule \<longleftrightarrow>
     (ruleCapability rule = None \<or> ruleCapability rule = Some (rqCapability request))
     \<and> operationMatches (ruleOperation rule) (rqOperation request)
     \<and> (case rulePartition rule of None \<Rightarrow> True | Some p \<Rightarrow> partitionCovers p (rqPartition request) = Inr True)"

lemma matchingRule_Some:
  "matchingRule request rules = Inr (Some r) \<Longrightarrow>
     \<exists>before after. rules = before @ r # after \<and> rule_applies request r
       \<and> (\<forall>b \<in> set before. \<not> rule_applies request b)"
proof (induction rules)
  case (Cons rule rules)
  show ?case
  proof (cases "rule_applies request rule")
    case True
    with Cons.prems have "r = rule" by (auto simp: rule_applies_def split: option.splits if_splits)
    with True show ?thesis by (intro exI [of _ "[]"] exI [of _ rules]) simp
  next
    case False
    with Cons.prems have "matchingRule request rules = Inr (Some r)"
      by (auto simp: rule_applies_def split: option.splits if_splits)
    with Cons.IH obtain before after where "rules = before @ r # after" "rule_applies request r"
      "\<forall>b \<in> set before. \<not> rule_applies request b" by blast
    with False show ?thesis by (intro exI [of _ "rule # before"] exI [of _ after]) simp
  qed
qed simp

lemma matchingRule_None: "matchingRule request rules = Inr None \<Longrightarrow> \<forall>r \<in> set rules. \<not> rule_applies request r"
proof (induction rules)
  case (Cons rule rules)
  then have "\<not> rule_applies request rule" "matchingRule request rules = Inr None"
    by (auto simp: rule_applies_def split: option.splits if_splits)
  with Cons.IH show ?case by simp
qed simp

lemma rule_outcome_grant:
  assumes "rule_outcome rt input rule = Inr (GrantCapability i why limits)"
  shows "defaultGrantLimits rt (peRequest input) (peNow input) = Inr limits
    \<and> (case rule of Some r \<Rightarrow> ruleEffect r = AllowEffect \<and> i = ruleId r
         | None \<Rightarrow> rqFingerprint (peRequest input) \<in> set (peUserAuthorizations input))"
  using assms by (cases rule) (auto simp: rule_outcome_def Let_def split: RuleEffect.splits if_splits)

lemma evaluate_grant_cases:
  assumes "evaluateCapabilityRequest rt input = Inr (GrantCapability rule why limits)"
  shows "\<not> (\<exists>token \<in> set HARD_DENY_TOKENS. js_includes (toLowerCase (rqOperation (peRequest input))) token)
    \<and> js_trim (rqReason (peRequest input)) \<noteq> []
    \<and> rqDistinctRequestOrdinal (peRequest input) \<le> (case peMaxDistinctRequests input of None \<Rightarrow> 8 | Some n \<Rightarrow> n)
    \<and> rqFingerprint (peRequest input) \<notin> set (pePreviouslyDenied input)
    \<and> defaultGrantLimits rt (peRequest input) (peNow input) = Inr limits
    \<and> ((\<exists>r. matchingRule (peRequest input) (peRules input) = Inr (Some r) \<and> ruleEffect r = AllowEffect \<and> rule = ruleId r)
       \<or> (matchingRule (peRequest input) (peRules input) = Inr None
          \<and> rqFingerprint (peRequest input) \<in> set (peUserAuthorizations input)))"
proof -
  from assms obtain r where "find (js_includes (toLowerCase (rqOperation (peRequest input)))) HARD_DENY_TOKENS = None"
    and "js_trim (rqReason (peRequest input)) \<noteq> []"
    and "rqDistinctRequestOrdinal (peRequest input) \<le> (case peMaxDistinctRequests input of None \<Rightarrow> 8 | Some n \<Rightarrow> n)"
    and "rqFingerprint (peRequest input) \<notin> set (pePreviouslyDenied input)"
    and m: "matchingRule (peRequest input) (peRules input) = Inr r"
    and o: "rule_outcome rt input r = Inr (GrantCapability rule why limits)"
    unfolding evaluateCapabilityRequest_def Let_def
    by (simp split: option.splits if_splits) (metis linorder_not_less)+
  moreover from rule_outcome_grant [OF o] m
  have "(\<exists>r. matchingRule (peRequest input) (peRules input) = Inr (Some r) \<and> ruleEffect r = AllowEffect \<and> rule = ruleId r)
       \<or> (matchingRule (peRequest input) (peRules input) = Inr None
          \<and> rqFingerprint (peRequest input) \<in> set (peUserAuthorizations input))"
    by (cases r) auto
  ultimately show ?thesis using rule_outcome_grant [OF o] by (auto simp: find_None_all)
qed

text \<open>
  No grant without authority: a granted request uses no hard-denied operation, was never
  denied before, stays within the request budget, and either the first rule that applies to it
  allows it, or no rule applies and the user authorized exactly this fingerprint.
\<close>

theorem grant_needs_authority:
  assumes "evaluateCapabilityRequest rt input = Inr (GrantCapability rule why limits)"
  shows "(\<forall>token \<in> set HARD_DENY_TOKENS. \<not> js_includes (toLowerCase (rqOperation (peRequest input))) token)
    \<and> rqFingerprint (peRequest input) \<notin> set (pePreviouslyDenied input)
    \<and> rqDistinctRequestOrdinal (peRequest input) \<le> (case peMaxDistinctRequests input of None \<Rightarrow> 8 | Some n \<Rightarrow> n)
    \<and> ((\<exists>before r after. peRules input = before @ r # after \<and> rule_applies (peRequest input) r
           \<and> ruleEffect r = AllowEffect \<and> (\<forall>b \<in> set before. \<not> rule_applies (peRequest input) b))
       \<or> ((\<forall>r \<in> set (peRules input). \<not> rule_applies (peRequest input) r)
          \<and> rqFingerprint (peRequest input) \<in> set (peUserAuthorizations input)))"
proof -
  note g = evaluate_grant_cases [OF assms]
  then have "(\<exists>r. matchingRule (peRequest input) (peRules input) = Inr (Some r) \<and> ruleEffect r = AllowEffect)
      \<or> matchingRule (peRequest input) (peRules input) = Inr None
         \<and> rqFingerprint (peRequest input) \<in> set (peUserAuthorizations input)" by blast
  then have "(\<exists>before r after. peRules input = before @ r # after \<and> rule_applies (peRequest input) r
           \<and> ruleEffect r = AllowEffect \<and> (\<forall>b \<in> set before. \<not> rule_applies (peRequest input) b))
       \<or> ((\<forall>r \<in> set (peRules input). \<not> rule_applies (peRequest input) r)
          \<and> rqFingerprint (peRequest input) \<in> set (peUserAuthorizations input))"
    using matchingRule_None matchingRule_Some by metis
  with g show ?thesis by blast
qed

text \<open>
  Grants are bounded: reads and network targets get at most 100 calls, 100 MiB and 15
  minutes, everything else exactly one call, 1 MiB and 5 minutes, counted from the evaluation time.
\<close>

theorem grant_limits_bounded:
  assumes "evaluateCapabilityRequest rt input = Inr (GrantCapability rule why limits)"
  shows "\<exists>t. dateParse rt (peNow input) = Some t
    \<and> (if readOrNetwork (rqCapability (peRequest input))
       then maxCalls limits = 100 \<and> maxBytes limits = 104857600 \<and> expiresAt limits = toISOString rt (t + 900000)
       else maxCalls limits = 1 \<and> maxBytes limits = 1048576 \<and> expiresAt limits = toISOString rt (t + 300000))"
  using evaluate_grant_cases [OF assms]
  by (auto simp: defaultGrantLimits_def Let_def split: option.splits if_splits)

definition sample_request :: "ControlledCapability \<Rightarrow> string \<Rightarrow> NormalizedCapabilityRequest" where
  "sample_request cap op =
     \<lparr>rqId = ''r1'', rqFingerprint = ''f1'', rqTaskId = ''t1'', rqGenerationId = ''g1'', rqSubtaskId = ''s1'',
      rqAttemptId = ''a1'', rqAgentClassName = ''pi'', rqPermissionProfileId = StandardAgent,
      rqPartition = Logical ''net'' ''example'', rqDistinctRequestOrdinal = 1, rqCapability = cap,
      rqResource = ''example'', rqOperation = op, rqReason = ''fetch'', rqSuggestedScope = OnceScope\<rparr>"

definition sample_evaluation :: "ControlledCapability \<Rightarrow> string \<Rightarrow> PermissionEvaluationInput" where
  "sample_evaluation cap op =
     \<lparr>peRequest = sample_request cap op, peRules = [public_http_rule StandardAgent], peNow = ''1000'',
      pePreviouslyDenied = [], peUserAuthorizations = [''f1''], peMaxDistinctRequests = None\<rparr>"

lemma sample_network_grant:
  "evaluateCapabilityRequest sample_runtime (sample_evaluation NetworkTarget ''get'') =
     Inr (GrantCapability (ruleId (public_http_rule StandardAgent)) (ruleReason (public_http_rule StandardAgent))
       \<lparr>expiresAt = ''901000'', maxCalls = 100, maxBytes = 104857600\<rparr>)"
  by code_simp

lemma sample_secret_grant:
  "evaluateCapabilityRequest sample_runtime (sample_evaluation SealedSecret ''use'') =
     Inr (GrantCapability ''user_authorization'' ''exact user authorization covers this request''
       \<lparr>expiresAt = ''301000'', maxCalls = 1, maxBytes = 1048576\<rparr>)"
  by code_simp

theorem grant_needs_authority_witness:
  "list_all (\<lambda>token. \<not> js_includes (toLowerCase ''use'') token) HARD_DENY_TOKENS"
  using grant_needs_authority [OF sample_secret_grant]
  by (simp add: sample_evaluation_def sample_request_def list_all_iff)

theorem grant_limits_bounded_witness: "dateParse sample_runtime ''1000'' = Some 1000 \<and> ''901000'' = toISOString sample_runtime (1000 + 900000)"
proof -
  have "dateParse sample_runtime ''1000'' = Some 1000" by code_simp
  with grant_limits_bounded [OF sample_network_grant] show ?thesis
    by (auto simp: sample_evaluation_def sample_request_def readOrNetwork_def)
qed

end
