(* ===== verification/Model_Routing.thy ===== *)
theory Model_Routing
  imports Js_Number Work_Graph Executor_Binding Permission_Policy
begin

text \<open>
  Routing of a Subtask to a concrete model: the configuration the Kernel sees
  (\<open>src/src/configuration/types.ts\<close>, \<open>model-capability-catalog.ts\<close>, \<open>user-facing-names.ts\<close>,
  \<open>public-provider-catalog.ts\<close>, \<open>public-routing-identity.ts\<close>), the capability registry
  (\<open>src/src/routing/types.ts\<close>), the candidate projection (\<open>configuration-candidate-projection.ts\<close>),
  the deterministic resolver (\<open>auto-model-resolver.ts\<close>) and the candidate groups a Span observation is
  checked against (\<open>plan-routing-candidates.ts\<close>, \<open>span-routing-types.ts\<close>).

  A \<open>Record\<close> is an association list in enumeration order; only own properties are looked up.
  Scores use the host's arithmetic, an argument of type \<^typ>\<open>js_platform\<close>.
\<close>

subsection \<open>Configuration\<close>

type_synonym ModelCapability = string
type_synonym RoutingCapabilityId = string

datatype Tier = LowTier | MediumTier | HighTier

datatype ObjectivePriority = BalancedPriority | QualityPriority | CostPriority | LatencyPriority

record AutoModelObjective =
  obPriority :: ObjectivePriority
  obMaxCostPerTurn :: "js_number option"
  obMaxLatencyMs :: "js_number option"
  obMinimumQualityTier :: "Tier option"

record AutoPolicy =
  apAllowedModelRefs :: "string list"
  apDefaultModelRef :: "string option"
  apFallbackOrder :: "string list option"
  apObjective :: "AutoModelObjective option"

datatype ModelPolicy = FixedPolicy (fixedModelRef: string) | AutoModelPolicy AutoPolicy

datatype HarnessKind = PlannerKind | ExecutorKind

record KernelAgentClassConfiguration =
  kaDisplayName :: "string option"
  kaKind :: HarnessKind
  kaHarnessRef :: string
  kaDriverId :: string
  kaModelPolicy :: ModelPolicy
  kaPermissionProfileRef :: "string option"
  kaRoutingCapabilities :: "RoutingCapabilityId list"
  kaModelCapabilities :: "(string \<times> ModelCapability list) list"
  kaEnabled :: bool

record KernelModel =
  kmProviderRef :: string
  kmModelId :: string
  kmCapabilities :: "ModelCapability list"
  kmContextLimit :: "js_number option"
  kmLatencyTier :: "Tier option"
  kmQualityTier :: "Tier option"
  kmCostInputPerMillion :: "js_number option"
  kmCostOutputPerMillion :: "js_number option"
  kmEnabled :: bool

record KernelProvider =
  kpDisplayName :: "string option"
  kpEnabled :: bool

record RuntimePolicy =
  rpMaxConcurrentTasks :: "int option"
  rpSameConversationQueueLimit :: "int option"

record KernelConfigurationView =
  kcRevisionId :: string
  kcAgentClasses :: "(string \<times> KernelAgentClassConfiguration) list"
  kcModels :: "(string \<times> KernelModel) list"
  kcProviders :: "(string \<times> KernelProvider) list"
  kcPermissionProfiles :: "(string \<times> PermissionProfileId) list"
  kcRuntimePolicy :: RuntimePolicy
  kcSpanModel :: "string option"

subsection \<open>Capabilities\<close>

definition MODEL_CAPABILITY_CATALOG :: "(string \<times> ModelCapability list) list" where
  "MODEL_CAPABILITY_CATALOG =
    [(''gpt-5.6-sol'', [''coding'', ''long-context'', ''planning'', ''structured-output'', ''tools'', ''vision'']),
     (''gpt-5.6-terra'', [''coding'', ''long-context'', ''planning'', ''structured-output'', ''tools'', ''vision'']),
     (''gpt-image-2'', [''image-editing'', ''image-generation'', ''vision'']),
     (''k3'', [''coding'', ''long-context'', ''tools'']),
     (''kimi-for-coding'', [''coding'', ''long-context'', ''tools'', ''structured-output'']),
     (''kimi-for-coding-highspeed'', [''coding'', ''long-context'', ''tools'']),
     (''k3-256k'', [''coding'', ''long-context'', ''tools'']),
     (''deepseek-chat'', [''coding'', ''long-context'', ''tools'']),
     (''deepseek-flash'', [''coding'', ''long-context'', ''planning'', ''structured-output'', ''tools'']),
     (''deepseek-reasoner'', [''coding'', ''long-context'', ''structured-output'', ''tools'', ''planning'']),
     (''deepseek-v4-flash'', [''coding'', ''long-context'', ''planning'', ''structured-output'', ''tools'']),
     (''deepseek-v4.1-flash'', [''coding'', ''long-context'', ''planning'', ''structured-output'', ''tools'']),
     (''deepseek-v4-pro'', [''coding'', ''long-context'', ''planning'', ''structured-output'', ''tools'']),
     (''deepseek-v4-flash-vision-exp'', [''coding'', ''vision'', ''tools''])]"

definition knownModelCapabilities :: "string \<Rightarrow> ModelCapability list" where
  "knownModelCapabilities modelId = (case map_of MODEL_CAPABILITY_CATALOG modelId of None \<Rightarrow> [] | Some cs \<Rightarrow> cs)"

definition mergeKnownModelCapabilities :: "js_runtime \<Rightarrow> string \<Rightarrow> ModelCapability list \<Rightarrow> ModelCapability list" where
  "mergeKnownModelCapabilities rt modelId capabilities =
     js_sort (localeCompare rt) (js_dedup (capabilities @ knownModelCapabilities modelId))"

definition requiredModelCapabilities :: "(RoutingCapabilityId \<times> ModelCapability list) list" where
  "requiredModelCapabilities =
    [(''current-web-research'', []), (''image-editing'', [''image-editing'']), (''image-generation'', [''image-generation'']),
     (''document-processing'', []), (''workspace-engineering'', [])]"

fun collect_requirements :: "RoutingCapabilityId list \<Rightarrow> ModelCapability list result" where
  "collect_requirements [] = Inr []"
| "collect_requirements (c # cs) =
     (case map_of requiredModelCapabilities c of
        None \<Rightarrow> Inl ''Cannot read properties of undefined (reading 'requiredModelCapabilities')''
      | Some ms \<Rightarrow> rbind (collect_requirements cs) (\<lambda>rest. Inr (ms @ rest)))"

definition requiredModelCapabilitiesForRoutingCapabilities ::
  "js_runtime \<Rightarrow> RoutingCapabilityId list \<Rightarrow> ModelCapability list result"
where
  "requiredModelCapabilitiesForRoutingCapabilities rt caps =
     rbind (collect_requirements caps) (\<lambda>ms. Inr (js_sort (localeCompare rt) (js_dedup ms)))"

datatype KernelRecoverySafety = ReadOnlySafety | WorkspaceReconcilable | ExternalNonIdempotent

definition capability_safety :: "(RoutingCapabilityId \<times> KernelRecoverySafety) list" where
  "capability_safety =
    [(''current-web-research'', ReadOnlySafety), (''image-editing'', WorkspaceReconcilable),
     (''image-generation'', WorkspaceReconcilable), (''document-processing'', WorkspaceReconcilable),
     (''workspace-engineering'', WorkspaceReconcilable)]"

fun recovery_safety_loop :: "KernelRecoverySafety \<Rightarrow> string list \<Rightarrow> KernelRecoverySafety" where
  "recovery_safety_loop result [] = result"
| "recovery_safety_loop result (c # cs) =
     (case map_of capability_safety c of
        None \<Rightarrow> ExternalNonIdempotent
      | Some s \<Rightarrow> if s = ExternalNonIdempotent then ExternalNonIdempotent
                  else recovery_safety_loop (if s = WorkspaceReconcilable then WorkspaceReconcilable else result) cs)"

definition deriveRecoverySafety :: "string list \<Rightarrow> KernelRecoverySafety" where
  "deriveRecoverySafety capabilities = recovery_safety_loop ReadOnlySafety capabilities"

definition isModelExecutionConstraint :: "ModelCapability \<Rightarrow> bool" where
  "isModelExecutionConstraint c \<longleftrightarrow> c \<noteq> ''coding'' \<and> c \<noteq> ''planning'' \<and> c \<noteq> ''long-context''"

subsection \<open>Candidates\<close>

datatype ModelHealth = HealthyModel | DegradedModel | UnavailableModel

record AutoModelCandidate =
  mcProviderRef :: string
  mcModelRef :: string
  mcModelId :: string
  mcCapabilities :: "ModelCapability list"
  mcContextLimit :: "js_number option"
  mcCostInputPerMillion :: "js_number option"
  mcCostOutputPerMillion :: "js_number option"
  mcLatencyTier :: "Tier option"
  mcQualityTier :: "Tier option"
  mcHealth :: ModelHealth
  mcAvailable :: bool
  mcProviderEnabled :: "bool option"
  mcHarnessCompatible :: "bool option"
  mcCapacityAvailable :: "bool option"

text \<open>\<^verbatim>\<open>/(?:^|[/:._-])gpt(?:[/:._-]|\d|$)/iu\<close>\<close>

definition gpt_separator :: "char \<Rightarrow> bool" where
  "gpt_separator c \<longleftrightarrow> c \<in> set ''/:._-''"

fun gpt_scan :: "bool \<Rightarrow> string \<Rightarrow> bool" where
  "gpt_scan boundary [] \<longleftrightarrow> False"
| "gpt_scan boundary (c # cs) \<longleftrightarrow>
     (boundary \<and> startsWith (c # cs) ''gpt''
        \<and> (case drop 3 (c # cs) of [] \<Rightarrow> True | d # _ \<Rightarrow> gpt_separator d \<or> is_digit d))
     \<or> gpt_scan (gpt_separator c) cs"

definition isGptRelatedModel :: "string \<Rightarrow> bool" where
  "isGptRelatedModel modelId = gpt_scan True (toLowerCase modelId)"

definition resolveAgentClassDriverId :: "KernelConfigurationView \<Rightarrow> string \<Rightarrow> string option" where
  "resolveAgentClassDriverId configuration agentClassRef =
     map_option kaDriverId (map_of (kcAgentClasses configuration) agentClassRef)"

definition harness_compatible :: "KernelConfigurationView \<Rightarrow> string \<Rightarrow> bool \<Rightarrow> string \<Rightarrow> bool" where
  "harness_compatible configuration agentClassRef fixed_mode modelId =
     (if fixed_mode then True
      else (case map_of (kcAgentClasses configuration) agentClassRef of
              None \<Rightarrow> True
            | Some agentClass \<Rightarrow>
                if kaKind agentClass = PlannerKind then True
                else (let driverId = resolveAgentClassDriverId configuration agentClassRef in
                      if driverId = Some ''codex-cli'' then isGptRelatedModel modelId
                      else driverId = Some ''pi-cli'')))"

definition provider_enabled :: "KernelConfigurationView \<Rightarrow> string \<Rightarrow> bool" where
  "provider_enabled configuration providerRef =
     (case map_of (kcProviders configuration) providerRef of None \<Rightarrow> True | Some p \<Rightarrow> kpEnabled p)"

definition model_capabilities :: "KernelConfigurationView \<Rightarrow> string \<Rightarrow> string \<Rightarrow> KernelModel \<Rightarrow> ModelCapability list" where
  "model_capabilities configuration agentClassRef modelRef model =
     (case Option.bind (map_of (kcAgentClasses configuration) agentClassRef) (\<lambda>a. map_of (kaModelCapabilities a) modelRef) of
        None \<Rightarrow> kmCapabilities model
      | Some cs \<Rightarrow> cs)"

definition project_candidate ::
  "js_runtime \<Rightarrow> KernelConfigurationView \<Rightarrow> string \<Rightarrow> bool \<Rightarrow> string \<times> KernelModel \<Rightarrow> AutoModelCandidate"
where
  "project_candidate rt configuration agentClassRef fixed_mode entry = (case entry of (modelRef, model) \<Rightarrow>
     \<lparr>mcProviderRef = kmProviderRef model, mcModelRef = modelRef, mcModelId = kmModelId model,
      mcCapabilities = mergeKnownModelCapabilities rt (kmModelId model)
        (model_capabilities configuration agentClassRef modelRef model),
      mcContextLimit = kmContextLimit model,
      mcCostInputPerMillion = kmCostInputPerMillion model, mcCostOutputPerMillion = kmCostOutputPerMillion model,
      mcLatencyTier = kmLatencyTier model, mcQualityTier = kmQualityTier model,
      mcHealth = HealthyModel, mcAvailable = True, mcProviderEnabled = Some True,
      mcHarnessCompatible = Some (harness_compatible configuration agentClassRef fixed_mode (kmModelId model)),
      mcCapacityAvailable = None\<rparr>)"

definition projectConfigurationCandidates ::
  "js_runtime \<Rightarrow> KernelConfigurationView \<Rightarrow> string \<Rightarrow> bool \<Rightarrow> AutoModelCandidate list"
where
  "projectConfigurationCandidates rt configuration agentClassRef fixed_mode =
     js_sort (\<lambda>a b. localeCompare rt (mcModelRef a) (mcModelRef b))
       (map (project_candidate rt configuration agentClassRef fixed_mode)
          (filter (\<lambda>(_, model). kmEnabled model \<and> provider_enabled configuration (kmProviderRef model))
             (kcModels configuration)))"

subsection \<open>Eligibility and scores\<close>

record AutoModelRequirements =
  mrRequiredCapabilities :: "ModelCapability list option"
  mrContextTokens :: int
  mrRequiresStructuredOutput :: "bool option"
  mrMaxCostPerTurn :: "js_number option"
  mrMaxLatencyMs :: "js_number option"
  mrEstimatedOutputTokens :: "int option"

record RejectedModelCandidate =
  rjModelRef :: string
  rjProviderRef :: string
  rjReason :: string

text \<open>The retained counters and \<open>modelFitScore\<close> are always zero and left out.\<close>

record ModelScoreBreakdown =
  msModelRef :: string
  msObjective :: ObjectivePriority
  msEstimatedCost :: "js_number option"
  msEstimatedLatencyMs :: int
  msQualityScore :: int
  msTotalScore :: js_number
  msSpanProbability :: "js_number option"

definition latencyMs :: "Tier option \<Rightarrow> int" where
  "latencyMs tier = (case tier of Some LowTier \<Rightarrow> 800 | Some HighTier \<Rightarrow> 4000 | _ \<Rightarrow> 2000)"

definition qualityRank :: "Tier option \<Rightarrow> int" where
  "qualityRank tier = (case tier of Some HighTier \<Rightarrow> 3 | Some MediumTier \<Rightarrow> 2 | _ \<Rightarrow> 1)"

definition double_005 :: js_number where "double_005 = JsFinite (Fract 3602879701896397 72057594037927936)"
definition double_01 :: js_number where "double_01 = JsFinite (Fract 3602879701896397 36028797018963968)"

definition total_score :: "js_platform \<Rightarrow> ObjectivePriority \<Rightarrow> js_number \<Rightarrow> js_number \<Rightarrow> js_number \<Rightarrow> js_number" where
  "total_score pf objective costScore latencyScore qualityPenalty = (case objective of
      QualityPriority \<Rightarrow> fadd pf (fadd pf qualityPenalty (fmul pf costScore double_005)) (fmul pf latencyScore double_005)
    | CostPriority \<Rightarrow> fadd pf (fadd pf costScore (fmul pf latencyScore double_005)) (fmul pf qualityPenalty double_01)
    | LatencyPriority \<Rightarrow> fadd pf (fadd pf latencyScore (fmul pf costScore double_01)) (fmul pf qualityPenalty double_01)
    | BalancedPriority \<Rightarrow> fadd pf (fadd pf costScore latencyScore) qualityPenalty)"

definition scoreCandidate ::
  "js_platform \<Rightarrow> AutoModelCandidate \<Rightarrow> AutoModelRequirements \<Rightarrow> ObjectivePriority \<Rightarrow> js_number option \<Rightarrow> ModelScoreBreakdown"
where
  "scoreCandidate pf candidate requirements objective spanProbability =
     (let estimatedOutputTokens = (case mrEstimatedOutputTokens requirements of None \<Rightarrow> 4000 | Some n \<Rightarrow> n);
          estimatedCost = (case (mcCostInputPerMillion candidate, mcCostOutputPerMillion candidate) of
             (Some i, Some ou) \<Rightarrow> Some (fdiv pf (fadd pf (fmul pf i (js_int (mrContextTokens requirements)))
                                                         (fmul pf ou (js_int estimatedOutputTokens))) (js_int 1000000))
           | _ \<Rightarrow> None);
          latency = latencyMs (mcLatencyTier candidate);
          quality = qualityRank (mcQualityTier candidate);
          costScore = fmul pf (case estimatedCost of None \<Rightarrow> js_int 0 | Some c \<Rightarrow> c) (js_int 1000);
          latencyScore = fdiv pf (js_int latency) (js_int 10);
          qualityPenalty = js_int ((3 - quality) * 100)
      in \<lparr>msModelRef = mcModelRef candidate, msObjective = objective, msEstimatedCost = estimatedCost,
          msEstimatedLatencyMs = latency, msQualityScore = quality,
          msTotalScore = total_score pf objective costScore latencyScore qualityPenalty,
          msSpanProbability = spanProbability\<rparr>)"

definition policy_allowed :: "ModelPolicy \<Rightarrow> string list" where
  "policy_allowed policy = (case policy of FixedPolicy m \<Rightarrow> [m] | AutoModelPolicy a \<Rightarrow> apAllowedModelRefs a)"

definition policy_order :: "ModelPolicy \<Rightarrow> (string \<times> int) list" where
  "policy_order policy = (case policy of
      FixedPolicy _ \<Rightarrow> []
    | AutoModelPolicy a \<Rightarrow> (case apFallbackOrder a of None \<Rightarrow> []
        | Some refs \<Rightarrow> js_map_of (zip refs (map int [0..<length refs]))))"

definition policy_objective :: "ModelPolicy \<Rightarrow> AutoModelObjective option" where
  "policy_objective policy = (case policy of FixedPolicy _ \<Rightarrow> None | AutoModelPolicy a \<Rightarrow> apObjective a)"

definition policy_priority :: "ModelPolicy \<Rightarrow> ObjectivePriority" where
  "policy_priority policy = (case policy_objective policy of None \<Rightarrow> BalancedPriority | Some ob \<Rightarrow> obPriority ob)"

definition missing_capability :: "AutoModelCandidate \<Rightarrow> AutoModelRequirements \<Rightarrow> string option" where
  "missing_capability candidate requirements =
     find (\<lambda>c. isModelExecutionConstraint c \<and> c \<notin> set (mcCapabilities candidate))
       (case mrRequiredCapabilities requirements of None \<Rightarrow> [] | Some cs \<Rightarrow> cs)"

definition first_of :: "'a option \<Rightarrow> 'a option \<Rightarrow> 'a option" where
  "first_of a b = (case a of None \<Rightarrow> b | Some x \<Rightarrow> Some x)"

text \<open>The limits on cost, latency and quality.\<close>

definition limit_rejection ::
  "js_platform \<Rightarrow> AutoModelCandidate \<Rightarrow> AutoModelRequirements \<Rightarrow> AutoModelObjective option \<Rightarrow> string option"
where
  "limit_rejection pf candidate requirements objective =
     (let score = scoreCandidate pf candidate requirements
            (case objective of None \<Rightarrow> BalancedPriority | Some ob \<Rightarrow> obPriority ob) None;
          maxCost = first_of (mrMaxCostPerTurn requirements) (Option.bind objective obMaxCostPerTurn);
          maxLatency = first_of (mrMaxLatencyMs requirements) (Option.bind objective obMaxLatencyMs)
      in if maxCost \<noteq> None \<and> msEstimatedCost score = None then Some ''cost_unknown''
         else if maxCost \<noteq> None \<and> js_less (the maxCost) (the (msEstimatedCost score)) then Some ''cost_limit_exceeded''
         else if maxLatency \<noteq> None \<and> js_less (the maxLatency) (js_int (msEstimatedLatencyMs score)) then Some ''latency_limit_exceeded''
         else (case Option.bind objective obMinimumQualityTier of
                 None \<Rightarrow> None
               | Some tier \<Rightarrow> if qualityRank (mcQualityTier candidate) < qualityRank (Some tier)
                              then Some ''quality_tier_below_minimum'' else None))"

definition rejectCandidate ::
  "js_platform \<Rightarrow> AutoModelCandidate \<Rightarrow> AutoModelRequirements \<Rightarrow> AutoModelObjective option \<Rightarrow> string option"
where
  "rejectCandidate pf candidate requirements objective =
     (if mcProviderEnabled candidate = Some False then Some ''provider_disabled''
      else if mcHarnessCompatible candidate = Some False then Some ''harness_incompatible''
      else if mcCapacityAvailable candidate = Some False then Some ''capacity_unavailable''
      else if \<not> mcAvailable candidate \<or> mcHealth candidate = UnavailableModel then Some ''unavailable''
      else if mcHealth candidate = DegradedModel then Some ''health_degraded''
      else (case missing_capability candidate requirements of
              Some c \<Rightarrow> Some (''missing_capability:'' @ c)
            | None \<Rightarrow>
                if mrRequiresStructuredOutput requirements = Some True \<and> ''structured-output'' \<notin> set (mcCapabilities candidate)
                then Some ''missing_capability:structured-output''
                else if (case mcContextLimit candidate of None \<Rightarrow> False
                         | Some l \<Rightarrow> js_less l (js_int (mrContextTokens requirements)))
                then Some ''context_window_insufficient''
                else limit_rejection pf candidate requirements objective))"

definition filterEligibleModelCandidates ::
  "js_platform \<Rightarrow> ModelPolicy \<Rightarrow> AutoModelCandidate list \<Rightarrow> AutoModelRequirements
   \<Rightarrow> AutoModelCandidate list \<times> RejectedModelCandidate list"
where
  "filterEligibleModelCandidates pf policy candidates requirements =
     (let considered = filter (\<lambda>c. mcModelRef c \<in> set (policy_allowed policy)) candidates;
          verdict = (\<lambda>c. rejectCandidate pf c requirements (policy_objective policy))
      in (filter (\<lambda>c. verdict c = None) considered,
          List.map_filter (\<lambda>c. map_option (\<lambda>reason. \<lparr>rjModelRef = mcModelRef c, rjProviderRef = mcProviderRef c, rjReason = reason\<rparr>)
            (verdict c)) considered))"

subsection \<open>The resolver\<close>

record AutoModelResolution =
  mxBinding :: "AuthorizedExecutorBinding option"
  mxFallbackCandidates :: "AuthorizedExecutorBinding list"
  mxRejectedCandidates :: "RejectedModelCandidate list"
  mxScoreBreakdown :: "ModelScoreBreakdown option"
  mxPolicyVersion :: string

record AutoModelResolverInput =
  miConfigurationRevision :: string
  miAgentClassRef :: string
  miHarnessRef :: string
  miPermissionProfileRef :: string
  miPolicy :: ModelPolicy
  miCandidates :: "AutoModelCandidate list"
  miRequirements :: AutoModelRequirements
  miPreferredModelRef :: "string option"
  miSpanProbabilities :: "(string \<times> js_number) list option"

definition span_value :: "(string \<times> js_number) list option \<Rightarrow> string \<Rightarrow> js_number option" where
  "span_value probabilities modelRef = Option.bind probabilities (\<lambda>ps. map_of ps modelRef)"

definition spanProbabilityRank :: "(string \<times> js_number) list option \<Rightarrow> string \<Rightarrow> js_number" where
  "spanProbabilityRank probabilities modelRef = (case span_value probabilities modelRef of
      Some v \<Rightarrow> if isFinite v then v else js_int 0 | None \<Rightarrow> js_int 0)"

definition bool_num :: "bool \<Rightarrow> int" where "bool_num b = (if b then 1 else 0)"

definition order_rank :: "ModelPolicy \<Rightarrow> string \<Rightarrow> int" where
  "order_rank policy modelRef = (case map_of (policy_order policy) modelRef of None \<Rightarrow> MAX_SAFE_INTEGER | Some n \<Rightarrow> n)"

definition rank_compare ::
  "js_runtime \<Rightarrow> AutoModelResolverInput \<Rightarrow> AutoModelCandidate \<times> ModelScoreBreakdown \<Rightarrow> AutoModelCandidate \<times> ModelScoreBreakdown \<Rightarrow> int"
where
  "rank_compare rt input left right =
     (let l = mcModelRef (fst left); r = mcModelRef (fst right); objective = policy_priority (miPolicy input) in
      cmp_or (js_diff (spanProbabilityRank (miSpanProbabilities input) r) (spanProbabilityRank (miSpanProbabilities input) l))
     (cmp_or (if objective = CostPriority \<or> objective = BalancedPriority
              then bool_num (msEstimatedCost (snd left) = None) - bool_num (msEstimatedCost (snd right) = None) else 0)
     (cmp_or (js_diff (msTotalScore (snd left)) (msTotalScore (snd right)))
     (cmp_or (bool_num (Some r = miPreferredModelRef input) - bool_num (Some l = miPreferredModelRef input))
     (cmp_or (order_rank (miPolicy input) l - order_rank (miPolicy input) r)
        (localeCompare rt l r))))))"

definition compareRejected :: "js_runtime \<Rightarrow> RejectedModelCandidate \<Rightarrow> RejectedModelCandidate \<Rightarrow> int" where
  "compareRejected rt a b = cmp_or (localeCompare rt (rjModelRef a) (rjModelRef b)) (localeCompare rt (rjReason a) (rjReason b))"

definition candidate_binding :: "AutoModelResolverInput \<Rightarrow> AutoModelCandidate \<Rightarrow> AuthorizedExecutorBinding" where
  "candidate_binding input candidate =
     \<lparr>abAgentClassRef = miAgentClassRef input, abHarnessRef = miHarnessRef input, abProviderRef = mcProviderRef candidate,
      abModelRef = mcModelRef candidate, abPermissionProfileRef = miPermissionProfileRef input,
      abConfigurationRevision = miConfigurationRevision input, abExecutorDisplayName = None,
      abHarnessDisplayName = None, abProviderDisplayName = None, abModelDisplayName = None\<rparr>"

definition span_applied :: "AutoModelResolverInput \<Rightarrow> bool" where
  "span_applied input = (case miSpanProbabilities input of None \<Rightarrow> False | Some ps \<Rightarrow> ps \<noteq> [])"

definition rejection_text :: "RejectedModelCandidate list \<Rightarrow> string" where
  "rejection_text rejected = (if rejected = [] then [] else
     '' ('' @ js_join ''; '' (map (\<lambda>r. rjModelRef r @ '': '' @ rjReason r) rejected) @ '')'')"

definition AutoModelResolver_resolve ::
  "js_runtime \<Rightarrow> js_platform \<Rightarrow> AutoModelResolverInput \<Rightarrow> AutoModelResolution result"
where
  "AutoModelResolver_resolve rt pf input =
     (let filtered = filterEligibleModelCandidates pf (miPolicy input) (miCandidates input) (miRequirements input);
          eligible = map (\<lambda>c. (c, scoreCandidate pf c (miRequirements input) (policy_priority (miPolicy input))
             (if span_applied input then span_value (miSpanProbabilities input) (mcModelRef c) else None))) (fst filtered);
          ranked = js_sort (rank_compare rt input) eligible
      in case ranked of
           [] \<Rightarrow> Inl (''no eligible model candidate'' @ rejection_text (snd filtered))
         | selected # _ \<Rightarrow>
             Inr \<lparr>mxBinding = Some (candidate_binding input (fst selected)),
                  mxFallbackCandidates = map (candidate_binding input \<circ> fst) ranked,
                  mxRejectedCandidates = js_sort (compareRejected rt) (snd filtered),
                  mxScoreBreakdown = Some (snd selected),
                  mxPolicyVersion = (if span_applied input then ''span-routing-v2'' else ''auto-model-routing-v2'')\<rparr>)"

subsection \<open>Candidate groups\<close>

definition resolvePreferredModelRef :: "ProposedModelSelection \<Rightarrow> ModelPolicy \<Rightarrow> string option" where
  "resolvePreferredModelRef selection policy = (case selection of
      Proposed m _ \<Rightarrow> Some m
    | AgentClassDefault \<Rightarrow> (case policy of AutoModelPolicy a \<Rightarrow> apDefaultModelRef a | FixedPolicy _ \<Rightarrow> None)
    | FixedByAgentClass \<Rightarrow> None)"

definition default_bindings :: "js_runtime \<Rightarrow> KernelConfigurationView \<Rightarrow> ProposedExecutorBinding list" where
  "default_bindings rt configuration =
     map (\<lambda>(ref, a). \<lparr>pbAgentClassRef = ref,
            pbModelSelection = (case kaModelPolicy a of FixedPolicy _ \<Rightarrow> FixedByAgentClass | AutoModelPolicy _ \<Rightarrow> AgentClassDefault)\<rparr>)
       (js_sort (\<lambda>a b. localeCompare rt (fst a) (fst b))
          (filter (\<lambda>(_, a). kaEnabled a \<and> kaKind a = ExecutorKind) (kcAgentClasses configuration)))"

definition proposed_bindings :: "js_runtime \<Rightarrow> KernelConfigurationView \<Rightarrow> WorkGraphSubtask \<Rightarrow> ProposedExecutorBinding list" where
  "proposed_bindings rt configuration subtask =
     (if wgExecutorBindings subtask \<noteq> [] then wgExecutorBindings subtask else default_bindings rt configuration)"

definition executor_class :: "KernelConfigurationView \<Rightarrow> string \<Rightarrow> KernelAgentClassConfiguration option" where
  "executor_class configuration ref = (case map_of (kcAgentClasses configuration) ref of
      Some a \<Rightarrow> if kaEnabled a \<and> kaKind a = ExecutorKind then Some a else None
    | None \<Rightarrow> None)"

definition permission_ref :: "KernelConfigurationView \<Rightarrow> KernelAgentClassConfiguration \<Rightarrow> string option" where
  "permission_ref configuration a = (case kaPermissionProfileRef a of
      Some p \<Rightarrow> if p \<noteq> [] \<and> map_of (kcPermissionProfiles configuration) p \<noteq> None then Some p else None
    | None \<Rightarrow> None)"

definition fixed_policy :: "ModelPolicy \<Rightarrow> bool" where
  "fixed_policy policy = (case policy of FixedPolicy _ \<Rightarrow> True | AutoModelPolicy _ \<Rightarrow> False)"

record PlanRoutingCandidateIdentity =
  ciAgentClassRef :: string
  ciProviderRef :: string
  ciModelRef :: string

record PlanSubtaskCandidateGroup =
  cgAgentClassRef :: string
  cgBindingIndex :: nat
  cgHarnessRef :: string
  cgPermissionProfileRef :: string
  cgPreferredModelRef :: "string option"
  cgEligible :: "AutoModelCandidate list"
  cgRejected :: "RejectedModelCandidate list"
  cgError :: "string option"

definition error_group :: "string \<Rightarrow> nat \<Rightarrow> string \<Rightarrow> string \<Rightarrow> string \<Rightarrow> PlanSubtaskCandidateGroup" where
  "error_group ref index harness permission err =
     \<lparr>cgAgentClassRef = ref, cgBindingIndex = index, cgHarnessRef = harness, cgPermissionProfileRef = permission,
      cgPreferredModelRef = None, cgEligible = [], cgRejected = [], cgError = Some err\<rparr>"

definition candidate_group ::
  "js_runtime \<Rightarrow> js_platform \<Rightarrow> KernelConfigurationView \<Rightarrow> AutoModelRequirements \<Rightarrow> string list
   \<Rightarrow> nat \<Rightarrow> ProposedExecutorBinding \<Rightarrow> PlanSubtaskCandidateGroup"
where
  "candidate_group rt pf configuration requirements unavailable index proposed =
     (let ref = pbAgentClassRef proposed in
      case executor_class configuration ref of
        None \<Rightarrow> error_group ref index [] [] ''agent_class_unavailable''
      | Some a \<Rightarrow>
          (let profile = (case kaPermissionProfileRef a of None \<Rightarrow> [] | Some p \<Rightarrow> p) in
           if permission_ref configuration a = None then error_group ref index (kaHarnessRef a) profile ''permission_profile_unavailable''
           else if ref \<in> set unavailable then error_group ref index (kaHarnessRef a) profile ''agent_class_unavailable''
           else (let filtered = filterEligibleModelCandidates pf (kaModelPolicy a)
                       (projectConfigurationCandidates rt configuration ref (fixed_policy (kaModelPolicy a))) requirements;
                     preferred = resolvePreferredModelRef (pbModelSelection proposed) (kaModelPolicy a)
                 in \<lparr>cgAgentClassRef = ref, cgBindingIndex = index, cgHarnessRef = kaHarnessRef a, cgPermissionProfileRef = profile,
                     cgPreferredModelRef = (if preferred = Some [] then None else preferred),
                     cgEligible = fst filtered, cgRejected = snd filtered, cgError = None\<rparr>)))"

definition routing_requirements :: "ModelCapability list \<Rightarrow> AutoModelRequirements" where
  "routing_requirements capabilities = \<lparr>mrRequiredCapabilities = Some capabilities, mrContextTokens = 1024,
     mrRequiresStructuredOutput = None, mrMaxCostPerTurn = None, mrMaxLatencyMs = None, mrEstimatedOutputTokens = None\<rparr>"

definition planSubtaskCandidateGroups ::
  "js_runtime \<Rightarrow> js_platform \<Rightarrow> KernelConfigurationView \<Rightarrow> WorkGraphSubtask \<Rightarrow> string list \<Rightarrow> PlanSubtaskCandidateGroup list result"
where
  "planSubtaskCandidateGroups rt pf configuration subtask unavailable =
     rbind (requiredModelCapabilitiesForRoutingCapabilities rt (wgRequiredCapabilities subtask)) (\<lambda>capabilities.
       let proposed = proposed_bindings rt configuration subtask in
       Inr (map (\<lambda>(index, b). candidate_group rt pf configuration (routing_requirements capabilities) unavailable index b)
              (enumerate 0 proposed)))"

definition planRoutingCandidateId :: "PlanRoutingCandidateIdentity \<Rightarrow> string" where
  "planRoutingCandidateId i = js_join [CHR 0x00] [ciAgentClassRef i, ciProviderRef i, ciModelRef i]"

definition planRoutingCandidateSetFingerprint :: "js_runtime \<Rightarrow> PlanRoutingCandidateIdentity list \<Rightarrow> string" where
  "planRoutingCandidateSetFingerprint rt identities =
     sha256Hex rt (json_strings (js_sort (localeCompare rt) (map planRoutingCandidateId identities)))"

text \<open>\<open>stableJsonStringify\<close>: the members of every object sorted by key.\<close>

fun stable_json :: "js_runtime \<Rightarrow> json \<Rightarrow> json"
where
  "stable_json rt (JArr vs) = JArr (map (stable_json rt) vs)"
| "stable_json rt (JObj kvs) = JObj (js_sort (\<lambda>a b. localeCompare rt (fst a) (fst b))
     (map (\<lambda>kv. (fst kv, stable_json rt (snd kv))) kvs))"
| "stable_json rt v = v"

definition stableJsonStringify :: "js_runtime \<Rightarrow> json \<Rightarrow> string" where
  "stableJsonStringify rt v = json_text (stable_json rt v)"

definition planProposalFingerprint :: "js_runtime \<Rightarrow> json \<Rightarrow> json \<Rightarrow> string" where
  "planProposalFingerprint rt task workGraph =
     sha256Hex rt (stableJsonStringify rt (JObj [(''task'', task), (''workGraph'', workGraph)]))"

subsection \<open>Span observations\<close>

record SpanRoutingCandidate =
  scCandidateId :: string
  scAgentClassRef :: string
  scProviderRef :: string
  scModelRef :: string
  scProbability :: js_number

datatype SpanSubtaskObservation =
    SpanAdvised (spanSubtaskId: string) (spanFingerprint: string) (spanCandidates: "SpanRoutingCandidate list")
  | SpanFallback (spanSubtaskId: string) (spanFingerprint: string) (spanReason: string)
  | SpanSkipped (spanSubtaskId: string) (spanReason: string)

record SpanRoutingObservation =
  srSchemaVersion :: int
  srPolicyVersion :: string
  srQuestionVersion :: string
  srModel :: string
  srEventId :: string
  srProposalFingerprint :: string
  srConfigurationRevision :: string
  srObservedGenerationId :: string
  srTargetGraphRevision :: int
  srSubtasks :: "SpanSubtaskObservation list"

subsection \<open>Public names\<close>

definition PUBLIC_PROVIDER_PRESETS :: "(string \<times> string) list" where
  "PUBLIC_PROVIDER_PRESETS = [(''code-cli'', ''Code CLI''), (''kimi'', ''Kimi''), (''deepseek'', ''DeepSeek'')]"

fun after_last_colon :: "string \<Rightarrow> string" where
  "after_last_colon [] = []"
| "after_last_colon (c # cs) = (if CHR '':'' \<in> set cs then after_last_colon cs else if c = CHR '':'' then cs else c # cs)"

definition word_separator :: "char \<Rightarrow> bool" where
  "word_separator c \<longleftrightarrow> c \<in> set ''-_.''"

text \<open>\<^verbatim>\<open>.split(/[-_.]+/u).filter(Boolean)\<close>\<close>

fun split_words :: "string \<Rightarrow> string list" where
  "split_words [] = []"
| "split_words (c # cs) =
     (if word_separator c then split_words cs
      else (case split_words cs of
              [] \<Rightarrow> [[c]]
            | w # ws \<Rightarrow> if cs \<noteq> [] \<and> word_separator (hd cs) then [c] # w # ws else (c # w) # ws))"

definition display_word :: "js_platform \<Rightarrow> string \<Rightarrow> string" where
  "display_word pf word =
     (case map_of [(''cli'', ''CLI''), (''api'', ''API''), (''mcp'', ''MCP''), (''ai'', ''AI''), (''codex'', ''Codex''),
                   (''openai'', ''OpenAI''), (''deepseek'', ''DeepSeek''), (''anyfusion'', ''AnyFusion'')]
             (toLocaleLowerCase pf word) of
        Some name \<Rightarrow> name
      | None \<Rightarrow> toLocaleUpperCase pf (take 1 word) @ drop 1 word)"

definition publicDisplayNameFromRef :: "js_platform \<Rightarrow> string \<Rightarrow> string" where
  "publicDisplayNameFromRef pf ref =
     (if ref = [] then []
      else (let tail = (if CHR '':'' \<in> set ref then after_last_colon ref else ref);
                name = js_join '' '' (map (display_word pf) (split_words tail))
            in if name = [] then tail else name))"

definition publicProviderDisplayName :: "js_platform \<Rightarrow> string \<Rightarrow> string" where
  "publicProviderDisplayName pf providerRef = (case map_of PUBLIC_PROVIDER_PRESETS providerRef of
      Some name \<Rightarrow> name | None \<Rightarrow> publicDisplayNameFromRef pf providerRef)"

definition trimmed :: "string option \<Rightarrow> string option" where
  "trimmed v = (case v of None \<Rightarrow> None | Some s \<Rightarrow> if js_trim s = [] then None else Some (js_trim s))"

definition resolveAgentDisplayName :: "js_platform \<Rightarrow> string \<Rightarrow> string option \<Rightarrow> string" where
  "resolveAgentDisplayName pf ref configured = (case trimmed configured of
      Some name \<Rightarrow> name
    | None \<Rightarrow> (case map_of [(''pi-agent'', ''%u667A%u80FD%u4F53 1''), (''codex-cli'', ''%u667A%u80FD%u4F53 2'')] ref of
        Some name \<Rightarrow> name | None \<Rightarrow> publicDisplayNameFromRef pf ref))"

definition resolveProviderDisplayName :: "js_platform \<Rightarrow> string \<Rightarrow> string option \<Rightarrow> string option \<Rightarrow> string" where
  "resolveProviderDisplayName pf ref configured catalogLabel = (case trimmed configured of
      Some name \<Rightarrow> name
    | None \<Rightarrow> (case trimmed catalogLabel of Some name \<Rightarrow> name | None \<Rightarrow> publicDisplayNameFromRef pf ref))"

definition executorDisplayName :: "js_platform \<Rightarrow> string \<Rightarrow> string option \<Rightarrow> string" where
  "executorDisplayName pf ref configured =
     (if ref = ''planner'' then ''MetaWork Planner (AnyFusion-Pi)'' else resolveAgentDisplayName pf ref configured)"

definition harnessDisplayName :: "js_platform \<Rightarrow> string \<Rightarrow> string" where
  "harnessDisplayName pf harnessRef =
     (if harnessRef = ''codex-cli'' then ''Codex CLI'' else if harnessRef = ''pi-cli'' then ''Pi CLI''
      else if harnessRef = ''anyfusion-planner-host-v2'' then ''MetaWork Planner (AnyFusion-Pi)''
      else publicDisplayNameFromRef pf harnessRef)"

text \<open>
  The Kernel's view names no harness table and no provider address, so the harness is named by its
  reference and the provider by its configured name or preset.
\<close>

definition resolvePublicRoutingIdentity ::
  "js_platform \<Rightarrow> KernelConfigurationView \<Rightarrow> AuthorizedExecutorBinding \<Rightarrow> AuthorizedExecutorBinding"
where
  "resolvePublicRoutingIdentity pf configuration b =
     (let current = kcRevisionId configuration = abConfigurationRevision b;
          model = (if current then map_of (kcModels configuration) (abModelRef b) else None);
          providerRef = (case model of None \<Rightarrow> abProviderRef b | Some m \<Rightarrow> kmProviderRef m);
          provider = (if current then map_of (kcProviders configuration) providerRef else None);
          agentClass = (if current then map_of (kcAgentClasses configuration) (abAgentClassRef b) else None)
      in b\<lparr>abExecutorDisplayName := Some (executorDisplayName pf (abAgentClassRef b) (Option.bind agentClass kaDisplayName)),
           abHarnessDisplayName := Some (harnessDisplayName pf (abHarnessRef b)),
           abProviderDisplayName := Some (resolveProviderDisplayName pf providerRef (Option.bind provider kpDisplayName)
             (Some (publicProviderDisplayName pf providerRef))),
           abModelDisplayName := Some (case model of None \<Rightarrow> ''%u5386%u53F2%u6A21%u578B%u4FE1%u606F%u4E0D%u53EF%u7528'' | Some m \<Rightarrow> kmModelId m)\<rparr>)"

subsection \<open>What the resolver authorizes\<close>

definition routable :: "js_platform \<Rightarrow> AutoModelResolverInput \<Rightarrow> AutoModelCandidate \<Rightarrow> bool" where
  "routable pf input c \<longleftrightarrow> c \<in> set (miCandidates input) \<and> mcModelRef c \<in> set (policy_allowed (miPolicy input))
     \<and> rejectCandidate pf c (miRequirements input) (policy_objective (miPolicy input)) = None"

lemma filter_eligible_set:
  "set (fst (filterEligibleModelCandidates pf (miPolicy input) (miCandidates input) (miRequirements input)))
     = {c. routable pf input c}"
  by (auto simp: filterEligibleModelCandidates_def routable_def Let_def)

lemma rejectCandidate_None:
  assumes "rejectCandidate pf c req ob = None"
  shows "mcProviderEnabled c \<noteq> Some False \<and> mcHarnessCompatible c \<noteq> Some False \<and> mcAvailable c \<and> mcHealth c = HealthyModel
    \<and> (\<forall>cap \<in> set (case mrRequiredCapabilities req of None \<Rightarrow> [] | Some cs \<Rightarrow> cs).
         isModelExecutionConstraint cap \<longrightarrow> cap \<in> set (mcCapabilities c))
    \<and> (\<forall>l. mcContextLimit c = Some l \<longrightarrow> \<not> js_less l (js_int (mrContextTokens req)))"
proof -
  have "missing_capability c req = None"
    using assms by (auto simp: rejectCandidate_def split: if_splits option.splits)
  then have "\<forall>cap \<in> set (case mrRequiredCapabilities req of None \<Rightarrow> [] | Some cs \<Rightarrow> cs).
         isModelExecutionConstraint cap \<longrightarrow> cap \<in> set (mcCapabilities c)"
    by (auto simp: missing_capability_def find_None_all)
  moreover have "mcHealth c = HealthyModel"
    using assms by (cases "mcHealth c") (auto simp: rejectCandidate_def split: if_splits)
  ultimately show ?thesis
    using assms by (auto simp: rejectCandidate_def split: if_splits option.splits)
qed

lemma resolver_Inr:
  assumes "AutoModelResolver_resolve rt pf input = Inr res"
  shows "\<exists>ranked. ranked \<noteq> [] \<and> mset ranked
      = mset (fst (filterEligibleModelCandidates pf (miPolicy input) (miCandidates input) (miRequirements input)))
    \<and> mxBinding res = Some (candidate_binding input (hd ranked))
    \<and> mxFallbackCandidates res = map (candidate_binding input) ranked"
proof -
  let ?f = "fst (filterEligibleModelCandidates pf (miPolicy input) (miCandidates input) (miRequirements input))"
  define eligible where "eligible = map (\<lambda>c. (c, scoreCandidate pf c (miRequirements input) (policy_priority (miPolicy input))
     (if span_applied input then span_value (miSpanProbabilities input) (mcModelRef c) else None))) ?f"
  have "map fst eligible = ?f" by (simp add: eligible_def comp_def)
  then have m: "mset (map fst (js_sort (rank_compare rt input) eligible)) = mset ?f"
    by (metis mset_js_sort mset_map)
  obtain e es where ranked: "js_sort (rank_compare rt input) eligible = e # es"
    using assms unfolding AutoModelResolver_resolve_def Let_def eligible_def [symmetric] by (auto split: list.splits)
  have "mxBinding res = Some (candidate_binding input (fst e))
      \<and> mxFallbackCandidates res = map (candidate_binding input \<circ> fst) (e # es)"
    using assms ranked unfolding AutoModelResolver_resolve_def Let_def eligible_def [symmetric] by auto
  with m ranked show ?thesis by (intro exI [of _ "map fst (e # es)"]) simp
qed

text \<open>
  The resolver returns only authorized models: the binding it chooses, and every fallback,
  is for a candidate the policy allows, which is healthy and compatible with the harness, has
  every capability the Subtask requires of a model and a large enough context window, and carries the
  configuration revision, harness and permission profile of the request.
\<close>

theorem model_resolution_authorized:
  assumes "AutoModelResolver_resolve rt pf input = Inr res"
    and "b \<in> set (mxFallbackCandidates res) \<or> mxBinding res = Some b"
  shows "\<exists>c \<in> set (miCandidates input). b = candidate_binding input c
    \<and> mcModelRef c \<in> set (policy_allowed (miPolicy input))
    \<and> mcHarnessCompatible c \<noteq> Some False \<and> mcAvailable c \<and> mcHealth c = HealthyModel
    \<and> (\<forall>cap \<in> set (case mrRequiredCapabilities (miRequirements input) of None \<Rightarrow> [] | Some cs \<Rightarrow> cs).
         isModelExecutionConstraint cap \<longrightarrow> cap \<in> set (mcCapabilities c))
    \<and> (\<forall>l. mcContextLimit c = Some l \<longrightarrow> \<not> js_less l (js_int (mrContextTokens (miRequirements input))))
    \<and> abConfigurationRevision b = miConfigurationRevision input
    \<and> abPermissionProfileRef b = miPermissionProfileRef input"
proof -
  obtain ranked where r: "ranked \<noteq> []"
    "mset ranked = mset (fst (filterEligibleModelCandidates pf (miPolicy input) (miCandidates input) (miRequirements input)))"
    "mxBinding res = Some (candidate_binding input (hd ranked))"
    "mxFallbackCandidates res = map (candidate_binding input) ranked"
    using resolver_Inr [OF assms(1)] by blast
  have "set ranked = {c. routable pf input c}"
    using arg_cong [OF r(2), of set_mset] by (simp add: filter_eligible_set)
  moreover obtain c where "c \<in> set ranked" "b = candidate_binding input c"
  proof (cases "b \<in> set (mxFallbackCandidates res)")
    case True
    with r(4) that show thesis by auto
  next
    case False
    with assms(2) r(1,3) that [of "hd ranked"] show thesis by simp
  qed
  ultimately have c: "routable pf input c" "b = candidate_binding input c" by auto
  show ?thesis
  proof (intro bexI [of _ c] conjI)
    show "c \<in> set (miCandidates input)" using c(1) by (simp add: routable_def)
  qed (use c rejectCandidate_None [of pf c "miRequirements input" "policy_objective (miPolicy input)"]
       in \<open>simp_all add: routable_def candidate_binding_def\<close>)
qed

lemma resolver_nonempty:
  "(\<exists>res. AutoModelResolver_resolve rt pf input = Inr res) \<longleftrightarrow>
   fst (filterEligibleModelCandidates pf (miPolicy input) (miCandidates input) (miRequirements input)) \<noteq> []"
  by (auto simp: AutoModelResolver_resolve_def Let_def split: list.splits)

text \<open>
  A Span observation only reorders: with any probabilities the resolver succeeds exactly when
  it does without them, and offers the same bindings.
\<close>

theorem span_only_reorders:
  assumes "AutoModelResolver_resolve rt pf input = Inr res"
  shows "\<exists>res'. AutoModelResolver_resolve rt pf (input\<lparr>miSpanProbabilities := None\<rparr>) = Inr res'
    \<and> mset (mxFallbackCandidates res') = mset (mxFallbackCandidates res)"
proof -
  let ?plain = "input\<lparr>miSpanProbabilities := None\<rparr>"
  have "fst (filterEligibleModelCandidates pf (miPolicy ?plain) (miCandidates ?plain) (miRequirements ?plain)) \<noteq> []"
    using assms resolver_nonempty [of rt pf input] by auto
  then obtain res' where r: "AutoModelResolver_resolve rt pf ?plain = Inr res'"
    using resolver_nonempty [of rt pf ?plain] by blast
  have b: "candidate_binding ?plain = candidate_binding input" by (rule ext) (simp add: candidate_binding_def)
  let ?f = "fst (filterEligibleModelCandidates pf (miPolicy input) (miCandidates input) (miRequirements input))"
  obtain x where x: "mset x = mset ?f" "mxFallbackCandidates res = map (candidate_binding input) x"
    using resolver_Inr [OF assms] by blast
  obtain y where y: "mset y = mset ?f" "mxFallbackCandidates res' = map (candidate_binding input) y"
    using resolver_Inr [OF r] b by auto
  have "mset (mxFallbackCandidates res') = mset (mxFallbackCandidates res)"
    unfolding x(2) y(2) mset_map [of "candidate_binding input"] x(1) y(1) ..
  with r show ?thesis by blast
qed

subsection \<open>Evaluations\<close>

definition sample_model_candidate :: "string \<Rightarrow> Tier \<Rightarrow> AutoModelCandidate" where
  "sample_model_candidate ref tier = \<lparr>mcProviderRef = ''p'', mcModelRef = ref, mcModelId = ref, mcCapabilities = [''tools''],
     mcContextLimit = None, mcCostInputPerMillion = Some (js_int 2), mcCostOutputPerMillion = Some (js_int 8),
     mcLatencyTier = Some LowTier, mcQualityTier = Some tier, mcHealth = HealthyModel, mcAvailable = True,
     mcProviderEnabled = Some True, mcHarnessCompatible = Some True, mcCapacityAvailable = None\<rparr>"

definition sample_resolver_input :: AutoModelResolverInput where
  "sample_resolver_input = \<lparr>miConfigurationRevision = ''r1'', miAgentClassRef = ''pi'', miHarnessRef = ''h'',
     miPermissionProfileRef = ''std'',
     miPolicy = AutoModelPolicy \<lparr>apAllowedModelRefs = [''a'', ''b''], apDefaultModelRef = Some ''a'', apFallbackOrder = None,
       apObjective = None\<rparr>,
     miCandidates = [sample_model_candidate ''a'' LowTier, sample_model_candidate ''b'' HighTier],
     miRequirements = routing_requirements [''tools''], miPreferredModelRef = Some ''a'',
     miSpanProbabilities = Some [(''a'', js_int 1)]\<rparr>"

lemma sample_resolution: "map_option abModelRef (mxBinding (projr (AutoModelResolver_resolve sample_runtime sample_platform sample_resolver_input))) = Some ''a''"
  "\<exists>res. AutoModelResolver_resolve sample_runtime sample_platform sample_resolver_input = Inr res"
proof -
  show "map_option abModelRef (mxBinding (projr (AutoModelResolver_resolve sample_runtime sample_platform sample_resolver_input))) = Some ''a''"
    by code_simp
  have "case AutoModelResolver_resolve sample_runtime sample_platform sample_resolver_input of Inl _ \<Rightarrow> False | Inr _ \<Rightarrow> True"
    by code_simp
  then show "\<exists>res. AutoModelResolver_resolve sample_runtime sample_platform sample_resolver_input = Inr res"
    by (auto split: sum.splits)
qed

theorem model_resolution_authorized_witness:
  "\<exists>res b. AutoModelResolver_resolve sample_runtime sample_platform sample_resolver_input = Inr res \<and> mxBinding res = Some b
     \<and> abModelRef b = ''a'' \<and> abConfigurationRevision b = ''r1''"
proof -
  obtain res where r: "AutoModelResolver_resolve sample_runtime sample_platform sample_resolver_input = Inr res"
    using sample_resolution(2) by blast
  with sample_resolution(1) obtain b where b: "mxBinding res = Some b" "abModelRef b = ''a''" by auto
  from model_resolution_authorized [OF r disjI2 [OF b(1)]] have "abConfigurationRevision b = ''r1''"
    by (auto simp: sample_resolver_input_def)
  with r b show ?thesis by blast
qed

theorem span_only_reorders_witness:
  "\<exists>res'. AutoModelResolver_resolve sample_runtime sample_platform (sample_resolver_input\<lparr>miSpanProbabilities := None\<rparr>) = Inr res'"
proof -
  obtain res where "AutoModelResolver_resolve sample_runtime sample_platform sample_resolver_input = Inr res"
    using sample_resolution(2) by blast
  from span_only_reorders [OF this] show ?thesis by blast
qed

subsection \<open>Facts the Kernel uses\<close>

lemma public_identity_keeps [simp]:
  "abAgentClassRef (resolvePublicRoutingIdentity pf c b) = abAgentClassRef b"
  "abHarnessRef (resolvePublicRoutingIdentity pf c b) = abHarnessRef b"
  "abProviderRef (resolvePublicRoutingIdentity pf c b) = abProviderRef b"
  "abModelRef (resolvePublicRoutingIdentity pf c b) = abModelRef b"
  "abPermissionProfileRef (resolvePublicRoutingIdentity pf c b) = abPermissionProfileRef b"
  "abConfigurationRevision (resolvePublicRoutingIdentity pf c b) = abConfigurationRevision b"
  by (simp_all add: resolvePublicRoutingIdentity_def Let_def)

lemma resolver_binding:
  assumes "AutoModelResolver_resolve rt pf input = Inr res" "mxBinding res = Some b"
  shows "\<exists>c. routable pf input c \<and> b = candidate_binding input c"
proof -
  obtain ranked where r: "ranked \<noteq> []"
    "mset ranked = mset (fst (filterEligibleModelCandidates pf (miPolicy input) (miCandidates input) (miRequirements input)))"
    "mxBinding res = Some (candidate_binding input (hd ranked))"
    using resolver_Inr [OF assms(1)] by blast
  have "set ranked = {c. routable pf input c}"
    using arg_cong [OF r(2), of set_mset] by (simp add: filter_eligible_set)
  with r assms(2) show ?thesis by (metis hd_in_set mem_Collect_eq option.inject)
qed

end
