(* ===== verification/Workspace_Admission.thy ===== *)
theory Workspace_Admission
  imports Js_Number Work_Graph Resource_Partition
begin

text \<open>
  Workspace admission of a plan: the vocabulary of \<open>src/src/core/workspace-execution.ts\<close>, the
  lexical path rules of \<open>src/src/workspace/workspace-path.ts\<close> and the Kernel's resolution in
  \<open>src/src/kernel/workspace-execution-decision.ts\<close>. \<open>isAbsolute\<close> is POSIX; Unicode normal form C
  is the identity on the modelled code units.
\<close>

datatype WorkspaceExecutionMode = ConversationGit | ServiceGit | InPlaceMode | WorktreeMode

datatype WorkspaceOperation =
  ModifyExisting | ContinueExistingEdit | CreateInTarget | RunInTarget | ReadOnlyOperation | AmbiguousOperation

datatype WorkspaceOriginalFilePolicy = MayReplace | MustPreserve | UnknownFilePolicy

datatype WorkspaceDeliveryPolicy = NoDelivery | AutoPublish | AwaitAcceptance

record WorkspaceIntent =
  wiTargetWorkspaceId :: "string option"
  wiTargetPaths :: "string list"
  wiOperation :: WorkspaceOperation
  wiOriginalFilePolicy :: WorkspaceOriginalFilePolicy
  wiConfidence :: js_number
  wiReason :: string

datatype WorkspaceAdmission =
    ReadAdmission (readWorkspace: "string option") (admittedPaths: "string list")
  | WriteAdmission (writeWorkspace: string) (admittedPaths: "string list")

text \<open>Mode, source and delivery policy of a decision are the constants the type declares.\<close>

record WorkspaceExecutionDecision =
  wdReason :: string
  wdTargetPaths :: "string list"

record TargetWorkspace =
  twWorkspaceId :: string
  twCanonicalPath :: string

record ExistingTaskBinding =
  ebWorkspaceId :: string
  ebExecutionMode :: WorkspaceExecutionMode
  ebDeliveryPolicy :: WorkspaceDeliveryPolicy

record WorkspaceExecutionDecisionInput =
  wxIntent :: "WorkspaceIntent option"
  wxTargetWorkspace :: "TargetWorkspace option"
  wxExistingTaskBinding :: "ExistingTaskBinding option"
  wxRiskLevel :: riskLevel
  wxWrites :: bool
  wxDeclaredOutputPaths :: "string list"

datatype WorkspaceExecutionResolution =
    WorkspaceResolved WorkspaceExecutionDecision WorkspaceAdmission "WorkspaceIntent option"
  | WorkspaceClarification (wrQuestion: string) (wrReason: string)
  | WorkspaceRejected (wrReason: string)

subsection \<open>Workspace-relative paths\<close>

definition unsafe_segment :: "string \<Rightarrow> bool" where
  "unsafe_segment s \<longleftrightarrow> s = [] \<or> s = ''.'' \<or> s = ''..'' \<or> list_ex is_control s"

definition relativeSegments :: "string \<Rightarrow> string list result" where
  "relativeSegments path =
     (if startsWith path [slash] \<or> windows_absolute_path path \<or> startsWith path [backslash, backslash]
      then Inl ''not_absolute''
      else (let segments = js_split slash (map (\<lambda>c. if c = backslash then slash else c) path) in
            if list_ex unsafe_segment segments then Inl ''escape'' else Inr segments))"

definition isWorkspaceRelativePath :: "string \<Rightarrow> bool" where
  "isWorkspaceRelativePath path = (case relativeSegments path of Inl _ \<Rightarrow> False | Inr _ \<Rightarrow> True)"

fun normalize_targets :: "string list \<Rightarrow> string list \<Rightarrow> string list result" where
  "normalize_targets normalized [] = Inr normalized"
| "normalize_targets normalized (path # paths) =
     rbind (relativeSegments path) (\<lambda>segments.
       let value = js_join [slash] segments in
       normalize_targets (if value \<in> set normalized then normalized else normalized @ [value]) paths)"

definition normalizeWorkspaceTargetPaths :: "string list \<Rightarrow> string list result" where
  "normalizeWorkspaceTargetPaths paths = normalize_targets [] paths"

subsection \<open>Admission\<close>

definition safeTargetPaths :: "string list \<Rightarrow> string list option" where
  "safeTargetPaths paths =
     (if list_ex (\<lambda>p. \<not> isWorkspaceRelativePath p) paths then None
      else (case normalizeWorkspaceTargetPaths paths of Inl _ \<Rightarrow> None | Inr ps \<Rightarrow> Some ps))"

definition pathCoversTarget :: "string \<Rightarrow> string \<Rightarrow> bool" where
  "pathCoversTarget target path \<longleftrightarrow> target = path \<or> startsWith path (target @ [slash])"

definition uncoveredDeclaredOutputs :: "string list \<Rightarrow> string list \<Rightarrow> string list option" where
  "uncoveredDeclaredOutputs targets declared =
     map_option (filter (\<lambda>output. \<not> list_ex (\<lambda>target. pathCoversTarget target output) targets)) (safeTargetPaths declared)"

definition resolvedRead :: "WorkspaceExecutionDecisionInput \<Rightarrow> WorkspaceExecutionResolution" where
  "resolvedRead input =
     (case safeTargetPaths (case wxIntent input of None \<Rightarrow> [] | Some i \<Rightarrow> wiTargetPaths i) of
        None \<Rightarrow> WorkspaceRejected ''Workspace intent contains an unsafe or non-relative target path''
      | Some targetPaths \<Rightarrow>
          WorkspaceResolved
            \<lparr>wdReason = ''read-only admission uses the Conversation Git Worktree and creates no merge item when unchanged'',
             wdTargetPaths = targetPaths\<rparr>
            (ReadAdmission (map_option twWorkspaceId (wxTargetWorkspace input)) targetPaths)
            (wxIntent input))"

definition resolvedWrite :: "string \<Rightarrow> string list \<Rightarrow> WorkspaceIntent \<Rightarrow> WorkspaceExecutionResolution" where
  "resolvedWrite workspaceId targetPaths intent =
     WorkspaceResolved \<lparr>wdReason = wiReason intent, wdTargetPaths = targetPaths\<rparr>
       (WriteAdmission workspaceId targetPaths) (Some intent)"

definition resolve_read_request :: "WorkspaceExecutionDecisionInput \<Rightarrow> WorkspaceExecutionResolution" where
  "resolve_read_request input =
     (if (case wxIntent input of None \<Rightarrow> False | Some i \<Rightarrow> wiOperation i \<noteq> ReadOnlyOperation)
      then WorkspaceRejected ''a non-read-only intent cannot authorize a read admission''
      else (case safeTargetPaths (wxDeclaredOutputPaths input) of
              None \<Rightarrow> WorkspaceRejected ''the Work Graph declares an unsafe or non-relative file output path''
            | Some outputs \<Rightarrow>
                if outputs \<noteq> [] then WorkspaceRejected ''read-only Workspace work cannot declare file outputs''
                else resolvedRead input))"

text \<open>The checks against the Conversation-bound Workspace and an existing Task.\<close>

definition resolve_target ::
  "WorkspaceExecutionDecisionInput \<Rightarrow> WorkspaceIntent \<Rightarrow> string list \<Rightarrow> WorkspaceExecutionResolution"
where
  "resolve_target input intent targetPaths =
     (case wxTargetWorkspace input of
        None \<Rightarrow> WorkspaceClarification ''%u8BF7%u5148%u4E3A%u76EE%u6807%u4EFB%u52A1%u9009%u62E9%u5DE5%u4F5C%u533A%uFF0C%u7136%u540E%u518D%u7EE7%u7EED%u3002'' ''no Workspace is bound to this Conversation''
      | Some target \<Rightarrow>
          if (case wiTargetWorkspaceId intent of None \<Rightarrow> False | Some w \<Rightarrow> w \<noteq> [] \<and> w \<noteq> twWorkspaceId target)
          then WorkspaceRejected (''Workspace intent targets '' @ the (wiTargetWorkspaceId intent)
            @ '', which is not the Conversation-bound Workspace '' @ twWorkspaceId target)
          else if js_less (wiConfidence intent) double_03
          then WorkspaceClarification ''%u8BF7%u786E%u8BA4%u8FD9%u6B21%u4FEE%u6539%u5E94%u8BE5%u76F4%u63A5%u5199%u5165%u76EE%u6807%u5DE5%u4F5C%u533A%u4E2D%u7684%u54EA%u4E9B%u6587%u4EF6%u6216%u76EE%u5F55%u3002''
            ''Workspace intent confidence is too low to authorize a write''
          else if wiOriginalFilePolicy intent = UnknownFilePolicy
          then WorkspaceClarification ''%u8BF7%u786E%u8BA4%u662F%u5426%u53EF%u4EE5%u76F4%u63A5%u8986%u76D6%u76EE%u6807%u5DE5%u4F5C%u533A%u4E2D%u7684%u539F%u6587%u4EF6%u3002''
            ''Planner marked the original-file policy as unknown''
          else if wiOriginalFilePolicy intent = MustPreserve \<and> wiOperation intent \<noteq> CreateInTarget
          then WorkspaceClarification ''%u539F%u6587%u4EF6%u9700%u8981%u4FDD%u7559%u3002%u8BF7%u6307%u5B9A%u8981%u521B%u5EFA%u7684%u65B0%u6587%u4EF6%u8DEF%u5F84%u540E%u518D%u7EE7%u7EED%u3002''
            ''in-place execution cannot preserve an existing target while modifying it''
          else (case wxExistingTaskBinding input of
                  None \<Rightarrow> resolvedWrite (twWorkspaceId target) targetPaths intent
                | Some existing \<Rightarrow>
                    if ebExecutionMode existing = WorktreeMode \<or> ebExecutionMode existing = InPlaceMode
                    then WorkspaceRejected (''historical Task ''
                      @ (if ebExecutionMode existing = WorktreeMode then ''worktree'' else ''in_place'')
                      @ '' bindings are no longer dispatchable'')
                    else if ebWorkspaceId existing \<noteq> [] \<and> ebWorkspaceId existing \<noteq> twWorkspaceId target
                    then WorkspaceRejected (''Task is bound to '' @ ebWorkspaceId existing
                      @ '', not the Conversation-bound Workspace '' @ twWorkspaceId target)
                    else resolvedWrite (twWorkspaceId target) targetPaths intent))"

definition resolve_write_intent ::
  "WorkspaceExecutionDecisionInput \<Rightarrow> WorkspaceIntent \<Rightarrow> WorkspaceExecutionResolution"
where
  "resolve_write_intent input intent =
     (if wiOperation intent = ReadOnlyOperation
      then WorkspaceRejected ''a read-only Workspace intent cannot authorize a write Work Graph''
      else if wiOperation intent = AmbiguousOperation
      then WorkspaceClarification ''%u8BF7%u8BF4%u660E%u8FD9%u6B21%u64CD%u4F5C%u6D89%u53CA%u76EE%u6807%u5DE5%u4F5C%u533A%u4E2D%u7684%u54EA%u4E9B%u6587%u4EF6%u6216%u76EE%u5F55%uFF0C%u7136%u540E%u518D%u7EE7%u7EED%u3002'' ''Workspace intent is ambiguous''
      else if \<not> unit_interval (wiConfidence intent)
      then WorkspaceRejected ''Workspace intent confidence must be within 0..1''
      else if js_trim (wiReason intent) = []
      then WorkspaceRejected ''Workspace intent requires a non-empty reason''
      else (case safeTargetPaths (wiTargetPaths intent) of
              None \<Rightarrow> WorkspaceRejected ''Workspace intent contains an unsafe or non-relative target path''
            | Some targetPaths \<Rightarrow>
                if targetPaths = []
                then WorkspaceClarification ''%u8BF7%u8BF4%u660E%u8FD9%u6B21%u64CD%u4F5C%u6D89%u53CA%u76EE%u6807%u5DE5%u4F5C%u533A%u4E2D%u7684%u54EA%u4E9B%u6587%u4EF6%u6216%u76EE%u5F55%uFF0C%u7136%u540E%u518D%u7EE7%u7EED%u3002''
                  ''a writing Workspace intent must declare at least one target path''
                else (case uncoveredDeclaredOutputs targetPaths (wxDeclaredOutputPaths input) of
                        None \<Rightarrow> WorkspaceRejected ''the Work Graph declares an unsafe or non-relative file output path''
                      | Some uncovered \<Rightarrow>
                          if uncovered \<noteq> []
                          then WorkspaceRejected (''declared file outputs are outside workspaceIntent.targetPaths: ''
                            @ js_join '', '' uncovered)
                          else resolve_target input intent targetPaths)))"

definition resolveWorkspaceAdmission :: "WorkspaceExecutionDecisionInput \<Rightarrow> WorkspaceExecutionResolution" where
  "resolveWorkspaceAdmission input =
     (if \<not> wxWrites input then resolve_read_request input
      else (case wxIntent input of
              None \<Rightarrow> WorkspaceRejected ''new Workspace writes require a structured Workspace intent; legacy Worktree plans are not dispatchable''
            | Some intent \<Rightarrow> resolve_write_intent input intent))"

subsection \<open>Paths\<close>

definition safe_path :: "string \<Rightarrow> bool" where
  "safe_path p \<longleftrightarrow> \<not> list_ex unsafe_segment (js_split slash p) \<and> backslash \<notin> set p"

lemma js_join_slash_split:
  "js_split slash (js_join [slash] (js_split slash s)) = js_split slash s"
  by (simp add: js_join_split)

lemma relativeSegments_safe:
  assumes "relativeSegments path = Inr segments"
  shows "safe_path (js_join [slash] segments)"
proof -
  let ?s = "map (\<lambda>c. if c = backslash then slash else c) path"
  have seg: "segments = js_split slash ?s" and ok: "\<not> list_ex unsafe_segment segments"
    using assms by (auto simp: relativeSegments_def Let_def split: if_splits)
  have "backslash \<notin> set ?s" by auto
  then show ?thesis using ok unfolding seg safe_path_def by (simp add: js_join_split)
qed

lemma normalize_targets_safe:
  "normalize_targets acc paths = Inr ps \<Longrightarrow> \<forall>p \<in> set acc. safe_path p \<Longrightarrow> \<forall>p \<in> set ps. safe_path p"
proof (induction paths arbitrary: acc)
  case (Cons path paths)
  then obtain segments where "relativeSegments path = Inr segments"
    "normalize_targets (if js_join [slash] segments \<in> set acc then acc else acc @ [js_join [slash] segments]) paths = Inr ps"
    by (auto simp: Let_def)
  moreover have "\<forall>p \<in> set (if js_join [slash] segments \<in> set acc then acc else acc @ [js_join [slash] segments]). safe_path p"
    using Cons.prems(2) relativeSegments_safe [OF calculation(1)] by simp
  ultimately show ?case using Cons.IH by blast
qed simp

lemma safeTargetPaths_safe: "safeTargetPaths paths = Some ps \<Longrightarrow> p \<in> set ps \<Longrightarrow> safe_path p"
  by (auto simp: safeTargetPaths_def normalizeWorkspaceTargetPaths_def split: if_splits sum.splits
      dest: normalize_targets_safe)

lemma normalize_targets_values:
  assumes "normalize_targets acc paths = Inr ps"
  shows "set acc \<subseteq> set ps \<and> (\<forall>p \<in> set paths. \<exists>segments. relativeSegments p = Inr segments \<and> js_join [slash] segments \<in> set ps)"
  using assms
proof (induction paths arbitrary: acc)
  case (Cons path paths)
  then obtain segments where s: "relativeSegments path = Inr segments"
    "normalize_targets (if js_join [slash] segments \<in> set acc then acc else acc @ [js_join [slash] segments]) paths = Inr ps"
    by (auto simp: Let_def)
  have "set (if js_join [slash] segments \<in> set acc then acc else acc @ [js_join [slash] segments])
      = insert (js_join [slash] segments) (set acc)" by auto
  with Cons.IH [OF s(2)] s(1) show ?case by auto
qed simp

lemma safeTargetPaths_values:
  assumes "safeTargetPaths paths = Some ps" and "p \<in> set paths"
  shows "\<exists>segments. relativeSegments p = Inr segments \<and> js_join [slash] segments \<in> set ps"
proof -
  have "normalize_targets [] paths = Inr ps"
    using assms(1) by (auto simp: safeTargetPaths_def normalizeWorkspaceTargetPaths_def split: if_splits sum.splits)
  from normalize_targets_values [OF this] assms(2) show ?thesis by blast
qed

lemma pathCoversTarget_segments:
  "pathCoversTarget target path \<Longrightarrow> \<exists>rest. js_split slash path = js_split slash target @ rest"
  by (auto simp: pathCoversTarget_def startsWith_iff js_split_append_sep)

subsection \<open>Admission\<close>

lemma resolve_target_resolved:
  assumes "resolve_target input intent paths = WorkspaceResolved d a i"
  shows "\<exists>target. wxTargetWorkspace input = Some target \<and> a = WriteAdmission (twWorkspaceId target) paths \<and> i = Some intent
    \<and> wdTargetPaths d = paths
    \<and> \<not> js_less (wiConfidence intent) double_03
    \<and> (wiTargetWorkspaceId intent = None \<or> wiTargetWorkspaceId intent = Some [] \<or> wiTargetWorkspaceId intent = Some (twWorkspaceId target))
    \<and> wiOriginalFilePolicy intent \<noteq> UnknownFilePolicy
    \<and> (wiOriginalFilePolicy intent = MustPreserve \<longrightarrow> wiOperation intent = CreateInTarget)
    \<and> (\<forall>b. wxExistingTaskBinding input = Some b \<longrightarrow>
         ebExecutionMode b \<notin> {InPlaceMode, WorktreeMode} \<and> ebWorkspaceId b \<in> {[], twWorkspaceId target})"
  using assms by (auto simp: resolve_target_def resolvedWrite_def split: option.splits if_splits)

lemma resolve_write_resolved:
  assumes "resolve_write_intent input intent = WorkspaceResolved d a i"
  obtains paths where "safeTargetPaths (wiTargetPaths intent) = Some paths" and "paths \<noteq> []"
    and "uncoveredDeclaredOutputs paths (wxDeclaredOutputPaths input) = Some []"
    and "resolve_target input intent paths = WorkspaceResolved d a i"
    and "wiOperation intent \<notin> {ReadOnlyOperation, AmbiguousOperation}"
  using assms by (auto simp: resolve_write_intent_def split: option.splits if_splits)

lemma resolve_read_resolved:
  assumes "resolve_read_request input = WorkspaceResolved d a i"
  shows "\<exists>ps. a = ReadAdmission (map_option twWorkspaceId (wxTargetWorkspace input)) ps
    \<and> safeTargetPaths (wxDeclaredOutputPaths input) = Some []
    \<and> (\<forall>p \<in> set ps. safe_path p)"
  using assms
  by (auto simp: resolve_read_request_def resolvedRead_def split: option.splits if_splits dest: safeTargetPaths_safe)

lemma safeTargetPaths_Nil: "safeTargetPaths ps = Some [] \<Longrightarrow> ps = []"
  using safeTargetPaths_values [of ps "[]"] by (cases ps) auto

text \<open>
  Claim C33. A write is admitted only into the Workspace bound to the Conversation, for a work graph
  that writes, on an intent that is neither read-only nor ambiguous: every admitted path has only
  proper segments (none empty, none a dot or double dot, no control character), every file output
  the graph declares lies, segment by segment, under an admitted path, originals that must be
  preserved are only added to, and a Task bound to a retired mode or to another Workspace is refused.
\<close>

theorem workspace_write_admission_sound:
  assumes "resolveWorkspaceAdmission input = WorkspaceResolved d (WriteAdmission w paths) i"
  shows "wxWrites input \<and> paths \<noteq> [] \<and> map_option twWorkspaceId (wxTargetWorkspace input) = Some w
    \<and> (\<forall>p \<in> set paths. safe_path p)
    \<and> (\<forall>output \<in> set (wxDeclaredOutputPaths input). \<exists>segments. relativeSegments output = Inr segments
         \<and> (\<exists>p \<in> set paths. \<exists>rest. segments = js_split slash p @ rest))
    \<and> (\<exists>intent. i = Some intent \<and> wxIntent input = Some intent
         \<and> wiOperation intent \<notin> {ReadOnlyOperation, AmbiguousOperation}
         \<and> (wiOriginalFilePolicy intent = MustPreserve \<longrightarrow> wiOperation intent = CreateInTarget))
    \<and> (\<forall>b. wxExistingTaskBinding input = Some b \<longrightarrow> ebExecutionMode b \<notin> {InPlaceMode, WorktreeMode} \<and> ebWorkspaceId b \<in> {[], w})"
proof -
  have writes: "wxWrites input"
  proof (rule ccontr)
    assume "\<not> wxWrites input"
    with assms have "resolve_read_request input = WorkspaceResolved d (WriteAdmission w paths) i"
      by (simp add: resolveWorkspaceAdmission_def)
    from resolve_read_resolved [OF this] show False by simp
  qed
  then obtain intent where intent: "wxIntent input = Some intent"
    and r: "resolve_write_intent input intent = WorkspaceResolved d (WriteAdmission w paths) i"
    using assms by (auto simp: resolveWorkspaceAdmission_def split: option.splits)
  obtain ps where ps: "safeTargetPaths (wiTargetPaths intent) = Some ps" "ps \<noteq> []"
    "uncoveredDeclaredOutputs ps (wxDeclaredOutputPaths input) = Some []"
    "resolve_target input intent ps = WorkspaceResolved d (WriteAdmission w paths) i"
    "wiOperation intent \<notin> {ReadOnlyOperation, AmbiguousOperation}"
    by (rule resolve_write_resolved [OF r])
  note t = resolve_target_resolved [OF ps(4)]
  then have eq: "paths = ps" by auto
  have covered: "\<exists>segments. relativeSegments out = Inr segments
         \<and> (\<exists>p \<in> set paths. \<exists>rest. segments = js_split slash p @ rest)"
    if mem: "out \<in> set (wxDeclaredOutputPaths input)" for out
  proof -
    obtain outs where outs: "safeTargetPaths (wxDeclaredOutputPaths input) = Some outs"
      "\<forall>v \<in> set outs. \<exists>p \<in> set ps. pathCoversTarget p v"
      using ps(3) by (auto simp: uncoveredDeclaredOutputs_def filter_empty_conv list_ex_iff)
    obtain segments where s: "relativeSegments out = Inr segments" "js_join [slash] segments \<in> set outs"
      using safeTargetPaths_values [OF outs(1) mem] by blast
    have "js_split slash (js_join [slash] segments) = segments"
      using s(1) by (auto simp: relativeSegments_def Let_def js_join_split split: if_splits)
    with outs(2) s eq show ?thesis by (metis pathCoversTarget_segments)
  qed
  have "\<forall>p \<in> set paths. safe_path p" using safeTargetPaths_safe [OF ps(1)] eq by blast
  with writes intent ps(2,5) eq t covered show ?thesis by auto
qed

text \<open>
  A read admission carries no writes: the graph writes nothing and declares no file output.
\<close>

theorem workspace_read_admission_sound:
  assumes "resolveWorkspaceAdmission input = WorkspaceResolved d (ReadAdmission w paths) i"
  shows "\<not> wxWrites input \<and> wxDeclaredOutputPaths input = [] \<and> (\<forall>p \<in> set paths. safe_path p)
    \<and> w = map_option twWorkspaceId (wxTargetWorkspace input)"
proof (cases "wxWrites input")
  case True
  with assms show ?thesis
    by (auto simp: resolveWorkspaceAdmission_def split: option.splits
        elim!: resolve_write_resolved dest: resolve_target_resolved)
next
  case False
  with assms have "resolve_read_request input = WorkspaceResolved d (ReadAdmission w paths) i"
    by (simp add: resolveWorkspaceAdmission_def)
  from resolve_read_resolved [OF this] show ?thesis using False safeTargetPaths_Nil by auto
qed

lemma directory_not_relative: "\<not> isWorkspaceRelativePath (p @ [slash])"
proof -
  let ?f = "\<lambda>c. if c = backslash then slash else c"
  have "js_split slash (map ?f (p @ [slash])) = js_split slash (map ?f p) @ [[]]"
    by (simp add: js_split_append_sep [where b = "[]", simplified])
  then have "list_ex unsafe_segment (js_split slash (map ?f (p @ [slash])))"
    by (simp add: unsafe_segment_def)
  then show ?thesis
    unfolding isWorkspaceRelativePath_def relativeSegments_def Let_def by (simp split: if_splits)
qed

text \<open>
  A work graph with a directory among its file outputs is never admitted (the outcome is a rejection or
  a clarification), although a trailing slash is a valid file output for the graph validator.
\<close>

theorem directory_output_never_admitted:
  assumes "p @ ''/'' \<in> set (wxDeclaredOutputPaths input)"
  shows "resolveWorkspaceAdmission input \<noteq> WorkspaceResolved d a i"
proof
  assume r: "resolveWorkspaceAdmission input = WorkspaceResolved d a i"
  have "list_ex (\<lambda>p. \<not> isWorkspaceRelativePath p) (wxDeclaredOutputPaths input)"
    using assms directory_not_relative [of p] unfolding list_ex_iff by auto
  then have none: "safeTargetPaths (wxDeclaredOutputPaths input) = None" by (simp add: safeTargetPaths_def)
  show False
  proof (cases "wxWrites input")
    case True
    then obtain intent where "resolve_write_intent input intent = WorkspaceResolved d a i"
      using r by (auto simp: resolveWorkspaceAdmission_def split: option.splits)
    then show False by (rule resolve_write_resolved) (simp add: uncoveredDeclaredOutputs_def none)
  next
    case False
    with r have "resolve_read_request input = WorkspaceResolved d a i" by (simp add: resolveWorkspaceAdmission_def)
    from resolve_read_resolved [OF this] none show False by auto
  qed
qed

subsection \<open>Evaluations\<close>

definition sample_intent :: WorkspaceIntent where
  "sample_intent = \<lparr>wiTargetWorkspaceId = Some ''w1'', wiTargetPaths = [''docs''], wiOperation = CreateInTarget,
     wiOriginalFilePolicy = MustPreserve, wiConfidence = JsFinite (Fract 4 5), wiReason = ''add a page''\<rparr>"

definition sample_admission :: "bool \<Rightarrow> string list \<Rightarrow> WorkspaceExecutionDecisionInput" where
  "sample_admission writes outputs =
     \<lparr>wxIntent = (if writes then Some sample_intent else None),
      wxTargetWorkspace = Some \<lparr>twWorkspaceId = ''w1'', twCanonicalPath = ''/home/u/w1''\<rparr>,
      wxExistingTaskBinding = None, wxRiskLevel = LowRisk, wxWrites = writes, wxDeclaredOutputPaths = outputs\<rparr>"

lemma sample_write_admitted:
  "resolveWorkspaceAdmission (sample_admission True [''docs/a.md'']) =
     WorkspaceResolved \<lparr>wdReason = ''add a page'', wdTargetPaths = [''docs'']\<rparr> (WriteAdmission ''w1'' [''docs'']) (Some sample_intent)"
  by code_simp

theorem workspace_write_admission_sound_witness:
  "safe_path ''docs'' \<and> (\<exists>segments rest. relativeSegments ''docs/a.md'' = Inr segments \<and> segments = js_split slash ''docs'' @ rest)"
  using workspace_write_admission_sound [OF sample_write_admitted]
  by (auto simp: sample_admission_def)

theorem workspace_read_admission_sound_witness:
  "\<not> wxWrites (sample_admission False []) \<and> wxDeclaredOutputPaths (sample_admission False []) = []"
proof -
  have "resolveWorkspaceAdmission (sample_admission False []) =
     WorkspaceResolved \<lparr>wdReason = ''read-only admission uses the Conversation Git Worktree and creates no merge item when unchanged'',
       wdTargetPaths = []\<rparr> (ReadAdmission (Some ''w1'') []) None" by code_simp
  from workspace_read_admission_sound [OF this] show ?thesis by simp
qed

theorem directory_output_never_admitted_witness:
  "isValidFileOutput ''docs/out/'' \<and>
   resolveWorkspaceAdmission (sample_admission True [''docs/out/'']) \<noteq>
     WorkspaceResolved \<lparr>wdReason = ''add a page'', wdTargetPaths = [''docs'']\<rparr> (WriteAdmission ''w1'' [''docs'']) (Some sample_intent)"
proof
  show "isValidFileOutput ''docs/out/''" by code_simp
  show "resolveWorkspaceAdmission (sample_admission True [''docs/out/'']) \<noteq>
     WorkspaceResolved \<lparr>wdReason = ''add a page'', wdTargetPaths = [''docs'']\<rparr> (WriteAdmission ''w1'' [''docs'']) (Some sample_intent)"
    by (rule directory_output_never_admitted [where p = "''docs/out''"]) (simp add: sample_admission_def)
qed

end
