(* ===== verification/Planning_Plan.thy ===== *)
theory Planning_Plan
  imports Model_Routing Workspace_Admission Work_Graph_Frontier
begin

text \<open>
  The Planner's proposal (\<open>src/src/planning/planning-types.ts\<close>), the view of the configuration it
  planned against, and the validator both the Planner and the Kernel run on it
  (\<open>src/src/planning/planning-agent-plan-validator.ts\<close>). The Zod schema that parses the raw value is
  third-party code: \<open>safeParse\<close>, an argument, gives either its issues or the parsed plan.
\<close>

subsection \<open>Plans\<close>

datatype PlanningAction =
  DirectReply | ClarificationAction | TaskControl | PlanWorkGraph | AuthorizationResolution | NoAction

datatype IntentTaskBinding = NewTask | ReferenceTask | NoTask

datatype IntentTaskControl =
    ClearTasks | StatusQuery | ResumeTask | RecoverBlocked | ServiceStart | ServiceStop
  | ServiceRestart | AbandonTask | NoControl

fun control_name :: "IntentTaskControl \<Rightarrow> string" where
  "control_name ClearTasks = ''clear_tasks''"
| "control_name StatusQuery = ''status_query''"
| "control_name ResumeTask = ''resume_task''"
| "control_name RecoverBlocked = ''recover_blocked''"
| "control_name ServiceStart = ''service_start''"
| "control_name ServiceStop = ''service_stop''"
| "control_name ServiceRestart = ''service_restart''"
| "control_name AbandonTask = ''abandon_task''"
| "control_name NoControl = ''none''"

datatype TaskSemanticPriority = NormalPriority | HighPriority | UrgentPriority

datatype PlanSchemaVersion = Schema8 | Schema9

datatype AuthorizationAnswer = Approve | Deny

record PlanTask =
  ptPublicProjectDirectory :: "string option"
  ptStartServiceAfterPublish :: "bool option"
  ptBinding :: IntentTaskBinding
  ptTaskId :: "string option"
  ptControl :: IntentTaskControl
  ptScope :: "string option"
  ptTitle :: "string option"
  ptGoal :: "string option"
  ptIncludeRecentConversationContext :: bool
  ptPriority :: "(TaskSemanticPriority \<times> string) option"

record PlanningAgentPlan =
  plId :: string
  plSchemaVersion :: PlanSchemaVersion
  plAction :: PlanningAction
  plConfidence :: js_number
  plReason :: string
  plClarificationQuestion :: "string option"
  plDirectReply :: "string option"
  plTask :: PlanTask
  plRiskLevel :: riskLevel
  plRequiresConfirmation :: bool
  plRiskReasons :: "string list"
  plAuthorizationResolution :: "(string \<times> AuthorizationAnswer) option"
  plConflictOldTaskId :: "string option"
  plWorkspaceIntent :: "WorkspaceIntent option"
  plWorkGraph :: "WorkGraphProposal option"
  plSource :: string

subsection \<open>The Planner's configuration view\<close>

record ConfigurationCatalogAgentClass =
  caId :: string
  caRoutingCapabilities :: "RoutingCapabilityId list"
  caModelCapabilities :: "(string \<times> ModelCapability list) list option"
  caModelPolicy :: ModelPolicy

record ConfigurationRoutingCatalog =
  rcConfigurationRevision :: string
  rcCapabilities :: "RoutingCapabilityId list"
  rcAgentClasses :: "ConfigurationCatalogAgentClass list"

record PlannerModelProfile =
  pmId :: string
  pmCapabilities :: "ModelCapability list"

record PlannerConfigurationView =
  pcRevisionId :: string
  pcModels :: "PlannerModelProfile list"
  pcRoutingCatalog :: ConfigurationRoutingCatalog

record ReplanContext =
  rxTaskId :: string
  rxTaskEvidenceIds :: "string list"

record PendingAuthorization =
  paRequestId :: string
  paTaskId :: string

record schema_issue =
  siPath :: "string list"
  siMessage :: string

subsection \<open>Semantic checks\<close>

definition truthy :: "string option \<Rightarrow> bool" where
  "truthy s \<longleftrightarrow> s \<noteq> None \<and> s \<noteq> Some []"

definition blank :: "string option \<Rightarrow> bool" where
  "blank s \<longleftrightarrow> (case s of None \<Rightarrow> True | Some t \<Rightarrow> js_trim t = [])"

definition when_error :: "bool \<Rightarrow> string \<Rightarrow> string list" where
  "when_error c message = (if c then [message] else [])"

definition unsafe_relative :: "string \<Rightarrow> bool" where
  "unsafe_relative path \<longleftrightarrow> startsWith path ''/'' \<or> CHR 0x5C \<in> set path
     \<or> (\<exists>part \<in> set (js_split (CHR ''/'') path). part = [] \<or> part = ''.'' \<or> part = ''..'')"

definition plan_subtasks :: "PlanningAgentPlan \<Rightarrow> WorkGraphSubtask list" where
  "plan_subtasks plan = (case plWorkGraph plan of None \<Rightarrow> [] | Some g \<Rightarrow> wpSubtasks g)"

definition file_outputs :: "WorkGraphSubtask \<Rightarrow> string list" where
  "file_outputs subtask = (case wgFileOutputs subtask of None \<Rightarrow> [] | Some paths \<Rightarrow> paths)"

definition replan_errors :: "PlanningAgentPlan \<Rightarrow> ReplanContext \<Rightarrow> string list" where
  "replan_errors plan replan =
     when_error (plAction plan \<noteq> PlanWorkGraph \<or> ptBinding (plTask plan) \<noteq> ReferenceTask
        \<or> ptTaskId (plTask plan) \<noteq> Some (rxTaskId replan))
       (''Replan must describe remaining work for existing Task '' @ rxTaskId replan)
     @ concat (map (\<lambda>subtask. concat (map (\<lambda>ref. case ref of
           TaskEvidence e \<Rightarrow> when_error (e \<notin> set (rxTaskEvidenceIds replan))
             (''Unavailable task_evidence ID: '' @ e @ ''. Copy an exact evidenceId from Completed evidence; do not shorten or reconstruct it.'')
         | _ \<Rightarrow> []) (wgContextRefs subtask))) (plan_subtasks plan))"

definition validateActionSemantics :: "PlanningAgentPlan \<Rightarrow> string list" where
  "validateActionSemantics plan =
     when_error (plAction plan = ClarificationAction \<and> blank (plClarificationQuestion plan))
       ''clarification requires clarificationQuestion''
     @ when_error (plAction plan = DirectReply \<and> blank (plDirectReply plan))
       ''direct_reply requires a non-empty response.directReply''
     @ when_error (plAction plan = TaskControl \<and> ptControl (plTask plan) = NoControl)
       ''task_control requires a control kind''"

definition scope_char :: "char \<Rightarrow> bool" where
  "scope_char c \<longleftrightarrow> is_lower c \<or> is_upper c \<or> is_digit c \<or> c = CHR ''_'' \<or> c = CHR ''-''"

definition scope_of :: "PlanTask \<Rightarrow> string" where
  "scope_of task = (case ptScope task of None \<Rightarrow> [] | Some s \<Rightarrow> s)"

definition service_scope_bad :: "PlanTask \<Rightarrow> bool" where
  "service_scope_bad task \<longleftrightarrow>
     (if ptControl task = ServiceStart then ptScope task \<noteq> None
      else \<not> (list_all scope_char (scope_of task) \<and> 1 \<le> length (scope_of task) \<and> length (scope_of task) \<le> 100))"

definition project_directory_errors :: "PlanTask \<Rightarrow> string list" where
  "project_directory_errors task = (case ptPublicProjectDirectory task of
      None \<Rightarrow> []
    | Some d \<Rightarrow> when_error (d \<noteq> [] \<and> (ptBinding task \<noteq> NewTask \<or> unsafe_relative d))
        ''publicProjectDirectory requires an explicitly selected Workspace-relative project on a new Task'')"

definition control_scope_errors :: "PlanTask \<Rightarrow> string list" where
  "control_scope_errors task =
     (if startsWith (control_name (ptControl task)) ''service_''
      then when_error (ptBinding task \<noteq> ReferenceTask \<or> \<not> truthy (ptTaskId task))
             ''service control requires an exact reference Task''
           @ when_error (service_scope_bad task)
             ''service_start requires null scope; stop/restart require the exact serviceId''
      else [])
     @ when_error (ptControl task = StatusQuery \<and> scope_of task \<notin> {''dashboard'', ''blocked'', ''running''})
         ''status_query requires scope dashboard, blocked, or running''
     @ when_error (ptControl task = ClearTasks \<and> scope_of task \<notin> {''all'', ''parked'', ''blocked''})
         ''clear_tasks requires scope all, parked, or blocked''
     @ when_error (ptControl task \<in> {ResumeTask, RecoverBlocked, AbandonTask} \<and> ptScope task \<noteq> None)
         (control_name (ptControl task) @ '' requires scope null'')
     @ when_error (ptControl task = AbandonTask \<and> ptTaskId task = None)
         ''abandon_task requires the exact old Task id (taskId)''"

definition validateTaskControlScope :: "PlanningAgentPlan \<Rightarrow> string list" where
  "validateTaskControlScope plan =
     project_directory_errors (plTask plan)
     @ when_error (ptStartServiceAfterPublish (plTask plan) = Some True
         \<and> (plAction plan \<noteq> PlanWorkGraph \<or> ptBinding (plTask plan) \<noteq> NewTask))
         ''startServiceAfterPublish requires a new implementation Task''
     @ (if plAction plan = TaskControl then control_scope_errors (plTask plan) else [])"

definition schedulable :: "PlanningAgentPlan \<Rightarrow> bool" where
  "schedulable plan \<longleftrightarrow> plAction plan = PlanWorkGraph
     \<or> plAction plan = TaskControl \<and> ptControl (plTask plan) \<in> {ResumeTask, RecoverBlocked}"

text \<open>The three levels are the constructors of the type, so the membership test always holds.\<close>

definition validateTaskPriority :: "PlanningAgentPlan \<Rightarrow> string list" where
  "validateTaskPriority plan =
     (if \<not> schedulable plan
      then when_error (ptPriority (plTask plan) \<noteq> None) ''task.priority must be null for non-schedulable actions''
      else when_error (case ptPriority (plTask plan) of None \<Rightarrow> True | Some (level, reason) \<Rightarrow> js_trim reason = [])
        ''schedulable actions require task.priority with valid level and non-empty reason'')"

definition validateAuthorizationResolution :: "PlanningAgentPlan \<Rightarrow> PendingAuthorization option \<Rightarrow> string list" where
  "validateAuthorizationResolution plan pending =
     (if plAction plan \<noteq> AuthorizationResolution then []
      else (case pending of
          None \<Rightarrow> [''authorization_resolution requires a pending authorization request'']
        | Some p \<Rightarrow>
            when_error (map_option fst (plAuthorizationResolution plan) \<noteq> Some (paRequestId p))
              ''authorization_resolution requestId must exactly match the pending request''
            @ when_error (ptBinding (plTask plan) \<noteq> ReferenceTask \<or> ptTaskId (plTask plan) \<noteq> Some (paTaskId p))
              ''authorization_resolution must reference the pending request Task''))"

subsection \<open>Workspace intent\<close>

definition subtask_writes :: "WorkGraphSubtask \<Rightarrow> bool" where
  "subtask_writes subtask \<longleftrightarrow> wgWorkspaceEffect subtask = Some ''write''
     \<or> wgDeliveryKind subtask \<noteq> ReportDelivery \<or> file_outputs subtask \<noteq> []"

definition output_errors :: "string list \<Rightarrow> string \<Rightarrow> string list" where
  "output_errors targetPaths path =
     (if unsafe_relative path then [''subtask.fileOutputs must stay Workspace-relative: '' @ path]
      else when_error (\<not> (\<exists>target \<in> set targetPaths. path = target \<or> startsWith path (target @ ''/'')))
        (''subtask.fileOutputs must be covered by workspaceIntent.targetPaths: '' @ path))"

definition undeclared_readers :: "WorkGraphSubtask list \<Rightarrow> WorkGraphSubtask list" where
  "undeclared_readers subtasks =
     (let readableRoots = filter (\<lambda>s. isSharedReadCandidate s subtasks) subtasks in
      if 2 \<le> length readableRoots then filter (\<lambda>s. wgWorkspaceEffect s = None) readableRoots else [])"

definition workspace_id_pattern :: "string \<Rightarrow> bool" where
  "workspace_id_pattern s \<longleftrightarrow> startsWith s ''workspace_''
     \<and> (case drop 10 s of [] \<Rightarrow> False
        | c # cs \<Rightarrow> (is_lower c \<or> is_upper c \<or> is_digit c) \<and> list_all scope_char cs \<and> length cs \<le> 127)"

definition graph_intent_errors :: "WorkspaceIntent \<Rightarrow> WorkGraphSubtask list \<Rightarrow> string list" where
  "graph_intent_errors intent subtasks =
     when_error (wiOperation intent = AmbiguousOperation)
       ''an ambiguous Workspace intent cannot authorize plan_work_graph''
     @ when_error (wiOperation intent = ReadOnlyOperation \<and> (\<exists>s \<in> set subtasks. subtask_writes s))
       ''a read-only Workspace intent cannot authorize a write Work Graph''
     @ when_error (wiOperation intent \<noteq> ReadOnlyOperation \<and> wiTargetPaths intent = [])
       ''a writing Workspace intent must declare at least one target path''
     @ concat (map (\<lambda>path. when_error (unsafe_relative path)
         (''workspaceIntent.targetPaths must stay Workspace-relative: '' @ path)) (wiTargetPaths intent))
     @ concat (map (output_errors (wiTargetPaths intent)) (concat (map file_outputs subtasks)))
     @ when_error (undeclared_readers subtasks \<noteq> [])
       (''these text-only report subtasks must declare workspaceEffect ''
        @ ''(read_only to run beside other readers, write if they change business files, unknown if undecidable): ''
        @ js_join '', '' (map wgId (undeclared_readers subtasks)))
     @ (case wiTargetWorkspaceId intent of None \<Rightarrow> []
        | Some w \<Rightarrow> when_error (\<not> workspace_id_pattern w)
            ''workspaceIntent.targetWorkspaceId must be a supplied Workspace identity'')"

definition validateWorkspaceIntent :: "PlanningAgentPlan \<Rightarrow> string list" where
  "validateWorkspaceIntent plan =
     (if plSchemaVersion plan = Schema8 then []
      else (case plWorkspaceIntent plan of
          None \<Rightarrow> when_error (plAction plan = PlanWorkGraph)
            ''plan_work_graph requires workspaceIntent in PlanningAgentPlan schema 9''
        | Some intent \<Rightarrow>
            (if plAction plan = PlanWorkGraph then graph_intent_errors intent (plan_subtasks plan) else [])
            @ when_error (wiOperation intent = AmbiguousOperation \<and> plAction plan \<noteq> ClarificationAction)
                ''an ambiguous Workspace intent requires action clarification''))"

subsection \<open>Routing\<close>

definition validateConfigurationRevision :: "string \<Rightarrow> PlannerConfigurationView \<Rightarrow> string list" where
  "validateConfigurationRevision graphRevision configuration =
     (let catalogRevision = rcConfigurationRevision (pcRoutingCatalog configuration); own = pcRevisionId configuration in
      when_error (catalogRevision \<noteq> own)
        (''Planner configuration view revision '' @ own @ '' does not match routing catalog revision '' @ catalogRevision)
      @ when_error (graphRevision \<noteq> own)
        (''work graph configurationRevision '' @ graphRevision @ '' does not match Planner configuration revision '' @ own))"

fun collectDuplicateErrors :: "string list \<Rightarrow> string \<Rightarrow> string \<Rightarrow> string list \<Rightarrow> string list" where
  "collectDuplicateErrors seen subtaskId label [] = []"
| "collectDuplicateErrors seen subtaskId label (v # vs) =
     when_error (v \<in> set seen) (''subtask '' @ subtaskId @ '' contains duplicate '' @ label @ '': '' @ v)
     @ collectDuplicateErrors (v # seen) subtaskId label vs"

definition executorBindingKey :: "ProposedExecutorBinding \<Rightarrow> string" where
  "executorBindingKey binding = (case pbModelSelection binding of
      Proposed m _ \<Rightarrow> pbAgentClassRef binding @ '':proposed:'' @ m
    | FixedByAgentClass \<Rightarrow> pbAgentClassRef binding @ '':fixed-by-agent-class''
    | AgentClassDefault \<Rightarrow> pbAgentClassRef binding @ '':agent-class-default'')"

definition validateModelAvailability :: "string \<Rightarrow> string \<Rightarrow> string list \<Rightarrow> string \<Rightarrow> string list" where
  "validateModelAvailability subtaskId modelRef modelRefs configurationRevision =
     when_error (modelRef \<notin> set modelRefs)
       (''subtask '' @ subtaskId @ '' references unavailable Model in revision '' @ configurationRevision @ '': '' @ modelRef)"

text \<open>The first half of the check: its errors and the Model the binding fixes, if it fixes one.\<close>

definition model_selection ::
  "string \<Rightarrow> ProposedExecutorBinding \<Rightarrow> ConfigurationCatalogAgentClass \<Rightarrow> string list \<Rightarrow> string \<Rightarrow> string list \<times> string option"
where
  "model_selection subtaskId binding agentClass modelRefs configurationRevision =
     (let prefix = ''subtask '' @ subtaskId @ '' AgentClass '' @ pbAgentClassRef binding;
          available = (\<lambda>m. validateModelAvailability subtaskId m modelRefs configurationRevision) in
      case caModelPolicy agentClass of
        FixedPolicy m \<Rightarrow>
          (if pbModelSelection binding \<noteq> FixedByAgentClass
           then ([prefix @ '' uses fixed ModelPolicy and requires fixed-by-agent-class selection''], None)
           else (available m, Some m))
      | AutoModelPolicy a \<Rightarrow>
          (case pbModelSelection binding of
             FixedByAgentClass \<Rightarrow> ([prefix @ '' uses auto ModelPolicy and cannot use fixed-by-agent-class selection''], None)
           | Proposed m _ \<Rightarrow>
               (if m \<notin> set (apAllowedModelRefs a)
                then (available m @ [''subtask '' @ subtaskId @ '' Model '' @ m @ '' is not allowed by AgentClass '' @ pbAgentClassRef binding], None)
                else (available m, Some m))
           | AgentClassDefault \<Rightarrow>
               (if truthy (apDefaultModelRef a) then (available (the (apDefaultModelRef a)), None)
                else ([prefix @ '' has no default Model''], None))))"

definition unsupported_capabilities :: "ConfigurationCatalogAgentClass \<Rightarrow> PlannerModelProfile \<Rightarrow> ModelCapability list \<Rightarrow> ModelCapability list" where
  "unsupported_capabilities agentClass model required =
     (let effective = (case Option.bind (caModelCapabilities agentClass) (\<lambda>m. map_of m (pmId model)) of
                         Some cs \<Rightarrow> cs | None \<Rightarrow> pmCapabilities model) in
      filter (\<lambda>c. c \<notin> set effective) required)"

definition model_support_errors ::
  "js_runtime \<Rightarrow> string \<Rightarrow> string \<Rightarrow> ConfigurationCatalogAgentClass \<Rightarrow> PlannerModelProfile \<Rightarrow> string list \<Rightarrow> string list result"
where
  "model_support_errors rt subtaskId modelRef agentClass model capabilities =
     rbind (requiredModelCapabilitiesForRoutingCapabilities rt capabilities) (\<lambda>required.
       let unsupported = unsupported_capabilities agentClass model required in
       Inr (when_error (unsupported \<noteq> [])
         (''subtask '' @ subtaskId @ '' Model '' @ modelRef @ '' does not support required Routing Capabilities: ''
          @ js_join '', '' (filter (\<lambda>c. case requiredModelCapabilitiesForRoutingCapabilities rt [c] of
                Inr ms \<Rightarrow> \<exists>m \<in> set ms. m \<in> set unsupported | Inl _ \<Rightarrow> False) capabilities))))"

definition validateModelSelection ::
  "js_runtime \<Rightarrow> WorkGraphSubtask \<Rightarrow> ProposedExecutorBinding \<Rightarrow> ConfigurationCatalogAgentClass
   \<Rightarrow> PlannerConfigurationView \<Rightarrow> string list result"
where
  "validateModelSelection rt subtask binding agentClass configuration =
     (let (errors, selected) = model_selection (wgId subtask) binding agentClass
              (map pmId (pcModels configuration)) (pcRevisionId configuration) in
      if \<not> truthy selected then Inr errors
      else (case find (\<lambda>m. pmId m = the selected) (pcModels configuration) of
          None \<Rightarrow> Inr errors
        | Some model \<Rightarrow> rbind (model_support_errors rt (wgId subtask) (the selected) agentClass model
              (wgRequiredCapabilities subtask)) (\<lambda>more. Inr (errors @ more))))"

definition covers_capabilities :: "string list \<Rightarrow> ConfigurationCatalogAgentClass \<Rightarrow> bool" where
  "covers_capabilities required agentClass \<longleftrightarrow> (\<forall>c \<in> set required. c \<in> set (caRoutingCapabilities agentClass))"

definition uncovered_capabilities :: "string list \<Rightarrow> ConfigurationCatalogAgentClass \<Rightarrow> string list" where
  "uncovered_capabilities required agentClass =
     sort_strings (filter (\<lambda>c. c \<notin> set (caRoutingCapabilities agentClass)) (js_dedup required))"

text \<open>A \<open>Map\<close> built from pairs keeps the last AgentClass of an id.\<close>

definition catalog_class :: "PlannerConfigurationView \<Rightarrow> string \<Rightarrow> ConfigurationCatalogAgentClass option" where
  "catalog_class configuration ref =
     find (\<lambda>a. caId a = ref) (rev (rcAgentClasses (pcRoutingCatalog configuration)))"

definition binding_errors ::
  "js_runtime \<Rightarrow> PlannerConfigurationView \<Rightarrow> WorkGraphSubtask \<Rightarrow> ProposedExecutorBinding \<Rightarrow> string list result"
where
  "binding_errors rt configuration subtask binding =
     (case catalog_class configuration (pbAgentClassRef binding) of
        None \<Rightarrow> Inr [''subtask '' @ wgId subtask @ '' references unavailable AgentClass in revision ''
                     @ pcRevisionId configuration @ '': '' @ pbAgentClassRef binding]
      | Some agentClass \<Rightarrow>
          (let uncovered = uncovered_capabilities (wgRequiredCapabilities subtask) agentClass in
           rbind (validateModelSelection rt subtask binding agentClass configuration) (\<lambda>more.
             Inr (when_error (uncovered \<noteq> [])
                    (''subtask '' @ wgId subtask @ '' AgentClass '' @ pbAgentClassRef binding
                     @ '' does not cover required capabilities: '' @ js_join '', '' uncovered)
                  @ more))))"

fun collect_results :: "('a \<Rightarrow> 'b list result) \<Rightarrow> 'a list \<Rightarrow> 'b list result" where
  "collect_results f [] = Inr []"
| "collect_results f (x # xs) = rbind (f x) (\<lambda>ys. rbind (collect_results f xs) (\<lambda>zs. Inr (ys @ zs)))"

definition capability_errors :: "PlannerConfigurationView \<Rightarrow> WorkGraphSubtask \<Rightarrow> string list" where
  "capability_errors configuration subtask =
     (let required = wgRequiredCapabilities subtask; catalog = pcRoutingCatalog configuration;
          unknown = filter (\<lambda>c. c \<notin> set (rcCapabilities catalog)) required in
      collectDuplicateErrors [] (wgId subtask) ''Routing Capability'' required
      @ collectDuplicateErrors [] (wgId subtask) ''executor binding'' (map executorBindingKey (wgExecutorBindings subtask))
      @ when_error (required = []) (''subtask '' @ wgId subtask @ '' requires at least one Routing Capability'')
      @ map (\<lambda>c. ''subtask '' @ wgId subtask @ '' references unknown Routing Capability: '' @ c) unknown
      @ when_error (required \<noteq> [] \<and> unknown = []
            \<and> \<not> (\<exists>a \<in> set (rcAgentClasses catalog). covers_capabilities required a))
          (''no_capable_agent_class: subtask '' @ wgId subtask @ '' must be split at a Routing Capability handoff''))"

definition validateRouting :: "js_runtime \<Rightarrow> WorkGraphSubtask list \<Rightarrow> PlannerConfigurationView \<Rightarrow> string list result" where
  "validateRouting rt subtasks configuration =
     collect_results (\<lambda>subtask.
       rbind (collect_results (binding_errors rt configuration subtask) (wgExecutorBindings subtask)) (\<lambda>more.
         Inr (capability_errors configuration subtask @ more))) subtasks"

subsection \<open>The validator\<close>

definition graph_errors :: "js_runtime \<Rightarrow> PlannerConfigurationView \<Rightarrow> WorkGraphProposal \<Rightarrow> string list result" where
  "graph_errors rt configuration graph =
     rbind (validateWorkGraph rt (wpSubtasks graph)) (\<lambda>violations.
     rbind (validateRouting rt (wpSubtasks graph) configuration) (\<lambda>routing.
       Inr (map (\<lambda>v. code_name (vCode v) @ '': '' @ vPath v @ '': '' @ vMessage v) violations
            @ validateConfigurationRevision (wpConfigurationRevision graph) configuration
            @ routing)))"

type_synonym plan_schema = "PlanningAgentPlan \<Rightarrow> schema_issue list + PlanningAgentPlan"

definition plan_errors ::
  "js_runtime \<Rightarrow> PlannerConfigurationView \<Rightarrow> PendingAuthorization option \<Rightarrow> ReplanContext option
   \<Rightarrow> PlanningAgentPlan \<Rightarrow> string list result"
where
  "plan_errors rt configuration pending replan plan =
     rbind (case plWorkGraph plan of None \<Rightarrow> Inr [] | Some graph \<Rightarrow> graph_errors rt configuration graph) (\<lambda>graphErrors.
       Inr ((case replan of None \<Rightarrow> [] | Some r \<Rightarrow> replan_errors plan r)
            @ validateActionSemantics plan @ validateTaskControlScope plan @ validateTaskPriority plan
            @ validateAuthorizationResolution plan pending @ validateWorkspaceIntent plan @ graphErrors))"

text \<open>The errors of the result; the plan is valid exactly when there are none.\<close>

definition validatePlanningAgentPlan ::
  "js_runtime \<Rightarrow> plan_schema \<Rightarrow> PlanningAgentPlan \<Rightarrow> PlannerConfigurationView
   \<Rightarrow> PendingAuthorization option \<Rightarrow> ReplanContext option \<Rightarrow> (bool \<times> string list) result"
where
  "validatePlanningAgentPlan rt safeParse value configuration pending replan =
     (case safeParse value of
        Inl issues \<Rightarrow> Inr (False, sort_strings (map (\<lambda>issue.
            (let path = js_join ''.'' (siPath issue) in if path = [] then ''plan'' else path) @ '': '' @ siMessage issue) issues))
      | Inr plan \<Rightarrow> rbind (plan_errors rt configuration pending replan plan) (\<lambda>errors.
            Inr (errors = [], sort_strings errors)))"

subsection \<open>What a valid plan satisfies\<close>

text \<open>A proposed binding the configuration can serve: a catalogued AgentClass with every required
  capability, and a Model selection its policy admits.\<close>

definition binding_routable :: "PlannerConfigurationView \<Rightarrow> WorkGraphSubtask \<Rightarrow> ProposedExecutorBinding \<Rightarrow> bool" where
  "binding_routable configuration subtask binding \<longleftrightarrow>
     (\<exists>a. a \<in> set (rcAgentClasses (pcRoutingCatalog configuration)) \<and> caId a = pbAgentClassRef binding
        \<and> covers_capabilities (wgRequiredCapabilities subtask) a
        \<and> (case caModelPolicy a of
             FixedPolicy m \<Rightarrow> pbModelSelection binding = FixedByAgentClass \<and> m \<in> pmId ` set (pcModels configuration)
           | AutoModelPolicy p \<Rightarrow>
               (case pbModelSelection binding of
                  FixedByAgentClass \<Rightarrow> False
                | Proposed m r \<Rightarrow> m \<in> set (apAllowedModelRefs p) \<and> m \<in> pmId ` set (pcModels configuration)
                | AgentClassDefault \<Rightarrow> \<exists>m. apDefaultModelRef p = Some m \<and> m \<in> pmId ` set (pcModels configuration))))"

definition subtask_routable :: "PlannerConfigurationView \<Rightarrow> WorkGraphSubtask \<Rightarrow> bool" where
  "subtask_routable configuration subtask \<longleftrightarrow>
     wgRequiredCapabilities subtask \<noteq> [] \<and> distinct (wgRequiredCapabilities subtask)
     \<and> (\<exists>a \<in> set (rcAgentClasses (pcRoutingCatalog configuration)). covers_capabilities (wgRequiredCapabilities subtask) a)
     \<and> (\<forall>b \<in> set (wgExecutorBindings subtask). binding_routable configuration subtask b)"

definition intent_covers :: "PlanningAgentPlan \<Rightarrow> bool" where
  "intent_covers plan \<longleftrightarrow>
     (\<exists>intent. plWorkspaceIntent plan = Some intent \<and> wiOperation intent \<noteq> AmbiguousOperation
        \<and> (wiOperation intent = ReadOnlyOperation \<longrightarrow> \<not> (\<exists>s \<in> set (plan_subtasks plan). subtask_writes s))
        \<and> (\<forall>s \<in> set (plan_subtasks plan). \<forall>path \<in> set (file_outputs s).
             \<not> unsafe_relative path \<and> (\<exists>t \<in> set (wiTargetPaths intent). path = t \<or> startsWith path (t @ ''/''))))"

lemma when_error_Nil [simp]: "when_error c m = [] \<longleftrightarrow> \<not> c"
  by (simp add: when_error_def)

lemma collect_results_Nil:
  "collect_results f xs = Inr [] \<longleftrightarrow> (\<forall>x \<in> set xs. f x = Inr [])"
  by (induction xs) auto

lemma collectDuplicateErrors_Nil:
  "collectDuplicateErrors seen i l vs = [] \<longleftrightarrow> distinct vs \<and> set vs \<inter> set seen = {}"
  by (induction vs arbitrary: seen) auto

lemma uncovered_capabilities_Nil [simp]:
  "uncovered_capabilities required a = [] \<longleftrightarrow> covers_capabilities required a"
  by (auto simp: uncovered_capabilities_def covers_capabilities_def filter_empty_conv)

lemma model_selection_errors:
  assumes "fst (model_selection i b a refs r) = []"
  shows "case caModelPolicy a of
      FixedPolicy m \<Rightarrow> pbModelSelection b = FixedByAgentClass \<and> m \<in> set refs
    | AutoModelPolicy p \<Rightarrow>
        (case pbModelSelection b of
           FixedByAgentClass \<Rightarrow> False
         | Proposed m r \<Rightarrow> m \<in> set (apAllowedModelRefs p) \<and> m \<in> set refs
         | AgentClassDefault \<Rightarrow> \<exists>m. apDefaultModelRef p = Some m \<and> m \<in> set refs)"
  using assms
  by (auto simp: model_selection_def validateModelAvailability_def truthy_def Let_def
      split: ModelPolicy.splits ProposedModelSelection.splits if_splits)

lemma validateModelSelection_Nil:
  "validateModelSelection rt s b a configuration = Inr [] \<Longrightarrow>
    fst (model_selection (wgId s) b a (map pmId (pcModels configuration)) (pcRevisionId configuration)) = []"
  by (auto simp: validateModelSelection_def split: prod.splits if_splits option.splits)

lemma catalog_class_mem:
  "catalog_class configuration ref = Some a \<Longrightarrow>
    a \<in> set (rcAgentClasses (pcRoutingCatalog configuration)) \<and> caId a = ref"
  by (auto simp: catalog_class_def dest!: find_Some_mem)

lemma binding_errors_Nil:
  assumes "binding_errors rt configuration s b = Inr []"
  shows "binding_routable configuration s b"
proof -
  from assms obtain a where c: "catalog_class configuration (pbAgentClassRef b) = Some a"
    and u: "covers_capabilities (wgRequiredCapabilities s) a"
    and m: "validateModelSelection rt s b a configuration = Inr []"
    by (auto simp: binding_errors_def Let_def split: option.splits)
  from model_selection_errors [OF validateModelSelection_Nil [OF m], unfolded set_map] catalog_class_mem [OF c] u
  show ?thesis
    unfolding binding_routable_def by (intro exI [of _ a] conjI) simp_all
qed

lemma capability_errors_Nil:
  "capability_errors configuration s = [] \<Longrightarrow>
    wgRequiredCapabilities s \<noteq> [] \<and> distinct (wgRequiredCapabilities s)
    \<and> (\<exists>a \<in> set (rcAgentClasses (pcRoutingCatalog configuration)). covers_capabilities (wgRequiredCapabilities s) a)"
  by (auto simp: capability_errors_def Let_def collectDuplicateErrors_Nil)

lemma validateRouting_Nil:
  "validateRouting rt ss configuration = Inr [] \<Longrightarrow> s \<in> set ss \<Longrightarrow> subtask_routable configuration s"
  using capability_errors_Nil [of configuration s] binding_errors_Nil [of rt configuration s]
  unfolding validateRouting_def collect_results_Nil subtask_routable_def
  by (simp add: collect_results_Nil)

lemma graph_intent_errors_Nil:
  assumes "validateWorkspaceIntent plan = []" "plSchemaVersion plan = Schema9" "plAction plan = PlanWorkGraph"
  shows "intent_covers plan"
proof -
  from assms obtain intent where i: "plWorkspaceIntent plan = Some intent"
    and e: "graph_intent_errors intent (plan_subtasks plan) = []"
    by (auto simp: validateWorkspaceIntent_def split: option.splits)
  have out: "\<not> unsafe_relative path \<and> (\<exists>t \<in> set (wiTargetPaths intent). path = t \<or> startsWith path (t @ ''/''))"
    if "s \<in> set (plan_subtasks plan)" "path \<in> set (file_outputs s)" for s path
  proof -
    from e have "output_errors (wiTargetPaths intent) path = []"
      using that unfolding graph_intent_errors_def by simp
    then show ?thesis by (simp add: output_errors_def split: if_splits)
  qed
  from e have "wiOperation intent \<noteq> AmbiguousOperation"
    "wiOperation intent = ReadOnlyOperation \<longrightarrow> \<not> (\<exists>s \<in> set (plan_subtasks plan). subtask_writes s)"
    unfolding graph_intent_errors_def by simp_all
  with i out show ?thesis unfolding intent_covers_def by blast
qed

lemma validatePlanningAgentPlan_valid:
  "validatePlanningAgentPlan rt safeParse v c pending replan = Inr (True, es) \<longleftrightarrow>
    (\<exists>plan. safeParse v = Inr plan \<and> plan_errors rt c pending replan plan = Inr [] \<and> es = [])"
  by (auto simp: validatePlanningAgentPlan_def sort_strings_def split: sum.splits)

lemma plan_errors_Nil:
  assumes "plan_errors rt c pending replan plan = Inr []"
  shows "validateWorkspaceIntent plan = []" "validateActionSemantics plan = []"
    "validateTaskControlScope plan = []" "validateAuthorizationResolution plan pending = []"
    "plWorkGraph plan = Some g \<Longrightarrow> graph_errors rt c g = Inr []"
  using assms by (auto simp: plan_errors_def split: option.splits)

lemma graph_errors_Nil:
  assumes "graph_errors rt c g = Inr []"
  shows "valid_work_graph (wpSubtasks g)" "wpConfigurationRevision g = pcRevisionId c"
    "s \<in> set (wpSubtasks g) \<Longrightarrow> subtask_routable c s"
  using assms
  by (auto simp: graph_errors_def validateConfigurationRevision_def Let_def validateWorkGraph_Nil_iff
      intro: validateRouting_Nil)

text \<open>
  A plan the validator accepts carries a well-formed Work Graph of the active
  configuration revision in which every Subtask has a capable AgentClass, every proposed binding
  names a catalogued AgentClass with a Model its policy admits, and (from schema 9 on) the Workspace
  intent is unambiguous, covers every declared output and, when read-only, belongs to a graph that
  writes nothing.
\<close>

theorem valid_plan_routable:
  assumes "validatePlanningAgentPlan rt safeParse v configuration pending replan = Inr (True, es)"
    and "safeParse v = Inr plan" and "plWorkGraph plan = Some g"
  shows "valid_work_graph (wpSubtasks g) \<and> wpConfigurationRevision g = pcRevisionId configuration
    \<and> (\<forall>s \<in> set (wpSubtasks g). subtask_routable configuration s)
    \<and> (plSchemaVersion plan = Schema9 \<and> plAction plan = PlanWorkGraph \<longrightarrow> intent_covers plan)"
proof -
  from assms have e: "plan_errors rt configuration pending replan plan = Inr []"
    by (auto simp: validatePlanningAgentPlan_valid)
  note g = graph_errors_Nil [OF plan_errors_Nil(5) [OF e assms(3)]]
  show ?thesis using g graph_intent_errors_Nil [OF plan_errors_Nil(1) [OF e]] by blast
qed

subsection \<open>Evaluations\<close>

definition sample_plan_graph :: WorkGraphProposal where
  "sample_plan_graph = \<lparr>wpConfigurationRevision = ''rev1'', wpReason = ''r'',
     wpSubtasks = map (\<lambda>s. s\<lparr>wgRequiredCapabilities := [''workspace-engineering'']\<rparr>) sample_graph\<rparr>"

definition sample_plan_task :: PlanTask where
  "sample_plan_task = \<lparr>ptPublicProjectDirectory = None, ptStartServiceAfterPublish = None, ptBinding = NewTask,
     ptTaskId = None, ptControl = NoControl, ptScope = None, ptTitle = Some ''t'', ptGoal = Some ''g'',
     ptIncludeRecentConversationContext = False, ptPriority = Some (NormalPriority, ''asked'')\<rparr>"

definition sample_plan :: PlanningAgentPlan where
  "sample_plan = \<lparr>plId = ''p1'', plSchemaVersion = Schema9, plAction = PlanWorkGraph, plConfidence = JsFinite 1,
     plReason = ''r'', plClarificationQuestion = None, plDirectReply = None, plTask = sample_plan_task,
     plRiskLevel = LowRisk, plRequiresConfirmation = False, plRiskReasons = [], plAuthorizationResolution = None,
     plConflictOldTaskId = None, plWorkspaceIntent = Some (sample_intent\<lparr>wiTargetWorkspaceId := None\<rparr>),
     plWorkGraph = Some sample_plan_graph, plSource = ''anyfusion-planner''\<rparr>"

definition sample_policy :: ModelPolicy where
  "sample_policy = AutoModelPolicy \<lparr>apAllowedModelRefs = [''m1''], apDefaultModelRef = Some ''m1'',
     apFallbackOrder = None, apObjective = None\<rparr>"

definition sample_planner_view :: PlannerConfigurationView where
  "sample_planner_view = \<lparr>pcRevisionId = ''rev1'', pcModels = [\<lparr>pmId = ''m1'', pmCapabilities = [''coding'']\<rparr>],
     pcRoutingCatalog = \<lparr>rcConfigurationRevision = ''rev1'', rcCapabilities = [''workspace-engineering''],
       rcAgentClasses = map (\<lambda>i. \<lparr>caId = i, caRoutingCapabilities = [''workspace-engineering''],
         caModelCapabilities = None, caModelPolicy = sample_policy\<rparr>) [''pi'', ''codex'']\<rparr>\<rparr>"

lemma sample_plan_valid:
  "validatePlanningAgentPlan sample_runtime Inr sample_plan sample_planner_view None None = Inr (True, [])"
  by code_simp

lemma sample_confident: "\<not> js_less (plConfidence sample_plan) double_045"
  by (simp add: sample_plan_def double_045_def One_rat_def)

definition report_plan :: PlanningAgentPlan where
  "report_plan = sample_plan\<lparr>plWorkGraph := Some (sample_plan_graph\<lparr>wpSubtasks :=
     map (\<lambda>s. s\<lparr>wgDeliveryKind := ReportDelivery\<rparr>) (wpSubtasks sample_plan_graph)\<rparr>)\<rparr>"

lemma report_plan_valid:
  "validatePlanningAgentPlan sample_runtime Inr report_plan sample_planner_view None None = Inr (True, [])"
  by code_simp

theorem valid_plan_routable_witness: "valid_work_graph (wpSubtasks sample_plan_graph) \<and> intent_covers sample_plan"
  using valid_plan_routable [OF sample_plan_valid, of sample_plan sample_plan_graph]
  by (simp add: sample_plan_def)

end
