(* ===== verification/Work_Graph_Cancellation.thy ===== *)
theory Work_Graph_Cancellation
  imports Work_Graph_Frontier
begin

text \<open>
  The cancellation closure of a Work Graph (\<open>src/src/work-graph/cancellation.ts\<close>): the targets
  and everything downstream of them, deepest first, or a refusal.

  The recursive \<open>visit\<close> of the source raises the depth of a node and walks on for as long as it
  finds a longer way, so on a cyclic graph it never returns (the engine throws when the stack is
  full). The model spends one unit of fuel per call depth and returns \<^const>\<open>None\<close> when it runs
  out; \<open>length subtasks + 1\<close> units are enough for every acyclic graph (theorem \<open>cancellation_closure_returns\<close>).
\<close>

type_synonym cancel_graph = "(string \<times> string list) list"

record WorkGraphCancellationFact =
  cfSubtaskId :: string
  cfStatus :: WorkGraphRuntimeStatus

datatype CancellationRefusal = EmptyTargets | UnknownSubtask | AlreadyDone | AlreadyCancelled

datatype CancellationClosureResult =
    ClosureOk "string list"
  | ClosureRefused CancellationRefusal "string list"

definition cf_map :: "WorkGraphCancellationFact list \<Rightarrow> string \<Rightarrow> WorkGraphCancellationFact option" where
  "cf_map facts = map_of (js_map_of (map (\<lambda>f. (cfSubtaskId f, f)) facts))"

definition status_is :: "WorkGraphCancellationFact list \<Rightarrow> WorkGraphRuntimeStatus \<Rightarrow> string \<Rightarrow> bool" where
  "status_is facts st i \<longleftrightarrow> map_option cfStatus (cf_map facts i) = Some st"

definition dependents_of :: "cancel_graph \<Rightarrow> string \<Rightarrow> string list" where
  "dependents_of subtasks i =
     sort_strings (concat (map (\<lambda>(sid, deps). map (\<lambda>_. sid) (filter (\<lambda>d. d = i) deps)) subtasks))"

type_synonym depth_map = "(string \<times> nat) list"

fun fold_option :: "('a \<Rightarrow> 's \<Rightarrow> 's option) \<Rightarrow> 'a list \<Rightarrow> 's \<Rightarrow> 's option" where
  "fold_option f [] s = Some s"
| "fold_option f (x # xs) s = (case f x s of None \<Rightarrow> None | Some s' \<Rightarrow> fold_option f xs s')"

fun cancel_visit :: "nat \<Rightarrow> cancel_graph \<Rightarrow> string \<Rightarrow> nat \<Rightarrow> depth_map \<Rightarrow> depth_map option" where
  "cancel_visit 0 g i depth depths = None"
| "cancel_visit (Suc fuel) g i depth depths =
     (if (case map_of depths i of None \<Rightarrow> False | Some known \<Rightarrow> known \<ge> depth) then Some depths
      else fold_option (\<lambda>d m. cancel_visit fuel g d (depth + 1) m) (dependents_of g i)
             (AList.update i depth depths))"

definition depth_compare :: "js_runtime \<Rightarrow> string \<times> nat \<Rightarrow> string \<times> nat \<Rightarrow> int" where
  "depth_compare rt l r = cmp_or (int (snd r) - int (snd l)) (localeCompare rt (fst l) (fst r))"

text \<open>The last checks: one finished or cancelled member refuses the whole closure.\<close>

definition settle_closure :: "WorkGraphCancellationFact list \<Rightarrow> string list \<Rightarrow> CancellationClosureResult" where
  "settle_closure facts closure =
     (let finished = filter (status_is facts SDone) closure;
          cancelled = filter (status_is facts SCancelled) closure
      in if finished \<noteq> [] then ClosureRefused AlreadyDone finished
         else if cancelled \<noteq> [] then ClosureRefused AlreadyCancelled cancelled
         else ClosureOk closure)"

definition deriveCancellationClosure ::
  "js_runtime \<Rightarrow> cancel_graph \<Rightarrow> WorkGraphCancellationFact list \<Rightarrow> string list \<Rightarrow> CancellationClosureResult option"
where
  "deriveCancellationClosure rt subtasks facts targetSubtaskIds =
     (let targets = sort_strings (js_dedup targetSubtaskIds) in
      if targets = [] then Some (ClosureRefused EmptyTargets [])
      else (let unknown = filter (\<lambda>i. i \<notin> fst ` set subtasks \<or> cf_map facts i = None) targets in
      if unknown \<noteq> [] then Some (ClosureRefused UnknownSubtask unknown)
      else (case fold_option (\<lambda>t m. cancel_visit (length subtasks + 1) subtasks t 0 m) targets [] of
              None \<Rightarrow> None
            | Some depths \<Rightarrow>
                Some (settle_closure facts (map fst (js_sort (depth_compare rt) depths))))))"

subsection \<open>Downstream\<close>

definition downstream :: "cancel_graph \<Rightarrow> (string \<times> string) set" where
  "downstream g = {(i, j). \<exists>deps. (j, deps) \<in> set g \<and> i \<in> set deps}"

lemma dependents_of_iff: "j \<in> set (dependents_of g i) \<longleftrightarrow> (i, j) \<in> downstream g"
  by (auto simp: dependents_of_def downstream_def)

abbreviation reach :: "cancel_graph \<Rightarrow> string \<Rightarrow> string set" where
  "reach g i \<equiv> {j. (i, j) \<in> (downstream g)\<^sup>*}"

lemma reach_subset: "reach g i \<subseteq> insert i (fst ` set g)"
proof
  fix j assume "j \<in> reach g i"
  then have "(i, j) \<in> (downstream g)\<^sup>*" by simp
  then show "j \<in> insert i (fst ` set g)"
    by (induction rule: rtrancl_induct) (auto simp: downstream_def intro: rev_image_eqI)
qed

lemma finite_reach: "finite (reach g i)"
  by (rule finite_subset [OF reach_subset]) simp

lemma reach_child_less:
  assumes "acyclic (downstream g)" and "(i, j) \<in> downstream g"
  shows "card (reach g j) < card (reach g i)"
proof (rule psubset_card_mono [OF finite_reach])
  have "i \<notin> reach g j" using assms by (auto simp: acyclic_def dest: rtrancl_into_trancl2)
  moreover have "reach g j \<subseteq> reach g i" using assms(2) by auto
  moreover have "i \<in> reach g i" by simp
  ultimately show "reach g j \<subset> reach g i" by blast
qed

lemma fold_option_total:
  "(\<And>x s. x \<in> set xs \<Longrightarrow> \<exists>s'. f x s = Some s') \<Longrightarrow> \<exists>s'. fold_option f xs s = Some s'"
proof (induction xs arbitrary: s)
  case (Cons x xs)
  then obtain s1 where "f x s = Some s1" by fastforce
  with Cons show ?case by simp
qed simp

text \<open>Fuel up to the size of the reachable set is enough on an acyclic graph.\<close>

lemma cancel_visit_total:
  "acyclic (downstream g) \<Longrightarrow> card (reach g i) \<le> fuel \<Longrightarrow> \<exists>m'. cancel_visit fuel g i depth m = Some m'"
proof (induction fuel arbitrary: i depth m)
  case 0
  have "i \<in> reach g i" by simp
  with 0 finite_reach [of i g] show ?case by (metis card_gt_0_iff empty_iff le_zero_eq less_numeral_extra(3))
next
  case (Suc fuel)
  have "\<exists>m'. cancel_visit fuel g d (depth + 1) n = Some m'" if "d \<in> set (dependents_of g i)" for d n
    using Suc.IH [OF Suc.prems(1)] reach_child_less [OF Suc.prems(1)] that Suc.prems(2)
    by (fastforce simp: dependents_of_iff)
  then show ?case by (auto intro: fold_option_total)
qed

lemma fuel_enough: "card (reach g i) \<le> length g + 1"
proof -
  have "card (reach g i) \<le> card (insert i (fst ` set g))" by (intro card_mono reach_subset) simp
  also have "\<dots> \<le> Suc (card (fst ` set g))" by (rule card_insert_le_m1) auto
  also have "card (fst ` set g) \<le> length g" by (metis card_length list.set_map length_map)
  finally show ?thesis by simp
qed

subsection \<open>What the walk computes\<close>

text \<open>
  Outside the nodes still on the call stack (\<open>S\<close>), every recorded node has its dependents recorded
  strictly deeper.
\<close>

definition closed_depths :: "cancel_graph \<Rightarrow> string set \<Rightarrow> depth_map \<Rightarrow> bool" where
  "closed_depths g S m \<longleftrightarrow> (\<forall>i j k. (i, j) \<in> downstream g \<longrightarrow> i \<notin> S \<longrightarrow> map_of m i = Some k \<longrightarrow>
     (\<exists>l. map_of m j = Some l \<and> k < l))"

definition deeper :: "depth_map \<Rightarrow> depth_map \<Rightarrow> bool" where
  "deeper m m' \<longleftrightarrow> (\<forall>i k. map_of m i = Some k \<longrightarrow> (\<exists>l. map_of m' i = Some l \<and> k \<le> l))"

definition touches_only :: "string set \<Rightarrow> depth_map \<Rightarrow> depth_map \<Rightarrow> bool" where
  "touches_only R m m' \<longleftrightarrow> (\<forall>j. j \<notin> R \<longrightarrow> map_of m' j = map_of m j)"

lemma deeper_refl [simp]: "deeper m m"
  by (auto simp: deeper_def)

lemma deeper_trans: "deeper a b \<Longrightarrow> deeper b c \<Longrightarrow> deeper a c"
  unfolding deeper_def by (meson order_trans)

lemma touches_only_trans: "touches_only R a b \<Longrightarrow> touches_only R b c \<Longrightarrow> touches_only R a c"
  by (auto simp: touches_only_def)

lemma closed_depths_raise:
  assumes "closed_depths g S m" and "\<not> (case map_of m i of None \<Rightarrow> False | Some known \<Rightarrow> known \<ge> k)"
  shows "closed_depths g (insert i S) (AList.update i k m)"
  unfolding closed_depths_def
proof (intro allI impI)
  fix a b x
  assume e: "(a, b) \<in> downstream g" and n: "a \<notin> insert i S" and v: "map_of (AList.update i k m) a = Some x"
  from n v have "map_of m a = Some x" by (auto simp: update_conv')
  with assms(1) e n obtain l where "map_of m b = Some l" "x < l"
    unfolding closed_depths_def by blast
  with assms(2) show "\<exists>l. map_of (AList.update i k m) b = Some l \<and> x < l"
    by (cases "b = i") (auto simp: update_conv')
qed

text \<open>The contract of one visit, and of a run of visits over a list.\<close>

definition visit_post :: "cancel_graph \<Rightarrow> string set \<Rightarrow> string set \<Rightarrow> nat \<Rightarrow> string set \<Rightarrow> depth_map \<Rightarrow> depth_map \<Rightarrow> bool" where
  "visit_post g S R k V m m' \<longleftrightarrow> closed_depths g S m' \<and> deeper m m' \<and> touches_only R m m'
     \<and> (\<forall>v \<in> V. \<exists>l. map_of m' v = Some l \<and> k \<le> l)"

lemma fold_visit_post:
  assumes step: "\<And>x m m'. x \<in> set xs \<Longrightarrow> closed_depths g S m \<Longrightarrow> f x m = Some m' \<Longrightarrow> visit_post g S R k {x} m m'"
    and "closed_depths g S m" and "fold_option f xs m = Some m'"
  shows "visit_post g S R k (set xs) m m'"
  using assms
proof (induction xs arbitrary: m)
  case Nil
  then show ?case by (simp add: visit_post_def touches_only_def)
next
  case (Cons x xs)
  then obtain m1 where m1: "f x m = Some m1" and r: "fold_option f xs m1 = Some m'"
    by (auto split: option.splits)
  from Cons.prems(1) [OF _ Cons.prems(2) m1] have a: "visit_post g S R k {x} m m1" by simp
  then have "closed_depths g S m1" by (simp add: visit_post_def)
  with Cons.IH [OF _ _ r] Cons.prems(1) have b: "visit_post g S R k (set xs) m1 m'" by simp
  have "\<exists>l. map_of m' x = Some l \<and> k \<le> l"
    using a b unfolding visit_post_def deeper_def by (meson insertI1 order_trans)
  with a b show ?case
    unfolding visit_post_def by (auto intro: deeper_trans touches_only_trans)
qed

lemma cancel_visit_post:
  "acyclic (downstream g) \<Longrightarrow> closed_depths g S m \<Longrightarrow> cancel_visit fuel g i k m = Some m' \<Longrightarrow>
     visit_post g S (reach g i) k {i} m m'"
proof (induction fuel arbitrary: S i k m m')
  case (Suc fuel)
  show ?case
  proof (cases "case map_of m i of None \<Rightarrow> False | Some known \<Rightarrow> known \<ge> k")
    case True
    with Suc.prems show ?thesis
      by (auto simp: visit_post_def touches_only_def split: option.splits)
  next
    case False
    let ?m = "AList.update i k m"
    let ?R = "reach g i - {i}"
    have run: "fold_option (\<lambda>d n. cancel_visit fuel g d (k + 1) n) (dependents_of g i) ?m = Some m'"
      using Suc.prems(3) False by simp
    have sub: "reach g d \<subseteq> ?R" if "d \<in> set (dependents_of g i)" for d
      using that Suc.prems(1) by (auto simp: dependents_of_iff acyclic_def dest: rtrancl_into_trancl2)
    have post: "visit_post g (insert i S) ?R (k + 1) (set (dependents_of g i)) ?m m'"
    proof (rule fold_visit_post [OF _ closed_depths_raise [OF Suc.prems(2) False] run])
      fix d n n'
      assume d: "d \<in> set (dependents_of g i)" and c: "closed_depths g (insert i S) n"
        and v: "cancel_visit fuel g d (k + 1) n = Some n'"
      from Suc.IH [OF Suc.prems(1) c v] sub [OF d]
      show "visit_post g (insert i S) ?R (k + 1) {d} n n'"
        by (auto simp: visit_post_def touches_only_def)
    qed
    then have mi: "map_of m' i = Some k" by (simp add: visit_post_def touches_only_def update_conv')
    have "closed_depths g S m'"
      unfolding closed_depths_def
    proof (intro allI impI)
      fix a b x
      assume e: "(a, b) \<in> downstream g" and n: "a \<notin> S" and x: "map_of m' a = Some x"
      show "\<exists>l. map_of m' b = Some l \<and> x < l"
      proof (cases "a = i")
        case True
        with e have "b \<in> set (dependents_of g i)" by (simp add: dependents_of_iff)
        with post have "\<exists>l. map_of m' b = Some l \<and> k + 1 \<le> l" by (auto simp: visit_post_def)
        with True mi x show ?thesis by auto
      next
        case False
        with post e n x show ?thesis unfolding visit_post_def closed_depths_def by blast
      qed
    qed
    moreover have "deeper m m'"
    proof (rule deeper_trans)
      show "deeper m ?m" using False by (auto simp: deeper_def update_conv' split: option.splits)
      show "deeper ?m m'" using post by (simp add: visit_post_def)
    qed
    moreover have "touches_only (reach g i) m m'"
      using post by (auto simp: visit_post_def touches_only_def update_conv')
    ultimately show ?thesis using mi by (simp add: visit_post_def)
  qed
qed simp

lemma fold_option_keeps:
  "(\<And>x s s'. P s \<Longrightarrow> f x s = Some s' \<Longrightarrow> P s') \<Longrightarrow> P s \<Longrightarrow> fold_option f xs s = Some s' \<Longrightarrow> P s'"
proof (induction xs arbitrary: s)
  case (Cons x xs)
  from Cons.prems(3) obtain s1 where s1: "f x s = Some s1" and r: "fold_option f xs s1 = Some s'"
    by (auto split: option.splits)
  show ?case by (rule Cons.IH [OF Cons.prems(1) Cons.prems(1) [OF Cons.prems(2) s1] r])
qed simp

lemma cancel_visit_distinct:
  "distinct (map fst m) \<Longrightarrow> cancel_visit fuel g i k m = Some m' \<Longrightarrow> distinct (map fst m')"
proof (induction fuel arbitrary: i k m m')
  case (Suc fuel)
  show ?case
  proof (cases "case map_of m i of None \<Rightarrow> False | Some known \<Rightarrow> known \<ge> k")
    case True
    with Suc.prems show ?thesis by simp
  next
    case False
    with Suc.prems(2)
    have run: "fold_option (\<lambda>d n. cancel_visit fuel g d (k + 1) n) (dependents_of g i) (AList.update i k m) = Some m'"
      by simp
    show ?thesis
      by (rule fold_option_keeps [where P = "\<lambda>m. distinct (map fst m)", OF Suc.IH _ run])
        (simp_all add: distinct_update Suc.prems(1))
  qed
qed simp

text \<open>The depths after the walk over all targets.\<close>

lemma closure_walk:
  assumes ac: "acyclic (downstream g)"
  obtains m where "fold_option (\<lambda>t m. cancel_visit (length g + 1) g t 0 m) ts [] = Some m"
    and "closed_depths g {} m" and "distinct (map fst m)" and "dom (map_of m) = (\<Union>t \<in> set ts. reach g t)"
proof -
  let ?f = "\<lambda>t m. cancel_visit (length g + 1) g t 0 m"
  have "\<exists>m. fold_option ?f ts [] = Some m"
    by (rule fold_option_total) (rule cancel_visit_total [OF ac fuel_enough])
  then obtain m where run: "fold_option ?f ts [] = Some m" by blast
  have post: "visit_post g {} (\<Union>t \<in> set ts. reach g t) 0 (set ts) [] m"
  proof (rule fold_visit_post [OF _ _ run])
    fix t n n'
    assume t: "t \<in> set ts" and c: "closed_depths g {} n" and v: "cancel_visit (length g + 1) g t 0 n = Some n'"
    from cancel_visit_post [OF ac c v] t
    show "visit_post g {} (\<Union>t \<in> set ts. reach g t) 0 {t} n n'"
      by (auto simp: visit_post_def touches_only_def)
  qed (simp add: closed_depths_def)
  then have c: "closed_depths g {} m" by (simp add: visit_post_def)
  have up: "j \<in> dom (map_of m)" if "(t, j) \<in> (downstream g)\<^sup>*" "t \<in> set ts" for t j
    using that post c by (induction rule: rtrancl_induct) (auto simp: visit_post_def closed_depths_def, blast)
  have "dom (map_of m) \<subseteq> (\<Union>t \<in> set ts. reach g t)"
    using post by (auto simp: visit_post_def touches_only_def)
  with up have "dom (map_of m) = (\<Union>t \<in> set ts. reach g t)" by blast
  moreover have "distinct (map fst m)"
    by (rule fold_option_keeps [where P = "\<lambda>m. distinct (map fst m)", OF cancel_visit_distinct _ run])
      (assumption, simp_all del: cancel_visit.simps)
  ultimately show ?thesis using that run c by blast
qed

lemma comparator_depth:
  assumes "comparator (localeCompare rt)"
  shows "comparator (depth_compare rt)"
proof
  fix x y z
  show "depth_compare rt x y \<le> 0 \<or> depth_compare rt y x \<le> 0"
    using comparator.cmp_total [OF assms, of "fst x" "fst y"]
    by (auto simp: depth_compare_def cmp_or_def split: if_splits)
  assume "depth_compare rt x y \<le> 0" and "depth_compare rt y z \<le> 0"
  then show "depth_compare rt x z \<le> 0"
    using comparator.cmp_trans [OF assms, of "fst x" "fst y" "fst z"]
    by (simp add: depth_compare_def cmp_or_def split: if_splits)
qed

definition cancellable :: "cancel_graph \<Rightarrow> WorkGraphCancellationFact list \<Rightarrow> string list \<Rightarrow> bool" where
  "cancellable g facts ts \<longleftrightarrow> ts \<noteq> [] \<and> (\<forall>t \<in> set ts. t \<in> fst ` set g \<and> cf_map facts t \<noteq> None)"

lemma closure_result:
  assumes ac: "acyclic (downstream g)" and ts: "cancellable g facts ts"
  obtains m where "closed_depths g {} m" and "distinct (map fst m)"
    and "dom (map_of m) = (\<Union>t \<in> set ts. reach g t)"
    and "deriveCancellationClosure rt g facts ts =
      Some (settle_closure facts (map fst (js_sort (depth_compare rt) m)))"
proof (rule closure_walk [OF ac, of "sort_strings (js_dedup ts)"])
  fix m
  assume run: "fold_option (\<lambda>t. cancel_visit (length g + 1) g t 0) (sort_strings (js_dedup ts)) [] = Some m"
    and rest: "closed_depths g {} m" "distinct (map fst m)"
    "dom (map_of m) = (\<Union>t \<in> set (sort_strings (js_dedup ts)). reach g t)"
  have known: "filter (\<lambda>i. i \<notin> fst ` set g \<or> cf_map facts i = None) (sort_strings (js_dedup ts)) = []"
    using ts by (auto simp: cancellable_def filter_empty_conv)
  have "deriveCancellationClosure rt g facts ts =
      Some (settle_closure facts (map fst (js_sort (depth_compare rt) m)))"
    using ts unfolding deriveCancellationClosure_def Let_def known run by (simp add: cancellable_def)
  then show thesis using rest by (intro that) simp_all
qed

lemma closure_ok_cancellable:
  "deriveCancellationClosure rt g facts ts = Some (ClosureOk ids) \<Longrightarrow> cancellable g facts ts"
  by (auto simp: deriveCancellationClosure_def cancellable_def Let_def filter_empty_conv split: if_splits)

lemma closure_ok_walk:
  assumes ac: "acyclic (downstream g)"
    and ok: "deriveCancellationClosure rt g facts ts = Some (ClosureOk ids)"
  obtains m where "closed_depths g {} m" and "distinct (map fst m)"
    and "dom (map_of m) = (\<Union>t \<in> set ts. reach g t)" and "ids = map fst (js_sort (depth_compare rt) m)"
    and "filter (status_is facts SDone) ids = []" and "filter (status_is facts SCancelled) ids = []"
proof (rule closure_result [OF ac closure_ok_cancellable [OF ok], of rt])
  fix m
  assume m: "closed_depths g {} m" "distinct (map fst m)" "dom (map_of m) = (\<Union>t \<in> set ts. reach g t)"
    and r: "deriveCancellationClosure rt g facts ts =
      Some (settle_closure facts (map fst (js_sort (depth_compare rt) m)))"
  then have "ids = map fst (js_sort (depth_compare rt) m)"
    and "filter (status_is facts SDone) ids = []" and "filter (status_is facts SCancelled) ids = []"
    using ok by (auto simp: settle_closure_def Let_def split: if_splits)
  with m show thesis by (rule that)
qed

subsection \<open>Properties\<close>

text \<open>Where the ids are distinct, the downstream relation reverses the validator's edges.\<close>

lemma downstream_edges: "distinct (map fst g) \<Longrightarrow> downstream g = (edges g)\<inverse>"
  by (auto simp: downstream_def edges_def successors_def split: option.splits dest: map_of_SomeD)

lemma acyclic_downstream: "distinct (map fst g) \<Longrightarrow> \<not> containsCycle g \<Longrightarrow> acyclic (downstream g)"
  by (simp add: downstream_edges containsCycle_iff)

definition sample_chain :: cancel_graph where
  "sample_chain = [(''a'', []), (''b'', [''a'']), (''c'', [''a'', ''b''])]"

definition sample_states :: "WorkGraphRuntimeStatus \<Rightarrow> WorkGraphCancellationFact list" where
  "sample_states st = [\<lparr>cfSubtaskId = ''a'', cfStatus = SDone\<rparr>, \<lparr>cfSubtaskId = ''b'', cfStatus = SReady\<rparr>,
     \<lparr>cfSubtaskId = ''c'', cfStatus = st\<rparr>]"

lemma sample_chain_acyclic: "acyclic (downstream sample_chain)"
  by (rule acyclic_downstream) code_simp+

lemma sample_chain_closure:
  "deriveCancellationClosure sample_runtime sample_chain (sample_states SReady) [''b''] = Some (ClosureOk [''c'', ''b''])"
  by code_simp

text \<open>An accepted cancellation covers exactly the targets and everything downstream of them, once each,
  and nothing in it is already done or cancelled.\<close>

lemma closure_ok_exact:
  assumes "acyclic (downstream g)" "deriveCancellationClosure rt g facts ts = Some (ClosureOk ids)"
  shows "distinct ids \<and> set ids = {j. \<exists>t \<in> set ts. (t, j) \<in> (downstream g)\<^sup>*}
    \<and> (\<forall>i \<in> set ids. \<not> status_is facts SDone i \<and> \<not> status_is facts SCancelled i)"
proof -
  obtain m where m: "distinct (map fst m)" "dom (map_of m) = (\<Union>t \<in> set ts. reach g t)"
    and ids: "ids = map fst (js_sort (depth_compare rt) m)"
    and none: "filter (status_is facts SDone) ids = []" "filter (status_is facts SCancelled) ids = []"
    by (rule closure_ok_walk [OF assms])
  have "mset ids = mset (map fst m)" unfolding ids by simp
  then have "distinct ids" using m(1) mset_eq_imp_distinct_iff by blast
  moreover have "set ids = dom (map_of m)" by (simp add: ids dom_map_of_conv_image_fst)
  ultimately show ?thesis using m(2) none by (auto simp: filter_empty_conv)
qed

text \<open>
  Claim C32. The walk returns on every acyclic graph, whatever the targets and facts: the fuel
  of the model never runs out there.
\<close>

theorem cancellation_closure_returns:
  assumes "acyclic (downstream g)"
  shows "\<exists>r. deriveCancellationClosure rt g facts ts = Some r"
proof -
  obtain m where "fold_option (\<lambda>t m. cancel_visit (length g + 1) g t 0 m) (sort_strings (js_dedup ts)) [] = Some m"
    by (rule closure_walk [OF assms])
  then show ?thesis unfolding deriveCancellationClosure_def Let_def by (simp del: cancel_visit.simps)
qed

theorem cancellation_closure_returns_witness:
  "\<exists>r. deriveCancellationClosure sample_runtime sample_chain (sample_states SDone) [''a'', ''c''] = Some r"
  by (rule cancellation_closure_returns [OF sample_chain_acyclic])

text \<open>
  With a consistent collation the accepted order is safe for cancellation: a Subtask comes
  before every Subtask it depends on.
\<close>

theorem cancellation_order_downstream_first:
  assumes "acyclic (downstream g)" and "comparator (localeCompare rt)"
    and "deriveCancellationClosure rt g facts ts = Some (ClosureOk ids)"
    and "p < length ids" and "q < length ids" and "(ids ! p, ids ! q) \<in> downstream g"
  shows "q < p"
proof (rule ccontr)
  assume "\<not> q < p"
  obtain m where m: "closed_depths g {} m" "distinct (map fst m)"
    and ids: "ids = map fst (js_sort (depth_compare rt) m)"
    by (rule closure_ok_walk [OF assms(1,3)])
  let ?s = "js_sort (depth_compare rt) m"
  have mem: "?s ! p \<in> set m" "?s ! q \<in> set m" using assms(4,5) ids by (metis length_map nth_mem set_js_sort)+
  have at: "ids ! p = fst (?s ! p)" "ids ! q = fst (?s ! q)" using assms(4,5) ids by simp_all
  have v: "map_of m (ids ! p) = Some (snd (?s ! p))" "map_of m (ids ! q) = Some (snd (?s ! q))"
    using m(2) mem by (auto simp: at intro!: map_of_is_SomeI)
  with m(1) assms(6) have less: "snd (?s ! p) < snd (?s ! q)" by (fastforce simp: closed_depths_def)
  then have "p \<noteq> q" by auto
  with \<open>\<not> q < p\<close> have "p < q" by simp
  then have "depth_compare rt (?s ! p) (?s ! q) \<le> 0"
    using comparator.sort_sorted [OF comparator_depth [OF assms(2)], of m] assms(5) ids
    by (auto simp: sorted_wrt_iff_nth_less)
  with less show False by (simp add: depth_compare_def cmp_or_def split: if_splits)
qed

theorem cancellation_order_downstream_first_witness: "(0::nat) < 1"
  by (rule cancellation_order_downstream_first [OF sample_chain_acyclic sample_runtime_comparator sample_chain_closure])
     (auto simp: downstream_def sample_chain_def)

text \<open>
  If anything downstream of known targets is already done, the whole request is refused
  and the refusal names exactly those Subtasks.
\<close>

theorem cancellation_refused_when_done:
  assumes "acyclic (downstream g)" and "cancellable g facts ts"
    and "t \<in> set ts" and "(t, j) \<in> (downstream g)\<^sup>*" and "status_is facts SDone j"
  shows "\<exists>ds. deriveCancellationClosure rt g facts ts = Some (ClosureRefused AlreadyDone ds)
    \<and> set ds = {i. status_is facts SDone i \<and> (\<exists>t \<in> set ts. (t, i) \<in> (downstream g)\<^sup>*)}"
proof -
  obtain m where m: "dom (map_of m) = (\<Union>t \<in> set ts. reach g t)"
    and r: "deriveCancellationClosure rt g facts ts =
      Some (settle_closure facts (map fst (js_sort (depth_compare rt) m)))"
    by (rule closure_result [OF assms(1,2)])
  let ?ds = "filter (status_is facts SDone) (map fst (js_sort (depth_compare rt) m))"
  have c: "set (map fst (js_sort (depth_compare rt) m)) = (\<Union>t \<in> set ts. reach g t)"
    using m by (simp add: dom_map_of_conv_image_fst)
  then have s: "set ?ds = {i. status_is facts SDone i \<and> (\<exists>t \<in> set ts. (t, i) \<in> (downstream g)\<^sup>*)}"
    unfolding set_filter by blast
  with assms(3,4,5) have "j \<in> set ?ds" by blast
  then have "?ds \<noteq> []" by (metis empty_iff empty_set)
  with r s show ?thesis by (simp only: settle_closure_def Let_def) simp
qed

theorem cancellation_refused_when_done_witness:
  "\<exists>ds. deriveCancellationClosure sample_runtime sample_chain (sample_states SDone) [''b'']
      = Some (ClosureRefused AlreadyDone ds)
    \<and> set ds = {i. status_is (sample_states SDone) SDone i \<and> (\<exists>t \<in> set [''b'']. (t, i) \<in> (downstream sample_chain)\<^sup>*)}"
proof (rule cancellation_refused_when_done [OF sample_chain_acyclic])
  show "cancellable sample_chain (sample_states SDone) [''b'']" by code_simp
  show "''b'' \<in> set [''b'']" by simp
  show "(''b'', ''c'') \<in> (downstream sample_chain)\<^sup>*" by (auto simp: downstream_def sample_chain_def)
  show "status_is (sample_states SDone) SDone ''c''" by code_simp
qed

end
