(* ===== verification/Kernel_Types.thy ===== *)
theory Kernel_Types
  imports Planning_Plan Executor_Status Work_Graph_Cancellation Task_Lifecycle Permission_Policy
begin

text \<open>
  Events, snapshots, actions and decisions of the control Kernel
  (\<open>src/src/kernel/control-kernel.ts\<close>). An event is its envelope and its body; a snapshot is the
  production-authorization fact and one variant. Fields that no decision reads and that are only
  stored with the event are left out.
\<close>

subsection \<open>Attempts\<close>

datatype KernelAttemptKind =
  PrimaryAttempt | ContinuationAttempt | FallbackAttempt | ContractCorrection | MergeRepair

fun attempt_kind_name :: "KernelAttemptKind \<Rightarrow> string" where
  "attempt_kind_name PrimaryAttempt = ''primary''"
| "attempt_kind_name ContinuationAttempt = ''continuation''"
| "attempt_kind_name FallbackAttempt = ''fallback''"
| "attempt_kind_name ContractCorrection = ''contract_correction''"
| "attempt_kind_name MergeRepair = ''merge_repair''"

datatype KernelRecoveryMode = NativeSession | RecoveryPacket | FreshMode

datatype KernelResumeBlockerCategory =
    CapacityBlocker | RetryBlocker | AvailabilityBlocker | DependencyPublicationBlocker
  | ExplicitResourceBlocker | ParkedBlocker | UserWaitBlocker | ManualBlocker | MaterialBlocker
  | ContractBlocker | UnknownBlocker

fun blocker_name :: "KernelResumeBlockerCategory \<Rightarrow> string" where
  "blocker_name CapacityBlocker = ''capacity''"
| "blocker_name RetryBlocker = ''retry''"
| "blocker_name AvailabilityBlocker = ''availability''"
| "blocker_name DependencyPublicationBlocker = ''dependency_publication''"
| "blocker_name ExplicitResourceBlocker = ''explicit_resource''"
| "blocker_name ParkedBlocker = ''parked''"
| "blocker_name UserWaitBlocker = ''user_wait''"
| "blocker_name ManualBlocker = ''manual''"
| "blocker_name MaterialBlocker = ''material''"
| "blocker_name ContractBlocker = ''contract''"
| "blocker_name UnknownBlocker = ''unknown''"

record ContractViolation =
  cvCode :: string
  cvPath :: string
  cvMessage :: string

text \<open>A service-repair payload; the types of \<open>typeof\<close> and \<open>Array.isArray\<close> tests are the types of its fields.\<close>

record ServiceRepair =
  spServiceId :: string
  spWorkspaceId :: "string option"
  spSpecificationRevision :: string
  spRepairOrdinal :: int
  spFailureSummary :: string
  spCommand :: string
  spArgs :: "string list"
  spLogTail :: "string option"

datatype KernelAttemptPayload =
    CompletionCorrection (ccContract: json) (ccViolations: "ContractViolation list")
  | MergeRepairPayload (mpPublicationId: string) (mpConflictChainId: string) (mpConflictingPaths: "string list")
  | ServiceRepairPayload ServiceRepair

subsection \<open>Events\<close>

record KernelEventEnvelope =
  evConfigurationRevision :: string
  evId :: string
  evCorrelationId :: string
  evCausationId :: "string option"
  evOccurredAt :: string
  evSessionId :: string
  evConversationId :: "string option"
  evSourceTurnId :: "string option"
  evWorkspaceId :: "string option"
  evTaskId :: "string option"
  evSubtaskId :: "string option"
  evAttemptId :: "string option"

record RemainingTaskWork =
  rwSourceTaskId :: string
  rwSourceVersion :: int
  rwGenerationId :: string
  rwGraphRevision :: int
  rwPublicationIds :: "string list"
  rwStartService :: bool

datatype ProposalSource = InitialProposal | ReplanProposal | ConflictReplan

record ManagedServiceRequest =
  msOperation :: LocalServiceOperation
  msServiceId :: string
  msSpecification :: "LocalServiceSpecification option"
  msSpecificationRevision :: "string option"
  msTurnId :: "string option"

record PlanProposed =
  ppProposal :: PlanningAgentPlan
  ppRequestText :: string
  ppGenerationId :: string
  ppProposalSource :: ProposalSource
  ppTargetGraphRevision :: int
  ppAttachmentIds :: "string list option"
  ppAvailabilityExplanation :: "string option"
  ppTargetWorkspace :: "TargetWorkspace option"
  ppSpanRouting :: "SpanRoutingObservation option"

record DispatchRecovery =
  drAuthorizedBinding :: AuthorizedExecutorBinding
  drBindingFingerprint :: string
  drAttemptKind :: KernelAttemptKind
  drSourceAttemptId :: "string option"
  drRecoveryMode :: KernelRecoveryMode
  drDefaultResourceGrant :: "ResourceClaim list"
  drAttemptPayload :: "KernelAttemptPayload option"

record TaskResume =
  tuExpectedGenerationId :: "string option"
  tuExpectedGraphRevision :: "int option"
  tuBlockerCategory :: KernelResumeBlockerCategory

record CapacitySignal =
  csFailure :: "KernelFailure option"
  csAuthorizedBinding :: AuthorizedExecutorBinding
  csBindingFingerprint :: string
  csAvailable :: bool
  csAttemptKind :: KernelAttemptKind
  csAttemptPayload :: "KernelAttemptPayload option"

datatype TerminalKind = TerminalCompleted | TerminalFailed

record ExecutionOutcome =
  eoTerminalKind :: TerminalKind
  eoAuthorizedBinding :: AuthorizedExecutorBinding
  eoBindingFingerprint :: string
  eoAttemptKind :: KernelAttemptKind
  eoSourceAttemptId :: "string option"
  eoFailure :: "KernelFailure option"

record HandoffContractFailed =
  hfAuthorizedBinding :: AuthorizedExecutorBinding
  hfBindingFingerprint :: string
  hfContract :: json
  hfViolations :: "ContractViolation list"
  hfReceiptCount :: int
  hfResponseBytes :: js_number

record ExecutionResultObserved =
  HandoffContractFailed +
  erResultId :: "string option"
  erDeliverable :: bool
  erCertified :: bool
  erSafe :: bool

datatype WakeKind = CapacityWake | RetryWake | AvailabilityWake

record TimerRetry =
  tyWakeId :: string
  tyGenerationId :: string
  tyConfigurationRevision :: string
  tyAuthorizedBinding :: AuthorizedExecutorBinding
  tyBindingFingerprint :: string
  tySourceAttemptId :: string

record TimerTick =
  ttWakeKind :: WakeKind
  ttSourceDecisionId :: string
  ttScheduledFor :: string
  ttRetry :: "TimerRetry option"

datatype RecoveryResolution = AssumeApplied | RetryResolution

datatype PermissionSource = CommandSource | ButtonSource | PlannerSource

record PermissionResolution =
  prRequestId :: string
  prResolution :: AuthorizationAnswer
  prSource :: PermissionSource
  prPlannerPlanId :: "string option"

record SandboxLost =
  slContainerId :: "string option"
  slWorkspaceId :: string
  slCheckpointId :: "string option"
  slAuthorizedBinding :: AuthorizedExecutorBinding
  slBindingFingerprint :: string
  slAttemptKind :: KernelAttemptKind
  slSourceAttemptId :: "string option"
  slRecoveryMode :: KernelRecoveryMode

record MergeConflict =
  mkPublicationId :: string
  mkConflictChainId :: string
  mkAuthorizedBinding :: AuthorizedExecutorBinding
  mkBindingFingerprint :: string
  mkSourceAttemptId :: string
  mkRepairAttemptsUsed :: int
  mkConflictReplansUsed :: int
  mkConflictingPaths :: "string list"

datatype KernelEventBody =
    TaskRemainingWorkRetryRequested (expectedVersion: int)
  | ManagedServiceRequested ManagedServiceRequest
  | PlanProposedEvent PlanProposed
  | ExecutorRecovered (recoveredAgentClass: string) (recoveryCheckId: string)
  | DispatchRequested (dispatchReason: string) (dispatchRecovery: "DispatchRecovery option")
  | TaskResumeRequested TaskResume
  | CapacitySignalEvent CapacitySignal
  | ExecutionOutcomeEvent ExecutionOutcome
  | HandoffContractFailedEvent HandoffContractFailed
  | ExecutionResultEvent ExecutionResultObserved
  | TimerTickEvent TimerTick
  | RecoveryResolutionRequested (requestedRecoveryItem: string) (requestedResolution: RecoveryResolution)
  | RecoveryRequiredObserved (observedRecoveryItem: string) (observedReason: string)
  | PermissionRequested NormalizedCapabilityRequest
  | PermissionResolutionReceived PermissionResolution
  | PartitionConflictObserved (observedClaims: "ResourceClaim list") (observedLeaseIds: "string list")
  | SandboxLostEvent SandboxLost
  | MergeConflictObserved MergeConflict
  | TaskCancelRequested (cancelReason: string)
  | SubtasksCancelRequested (cancelTargets: "string list") (cancelReason: string)
  | PartialResultAcceptanceRequested (acceptedResultIdentity: "PendingResultIdentity option")
  | TaskResultRetryRequested (retriedResultIdentity: PendingResultIdentity)
  | GenerationQuiescenceObserved (quiescentRequestId: string) (quiescentGenerationId: string) (quiescentRevision: int)

subsection \<open>Facts\<close>

record KernelTaskFact =
  ktId :: string
  ktStatus :: TaskStatus
  ktConversationId :: "string option"
  ktWorkspaceId :: "string option"
  ktExecutionMode :: "WorkspaceExecutionMode option"
  ktDeliveryPolicy :: "WorkspaceDeliveryPolicy option"

record KernelSubtaskFact =
  ksId :: string
  ksTaskId :: string
  ksStatus :: WorkGraphRuntimeStatus
  ksExecutorBindings :: "AuthorizedExecutorBinding list"

record KernelCancellationSubtaskFact = KernelSubtaskFact +
  ksDependencySubtaskIds :: "string list"

record KernelAttemptFact =
  atAttemptId :: string
  atSubtaskId :: string
  atAuthorizedBinding :: AuthorizedExecutorBinding
  atBindingFingerprint :: string
  atAttemptKind :: KernelAttemptKind
  atSourceAttemptId :: "string option"
  atTerminalKind :: TerminalKind
  atFailure :: "KernelFailure option"

record KernelDispatchItemFact =
  kdAttemptId :: string
  kdSubtaskId :: string
  kdBindingFingerprint :: string
  kdStatus :: KernelDispatchItemStatus
  kdOrder :: int

datatype RetryWakeStatus = WakeArmed | WakeFired | WakeConsumed | WakeSuperseded | WakeRecoveryRequired

record KernelRetryWakeFact =
  kwWakeId :: string
  kwTaskId :: string
  kwSubtaskId :: string
  kwGenerationId :: string
  kwSourceDecisionId :: string
  kwSourceAttemptId :: string
  kwConfigurationRevision :: string
  kwBindingFingerprint :: string
  kwResumeAt :: string
  kwStatus :: RetryWakeStatus
  kwTimerEventId :: "string option"

datatype KernelDependencyReadinessCode =
  DependencyReady | PendingPublication | MissingHandoff | MissingWorkspace | MissingResultObject | IdentityMismatch

record KernelDependencyReadinessFact =
  dfSourceSubtaskId :: string
  dfTargetSubtaskId :: string
  dfCode :: KernelDependencyReadinessCode
  dfTerminal :: bool
  dfDetail :: string

datatype ResumeReason =
    CompletionMarkerMissing | CompletionNoChangeReasonMismatch | CompletionMetadataInvalid
  | ExecutionInterrupted | UpstreamInputRestored

record CorrectionFacts =
  cfReceiptCount :: int
  cfResponseBytes :: js_number

record KernelResumeRecoveryCandidate =
  rdSubtaskId :: string
  rdSourceAttemptId :: string
  rdAuthorizedBinding :: AuthorizedExecutorBinding
  rdBindingFingerprint :: string
  rdRecoveryMode :: KernelRecoveryMode
  rdReason :: ResumeReason
  rdAttemptKind :: "KernelAttemptKind option"
  rdAttemptPayload :: "KernelAttemptPayload option"
  rdCorrectionFacts :: "CorrectionFacts option"

subsection \<open>Snapshots\<close>

record ProductionAuthorizationFact =
  pfAllowed :: bool
  pfReason :: "string option"

record PlanAdmissionSnapshot =
  asTasks :: "KernelTaskFact list"
  asActiveTaskByConversation :: "(string \<times> string option) list option"
  asOccupiedConversationIds :: "string list option"
  asQueuedTaskCountByConversation :: "(string \<times> int) list option"
  asActiveTaskCount :: "int option"
  asRunningTaskId :: "string option"
  asPlannerConfiguration :: PlannerConfigurationView
  asKernelConfiguration :: KernelConfigurationView
  asExecutorStatuses :: "KernelExecutorStatusProjection list"
  asV5WorkGraphTaskIds :: "string list"
  asEligibleContextRefKeys :: "string list"
  asPendingAuthorizationRequest :: "PendingAuthorization option"

datatype GraphState = GraphReady | GraphMissing | GraphConflict

text \<open>
  The Runtime passes the status of the latest open request, which can also be waiting for
  availability (\<open>storage/generation-replan-request-repo.ts\<close>), through a cast to the narrower type.
\<close>

datatype ReplanStatus =
  ReplanPendingQuiescence | ReplanPlanning | ReplanSubmitted | ReplanWaitingForAvailability | ReplanFailed

record GenerationReplanRequest =
  grId :: string
  grStatus :: ReplanStatus

record DispatchSnapshot =
  dsTask :: "KernelTaskFact option"
  dsActiveTaskByConversation :: "(string \<times> string option) list option"
  dsRunningTaskId :: "string option"
  dsGraphState :: GraphState
  dsSubtasks :: "KernelSubtaskFact list"
  dsFrontier :: "string list"
  dsDependencyReadiness :: "KernelDependencyReadinessFact list"
  dsResumeRecoveryCandidates :: "KernelResumeRecoveryCandidate list"
  dsUpstreamInputResume :: "string option option"
  dsDeliveryRecoveryPublicationIds :: "string list"
  dsPendingRetrySubtaskIds :: "string list"
  dsDispatchItems :: "KernelDispatchItemFact list"
  dsMaxConcurrentAttempts :: int
  dsAvailableSlots :: int
  dsResourceConflictSubtaskIds :: "string list"
  dsCapacityProbeBindingFingerprints :: "(string \<times> string list) list"
  dsServiceRepairAttemptsBySubtask :: "(string \<times> int) list"
  dsExecutorStatuses :: "KernelExecutorStatusProjection list"
  dsCorrectionSupportedAgentClasses :: "string list"
  dsNativeContinuationAgentClasses :: "string list"
  dsAttempts :: "KernelAttemptFact list"
  dsGenerationId :: string
  dsGraphRevision :: int
  dsAutomaticReplansUsed :: int
  dsRecoverySafety :: KernelRecoverySafety
  dsAutomaticRecoveryAllowed :: bool
  dsResourceGrantsBySubtask :: "(string \<times> ResourceClaim list) list"
  dsCompletionBlockedReasons :: "string list"
  dsGenerationReplanRequest :: "GenerationReplanRequest option"
  dsGenerationQuiescent :: bool

record ServiceControlSnapshot =
  scRetryOfTaskId :: "string option"
  scServiceHandedOver :: bool
  scTask :: "KernelTaskFact option"
  scPublished :: bool
  scServiceTaskId :: "string option"
  scServiceWorkspaceId :: "string option"
  scServiceRevision :: "string option"

record UncertifiedResult =
  urSubtaskId :: string
  urAttemptId :: string
  urResultId :: string

record TaskControlSnapshot =
  tsTask :: "KernelTaskFact option"
  tsGenerationId :: "string option"
  tsGraphRevision :: "int option"
  tsSubtasks :: "KernelCancellationSubtaskFact list"
  tsCompletionBlockedReasons :: "string list"
  tsPartialCancellation :: bool
  tsUncertifiedResult :: "UncertifiedResult option"
  tsResultRetrySafe :: "bool option"
  tsAcceptedResult :: "PendingResultIdentity option"
  tsCandidateDeliveries :: "(string \<times> string) list"

record TimerSnapshot =
  tmTask :: "KernelTaskFact option"
  tmWakeAuthorized :: bool
  tmCapacityBlockedAt :: "string option"
  tmRecheckAfterMs :: int
  tmCapacityBindings :: "AuthorizedExecutorBinding list"
  tmNativeContinuationAgentClasses :: "string list"
  tmExecutorStatuses :: "KernelExecutorStatusProjection list"
  tmDefaultResourceGrant :: "ResourceClaim list"
  tmRetryWake :: "KernelRetryWakeFact option"

record RecoveryItem =
  riId :: string
  riStatusUncertain :: bool
  riRetrySafe :: bool

datatype PermissionRequestStatus = PendingRequest | GrantedRequest | DeniedRequest | ExpiredRequest

record PermissionSnapshot =
  psRequest :: "NormalizedCapabilityRequest option"
  psRequestStatus :: "PermissionRequestStatus option"
  psRules :: "PermissionRule list"
  psCurrentGrants :: "CapabilityGrant list"
  psUserAuthorizationFingerprints :: "string list"
  psPreviouslyDeniedFingerprints :: "string list"
  psAttemptActive :: bool
  psWorkspaceId :: "string option"
  psCheckpointId :: "string option"

record SandboxRecoverySnapshot =
  srWorkspaceExists :: bool
  srWorkspaceId :: "string option"
  srCheckpointId :: "string option"
  srActiveLeaseIds :: "string list"
  srDefaultResourceGrant :: "ResourceClaim list"

record AvailabilityRecoverySnapshot =
  avTask :: "KernelTaskFact option"
  avActiveGenerationId :: "string option"
  avActiveGraphRevision :: "int option"
  avDeferredPlan :: "(KernelEventEnvelope \<times> PlanProposed) option"
  avDeferredBindings :: "AuthorizedExecutorBinding list"
  avExecutorStatuses :: "KernelExecutorStatusProjection list"

datatype KernelSnapshotBody =
    PlanAdmission PlanAdmissionSnapshot
  | DispatchFacts DispatchSnapshot
  | RemainingWorkRetry "KernelTaskFact option" "RemainingTaskWork option" bool
  | ServiceControl ServiceControlSnapshot
  | TaskControlFacts TaskControlSnapshot
  | TimerFacts TimerSnapshot
  | RecoveryFacts "KernelTaskFact option" "RecoveryItem option"
  | RecoveryRequiredFacts "KernelTaskFact option" string string
  | InvalidSnapshot (invalidReason: string)
  | PermissionFacts PermissionSnapshot
  | PartitionFacts bool "string option" "string option"
  | SandboxRecoveryFacts SandboxRecoverySnapshot
  | AvailabilityRecoveryFacts AvailabilityRecoverySnapshot

record KernelSnapshot =
  snProductionAuthorization :: "ProductionAuthorizationFact option"
  snBody :: KernelSnapshotBody

subsection \<open>Actions and decisions\<close>

record DispatchItem =
  diSubtaskId :: string
  diAuthorizedBinding :: AuthorizedExecutorBinding
  diBindingFingerprint :: string
  diAttemptId :: string
  diAttemptKind :: KernelAttemptKind
  diSourceAttemptId :: "string option"
  diRecoveryMode :: KernelRecoveryMode
  diDefaultResourceGrant :: "ResourceClaim list"
  diOrder :: int
  diAttemptPayload :: "KernelAttemptPayload option"

datatype ScheduleState = ScheduleEligible | ScheduleQueued

datatype SchedulingReason = ConversationSlotOccupied | AccountTaskCapacity

record RoutingResolutionAudit =
  raAgentClassRef :: string
  raBinding :: AuthorizedExecutorBinding
  raRejectedCandidates :: "RejectedModelCandidate list"
  raScoreBreakdown :: "ModelScoreBreakdown option"
  raPolicyVersion :: string
  raSpanApplied :: "(bool \<times> string option \<times> (string \<times> js_number) list option) option"

record AuthorizeTaskPlan =
  auTaskId :: string
  auTask :: PlanTask
  auWorkGraph :: WorkGraphProposal
  auScheduleState :: ScheduleState
  auSchedulingReason :: "SchedulingReason option"
  auConversationId :: string
  auWorkspaceId :: "string option"
  auPlannerSessionId :: string
  auAuthorizedBindingsBySubtask :: "(string \<times> AuthorizedExecutorBinding list) list"
  auGenerationId :: string
  auGraphRevision :: int
  auProposalSource :: ProposalSource
  auRouting :: "(string \<times> RoutingResolutionAudit list) list option"
  auWorkspaceExecution :: WorkspaceExecutionDecision
  auWorkspaceAdmission :: "WorkspaceAdmission option"
  auWorkspaceIntent :: "WorkspaceIntent option"
  auConflictOldTaskId :: "string option"

record DeferTaskPlan =
  dpTaskId :: string
  dpProposalEvent :: "KernelEventEnvelope \<times> PlanProposed"
  dpAuthorizedBindingsBySubtask :: "(string \<times> AuthorizedExecutorBinding list) list"
  dpUnavailableAgentClassNames :: "string list"
  dpExplanation :: string
  dpWorkspaceExecution :: "WorkspaceExecutionDecision option"
  dpWorkspaceAdmission :: "WorkspaceAdmission option"

record ActivateDeferredPlan =
  adTaskId :: string
  adReplanRequestId :: string
  adTask :: PlanTask
  adWorkGraph :: WorkGraphProposal
  adAuthorizedBindingsBySubtask :: "(string \<times> AuthorizedExecutorBinding list) list"
  adGenerationId :: string
  adGraphRevision :: int
  adWorkspaceExecution :: WorkspaceExecutionDecision
  adWorkspaceAdmission :: WorkspaceAdmission

record ResumeRecovery =
  reSubtaskId :: string
  reSourceAttemptId :: string
  reAuthorizedBinding :: AuthorizedExecutorBinding
  reBindingFingerprint :: string
  reAttemptKind :: KernelAttemptKind
  reRecoveryMode :: KernelRecoveryMode
  reDefaultResourceGrant :: "ResourceClaim list"
  reAttemptPayload :: "KernelAttemptPayload option"

record ResumeAction =
  rsTaskId :: string
  rsGenerationId :: string
  rsGraphRevision :: int
  rsSubtaskIds :: "string list"
  rsDeliveryPublicationIds :: "string list option"
  rsRetireReplanRequestId :: "string option"
  rsBlockerCategory :: KernelResumeBlockerCategory
  rsRecovery :: "ResumeRecovery option"

record PermissionAuthorization =
  puReceivedEventId :: string
  puResolution :: AuthorizationAnswer
  puSource :: PermissionSource
  puPlannerPlanId :: "string option"

record LostAttempt =
  laLostAttemptId :: "string option"
  laAuthorizedBinding :: AuthorizedExecutorBinding
  laBindingFingerprint :: string
  laAttemptKind :: KernelAttemptKind
  laSourceAttemptId :: "string option"
  laRecoveryMode :: KernelRecoveryMode
  laDefaultResourceGrant :: "ResourceClaim list"

datatype BlockerKind = UserBlocker | SystemBlocker

datatype UserDecisionReason = UncertifiedResultReason | MissingMaterialReason | RecoveryReason

datatype KernelDecisionAction =
    RetryRemainingWork string RemainingTaskWork
  | RejectRequest
  | RequestClarification string
  | DeliverDirectReply string
  | NoOp
  | AuthorizeTaskPlanAction AuthorizeTaskPlan
  | ControlManagedService string ManagedServiceRequest "string option"
  | AuthorizeTaskControl PlanTask
  | DispatchBatch (batchTaskId: string) (batchItems: "DispatchItem list")
  | ResumeTaskAction ResumeAction
  | ProbeCapacity string string AuthorizedExecutorBinding string
  | WaitForCapacity string string
  | WaitForRetry string string string AuthorizedExecutorBinding string string
  | SupersedeRetryWake string string
  | RecoverRetryWake string string string
  | RequestReplan string string int
  | ScheduleReplan string string int string
  | QueueGenerationReplan string string int string
  | DeferTaskPlanAction DeferTaskPlan
  | ActivateDeferredTaskPlan ActivateDeferredPlan
  | CancelTask string "string option"
  | CancelSubtasks string string int "string list" "(string \<times> WorkGraphRuntimeStatus) list"
  | AuthorizeWorkspaceDelivery string string int "string list"
  | AcceptPartialResult string string int "string list" "string list"
  | AcceptUncertifiedResult string string int UncertifiedResult
  | RetryUncertifiedResult string string int UncertifiedResult
  | RequestMergeReplan string string string string
  | ResolveRecovery string string RecoveryResolution
  | BlockWork (blockedTaskId: string) (blockedSubtaskId: "string option") (preserveSubtaskState: bool) (blockerKind: "BlockerKind option")
  | AwaitUserDecision string string UserDecisionReason
  | ParkForReplan string
  | CompleteTask string
  | RecordPermissionResolution string string AuthorizationAnswer string
  | GrantCapabilityAction string CapabilityGrantLimits string "PermissionAuthorization option"
  | DenyCapabilityAction string "PermissionAuthorization option"
  | EscalateCapabilityAction string
  | WaitForPartition string string "string list"
  | RecoverWorkspaceAttempt string string string "string option" "string option" "PermissionAuthorization option" "LostAttempt option"

record KernelDecision =
  decConfigurationRevision :: string
  decId :: string
  decEventId :: string
  decAction :: KernelDecisionAction
  decReason :: string

definition decision :: "KernelEventEnvelope \<Rightarrow> KernelDecisionAction \<Rightarrow> string \<Rightarrow> KernelDecision" where
  "decision event action reason = \<lparr>decConfigurationRevision = evConfigurationRevision event,
     decId = ''decision_'' @ evId event, decEventId = evId event, decAction = action, decReason = reason\<rparr>"

fun snapshotMatches :: "KernelEventBody \<Rightarrow> KernelSnapshotBody \<Rightarrow> bool" where
  "snapshotMatches (TaskRemainingWorkRetryRequested _) s = (case s of RemainingWorkRetry _ _ _ \<Rightarrow> True | _ \<Rightarrow> False)"
| "snapshotMatches (ManagedServiceRequested _) s = (case s of ServiceControl _ \<Rightarrow> True | _ \<Rightarrow> False)"
| "snapshotMatches (PlanProposedEvent _) s = (case s of PlanAdmission _ \<Rightarrow> True | _ \<Rightarrow> False)"
| "snapshotMatches (ExecutorRecovered _ _) s = (case s of AvailabilityRecoveryFacts _ \<Rightarrow> True | _ \<Rightarrow> False)"
| "snapshotMatches (TimerTickEvent _) s = (case s of TimerFacts _ \<Rightarrow> True | _ \<Rightarrow> False)"
| "snapshotMatches (RecoveryResolutionRequested _ _) s = (case s of RecoveryFacts _ _ \<Rightarrow> True | _ \<Rightarrow> False)"
| "snapshotMatches (RecoveryRequiredObserved _ _) s = (case s of RecoveryRequiredFacts _ _ _ \<Rightarrow> True | _ \<Rightarrow> False)"
| "snapshotMatches (PermissionRequested _) s = (case s of PermissionFacts _ \<Rightarrow> True | _ \<Rightarrow> False)"
| "snapshotMatches (PermissionResolutionReceived _) s = (case s of PermissionFacts _ \<Rightarrow> True | _ \<Rightarrow> False)"
| "snapshotMatches (PartitionConflictObserved _ _) s = (case s of PartitionFacts _ _ _ \<Rightarrow> True | _ \<Rightarrow> False)"
| "snapshotMatches (SandboxLostEvent _) s = (case s of SandboxRecoveryFacts _ \<Rightarrow> True | _ \<Rightarrow> False)"
| "snapshotMatches (TaskCancelRequested _) s = (case s of TaskControlFacts _ \<Rightarrow> True | _ \<Rightarrow> False)"
| "snapshotMatches (SubtasksCancelRequested _ _) s = (case s of TaskControlFacts _ \<Rightarrow> True | _ \<Rightarrow> False)"
| "snapshotMatches (PartialResultAcceptanceRequested _) s = (case s of TaskControlFacts _ \<Rightarrow> True | _ \<Rightarrow> False)"
| "snapshotMatches (TaskResultRetryRequested _) s = (case s of TaskControlFacts _ \<Rightarrow> True | _ \<Rightarrow> False)"
| "snapshotMatches _ s = (case s of DispatchFacts _ \<Rightarrow> True | _ \<Rightarrow> False)"

subsection \<open>Families of actions\<close>

lemma decision_simps [simp]:
  "decAction (decision e a r) = a" "decEventId (decision e a r) = evId e" "decId (decision e a r) = ''decision_'' @ evId e"
  "decConfigurationRevision (decision e a r) = evConfigurationRevision e" "decReason (decision e a r) = r"
  by (simp_all add: decision_def)

datatype action_family =
  CompletionFamily | GrantFamily | CancellationFamily | PlanFamily | DispatchFamily | ReplanFamily | OtherFamily

fun family :: "KernelDecisionAction \<Rightarrow> action_family" where
  "family (CompleteTask _) = CompletionFamily"
| "family (GrantCapabilityAction _ _ _ _) = GrantFamily"
| "family (CancelSubtasks _ _ _ _ _) = CancellationFamily"
| "family (AuthorizeTaskPlanAction _) = PlanFamily"
| "family (DispatchBatch _ _) = DispatchFamily"
| "family (QueueGenerationReplan _ _ _ _) = ReplanFamily"
| "family _ = OtherFamily"

lemma family_iff:
  "family a = CompletionFamily \<longleftrightarrow> (\<exists>t. a = CompleteTask t)"
  "family a = GrantFamily \<longleftrightarrow> (\<exists>r l i p. a = GrantCapabilityAction r l i p)"
  "family a = CancellationFamily \<longleftrightarrow> (\<exists>t g r i e. a = CancelSubtasks t g r i e)"
  "family a = PlanFamily \<longleftrightarrow> (\<exists>p. a = AuthorizeTaskPlanAction p)"
  "family a = DispatchFamily \<longleftrightarrow> (\<exists>t is. a = DispatchBatch t is)"
  "family a = ReplanFamily \<longleftrightarrow> (\<exists>t g r i. a = QueueGenerationReplan t g r i)"
  by (cases a; simp)+

end
