(* ===== verification/Kernel_Ledger.thy ===== *)
theory Kernel_Ledger
  imports Kernel_Types
begin

text \<open>
  The durable Kernel ledger (\<open>src/src/storage/kernel-workflow-repo.ts\<close> and
  \<open>src/src/storage/kernel-decision-repo.ts\<close>): Kernel events, the decisions issued for them and the
  application of each decision.

  The three tables are lists in row order, with the configuration revisions and the Tasks of deleted
  Conversations their foreign keys and joins read. A JSON column holds the value it encodes
  (the request-text reference of \<open>kernel-event-content.ts\<close> is followed); an event, a snapshot or a
  decision erased to an empty object by a Conversation deletion is \<^const>\<open>None\<close> or a flag. Every stored
  value has the current schema version, so the version tests of the source only fail on erased
  columns. An operation returns its result and the next tables; a transaction that throws leaves the
  tables as they were. The decision rows are those the workflow issues: the anchor rows that
  \<open>ensureDecisionAnchor\<close> of \<open>src/src/storage/permission-repo.ts\<close> adds to the same table for a foreign key
  of permission grants, which have no event and no application, are not part of this model.
\<close>

type_synonym kernel_event = "KernelEventEnvelope \<times> KernelEventBody"

subsection \<open>Discriminators\<close>

fun event_type :: "KernelEventBody \<Rightarrow> string" where
  "event_type (TaskRemainingWorkRetryRequested _) = ''task_remaining_work_retry_requested''"
| "event_type (ManagedServiceRequested _) = ''managed_service_requested''"
| "event_type (PlanProposedEvent _) = ''plan_proposed''"
| "event_type (ExecutorRecovered _ _) = ''executor_recovered''"
| "event_type (DispatchRequested _ _) = ''dispatch_requested''"
| "event_type (TaskResumeRequested _) = ''task_resume_requested''"
| "event_type (CapacitySignalEvent _) = ''capacity_signal''"
| "event_type (ExecutionOutcomeEvent _) = ''execution_outcome''"
| "event_type (HandoffContractFailedEvent _) = ''handoff_contract_failed''"
| "event_type (ExecutionResultEvent _) = ''execution_result_observed''"
| "event_type (TimerTickEvent _) = ''timer_tick''"
| "event_type (RecoveryResolutionRequested _ _) = ''recovery_resolution_requested''"
| "event_type (RecoveryRequiredObserved _ _) = ''recovery_required_observed''"
| "event_type (PermissionRequested _) = ''permission_requested''"
| "event_type (PermissionResolutionReceived _) = ''permission_resolution_received''"
| "event_type (PartitionConflictObserved _ _) = ''partition_conflict_observed''"
| "event_type (SandboxLostEvent _) = ''sandbox_lost''"
| "event_type (MergeConflictObserved _) = ''merge_conflict_observed''"
| "event_type (TaskCancelRequested _) = ''task_cancel_requested''"
| "event_type (SubtasksCancelRequested _ _) = ''subtasks_cancel_requested''"
| "event_type (PartialResultAcceptanceRequested _) = ''partial_result_acceptance_requested''"
| "event_type (TaskResultRetryRequested _) = ''task_result_retry_requested''"
| "event_type (GenerationQuiescenceObserved _ _ _) = ''generation_quiescence_observed''"

fun action_type :: "KernelDecisionAction \<Rightarrow> string" where
  "action_type (RetryRemainingWork _ _) = ''retry_remaining_work''"
| "action_type RejectRequest = ''reject_request''"
| "action_type (RequestClarification _) = ''request_clarification''"
| "action_type (DeliverDirectReply _) = ''deliver_direct_reply''"
| "action_type NoOp = ''no_op''"
| "action_type (AuthorizeTaskPlanAction _) = ''authorize_task_plan''"
| "action_type (ControlManagedService _ _ _) = ''control_managed_service''"
| "action_type (AuthorizeTaskControl _) = ''authorize_task_control''"
| "action_type (DispatchBatch _ _) = ''dispatch_batch''"
| "action_type (ResumeTaskAction _) = ''resume_task''"
| "action_type (ProbeCapacity _ _ _ _) = ''probe_capacity''"
| "action_type (WaitForCapacity _ _) = ''wait_for_capacity''"
| "action_type (WaitForRetry _ _ _ _ _ _) = ''wait_for_retry''"
| "action_type (SupersedeRetryWake _ _) = ''supersede_retry_wake''"
| "action_type (RecoverRetryWake _ _ _) = ''recover_retry_wake''"
| "action_type (RequestReplan _ _ _) = ''request_replan''"
| "action_type (ScheduleReplan _ _ _ _) = ''schedule_replan''"
| "action_type (QueueGenerationReplan _ _ _ _) = ''queue_generation_replan''"
| "action_type (DeferTaskPlanAction _) = ''defer_task_plan_for_availability''"
| "action_type (ActivateDeferredTaskPlan _) = ''activate_deferred_task_plan''"
| "action_type (CancelTask _ _) = ''cancel_task''"
| "action_type (CancelSubtasks _ _ _ _ _) = ''cancel_subtasks''"
| "action_type (AuthorizeWorkspaceDelivery _ _ _ _) = ''authorize_workspace_delivery''"
| "action_type (AcceptPartialResult _ _ _ _ _) = ''accept_partial_result''"
| "action_type (AcceptUncertifiedResult _ _ _ _) = ''accept_uncertified_result''"
| "action_type (RetryUncertifiedResult _ _ _ _) = ''retry_uncertified_result''"
| "action_type (RequestMergeReplan _ _ _ _) = ''request_merge_replan''"
| "action_type (ResolveRecovery _ _ _) = ''resolve_recovery''"
| "action_type (BlockWork _ _ _ _) = ''block_work''"
| "action_type (AwaitUserDecision _ _ _) = ''await_user_decision''"
| "action_type (ParkForReplan _) = ''park_for_replan''"
| "action_type (CompleteTask _) = ''complete_task''"
| "action_type (RecordPermissionResolution _ _ _ _) = ''record_permission_resolution''"
| "action_type (GrantCapabilityAction _ _ _ _) = ''grant_capability''"
| "action_type (DenyCapabilityAction _ _) = ''deny_capability''"
| "action_type (EscalateCapabilityAction _) = ''escalate_capability''"
| "action_type (WaitForPartition _ _ _) = ''wait_for_partition''"
| "action_type (RecoverWorkspaceAttempt _ _ _ _ _ _ _) = ''recover_workspace_attempt''"

definition permission_event_types :: "string list" where
  "permission_event_types = [''permission_requested'', ''permission_resolution_received'']"

subsection \<open>Records\<close>

datatype KernelApplicationStatus = AppPending | AppApplying | AppApplied | AppUncertain | AppFailed

datatype event_status = EventPending | EventProcessing | EventProcessed | EventFailed

record event_row =
  erId :: string
  erType :: string
  erCorrelationId :: string
  erCausationId :: "string option"
  erSessionId :: string
  erTaskId :: "string option"
  erSubtaskId :: "string option"
  erAttemptId :: "string option"
  erEvent :: "kernel_event option"
  erAvailableAt :: string
  erStatus :: event_status
  erProcessingStartedAt :: "string option"
  erProcessedAt :: "string option"
  erConfigurationRevision :: string
  erCreatedAt :: string
  erUpdatedAt :: string

record KernelDecisionLedgerRecord =
  ldId :: string
  ldEventId :: string
  ldEventType :: string
  ldCorrelationId :: string
  ldCausationId :: "string option"
  ldSessionId :: string
  ldTaskId :: "string option"
  ldSubtaskId :: "string option"
  ldAttemptId :: "string option"
  ldEvent :: kernel_event
  ldSnapshot :: KernelSnapshot
  ldDecision :: KernelDecision
  ldAction :: string
  ldReason :: string
  ldConfigurationRevision :: string
  ldAuthorizedBindings :: "AuthorizedExecutorBinding list"
  ldBindingFingerprints :: "string list"
  ldCreatedAt :: string

record decision_row = KernelDecisionLedgerRecord +
  ldErased :: bool

record application_row =
  apId :: string
  apDecisionId :: string
  apEventId :: string
  apIdempotencyKey :: string
  apStatus :: KernelApplicationStatus
  apApplyAttempts :: nat
  apObservationEvent :: "kernel_event option"
  apErrorSummary :: "string option"
  apApplyingAt :: "string option"
  apAppliedAt :: "string option"
  apCreatedAt :: string
  apUpdatedAt :: string

record KernelDecisionApplicationRecord = application_row +
  apDecision :: KernelDecision

record ledger_db =
  lgEvents :: "event_row list"
  lgDecisions :: "decision_row list"
  lgApplications :: "application_row list"
  lgConfigurationRevisions :: "string list"
  lgDeletedTasks :: "string list"

abbreviation fk_error :: string where
  "fk_error \<equiv> ''FOREIGN KEY constraint failed''"

abbreviation erased_event :: string where
  "erased_event \<equiv> ''unsupported Kernel event schema version missing''"

text \<open>An optional filter of a query: absent and empty strings do not filter.\<close>

definition matches_filter :: "string option \<Rightarrow> string option \<Rightarrow> bool" where
  "matches_filter filter_value value = (case filter_value of None \<Rightarrow> True | Some f \<Rightarrow> f = [] \<or> value = Some f)"

definition in_types :: "string list option \<Rightarrow> string \<Rightarrow> bool" where
  "in_types types t = (case types of None \<Rightarrow> True | Some ts \<Rightarrow> t \<in> set ts)"

definition rollback :: "'db \<Rightarrow> ('a \<times> 'db) result \<Rightarrow> 'a result \<times> 'db" where
  "rollback db r = (case r of Inl e \<Rightarrow> (Inl e, db) | Inr (x, db') \<Rightarrow> (Inr x, db'))"

subsection \<open>Events\<close>

definition new_event_row :: "kernel_event \<Rightarrow> string \<Rightarrow> event_row" where
  "new_event_row ev availableAt = (let e = fst ev in
     \<lparr>erId = evId e, erType = event_type (snd ev), erCorrelationId = evCorrelationId e, erCausationId = evCausationId e,
      erSessionId = evSessionId e, erTaskId = evTaskId e, erSubtaskId = evSubtaskId e, erAttemptId = evAttemptId e,
      erEvent = Some ev, erAvailableAt = availableAt, erStatus = EventPending, erProcessingStartedAt = None,
      erProcessedAt = None, erConfigurationRevision = evConfigurationRevision e, erCreatedAt = evOccurredAt e,
      erUpdatedAt = evOccurredAt e\<rparr>)"

text \<open>\<open>INSERT OR IGNORE\<close> skips a known id; it does not ignore a missing configuration revision.\<close>

definition insertEvent :: "kernel_event \<Rightarrow> string \<Rightarrow> ledger_db \<Rightarrow> (bool \<times> ledger_db) result" where
  "insertEvent ev availableAt db =
     (if evId (fst ev) \<in> erId ` set (lgEvents db) then Inr (False, db)
      else if evConfigurationRevision (fst ev) \<notin> set (lgConfigurationRevisions db) then Inl fk_error
      else Inr (True, db\<lparr>lgEvents := lgEvents db @ [new_event_row ev availableAt]\<rparr>))"

definition enqueue :: "kernel_event \<Rightarrow> string option \<Rightarrow> ledger_db \<Rightarrow> bool result \<times> ledger_db" where
  "enqueue ev availableAt db =
     rollback db (insertEvent ev (case availableAt of Some t \<Rightarrow> t | None \<Rightarrow> evOccurredAt (fst ev)) db)"

definition findPermissionResolution :: "string \<Rightarrow> ledger_db \<Rightarrow> kernel_event option result" where
  "findPermissionResolution requestId db =
     (case find (\<lambda>r. erType r = ''permission_resolution_received'' \<and> erCorrelationId r = requestId) (lgEvents db) of
        None \<Rightarrow> Inr None
      | Some r \<Rightarrow> (case erEvent r of None \<Rightarrow> Inl erased_event
          | Some ev \<Rightarrow> Inr (if event_type (snd ev) = ''permission_resolution_received'' then Some ev else None)))"

definition admit_resolution ::
  "KernelEventEnvelope \<Rightarrow> PermissionResolution \<Rightarrow> ledger_db \<Rightarrow> ((bool \<times> kernel_event) \<times> ledger_db) result"
where
  "admit_resolution e p db =
     rbind (findPermissionResolution (prRequestId p) db) (\<lambda>previous.
       case previous of
         Some ev \<Rightarrow> Inr ((False, ev), db)
       | None \<Rightarrow> rbind (insertEvent (e, PermissionResolutionReceived p) (evOccurredAt e) db) (\<lambda>(inserted, db').
           if inserted then Inr ((True, (e, PermissionResolutionReceived p)), db')
           else Inl ''permission_decision_identity_conflict''))"

definition admitPermissionResolution ::
  "KernelEventEnvelope \<Rightarrow> PermissionResolution \<Rightarrow> ledger_db \<Rightarrow> (bool \<times> kernel_event) result \<times> ledger_db"
where
  "admitPermissionResolution e p db = rollback db (admit_resolution e p db)"

text \<open>\<open>UPDATE ... SET f WHERE p\<close> with the number of changed rows.\<close>

definition update_rows :: "('r \<Rightarrow> bool) \<Rightarrow> ('r \<Rightarrow> 'r) \<Rightarrow> 'r list \<Rightarrow> 'r list" where
  "update_rows p f rows = map (\<lambda>r. if p r then f r else r) rows"

definition markPermissionEventApplied :: "string \<Rightarrow> string \<Rightarrow> ledger_db \<Rightarrow> ledger_db" where
  "markPermissionEventApplied eventId now db = db\<lparr>lgEvents := update_rows
     (\<lambda>r. erId r = eventId \<and> erType r \<in> set permission_event_types)
     (\<lambda>r. r\<lparr>erStatus := EventProcessed, erProcessedAt := Some now, erUpdatedAt := now\<rparr>) (lgEvents db)\<rparr>"

definition listPendingTaskIds :: "string \<Rightarrow> nat \<Rightarrow> ledger_db \<Rightarrow> string list" where
  "listPendingTaskIds eventType limit db = take limit (sort_strings (js_dedup (List.map_filter erTaskId
     (filter (\<lambda>r. erType r = eventType \<and> erStatus r \<in> {EventPending, EventProcessing}) (lgEvents db)))))"

definition findEvent :: "string \<Rightarrow> ledger_db \<Rightarrow> kernel_event option" where
  "findEvent i db = Option.bind (find (\<lambda>r. erId r = i) (lgEvents db)) erEvent"

definition event_order :: "event_row \<Rightarrow> event_row \<Rightarrow> int" where
  "event_order l r = cmp_or (code_unit_compare (erAvailableAt l) (erAvailableAt r))
     (cmp_or (code_unit_compare (erCreatedAt l) (erCreatedAt r)) (code_unit_compare (erId l) (erId r)))"

definition claimable :: "string \<Rightarrow> string list option \<Rightarrow> string option \<Rightarrow> string option \<Rightarrow> event_row \<Rightarrow> bool" where
  "claimable now types task correlation r \<longleftrightarrow> erStatus r = EventPending \<and> erEvent r \<noteq> None \<and> erAvailableAt r \<le> now
     \<and> in_types types (erType r) \<and> matches_filter task (erTaskId r) \<and> matches_filter correlation (Some (erCorrelationId r))"

definition claimNext ::
  "string \<Rightarrow> string list option \<Rightarrow> string option \<Rightarrow> string option \<Rightarrow> ledger_db \<Rightarrow> kernel_event option \<times> ledger_db"
where
  "claimNext now types task correlation db =
     (case js_sort event_order (filter (claimable now types task correlation) (lgEvents db)) of
        [] \<Rightarrow> (None, db)
      | r # _ \<Rightarrow> (erEvent r, db\<lparr>lgEvents := update_rows (\<lambda>x. erId x = erId r \<and> erStatus x = EventPending)
          (\<lambda>x. x\<lparr>erStatus := EventProcessing, erProcessingStartedAt := Some now, erUpdatedAt := now\<rparr>) (lgEvents db)\<rparr>))"

subsection \<open>Decisions\<close>

definition binding_key :: "AuthorizedExecutorBinding \<Rightarrow> string list" where
  "binding_key b = [abAgentClassRef b, abHarnessRef b, abProviderRef b, abModelRef b, abPermissionProfileRef b, abConfigurationRevision b]"

definition sameBindings :: "AuthorizedExecutorBinding list \<Rightarrow> AuthorizedExecutorBinding list \<Rightarrow> bool" where
  "sameBindings l r \<longleftrightarrow> list_all2 (\<lambda>a b. binding_key a = binding_key b) l r"

definition rowToDecisionRecord :: "ledger_db \<Rightarrow> decision_row \<Rightarrow> KernelDecisionLedgerRecord result" where
  "rowToDecisionRecord db row =
     (if (case ldTaskId row of Some t \<Rightarrow> t \<noteq> [] \<and> t \<in> set (lgDeletedTasks db) | None \<Rightarrow> False) then Inl ''conversation_deleted''
      else if ldErased row then Inl erased_event
      else Inr (KernelDecisionLedgerRecord.truncate row))"

definition findByEventId :: "string \<Rightarrow> ledger_db \<Rightarrow> KernelDecisionLedgerRecord option result" where
  "findByEventId eventId db = (case find (\<lambda>r. ldEventId r = eventId) (lgDecisions db) of
     None \<Rightarrow> Inr None | Some r \<Rightarrow> rbind (rowToDecisionRecord db r) (\<lambda>x. Inr (Some x)))"

definition findById :: "string \<Rightarrow> ledger_db \<Rightarrow> KernelDecisionLedgerRecord option result" where
  "findById decisionId db = (case find (\<lambda>r. ldId r = decisionId) (lgDecisions db) of
     None \<Rightarrow> Inr None | Some r \<Rightarrow> rbind (rowToDecisionRecord db r) (\<lambda>x. Inr (Some x)))"

definition same_issue :: "KernelDecisionLedgerRecord \<Rightarrow> KernelDecisionLedgerRecord \<Rightarrow> bool" where
  "same_issue existing record \<longleftrightarrow> ldConfigurationRevision existing = ldConfigurationRevision record
     \<and> sameBindings (ldAuthorizedBindings existing) (ldAuthorizedBindings record)
     \<and> ldBindingFingerprints existing = ldBindingFingerprints record"

definition insertIfAbsent :: "KernelDecisionLedgerRecord \<Rightarrow> ledger_db \<Rightarrow> (bool \<times> ledger_db) result" where
  "insertIfAbsent r db =
     (if ldId r \<in> ldId ` set (lgDecisions db) \<or> ldEventId r \<in> ldEventId ` set (lgDecisions db)
      then rbind (findByEventId (ldEventId r) db) (\<lambda>existing.
        if (case existing of None \<Rightarrow> False | Some x \<Rightarrow> same_issue x r) then Inr (False, db)
        else Inl (''persisted Kernel decision binding mismatch: '' @ ldEventId r))
      else if ldConfigurationRevision r \<notin> set (lgConfigurationRevisions db) then Inl fk_error
      else Inr (True, db\<lparr>lgDecisions := lgDecisions db @ [KernelDecisionLedgerRecord.extend r \<lparr>ldErased = False\<rparr>]\<rparr>))"

subsection \<open>Applications\<close>

definition rowToApplication :: "decision_row \<Rightarrow> application_row \<Rightarrow> KernelDecisionApplicationRecord" where
  "rowToApplication d a = application_row.extend a \<lparr>apDecision = ldDecision d\<rparr>"

text \<open>The join of an application with its decision; an erased decision has no row.\<close>

definition decision_of :: "ledger_db \<Rightarrow> application_row \<Rightarrow> decision_row option" where
  "decision_of db a = find (\<lambda>d. ldId d = apDecisionId a \<and> \<not> ldErased d) (lgDecisions db)"

definition application_order :: "application_row \<Rightarrow> application_row \<Rightarrow> int" where
  "application_order l r = cmp_or (code_unit_compare (apCreatedAt l) (apCreatedAt r)) (code_unit_compare (apId l) (apId r))"

definition list_applications ::
  "(application_row \<Rightarrow> decision_row \<Rightarrow> bool) \<Rightarrow> ledger_db \<Rightarrow> KernelDecisionApplicationRecord list"
where
  "list_applications p db = List.map_filter (\<lambda>a. Option.bind (decision_of db a) (\<lambda>d. if p a d then Some (rowToApplication d a) else None))
     (js_sort application_order (lgApplications db))"

definition findApplication :: "string \<Rightarrow> ledger_db \<Rightarrow> KernelDecisionApplicationRecord option" where
  "findApplication decisionId db = Option.bind (find (\<lambda>a. apDecisionId a = decisionId) (lgApplications db)) (\<lambda>a.
     map_option (\<lambda>d. rowToApplication d a) (decision_of db a))"

definition listRecoverableApplications ::
  "string list option \<Rightarrow> string option \<Rightarrow> string option \<Rightarrow> ledger_db \<Rightarrow> KernelDecisionApplicationRecord list"
where
  "listRecoverableApplications actions task correlation db =
     list_applications (\<lambda>a d. apStatus a = AppPending \<and> in_types actions (ldAction d) \<and> matches_filter task (ldTaskId d)
       \<and> matches_filter correlation (Some (ldCorrelationId d))) db"

definition listUncertainApplications ::
  "string list option \<Rightarrow> string option \<Rightarrow> ledger_db \<Rightarrow> KernelDecisionApplicationRecord list"
where
  "listUncertainApplications actions task db =
     list_applications (\<lambda>a d. apStatus a = AppUncertain \<and> in_types actions (ldAction d) \<and> matches_filter task (ldTaskId d)) db"

definition listRecoveryItems :: "string \<Rightarrow> ledger_db \<Rightarrow> KernelDecisionApplicationRecord list" where
  "listRecoveryItems task db = list_applications (\<lambda>a d. ldTaskId d = Some task \<and> apStatus a \<in> {AppUncertain, AppFailed}) db"

definition findRecoveryItem :: "string \<Rightarrow> ledger_db \<Rightarrow> KernelDecisionApplicationRecord option" where
  "findRecoveryItem i db = Option.bind (find (\<lambda>a. apId a = i \<and> apStatus a \<in> {AppUncertain, AppFailed}) (lgApplications db)) (\<lambda>a.
     map_option (\<lambda>d. rowToApplication d a) (decision_of db a))"

definition hasRecoverableWork :: "string \<Rightarrow> ledger_db \<Rightarrow> bool" where
  "hasRecoverableWork task db \<longleftrightarrow>
     list_ex (\<lambda>r. erTaskId r = Some task \<and> erStatus r \<in> {EventPending, EventProcessing}) (lgEvents db)
     \<or> list_applications (\<lambda>a d. ldTaskId d = Some task \<and> apStatus a \<noteq> AppApplied) db \<noteq> []"

definition new_application :: "string \<Rightarrow> KernelDecisionLedgerRecord \<Rightarrow> application_row" where
  "new_application eventId r = \<lparr>apId = ''application_'' @ ldId r, apDecisionId = ldId r, apEventId = eventId,
     apIdempotencyKey = ''decision:'' @ ldId r, apStatus = AppPending, apApplyAttempts = 0, apObservationEvent = None,
     apErrorSummary = None, apApplyingAt = None, apAppliedAt = None, apCreatedAt = ldCreatedAt r, apUpdatedAt = ldCreatedAt r\<rparr>"

definition application_known :: "application_row \<Rightarrow> ledger_db \<Rightarrow> bool" where
  "application_known a db \<longleftrightarrow> list_ex (\<lambda>x. apId x = apId a \<or> apDecisionId x = apDecisionId a \<or> apEventId x = apEventId a
     \<or> apIdempotencyKey x = apIdempotencyKey a) (lgApplications db)"

definition insert_application :: "application_row \<Rightarrow> ledger_db \<Rightarrow> ledger_db result" where
  "insert_application a db =
     (if application_known a db then Inr db
      else if apDecisionId a \<in> ldId ` set (lgDecisions db) \<and> apEventId a \<in> erId ` set (lgEvents db)
      then Inr (db\<lparr>lgApplications := lgApplications db @ [a]\<rparr>)
      else Inl fk_error)"

definition issue_transaction ::
  "string \<Rightarrow> KernelDecisionLedgerRecord \<Rightarrow> ledger_db \<Rightarrow> (KernelDecisionApplicationRecord option \<times> ledger_db) result"
where
  "issue_transaction eventId r db =
     (if eventId \<notin> erId ` set (lgEvents db) then Inl (''Kernel event not found: '' @ eventId)
      else rbind (insertIfAbsent r db) (\<lambda>(_, db1).
           rbind (insert_application (new_application eventId r) db1) (\<lambda>db2.
             let db3 = db2\<lparr>lgEvents := update_rows (\<lambda>x. erId x = eventId)
               (\<lambda>x. x\<lparr>erStatus := EventProcessed, erProcessedAt := Some (ldCreatedAt r), erProcessingStartedAt := None,
                     erUpdatedAt := ldCreatedAt r\<rparr>) (lgEvents db2)\<rparr> in
             Inr (findApplication (ldId r) db3, db3))))"

definition issue :: "string \<Rightarrow> KernelDecisionLedgerRecord \<Rightarrow> ledger_db \<Rightarrow> KernelDecisionApplicationRecord result \<times> ledger_db" where
  "issue eventId r db = (case rollback db (issue_transaction eventId r db) of
     (Inl e, db') \<Rightarrow> (Inl e, db')
   | (Inr None, db') \<Rightarrow> (Inl (''Kernel application was not created: '' @ ldId r), db')
   | (Inr (Some a), db') \<Rightarrow> (Inr a, db'))"

definition update_applications :: "(application_row \<Rightarrow> bool) \<Rightarrow> (application_row \<Rightarrow> application_row) \<Rightarrow> ledger_db \<Rightarrow> ledger_db" where
  "update_applications p f db = db\<lparr>lgApplications := update_rows p f (lgApplications db)\<rparr>"

definition is_application :: "string \<Rightarrow> KernelApplicationStatus \<Rightarrow> application_row \<Rightarrow> bool" where
  "is_application decisionId st a \<longleftrightarrow> apDecisionId a = decisionId \<and> apStatus a = st"

definition markApplying :: "string \<Rightarrow> string \<Rightarrow> ledger_db \<Rightarrow> KernelDecisionApplicationRecord result \<times> ledger_db" where
  "markApplying decisionId now db =
     (let db' = update_applications (is_application decisionId AppPending)
            (\<lambda>a. a\<lparr>apStatus := AppApplying, apApplyAttempts := Suc (apApplyAttempts a), apApplyingAt := Some now, apUpdatedAt := now\<rparr>) db;
          refused = (Inl (''Kernel application is not recoverable: '' @ decisionId), db') in
      case findApplication decisionId db' of
        None \<Rightarrow> refused
      | Some a \<Rightarrow> if apStatus a \<noteq> AppApplying then refused else (Inr a, db'))"

definition complete_application :: "string \<Rightarrow> kernel_event option \<Rightarrow> string \<Rightarrow> ledger_db \<Rightarrow> (unit \<times> ledger_db) result" where
  "complete_application decisionId observation now db =
     rbind (case observation of None \<Rightarrow> Inr (False, db) | Some ev \<Rightarrow> insertEvent ev (evOccurredAt (fst ev)) db) (\<lambda>(_, db1).
       if length (filter (is_application decisionId AppApplying) (lgApplications db1)) = 1
       then Inr ((), update_applications (is_application decisionId AppApplying)
         (\<lambda>a. a\<lparr>apStatus := AppApplied, apObservationEvent := observation, apErrorSummary := None,
               apAppliedAt := Some now, apUpdatedAt := now\<rparr>) db1)
       else Inl (''Kernel application cannot be completed: '' @ decisionId))"

definition markApplied :: "string \<Rightarrow> kernel_event option \<Rightarrow> string \<Rightarrow> ledger_db \<Rightarrow> unit result \<times> ledger_db" where
  "markApplied decisionId observation now db = rollback db (complete_application decisionId observation now db)"

definition markApplicationSettled :: "string \<Rightarrow> string \<Rightarrow> string \<Rightarrow> ledger_db \<Rightarrow> unit result \<times> ledger_db" where
  "markApplicationSettled decisionId summary now db =
     (let db' = update_applications (is_application decisionId AppApplying)
            (\<lambda>a. a\<lparr>apStatus := AppApplied, apErrorSummary := Some summary, apAppliedAt := Some now, apUpdatedAt := now\<rparr>) db in
      if length (filter (is_application decisionId AppApplying) (lgApplications db)) = 1 then (Inr (), db')
      else (Inl (''Kernel application cannot be settled: '' @ decisionId), db'))"

definition isDecisionApplied :: "string \<Rightarrow> ledger_db \<Rightarrow> bool" where
  "isDecisionApplied decisionId db = (case find (\<lambda>a. apDecisionId a = decisionId) (lgApplications db) of
     None \<Rightarrow> False | Some a \<Rightarrow> apStatus a = AppApplied)"

definition markApplicationFailed :: "string \<Rightarrow> KernelApplicationStatus \<Rightarrow> string \<Rightarrow> string \<Rightarrow> ledger_db \<Rightarrow> ledger_db" where
  "markApplicationFailed decisionId st errorSummary now db =
     update_applications (is_application decisionId AppApplying)
       (\<lambda>a. a\<lparr>apStatus := st, apErrorSummary := Some errorSummary, apUpdatedAt := now\<rparr>) db"

datatype uncertain_outcome = OutcomeApplied | OutcomeRetry

fun resolveUncertainApplication :: "string \<Rightarrow> uncertain_outcome \<Rightarrow> string \<Rightarrow> ledger_db \<Rightarrow> ledger_db" where
  "resolveUncertainApplication decisionId OutcomeApplied now db =
     update_applications (is_application decisionId AppUncertain)
       (\<lambda>a. a\<lparr>apStatus := AppApplied, apErrorSummary := None, apAppliedAt := Some now, apUpdatedAt := now\<rparr>) db"
| "resolveUncertainApplication decisionId OutcomeRetry now db =
     update_applications (is_application decisionId AppUncertain)
       (\<lambda>a. a\<lparr>apStatus := AppPending, apApplyingAt := None, apUpdatedAt := now\<rparr>) db"

definition resolveRecoveryItem :: "string \<Rightarrow> RecoveryResolution \<Rightarrow> string \<Rightarrow> ledger_db \<Rightarrow> ledger_db" where
  "resolveRecoveryItem i resolution now db =
     update_applications (\<lambda>a. apId a = i \<and> apStatus a \<in> {AppUncertain, AppFailed})
       (\<lambda>a. a\<lparr>apStatus := (if resolution = AssumeApplied then AppApplied else AppPending), apErrorSummary := None,
             apAppliedAt := (if resolution = AssumeApplied then Some now else apAppliedAt a), apUpdatedAt := now\<rparr>) db"

definition has_decision :: "ledger_db \<Rightarrow> event_row \<Rightarrow> bool" where
  "has_decision db r \<longleftrightarrow> erId r \<in> ldEventId ` set (lgDecisions db)"

definition reconcile_event :: "ledger_db \<Rightarrow> event_row \<Rightarrow> event_row" where
  "reconcile_event db r =
     (if erStatus r = EventProcessing
      then r\<lparr>erStatus := (if has_decision db r then EventProcessed else EventPending), erProcessingStartedAt := None,
             erUpdatedAt := erCreatedAt r\<rparr> else r)"

definition reconcileProcessing :: "ledger_db \<Rightarrow> nat \<times> ledger_db" where
  "reconcileProcessing db =
     (length (filter (\<lambda>r. erStatus r = EventProcessing) (lgEvents db))
        + length (filter (\<lambda>a. apStatus a = AppApplying) (lgApplications db)),
      (update_applications (\<lambda>a. apStatus a = AppApplying)
         (\<lambda>a. a\<lparr>apStatus := AppPending, apApplyingAt := None, apUpdatedAt := apCreatedAt a\<rparr>) db)
        \<lparr>lgEvents := map (reconcile_event db) (lgEvents db)\<rparr>)"

definition countByApplicationStatus :: "ledger_db \<Rightarrow> KernelApplicationStatus \<Rightarrow> nat" where
  "countByApplicationStatus db st = length (filter (\<lambda>a. apStatus a = st) (lgApplications db))"

text \<open>
  What deleting a Conversation does to the ledger (\<open>src/src/storage/conversation-deletion-repo.ts\<close>).
  \<open>begin\<close> puts up the deletion fence, which the ledger sees as the Tasks of the Conversation. The cleanup
  behind the fence erases the rows of its Tasks, and of its sessions without a Task; events that were
  not yet processed become failed, and so do unfinished applications of the Tasks' decisions. The fence
  of a Conversation without Tasks is not visible in these tables.
\<close>

definition begin_deletion :: "string list \<Rightarrow> ledger_db \<Rightarrow> ledger_db" where
  "begin_deletion tasks db = db\<lparr>lgDeletedTasks := tasks @ lgDeletedTasks db\<rparr>"

definition in_deletion :: "string list \<Rightarrow> string list \<Rightarrow> string \<Rightarrow> string option \<Rightarrow> bool" where
  "in_deletion sessions tasks session task = (case task of None \<Rightarrow> session \<in> set sessions | Some t \<Rightarrow> t \<in> set tasks)"

definition erase_conversation :: "string list \<Rightarrow> string list \<Rightarrow> ledger_db \<Rightarrow> ledger_db" where
  "erase_conversation sessions tasks db = db
     \<lparr>lgEvents := update_rows (\<lambda>r. in_deletion sessions tasks (erSessionId r) (erTaskId r))
        (\<lambda>r. r\<lparr>erEvent := None, erStatus := (if erStatus r \<in> {EventPending, EventProcessing} then EventFailed else erStatus r)\<rparr>) (lgEvents db),
      lgDecisions := update_rows (\<lambda>d. in_deletion sessions tasks (ldSessionId d) (ldTaskId d))
        (\<lambda>d. d\<lparr>ldErased := True, ldReason := []\<rparr>) (lgDecisions db),
      lgApplications := update_rows (\<lambda>a. list_ex (\<lambda>d. ldId d = apDecisionId a \<and> (\<exists>t \<in> set tasks. ldTaskId d = Some t)) (lgDecisions db))
        (\<lambda>a. a\<lparr>apObservationEvent := None, apErrorSummary := None,
              apStatus := (if apStatus a \<in> {AppPending, AppApplying, AppUncertain} then AppFailed else apStatus a)\<rparr>) (lgApplications db)\<rparr>"

definition cleanLocal :: "string list \<Rightarrow> string list \<Rightarrow> ledger_db \<Rightarrow> unit result \<times> ledger_db" where
  "cleanLocal sessions tasks db =
     (if set tasks \<subseteq> set (lgDeletedTasks db) then (Inr (), erase_conversation sessions tasks db)
      else (Inl ''deletion_not_fenced'', db))"

subsection \<open>Steps of the ledger\<close>

text \<open>
  Every state change of the store as one step. The workflow issues a record only for the event it was
  built from, and reports only \<open>uncertain\<close> or \<open>failed\<close>.
\<close>

datatype ledger_op =
    EnqueueOp kernel_event "string option"
  | AdmitResolutionOp KernelEventEnvelope PermissionResolution
  | PermissionAppliedOp string string
  | ClaimNextOp string "string list option" "string option" "string option"
  | IssueOp KernelDecisionLedgerRecord
  | MarkApplyingOp string string
  | MarkAppliedOp string "kernel_event option" string
  | MarkSettledOp string string string
  | MarkFailedOp string KernelApplicationStatus string string
  | ResolveUncertainOp string uncertain_outcome string
  | ResolveRecoveryOp string RecoveryResolution string
  | ReconcileOp
  | BeginDeletionOp "string list"
  | CleanLocalOp "string list" "string list"
  | PublishRevisionOp string

fun ledger_step :: "ledger_op \<Rightarrow> ledger_db \<Rightarrow> ledger_db" where
  "ledger_step (EnqueueOp ev t) db = snd (enqueue ev t db)"
| "ledger_step (AdmitResolutionOp e p) db = snd (admitPermissionResolution e p db)"
| "ledger_step (PermissionAppliedOp i now) db = markPermissionEventApplied i now db"
| "ledger_step (ClaimNextOp now types task corr) db = snd (claimNext now types task corr db)"
| "ledger_step (IssueOp r) db = snd (issue (ldEventId r) r db)"
| "ledger_step (MarkApplyingOp d now) db = snd (markApplying d now db)"
| "ledger_step (MarkAppliedOp d obs now) db = snd (markApplied d obs now db)"
| "ledger_step (MarkSettledOp d summary now) db = snd (markApplicationSettled d summary now db)"
| "ledger_step (MarkFailedOp d st err now) db = markApplicationFailed d st err now db"
| "ledger_step (ResolveUncertainOp d outcome now) db = resolveUncertainApplication d outcome now db"
| "ledger_step (ResolveRecoveryOp i resolution now) db = resolveRecoveryItem i resolution now db"
| "ledger_step ReconcileOp db = snd (reconcileProcessing db)"
| "ledger_step (BeginDeletionOp tasks) db = begin_deletion tasks db"
| "ledger_step (CleanLocalOp sessions tasks) db = snd (cleanLocal sessions tasks db)"
| "ledger_step (PublishRevisionOp r) db = db\<lparr>lgConfigurationRevisions := r # lgConfigurationRevisions db\<rparr>"

fun ledger_op_allowed :: "ledger_op \<Rightarrow> bool" where
  "ledger_op_allowed (MarkFailedOp d st err now) \<longleftrightarrow> st \<in> {AppUncertain, AppFailed}"
| "ledger_op_allowed _ \<longleftrightarrow> True"

inductive ledger_run :: "ledger_db \<Rightarrow> ledger_db \<Rightarrow> bool" where
  run_refl: "ledger_run db db"
| run_step: "ledger_run db db' \<Longrightarrow> ledger_op_allowed op \<Longrightarrow> ledger_run db (ledger_step op db')"

text \<open>What every step keeps, every run keeps.\<close>

locale ledger_property =
  fixes P :: "ledger_db \<Rightarrow> bool"
  assumes step_keeps: "P db \<Longrightarrow> ledger_op_allowed op \<Longrightarrow> P (ledger_step op db)"
begin

lemma run_keeps: "ledger_run db db' \<Longrightarrow> P db \<Longrightarrow> P db'"
  by (induction rule: ledger_run.induct) (auto intro: step_keeps)

end

subsection \<open>The invariant\<close>

definition application_key :: "application_row \<Rightarrow> string \<times> string \<times> string \<times> string" where
  "application_key a = (apDecisionId a, apEventId a, apId a, apIdempotencyKey a)"

definition decision_key :: "decision_row \<Rightarrow> string \<times> string \<times> string \<times> string" where
  "decision_key d = (ldId d, ldEventId d, ''application_'' @ ldId d, ''decision:'' @ ldId d)"

fun stored_as :: "string \<Rightarrow> string \<Rightarrow> kernel_event option \<Rightarrow> bool" where
  "stored_as i t None \<longleftrightarrow> True"
| "stored_as i t (Some ev) \<longleftrightarrow> i = evId (fst ev) \<and> t = event_type (snd ev)"

definition event_ok :: "string set \<Rightarrow> event_row \<Rightarrow> bool" where
  "event_ok decided r \<longleftrightarrow> (if erId r \<in> decided then erStatus r = EventProcessed
     else erStatus r = EventProcessed \<longrightarrow> erType r \<in> set permission_event_types)
     \<and> stored_as (erId r) (erType r) (erEvent r)"

definition ledger_ok :: "ledger_db \<Rightarrow> bool" where
  "ledger_ok db \<longleftrightarrow> distinct (map erId (lgEvents db)) \<and> distinct (map ldId (lgDecisions db))
     \<and> distinct (map ldEventId (lgDecisions db)) \<and> map application_key (lgApplications db) = map decision_key (lgDecisions db)
     \<and> ldEventId ` set (lgDecisions db) \<subseteq> erId ` set (lgEvents db)
     \<and> (\<forall>r \<in> set (lgEvents db). event_ok (ldEventId ` set (lgDecisions db)) r)"

lemma map_update_rows: "(\<And>r. f (g r) = f r) \<Longrightarrow> map f (update_rows p g rows) = map f rows"
  by (simp add: update_rows_def)

lemma image_update_rows: "(\<And>r. f (g r) = f r) \<Longrightarrow> f ` set (update_rows p g rows) = f ` set rows"
  by (metis list.set_map map_update_rows)

lemma set_update_rows: "x \<in> set (update_rows p f rows) \<longleftrightarrow> (\<exists>r \<in> set rows. x = (if p r then f r else r))"
  by (auto simp: update_rows_def)

text \<open>The application table changes only in status columns, or grows by the row of a new decision.\<close>

lemma ok_applications:
  assumes "ledger_ok db" and "\<And>a. application_key (f a) = application_key a"
  shows "ledger_ok (update_applications p f db)"
  using assms by (simp add: ledger_ok_def update_applications_def map_update_rows)

lemma ok_events:
  assumes "ledger_ok db" and "\<And>r. erId (f r) = erId r"
    and "\<And>r. p r \<Longrightarrow> event_ok (ldEventId ` set (lgDecisions db)) r \<Longrightarrow> event_ok (ldEventId ` set (lgDecisions db)) (f r)"
  shows "ledger_ok (db\<lparr>lgEvents := update_rows p f (lgEvents db)\<rparr>)"
  using assms by (auto simp: ledger_ok_def map_update_rows image_update_rows set_update_rows)

lemma application_key_updates [simp]:
  "application_key (a\<lparr>apStatus := x\<rparr>) = application_key a" "application_key (a\<lparr>apApplyAttempts := n\<rparr>) = application_key a"
  "application_key (a\<lparr>apObservationEvent := y\<rparr>) = application_key a" "application_key (a\<lparr>apErrorSummary := z\<rparr>) = application_key a"
  "application_key (a\<lparr>apApplyingAt := z\<rparr>) = application_key a" "application_key (a\<lparr>apAppliedAt := z\<rparr>) = application_key a"
  "application_key (a\<lparr>apUpdatedAt := s\<rparr>) = application_key a"
  by (simp_all add: application_key_def)

lemma new_event_row_simps [simp]:
  "erId (new_event_row ev t) = evId (fst ev)" "erStatus (new_event_row ev t) = EventPending"
  "erEvent (new_event_row ev t) = Some ev" "erType (new_event_row ev t) = event_type (snd ev)"
  by (simp_all add: new_event_row_def Let_def)

lemma insertEvent_cases:
  assumes "insertEvent ev t db = Inr (b, db')"
  obtains "\<not> b" "db' = db" | "b" "evId (fst ev) \<notin> erId ` set (lgEvents db)" "db' = db\<lparr>lgEvents := lgEvents db @ [new_event_row ev t]\<rparr>"
  using assms by (auto simp: insertEvent_def split: if_splits)

lemma ok_insertEvent: "ledger_ok db \<Longrightarrow> insertEvent ev t db = Inr (b, db') \<Longrightarrow> ledger_ok db'"
proof (erule insertEvent_cases)
  assume ok: "ledger_ok db" and fresh: "evId (fst ev) \<notin> erId ` set (lgEvents db)"
    and db': "db' = db\<lparr>lgEvents := lgEvents db @ [new_event_row ev t]\<rparr>"
  from ok fresh have "evId (fst ev) \<notin> ldEventId ` set (lgDecisions db)" by (auto simp: ledger_ok_def)
  with ok fresh show "ledger_ok db'" unfolding db' by (auto simp: ledger_ok_def event_ok_def)
qed simp

lemma rollback_keeps: "P db \<Longrightarrow> (\<And>x db'. r = Inr (x, db') \<Longrightarrow> P db') \<Longrightarrow> P (snd (rollback db r))"
  by (auto simp: rollback_def split: sum.splits prod.splits)

lemma snd_issue: "snd (issue i r db) = snd (rollback db (issue_transaction i r db))"
  by (simp add: issue_def rollback_def split: sum.splits prod.splits option.splits)

lemma truncate_extend_simps [simp]:
  "ldId (KernelDecisionLedgerRecord.extend r m) = ldId r" "ldEventId (KernelDecisionLedgerRecord.extend r m) = ldEventId r"
  "ldDecision (KernelDecisionLedgerRecord.extend r m) = ldDecision r" "ldErased (KernelDecisionLedgerRecord.extend r \<lparr>ldErased = b\<rparr>) = b"
  by (simp_all add: KernelDecisionLedgerRecord.extend_def)

lemma findByEventId_known: "findByEventId i db = Inr (Some x) \<Longrightarrow> i \<in> ldEventId ` set (lgDecisions db)"
proof (cases "find (\<lambda>r. ldEventId r = i) (lgDecisions db)")
  case (Some d)
  from find_Some_mem [OF this] show ?thesis by (metis imageI)
qed (simp add: findByEventId_def)

lemma insertIfAbsent_cases:
  assumes "insertIfAbsent r db = Inr (b, db')"
  obtains "\<not> b" "db' = db" "ldEventId r \<in> ldEventId ` set (lgDecisions db)"
  | "b" "ldId r \<notin> ldId ` set (lgDecisions db)" "ldEventId r \<notin> ldEventId ` set (lgDecisions db)"
    "db' = db\<lparr>lgDecisions := lgDecisions db @ [KernelDecisionLedgerRecord.extend r \<lparr>ldErased = False\<rparr>]\<rparr>"
proof (cases "ldId r \<in> ldId ` set (lgDecisions db) \<or> ldEventId r \<in> ldEventId ` set (lgDecisions db)")
  case True
  note eq = assms [unfolded insertIfAbsent_def if_P [OF True]]
  show ?thesis
  proof (cases "findByEventId (ldEventId r) db")
    case (Inl e)
    with eq show ?thesis by simp
  next
    case (Inr existing)
    show ?thesis
    proof (cases existing)
      case None
      with eq Inr show ?thesis by simp
    next
      case (Some x)
      with eq Inr have "\<not> b" "db' = db" by (simp_all split: if_splits)
      then show ?thesis using findByEventId_known Inr Some by (intro that(1)) blast+
    qed
  qed
next
  case False
  show ?thesis
  proof (rule that(2))
    show "db' = db\<lparr>lgDecisions := lgDecisions db @ [KernelDecisionLedgerRecord.extend r \<lparr>ldErased = False\<rparr>]\<rparr>" "b"
      using assms unfolding insertIfAbsent_def if_not_P [OF False] by (simp_all split: if_splits)
  qed (use False in blast)+
qed

lemma application_known_iff:
  assumes "ledger_ok db"
  shows "application_known (new_application i r) db \<longleftrightarrow>
    ldId r \<in> ldId ` set (lgDecisions db) \<or> i \<in> ldEventId ` set (lgDecisions db)"
proof -
  have keys: "application_key ` set (lgApplications db) = decision_key ` set (lgDecisions db)"
    using assms unfolding ledger_ok_def by (metis list.set_map)
  let ?hit = "\<lambda>(x, e, ai, k). ai = ''application_'' @ ldId r \<or> x = ldId r \<or> e = i \<or> k = ''decision:'' @ ldId r"
  have "application_known (new_application i r) db \<longleftrightarrow> (\<exists>y \<in> application_key ` set (lgApplications db). ?hit y)"
    by (simp add: application_known_def list_ex_iff new_application_def application_key_def)
  also have "\<dots> \<longleftrightarrow> (\<exists>d \<in> set (lgDecisions db). ldId d = ldId r \<or> ldEventId d = i)"
    unfolding keys by (simp add: decision_key_def) meson
  finally show ?thesis unfolding image_iff by metis
qed

definition processed_by :: "KernelDecisionLedgerRecord \<Rightarrow> event_row list \<Rightarrow> event_row list" where
  "processed_by r = update_rows (\<lambda>x. erId x = ldEventId r)
     (\<lambda>x. x\<lparr>erStatus := EventProcessed, erProcessedAt := Some (ldCreatedAt r), erProcessingStartedAt := None, erUpdatedAt := ldCreatedAt r\<rparr>)"

lemma processed_by_ids [simp]:
  "map erId (processed_by r es) = map erId es" "erId ` set (processed_by r es) = erId ` set es"
  by (simp_all add: processed_by_def map_update_rows image_update_rows)

lemma processed_by_ok:
  assumes "\<forall>x \<in> set es. event_ok D x"
  shows "\<forall>x \<in> set (processed_by r es). event_ok (insert (ldEventId r) D) x"
proof
  fix x assume "x \<in> set (processed_by r es)"
  then obtain y where "y \<in> set es" "x = (if erId y = ldEventId r then y\<lparr>erStatus := EventProcessed, erProcessedAt := Some (ldCreatedAt r),
      erProcessingStartedAt := None, erUpdatedAt := ldCreatedAt r\<rparr> else y)"
    unfolding processed_by_def set_update_rows by blast
  moreover from this assms have "event_ok D y" by blast
  ultimately show "event_ok (insert (ldEventId r) D) x" by (cases "erId y = ldEventId r") (simp_all add: event_ok_def)
qed

text \<open>An issue either finds the decision of the event and its application, or adds exactly one of each.\<close>

lemma issue_transaction_cases:
  assumes ok: "ledger_ok db" and run: "issue_transaction (ldEventId r) r db = Inr (a, db')"
  obtains (known) "ldEventId r \<in> ldEventId ` set (lgDecisions db)" "db' = db\<lparr>lgEvents := processed_by r (lgEvents db)\<rparr>"
  | (fresh) "ldId r \<notin> ldId ` set (lgDecisions db)" "ldEventId r \<notin> ldEventId ` set (lgDecisions db)"
    "ldEventId r \<in> erId ` set (lgEvents db)"
    "db' = db\<lparr>lgEvents := processed_by r (lgEvents db),
       lgDecisions := lgDecisions db @ [KernelDecisionLedgerRecord.extend r \<lparr>ldErased = False\<rparr>],
       lgApplications := lgApplications db @ [new_application (ldEventId r) r]\<rparr>"
proof -
  have event: "ldEventId r \<in> erId ` set (lgEvents db)"
  proof (rule ccontr)
    assume "ldEventId r \<notin> erId ` set (lgEvents db)"
    with run show False by (simp only: issue_transaction_def if_True simp_thms) simp
  qed
  note step = run [unfolded issue_transaction_def, simplified event]
  from step obtain b db1 db2 where ins: "insertIfAbsent r db = Inr (b, db1)"
    and app: "insert_application (new_application (ldEventId r) r) db1 = Inr db2"
    and db': "db' = db2\<lparr>lgEvents := processed_by r (lgEvents db2)\<rparr>"
    by (cases "insertIfAbsent r db") (auto simp: processed_by_def Let_def)
  from ins show ?thesis
  proof (cases rule: insertIfAbsent_cases)
    case 1
    then have "application_known (new_application (ldEventId r) r) db1" by (simp add: application_known_iff [OF ok])
    with app db' 1 known show ?thesis by (simp add: insert_application_def)
  next
    case 2
    then have "\<not> application_known (new_application (ldEventId r) r) db" by (simp add: application_known_iff [OF ok])
    then have "\<not> application_known (new_application (ldEventId r) r) db1" by (simp add: 2 application_known_def)
    with app have "db2 = db1\<lparr>lgApplications := lgApplications db1 @ [new_application (ldEventId r) r]\<rparr>"
      by (simp add: insert_application_def split: if_splits)
    with db' 2 event fresh show ?thesis by simp
  qed
qed

lemma ok_issue:
  assumes ok: "ledger_ok db" and run: "issue_transaction (ldEventId r) r db = Inr (a, db')"
  shows "ledger_ok db'"
  using ok run
proof (cases rule: issue_transaction_cases)
  case known
  then have "insert (ldEventId r) (ldEventId ` set (lgDecisions db)) = ldEventId ` set (lgDecisions db)" by (simp only: insert_absorb)
  with ok known(2) processed_by_ok [of "lgEvents db" "ldEventId ` set (lgDecisions db)" r] show ?thesis
    unfolding ledger_ok_def by simp
next
  case fresh
  have key: "application_key (new_application (ldEventId r) r) = decision_key (KernelDecisionLedgerRecord.extend r \<lparr>ldErased = False\<rparr>)"
    by (simp add: application_key_def decision_key_def new_application_def)
  from ok fresh key processed_by_ok [of "lgEvents db" "ldEventId ` set (lgDecisions db)" r] show ?thesis
    unfolding ledger_ok_def by simp
qed

lemma ok_admit: "ledger_ok db \<Longrightarrow> admit_resolution e p db = Inr (x, db') \<Longrightarrow> ledger_ok db'"
proof -
  assume ok: "ledger_ok db" and run: "admit_resolution e p db = Inr (x, db')"
  from run obtain prev where prev: "findPermissionResolution (prRequestId p) db = Inr prev"
    by (cases "findPermissionResolution (prRequestId p) db") (simp_all add: admit_resolution_def)
  show "ledger_ok db'"
  proof (cases prev)
    case (Some ev)
    with run prev ok show ?thesis by (simp add: admit_resolution_def)
  next
    case None
    show ?thesis
    proof (cases "insertEvent (e, PermissionResolutionReceived p) (evOccurredAt e) db")
      case (Inl err)
      with run prev None show ?thesis by (simp add: admit_resolution_def)
    next
      case (Inr y)
      then have "ledger_ok (snd y)" using ok_insertEvent [OF ok] by (metis surjective_pairing)
      with run prev None Inr show ?thesis by (cases y) (simp add: admit_resolution_def split: if_splits)
    qed
  qed
qed

lemma ok_claimNext: "ledger_ok db \<Longrightarrow> ledger_ok (snd (claimNext now types task corr db))"
proof (cases "js_sort event_order (filter (claimable now types task corr) (lgEvents db))")
  case (Cons r rs)
  assume "ledger_ok db"
  then show ?thesis unfolding claimNext_def Cons by (simp, intro ok_events) (simp_all add: event_ok_def split: if_splits)
qed (simp add: claimNext_def)

lemma complete_application_cases:
  assumes "complete_application d obs now db = Inr (u, db')"
  obtains db1 where "db1 = db \<or> (\<exists>ev b. obs = Some ev \<and> insertEvent ev (evOccurredAt (fst ev)) db = Inr (b, db1))"
    "db' = update_applications (is_application d AppApplying)
       (\<lambda>a. a\<lparr>apStatus := AppApplied, apObservationEvent := obs, apErrorSummary := None, apAppliedAt := Some now, apUpdatedAt := now\<rparr>) db1"
proof (cases obs)
  case None
  with assms that [of db] show ?thesis by (simp add: complete_application_def split: if_splits)
next
  case (Some ev)
  with assms obtain b db1 where "insertEvent ev (evOccurredAt (fst ev)) db = Inr (b, db1)"
    by (cases "insertEvent ev (evOccurredAt (fst ev)) db") (auto simp: complete_application_def)
  with Some assms that [of db1] show ?thesis by (simp add: complete_application_def split: if_splits)
qed

lemma ok_complete: "ledger_ok db \<Longrightarrow> complete_application d obs now db = Inr (u, db') \<Longrightarrow> ledger_ok db'"
  by (erule complete_application_cases) (auto intro!: ok_applications intro: ok_insertEvent)

lemma reconcile_keys [simp]: "erId (reconcile_event db r) = erId r" "erType (reconcile_event db r) = erType r"
  by (simp_all add: reconcile_event_def)

lemma ok_reconcile: "ledger_ok db \<Longrightarrow> ledger_ok (snd (reconcileProcessing db))"
proof -
  assume ok: "ledger_ok db"
  have ids: "erId ` set (map (reconcile_event db) (lgEvents db)) = erId ` set (lgEvents db)" by (simp add: image_image)
  have "event_ok (ldEventId ` set (lgDecisions db)) (reconcile_event db r)" if "r \<in> set (lgEvents db)" for r
    using ok that by (simp add: ledger_ok_def reconcile_event_def event_ok_def has_decision_def)
  with ok ids show ?thesis
    by (simp add: reconcileProcessing_def ledger_ok_def update_applications_def map_update_rows comp_def)
qed

lemma ok_erase: "ledger_ok db \<Longrightarrow> ledger_ok (erase_conversation ss ts db)"
proof -
  assume ok: "ledger_ok db"
  have dk: "map decision_key (update_rows p (\<lambda>d. d\<lparr>ldErased := True, ldReason := []\<rparr>) ds) = map decision_key ds" for p ds
    by (rule map_update_rows) (simp add: decision_key_def)
  have ids: "map ldId (update_rows p (\<lambda>d. d\<lparr>ldErased := True, ldReason := []\<rparr>) ds) = map ldId ds"
    "map ldEventId (update_rows p (\<lambda>d. d\<lparr>ldErased := True, ldReason := []\<rparr>) ds) = map ldEventId ds"
    "ldEventId ` set (update_rows p (\<lambda>d. d\<lparr>ldErased := True, ldReason := []\<rparr>) ds) = ldEventId ` set ds" for p and ds :: "decision_row list"
    by (simp_all add: map_update_rows image_update_rows)
  have es: "event_ok D r \<Longrightarrow> event_ok D (r\<lparr>erEvent := None, erStatus := (if erStatus r \<in> {EventPending, EventProcessing} then EventFailed else erStatus r)\<rparr>)" for D r
    by (simp add: event_ok_def)
  have "ledger_ok (db\<lparr>lgEvents := update_rows (\<lambda>r. in_deletion ss ts (erSessionId r) (erTaskId r))
        (\<lambda>r. r\<lparr>erEvent := None, erStatus := (if erStatus r \<in> {EventPending, EventProcessing} then EventFailed else erStatus r)\<rparr>) (lgEvents db)\<rparr>)"
    using ok by (rule ok_events) (use es in simp_all)
  then show ?thesis unfolding erase_conversation_def ledger_ok_def by (simp add: dk ids map_update_rows)
qed

interpretation ledger: ledger_property ledger_ok
proof
  fix db op assume ok: "ledger_ok db"
  show "ledger_ok (ledger_step op db)"
  proof (cases op)
    case (EnqueueOp ev t)
    show ?thesis unfolding EnqueueOp ledger_step.simps enqueue_def by (rule rollback_keeps [where P = ledger_ok, OF ok ok_insertEvent [OF ok]])
  next
    case (AdmitResolutionOp e p)
    show ?thesis unfolding AdmitResolutionOp ledger_step.simps admitPermissionResolution_def
      by (rule rollback_keeps [where P = ledger_ok, OF ok ok_admit [OF ok]])
  next
    case (PermissionAppliedOp i now)
    with ok show ?thesis by (simp add: markPermissionEventApplied_def, intro ok_events) (simp_all add: event_ok_def)
  next
    case (ClaimNextOp now types task corr)
    with ok show ?thesis by (simp add: ok_claimNext)
  next
    case (IssueOp r)
    show ?thesis unfolding IssueOp ledger_step.simps snd_issue by (rule rollback_keeps [where P = ledger_ok, OF ok ok_issue [OF ok]])
  next
    case (MarkApplyingOp d now)
    with ok show ?thesis by (simp add: markApplying_def ok_applications Let_def split: option.split)
  next
    case (MarkAppliedOp d obs now)
    show ?thesis unfolding MarkAppliedOp ledger_step.simps markApplied_def by (rule rollback_keeps [where P = ledger_ok, OF ok ok_complete [OF ok]])
  next
    case (ResolveUncertainOp d outcome now)
    with ok show ?thesis by (cases outcome) (simp_all add: ok_applications)
  next
    case (BeginDeletionOp ts)
    with ok show ?thesis by (simp add: begin_deletion_def ledger_ok_def)
  next
    case (PublishRevisionOp r)
    with ok show ?thesis by (simp add: ledger_ok_def)
  qed (use ok in \<open>simp_all add: markApplicationSettled_def markApplicationFailed_def resolveRecoveryItem_def ok_applications ok_reconcile cleanLocal_def ok_erase Let_def\<close>)
qed

subsection \<open>How applications move\<close>

fun legal_move :: "KernelApplicationStatus \<Rightarrow> KernelApplicationStatus \<Rightarrow> bool" where
  "legal_move AppPending s \<longleftrightarrow> s \<in> {AppPending, AppApplying, AppFailed}"
| "legal_move AppApplying s \<longleftrightarrow> True"
| "legal_move AppUncertain s \<longleftrightarrow> s \<noteq> AppApplying"
| "legal_move AppFailed s \<longleftrightarrow> s \<in> {AppFailed, AppApplied, AppPending}"
| "legal_move AppApplied s \<longleftrightarrow> s = AppApplied"

definition application_evolves :: "application_row \<Rightarrow> application_row \<Rightarrow> bool" where
  "application_evolves a b \<longleftrightarrow> application_key b = application_key a \<and> legal_move (apStatus a) (apStatus b)
     \<and> apApplyAttempts b = (if apStatus a = AppPending \<and> apStatus b = AppApplying then Suc (apApplyAttempts a) else apApplyAttempts a)
     \<and> (apStatus a = AppApplied \<longrightarrow> apAppliedAt b = apAppliedAt a)"

definition fresh_application :: "application_row \<Rightarrow> bool" where
  "fresh_application a \<longleftrightarrow> apStatus a = AppPending \<and> apApplyAttempts a = 0"

definition applications_evolve :: "application_row list \<Rightarrow> application_row list \<Rightarrow> bool" where
  "applications_evolve xs ys \<longleftrightarrow> list_all2 application_evolves xs (take (length xs) ys) \<and> list_all fresh_application (drop (length xs) ys)"

lemma legal_move_refl [simp]: "legal_move s s"
  by (cases s) simp_all

lemma evolves_refl [simp]: "application_evolves a a"
  by (simp add: application_evolves_def)

lemma evolve_refl [simp]: "applications_evolve xs xs"
  by (simp add: applications_evolve_def list_all2_same)

lemma evolve_update:
  "(\<And>a. p a \<Longrightarrow> application_evolves a (f a)) \<Longrightarrow> applications_evolve (lgApplications db) (lgApplications (update_applications p f db))"
  by (simp add: applications_evolve_def update_applications_def update_rows_def list_all2_conv_all_nth)

lemma evolve_append: "fresh_application a \<Longrightarrow> applications_evolve xs (xs @ [a])"
  by (simp add: applications_evolve_def list_all2_same)

lemma insertEvent_applications [simp]: "insertEvent ev t db = Inr (b, db') \<Longrightarrow> lgApplications db' = lgApplications db"
  by (erule insertEvent_cases) simp_all

lemma insertIfAbsent_applications: "insertIfAbsent r db = Inr (b, db') \<Longrightarrow> lgApplications db' = lgApplications db"
  by (erule insertIfAbsent_cases) simp_all

lemma insert_application_evolve:
  "insert_application a db = Inr db' \<Longrightarrow> fresh_application a \<Longrightarrow> applications_evolve (lgApplications db) (lgApplications db')"
  by (auto simp: insert_application_def evolve_append split: if_splits)

lemma issue_evolve: "issue_transaction i r db = Inr (x, db') \<Longrightarrow> applications_evolve (lgApplications db) (lgApplications db')"
proof -
  assume run: "issue_transaction i r db = Inr (x, db')"
  show ?thesis
  proof (cases "insertIfAbsent r db")
    case (Inl e)
    with run show ?thesis by (simp add: issue_transaction_def split: if_splits)
  next
    case (Inr y)
    obtain b db1 where y: "y = (b, db1)" by (cases y)
    show ?thesis
    proof (cases "insert_application (new_application i r) db1")
      case (Inl e)
      with run Inr y show ?thesis by (simp add: issue_transaction_def split: if_splits)
    next
      case (Inr db2)
      have "lgApplications db' = lgApplications db2"
        using run Inr \<open>insertIfAbsent r db = Inr y\<close> y by (auto simp: issue_transaction_def Let_def split: if_splits)
      moreover have "applications_evolve (lgApplications db1) (lgApplications db2)"
        using Inr by (rule insert_application_evolve) (simp add: fresh_application_def new_application_def)
      ultimately show ?thesis using insertIfAbsent_applications \<open>insertIfAbsent r db = Inr y\<close> y by simp
    qed
  qed
qed

lemma admit_applications: "admit_resolution e p db = Inr (x, db') \<Longrightarrow> lgApplications db' = lgApplications db"
proof (cases "findPermissionResolution (prRequestId p) db")
  case (Inr prev)
  assume run: "admit_resolution e p db = Inr (x, db')"
  show ?thesis
  proof (cases prev)
    case (Some ev)
    with run Inr show ?thesis by (simp add: admit_resolution_def)
  next
    case None
    with run Inr show ?thesis
      by (cases "insertEvent (e, PermissionResolutionReceived p) (evOccurredAt e) db")
        (auto simp: admit_resolution_def split: if_splits prod.splits)
  qed
qed (simp add: admit_resolution_def)

lemma rollback_evolve:
  "(\<And>x db'. r = Inr (x, db') \<Longrightarrow> applications_evolve (lgApplications db) (lgApplications db')) \<Longrightarrow>
   applications_evolve (lgApplications db) (lgApplications (snd (rollback db r)))"
  by (rule rollback_keeps) simp_all

lemmas evolves_simps = application_evolves_def is_application_def

lemma complete_evolve: "complete_application d obs now db = Inr (x, db') \<Longrightarrow> applications_evolve (lgApplications db) (lgApplications db')"
proof (erule complete_application_cases)
  fix db1
  assume "db1 = db \<or> (\<exists>ev b. obs = Some ev \<and> insertEvent ev (evOccurredAt (fst ev)) db = Inr (b, db1))"
  then have "lgApplications db1 = lgApplications db" by auto
  moreover assume "db' = update_applications (is_application d AppApplying) (\<lambda>a. a\<lparr>apStatus := AppApplied,
    apObservationEvent := obs, apErrorSummary := None, apAppliedAt := Some now, apUpdatedAt := now\<rparr>) db1"
  moreover have "applications_evolve (lgApplications db1) (lgApplications (update_applications (is_application d AppApplying)
    (\<lambda>a. a\<lparr>apStatus := AppApplied, apObservationEvent := obs, apErrorSummary := None, apAppliedAt := Some now, apUpdatedAt := now\<rparr>) db1))"
    by (rule evolve_update) (simp add: evolves_simps)
  ultimately show ?thesis by simp
qed

lemma update_evolves [simp]:
  "lgApplications (erase_conversation ss ts db) = lgApplications (update_applications
     (\<lambda>a. list_ex (\<lambda>d. ldId d = apDecisionId a \<and> (\<exists>t \<in> set ts. ldTaskId d = Some t)) (lgDecisions db))
     (\<lambda>a. a\<lparr>apObservationEvent := None, apErrorSummary := None,
              apStatus := (if apStatus a \<in> {AppPending, AppApplying, AppUncertain} then AppFailed else apStatus a)\<rparr>) db)"
  by (simp add: erase_conversation_def update_applications_def)

lemma erase_legal: "legal_move s (if s \<in> {AppPending, AppApplying, AppUncertain} then AppFailed else s)"
  by (cases s) simp_all

lemma resolve_legal: "s \<in> {AppUncertain, AppFailed} \<Longrightarrow> legal_move s (if b then AppApplied else AppPending)"
  by (cases s) simp_all

lemma failed_legal: "st \<in> {AppUncertain, AppFailed} \<Longrightarrow> legal_move AppApplying st"
  by simp

lemma step_evolves: "ledger_op_allowed op \<Longrightarrow> applications_evolve (lgApplications db) (lgApplications (ledger_step op db))"
proof (cases op)
  case (EnqueueOp ev t)
  show ?thesis unfolding EnqueueOp ledger_step.simps enqueue_def by (rule rollback_evolve) simp
next
  case (AdmitResolutionOp e p)
  show ?thesis unfolding AdmitResolutionOp ledger_step.simps admitPermissionResolution_def
    by (rule rollback_evolve) (simp add: admit_applications)
next
  case (PermissionAppliedOp i now)
  then show ?thesis by (simp add: markPermissionEventApplied_def)
next
  case (ClaimNextOp now types task corr)
  then show ?thesis by (simp add: claimNext_def split: list.split)
next
  case (IssueOp r)
  show ?thesis unfolding IssueOp ledger_step.simps snd_issue by (rule rollback_evolve) (rule issue_evolve)
next
  case (MarkApplyingOp d now)
  have "applications_evolve (lgApplications db) (lgApplications (update_applications (is_application d AppPending)
    (\<lambda>a. a\<lparr>apStatus := AppApplying, apApplyAttempts := Suc (apApplyAttempts a), apApplyingAt := Some now, apUpdatedAt := now\<rparr>) db))"
    by (rule evolve_update) (simp add: evolves_simps)
  with MarkApplyingOp show ?thesis by (simp add: markApplying_def Let_def split: option.split)
next
  case (MarkAppliedOp d obs now)
  show ?thesis unfolding MarkAppliedOp ledger_step.simps markApplied_def by (rule rollback_evolve) (rule complete_evolve)
next
  case (MarkSettledOp d summary now)
  have "applications_evolve (lgApplications db) (lgApplications (update_applications (is_application d AppApplying)
    (\<lambda>a. a\<lparr>apStatus := AppApplied, apErrorSummary := Some summary, apAppliedAt := Some now, apUpdatedAt := now\<rparr>) db))"
    by (rule evolve_update) (simp add: evolves_simps)
  with MarkSettledOp show ?thesis by (simp add: markApplicationSettled_def Let_def)
next
  case (MarkFailedOp d st err now)
  then show "ledger_op_allowed op \<Longrightarrow> ?thesis" unfolding MarkFailedOp ledger_step.simps markApplicationFailed_def
    by (intro evolve_update) (simp add: evolves_simps)
next
  case (ResolveUncertainOp d outcome now)
  then show ?thesis
    by (cases outcome) (simp_all, (rule evolve_update, simp add: evolves_simps)+)
next
  case (ResolveRecoveryOp i resolution now)
  show ?thesis unfolding ResolveRecoveryOp ledger_step.simps resolveRecoveryItem_def
    by (rule evolve_update) (auto simp: evolves_simps)
next
  case ReconcileOp
  have "applications_evolve (lgApplications db) (lgApplications (update_applications (\<lambda>a. apStatus a = AppApplying)
    (\<lambda>a. a\<lparr>apStatus := AppPending, apApplyingAt := None, apUpdatedAt := apCreatedAt a\<rparr>) db))"
    by (rule evolve_update) (simp add: evolves_simps)
  with ReconcileOp show ?thesis by (simp add: reconcileProcessing_def)
next
  case (BeginDeletionOp ts)
  then show ?thesis by (simp add: begin_deletion_def)
next
  case (CleanLocalOp ss ts)
  have "applications_evolve (lgApplications db) (lgApplications (erase_conversation ss ts db))"
    unfolding update_evolves by (rule evolve_update) (simp add: evolves_simps erase_legal)
  with CleanLocalOp show ?thesis by (simp add: cleanLocal_def)
next
  case (PublishRevisionOp r)
  then show ?thesis by simp
qed

definition applied_row :: "string \<times> string \<times> string \<times> string \<Rightarrow> nat \<Rightarrow> string option \<Rightarrow> ledger_db \<Rightarrow> bool" where
  "applied_row key n t db \<longleftrightarrow> list_ex (\<lambda>a. application_key a = key \<and> apStatus a = AppApplied \<and> apApplyAttempts a = n \<and> apAppliedAt a = t)
     (lgApplications db)"

lemma evolve_applied:
  assumes "applications_evolve xs ys" and "a \<in> set xs" and "apStatus a = AppApplied"
  shows "\<exists>b \<in> set ys. application_key b = application_key a \<and> apStatus b = AppApplied \<and> apApplyAttempts b = apApplyAttempts a
    \<and> apAppliedAt b = apAppliedAt a"
proof -
  from assms(2) obtain i where i: "i < length xs" "xs ! i = a" by (auto simp: in_set_conv_nth)
  from assms(1) have len: "length (take (length xs) ys) = length xs" unfolding applications_evolve_def by (metis list_all2_lengthD)
  then have mem: "i < length ys" using i by simp
  from assms(1) i have "application_evolves a (take (length xs) ys ! i)" unfolding applications_evolve_def by (metis list_all2_nthD)
  then have "application_evolves a (ys ! i)" using i by simp
  with assms(3) mem show ?thesis by (intro bexI [of _ "ys ! i"]) (simp_all add: application_evolves_def)
qed

interpretation applied: ledger_property "applied_row key n t" for key n t
proof
  fix db op assume P: "applied_row key n t db" and "ledger_op_allowed op"
  then have ev: "applications_evolve (lgApplications db) (lgApplications (ledger_step op db))" by (intro step_evolves)
  from P obtain a where "a \<in> set (lgApplications db)" "application_key a = key" "apStatus a = AppApplied" "apApplyAttempts a = n"
    "apAppliedAt a = t"
    unfolding applied_row_def list_ex_iff by blast
  with evolve_applied [OF ev, of a] show "applied_row key n t (ledger_step op db)" unfolding applied_row_def list_ex_iff by metis
qed

subsection \<open>How events move\<close>

text \<open>
  No operation removes an event or changes its identity, its type or its correlation; the stored event
  stays or is erased with its Conversation, and new events come last.
\<close>

definition event_kept :: "event_row \<Rightarrow> event_row \<Rightarrow> bool" where
  "event_kept r r' \<longleftrightarrow> erId r' = erId r \<and> erType r' = erType r \<and> erCorrelationId r' = erCorrelationId r
     \<and> (erEvent r' = erEvent r \<or> erEvent r' = None)"

definition events_kept :: "event_row list \<Rightarrow> event_row list \<Rightarrow> bool" where
  "events_kept xs ys \<longleftrightarrow> (\<exists>f new. ys = map f xs @ new \<and> (\<forall>r \<in> set xs. event_kept r (f r)))"

lemma event_kept_refl [simp]: "event_kept r r"
  by (simp add: event_kept_def)

lemma kept_map: "(\<And>r. event_kept r (f r)) \<Longrightarrow> events_kept xs (map f xs)"
  unfolding events_kept_def by (metis append_Nil2)

lemma kept_refl [simp]: "events_kept xs xs"
  using kept_map [of id xs] by simp

lemma kept_append: "events_kept xs (xs @ new)"
  unfolding events_kept_def by (metis event_kept_refl map_ident)

lemma kept_update: "(\<And>r. event_kept r (f r)) \<Longrightarrow> events_kept xs (update_rows p f xs)"
  unfolding update_rows_def by (rule kept_map) simp

lemma insertEvent_kept: "insertEvent ev t db = Inr (b, db') \<Longrightarrow> events_kept (lgEvents db) (lgEvents db')"
  by (erule insertEvent_cases) (simp_all add: kept_append)

lemma update_applications_events [simp]: "lgEvents (update_applications p f db) = lgEvents db"
  by (simp add: update_applications_def)

lemma insertIfAbsent_events: "insertIfAbsent r db = Inr (b, db') \<Longrightarrow> lgEvents db' = lgEvents db"
  by (erule insertIfAbsent_cases) simp_all

lemma insert_application_events: "insert_application a db = Inr db' \<Longrightarrow> lgEvents db' = lgEvents db"
  by (auto simp: insert_application_def split: if_splits)

lemma issue_kept: "issue_transaction i r db = Inr (x, db') \<Longrightarrow> events_kept (lgEvents db) (lgEvents db')"
proof -
  assume run: "issue_transaction i r db = Inr (x, db')"
  then obtain b db1 where ins: "insertIfAbsent r db = Inr (b, db1)"
    by (cases "insertIfAbsent r db") (auto simp: issue_transaction_def split: if_splits)
  from run ins obtain db2 where app: "insert_application (new_application i r) db1 = Inr db2"
    by (cases "insert_application (new_application i r) db1") (auto simp: issue_transaction_def split: if_splits)
  have "lgEvents db2 = lgEvents db" using insertIfAbsent_events [OF ins] insert_application_events [OF app] by simp
  with run ins app have "lgEvents db' = update_rows (\<lambda>x. erId x = i) (\<lambda>x. x\<lparr>erStatus := EventProcessed,
      erProcessedAt := Some (ldCreatedAt r), erProcessingStartedAt := None, erUpdatedAt := ldCreatedAt r\<rparr>) (lgEvents db)"
    by (auto simp: issue_transaction_def Let_def split: if_splits)
  then show ?thesis by (simp add: kept_update event_kept_def)
qed

lemma admit_kept: "admit_resolution e p db = Inr (x, db') \<Longrightarrow> events_kept (lgEvents db) (lgEvents db')"
proof (cases "findPermissionResolution (prRequestId p) db")
  case (Inr prev)
  assume run: "admit_resolution e p db = Inr (x, db')"
  show ?thesis
  proof (cases prev)
    case (Some ev)
    with run Inr show ?thesis by (simp add: admit_resolution_def)
  next
    case None
    with run Inr show ?thesis
      by (cases "insertEvent (e, PermissionResolutionReceived p) (evOccurredAt e) db")
        (auto simp: admit_resolution_def intro: insertEvent_kept split: if_splits prod.splits)
  qed
qed (simp add: admit_resolution_def)

lemma complete_kept: "complete_application d obs now db = Inr (x, db') \<Longrightarrow> events_kept (lgEvents db) (lgEvents db')"
  by (erule complete_application_cases) (auto intro: insertEvent_kept)

lemma rollback_kept:
  "(\<And>x db'. r = Inr (x, db') \<Longrightarrow> events_kept (lgEvents db) (lgEvents db')) \<Longrightarrow> events_kept (lgEvents db) (lgEvents (snd (rollback db r)))"
  by (rule rollback_keeps) simp_all

lemma step_keeps_events: "events_kept (lgEvents db) (lgEvents (ledger_step op db))"
proof (cases op)
  case (EnqueueOp ev t)
  show ?thesis unfolding EnqueueOp ledger_step.simps enqueue_def by (rule rollback_kept) (rule insertEvent_kept)
next
  case (AdmitResolutionOp e p)
  show ?thesis unfolding AdmitResolutionOp ledger_step.simps admitPermissionResolution_def by (rule rollback_kept) (rule admit_kept)
next
  case (ClaimNextOp now types task corr)
  then show ?thesis by (simp add: claimNext_def kept_update event_kept_def split: list.split)
next
  case (IssueOp r)
  show ?thesis unfolding IssueOp ledger_step.simps snd_issue by (rule rollback_kept) (rule issue_kept)
next
  case (MarkApplyingOp d now)
  then show ?thesis by (simp add: markApplying_def Let_def split: option.split)
next
  case (MarkAppliedOp d obs now)
  show ?thesis unfolding MarkAppliedOp ledger_step.simps markApplied_def by (rule rollback_kept) (rule complete_kept)
next
  case (ResolveUncertainOp d outcome now)
  then show ?thesis by (cases outcome) simp_all
next
  case ReconcileOp
  then show ?thesis by (simp add: reconcileProcessing_def kept_map event_kept_def reconcile_event_def)
next
  case (CleanLocalOp ss ts)
  then show ?thesis by (simp add: cleanLocal_def erase_conversation_def kept_update event_kept_def)
qed (simp_all add: markPermissionEventApplied_def kept_update event_kept_def markApplicationSettled_def markApplicationFailed_def
    resolveRecoveryItem_def begin_deletion_def Let_def)

lemma find_kept:
  assumes kept: "events_kept xs ys" and stable: "\<And>r r'. event_kept r r' \<Longrightarrow> p r' = p r" and hit: "find p xs = Some r"
  shows "\<exists>r'. find p ys = Some r' \<and> event_kept r r'"
proof -
  from kept obtain f new where ys: "ys = map f xs @ new" and f: "\<forall>r \<in> set xs. event_kept r (f r)" unfolding events_kept_def by blast
  from f hit stable have "find p (map f xs) = Some (f r) \<and> event_kept r (f r)"
    by (induction xs) (auto split: if_splits)
  then show ?thesis unfolding ys by (simp add: find_append)
qed

text \<open>The row that answers a permission request: the first one, with the answer or erased.\<close>

definition answered :: "string \<Rightarrow> kernel_event \<Rightarrow> ledger_db \<Rightarrow> bool" where
  "answered requestId ev db \<longleftrightarrow>
     (case find (\<lambda>r. erType r = ''permission_resolution_received'' \<and> erCorrelationId r = requestId) (lgEvents db) of
        None \<Rightarrow> False
      | Some r \<Rightarrow> erId r = evId (fst ev) \<and> (erEvent r = Some ev \<or> erEvent r = None))"

interpretation answers: ledger_property "answered requestId ev" for requestId ev
proof
  fix db op assume P: "answered requestId ev db"
  let ?hit = "\<lambda>r. erType r = ''permission_resolution_received'' \<and> erCorrelationId r = requestId"
  from P obtain r where r: "find ?hit (lgEvents db) = Some r" "erId r = evId (fst ev)" "erEvent r = Some ev \<or> erEvent r = None"
    by (auto simp: answered_def split: option.splits)
  from find_kept [OF step_keeps_events _ r(1), of op] obtain r' where "find ?hit (lgEvents (ledger_step op db)) = Some r'" "event_kept r r'"
    by (auto simp: event_kept_def)
  with r(2,3) show "answered requestId ev (ledger_step op db)" by (auto simp: answered_def event_kept_def)
qed

subsection \<open>Properties\<close>

lemma count_key:
  assumes "distinct (map f xs)"
  shows "length (filter (\<lambda>x. f x = k) xs) = (if k \<in> f ` set xs then 1 else 0)"
  using assms by (induction xs) (auto simp: filter_empty_conv)

lemma ok_counts:
  assumes "ledger_ok db"
  shows "length (filter (\<lambda>d. ldEventId d = i) (lgDecisions db)) = (if i \<in> ldEventId ` set (lgDecisions db) then 1 else 0)"
    and "length (filter (\<lambda>a. apEventId a = i) (lgApplications db)) = (if i \<in> ldEventId ` set (lgDecisions db) then 1 else 0)"
proof -
  have d: "distinct (map ldEventId (lgDecisions db))" using assms by (simp add: ledger_ok_def)
  from assms have "map application_key (lgApplications db) = map decision_key (lgDecisions db)" by (simp add: ledger_ok_def)
  then have "map (fst \<circ> snd) (map application_key (lgApplications db)) = map (fst \<circ> snd) (map decision_key (lgDecisions db))" by simp
  then have events: "map apEventId (lgApplications db) = map ldEventId (lgDecisions db)"
    by (simp add: comp_def application_key_def decision_key_def)
  then have "apEventId ` set (lgApplications db) = ldEventId ` set (lgDecisions db)" by (metis list.set_map)
  with d events count_key [of apEventId "lgApplications db" i] count_key [OF d, of i]
  show "length (filter (\<lambda>d. ldEventId d = i) (lgDecisions db)) = (if i \<in> ldEventId ` set (lgDecisions db) then 1 else 0)"
    "length (filter (\<lambda>a. apEventId a = i) (lgApplications db)) = (if i \<in> ldEventId ` set (lgDecisions db) then 1 else 0)"
    by simp_all
qed

text \<open>
  Claim C6. Exactly once. Along every sequence of store operations the ledger stays consistent, and an event
  that is not a directly handled permission fact has exactly one decision and exactly one application
  if it is processed, and none of either if it is not.
\<close>

theorem ledger_exactly_once:
  assumes "ledger_run db db'" and "ledger_ok db"
  shows "ledger_ok db' \<and> (\<forall>r \<in> set (lgEvents db'). erType r \<notin> set permission_event_types \<longrightarrow>
    length (filter (\<lambda>d. ldEventId d = erId r) (lgDecisions db')) = (if erStatus r = EventProcessed then 1 else 0)
    \<and> length (filter (\<lambda>a. apEventId a = erId r) (lgApplications db')) = (if erStatus r = EventProcessed then 1 else 0))"
proof -
  have ok: "ledger_ok db'" using assms by (rule ledger.run_keeps)
  have "erStatus r = EventProcessed \<longleftrightarrow> erId r \<in> ldEventId ` set (lgDecisions db')"
    if r: "r \<in> set (lgEvents db')" "erType r \<notin> set permission_event_types" for r
  proof -
    from ok r(1) have "event_ok (ldEventId ` set (lgDecisions db')) r" by (simp add: ledger_ok_def)
    with r(2) show ?thesis by (simp add: event_ok_def split: if_splits)
  qed
  with ok ok_counts [OF ok] show ?thesis by simp
qed

text \<open>
  Claim C8. An applied decision is final: whatever the store is asked to do afterwards, the same
  application row stays applied, keeps its completion time and is never attempted again.
\<close>

theorem applied_is_final:
  assumes "ledger_run db db'" and "a \<in> set (lgApplications db)" and "apStatus a = AppApplied"
  shows "\<exists>b \<in> set (lgApplications db'). application_key b = application_key a \<and> apStatus b = AppApplied
    \<and> apApplyAttempts b = apApplyAttempts a \<and> apAppliedAt b = apAppliedAt a"
proof -
  from assms(2,3) have "applied_row (application_key a) (apApplyAttempts a) (apAppliedAt a) db" unfolding applied_row_def list_ex_iff by blast
  with assms(1) have "applied_row (application_key a) (apApplyAttempts a) (apAppliedAt a) db'" by (rule applied.run_keeps)
  then show ?thesis unfolding applied_row_def list_ex_iff .
qed

text \<open>
  Applications move along one state machine: no operation removes an application or changes its
  identity, every status change is a legal move, the attempt counter counts exactly the moves from
  pending to applying, and a new application is pending and unattempted.
\<close>

theorem application_lifecycle:
  assumes "ledger_op_allowed op"
  shows "applications_evolve (lgApplications db) (lgApplications (ledger_step op db))"
  using assms by (rule step_evolves)

text \<open>
  Claim C22. Startup reconciliation strands nothing and loses nothing, whatever state the crash left: afterwards
  no event is being processed and no application is being applied. An interrupted event that already
  has a decision is processed, one without is pending again, both with their stored event; an
  interrupted application is pending again; every other row is unchanged, and the report counts the
  interrupted rows.
\<close>

theorem recovery_strands_nothing:
  assumes "reconcileProcessing db = (n, db')"
  shows "list_all (\<lambda>r. erStatus r \<noteq> EventProcessing) (lgEvents db')
    \<and> list_all (\<lambda>a. apStatus a \<noteq> AppApplying) (lgApplications db')
    \<and> list_all2 (\<lambda>r r'. if erStatus r = EventProcessing
          then erStatus r' = (if has_decision db r then EventProcessed else EventPending) \<and> erEvent r' = erEvent r \<and> erId r' = erId r
          else r' = r)
        (lgEvents db) (lgEvents db')
    \<and> list_all2 (\<lambda>a a'. if apStatus a = AppApplying
          then apStatus a' = AppPending \<and> application_key a' = application_key a \<and> apApplyAttempts a' = apApplyAttempts a
          else a' = a)
        (lgApplications db) (lgApplications db')
    \<and> lgDecisions db' = lgDecisions db
    \<and> n = length (filter (\<lambda>r. erStatus r = EventProcessing) (lgEvents db)) + countByApplicationStatus db AppApplying"
proof -
  from assms have db': "lgEvents db' = map (reconcile_event db) (lgEvents db)"
    "lgApplications db' = update_rows (\<lambda>a. apStatus a = AppApplying)
       (\<lambda>a. a\<lparr>apStatus := AppPending, apApplyingAt := None, apUpdatedAt := apCreatedAt a\<rparr>) (lgApplications db)"
    "lgDecisions db' = lgDecisions db"
    and n: "n = length (filter (\<lambda>r. erStatus r = EventProcessing) (lgEvents db)) + countByApplicationStatus db AppApplying"
    by (auto simp: reconcileProcessing_def update_applications_def countByApplicationStatus_def)
  have "list_all2 (\<lambda>r r'. if erStatus r = EventProcessing
        then erStatus r' = (if has_decision db r then EventProcessed else EventPending) \<and> erEvent r' = erEvent r \<and> erId r' = erId r
        else r' = r) (lgEvents db) (lgEvents db')"
    unfolding db' by (simp add: list_all2_map2 list_all2_same reconcile_event_def)
  moreover have "list_all (\<lambda>r. erStatus r \<noteq> EventProcessing) (lgEvents db')"
    unfolding db' by (simp add: list_all_length reconcile_event_def)
  moreover have "list_all (\<lambda>a. apStatus a \<noteq> AppApplying) (lgApplications db')"
    unfolding db' by (simp add: list_all_length update_rows_def)
  moreover have "list_all2 (\<lambda>a a'. if apStatus a = AppApplying
        then apStatus a' = AppPending \<and> application_key a' = application_key a \<and> apApplyAttempts a' = apApplyAttempts a
        else a' = a) (lgApplications db) (lgApplications db')"
    unfolding db' by (simp add: update_rows_def list_all2_map2 list_all2_same)
  ultimately show ?thesis using n db'(3) by blast
qed

lemma admitted_answers:
  assumes "ledger_ok db" and "admitPermissionResolution e p db = (Inr (True, ev), db')" and "evCorrelationId e = prRequestId p"
  shows "answered (prRequestId p) ev db' \<and> ev = (e, PermissionResolutionReceived p)"
proof -
  let ?hit = "\<lambda>r. erType r = ''permission_resolution_received'' \<and> erCorrelationId r = prRequestId p"
  let ?new = "(e, PermissionResolutionReceived p)"
  from assms(2) have run: "admit_resolution e p db = Inr ((True, ev), db')"
    by (simp add: admitPermissionResolution_def rollback_def split: sum.splits prod.splits)
  have prev: "findPermissionResolution (prRequestId p) db = Inr None"
  proof (cases "findPermissionResolution (prRequestId p) db")
    case (Inr x)
    with run show ?thesis by (cases x) (simp_all add: admit_resolution_def)
  qed (use run in \<open>simp add: admit_resolution_def\<close>)
  then have ins: "ev = ?new \<and> insertEvent ?new (evOccurredAt e) db = Inr (True, db')"
    using run by (cases "insertEvent ?new (evOccurredAt e) db") (auto simp: admit_resolution_def split: if_splits prod.splits)
  then have db': "db' = db\<lparr>lgEvents := lgEvents db @ [new_event_row ?new (evOccurredAt e)]\<rparr>"
    by (auto simp: insertEvent_def split: if_splits)
  have none: "find ?hit (lgEvents db) = None"
  proof (cases "find ?hit (lgEvents db)")
    case (Some r)
    then have r: "r \<in> set (lgEvents db)" "erType r = ''permission_resolution_received''" using find_Some_mem [OF Some] by simp_all
    from assms(1) r(1) have "event_ok (ldEventId ` set (lgDecisions db)) r" by (simp add: ledger_ok_def)
    then have st: "stored_as (erId r) (erType r) (erEvent r)" by (simp add: event_ok_def)
    with prev Some r show ?thesis by (cases "erEvent r") (simp_all add: findPermissionResolution_def)
  qed
  have "find ?hit (lgEvents db') = Some (new_event_row ?new (evOccurredAt e))"
    unfolding db' using none assms(3) by (simp add: find_append new_event_row_def Let_def)
  then show ?thesis using ins by (simp add: answered_def)
qed

lemma answered_refuses:
  assumes "answered (prRequestId q) ev db" and "event_type (snd ev) = ''permission_resolution_received''"
  shows "admitPermissionResolution e q db = (Inr (False, ev), db)
    \<or> admitPermissionResolution e q db = (Inl erased_event, db)
      \<and> (\<exists>r \<in> set (lgEvents db). erId r = evId (fst ev) \<and> erEvent r = None)"
proof -
  from assms(1) obtain r where hit: "find (\<lambda>r. erType r = ''permission_resolution_received'' \<and> erCorrelationId r = prRequestId q) (lgEvents db) = Some r"
    and r: "erId r = evId (fst ev)" "erEvent r = Some ev \<or> erEvent r = None"
    by (auto simp: answered_def split: option.splits)
  from r(2) show ?thesis
  proof
    assume "erEvent r = Some ev"
    with hit assms(2) show ?thesis
      by (simp add: admitPermissionResolution_def admit_resolution_def rollback_def findPermissionResolution_def)
  next
    assume gone: "erEvent r = None"
    have "r \<in> set (lgEvents db)" using find_Some_mem [OF hit] by simp
    with hit gone r(1) show ?thesis
      by (auto simp: admitPermissionResolution_def admit_resolution_def rollback_def findPermissionResolution_def)
  qed
qed

text \<open>
  Claim C23. The first answer to a permission request wins: once an answer was admitted under its request id, then
  after any further operations of the store every answer to the same request is refused without
  changing anything; the call returns the first answer, or fails if that answer was since erased with
  its Conversation.
\<close>

theorem first_resolution_wins:
  assumes "ledger_ok db" and "admitPermissionResolution e p db = (Inr (True, ev), db')"
    and "evCorrelationId e = prRequestId p" and "ledger_run db' db''" and "prRequestId q = prRequestId p"
  shows "admitPermissionResolution e' q db'' = (Inr (False, ev), db'')
    \<or> admitPermissionResolution e' q db'' = (Inl erased_event, db'')
      \<and> (\<exists>r \<in> set (lgEvents db''). erId r = evId (fst ev) \<and> erEvent r = None)"
proof -
  from admitted_answers [OF assms(1-3)] have now: "answered (prRequestId p) ev db'" and ev: "ev = (e, PermissionResolutionReceived p)" by blast+
  from answers.run_keeps [OF assms(4) now] have "answered (prRequestId q) ev db''" by (simp add: assms(5))
  then show ?thesis by (rule answered_refuses) (simp add: ev)
qed

subsection \<open>Witnesses\<close>

definition sample_envelope :: "string \<Rightarrow> KernelEventEnvelope" where
  "sample_envelope i = \<lparr>evConfigurationRevision = ''r1'', evId = i, evCorrelationId = ''q1'', evCausationId = None,
     evOccurredAt = ''1000'', evSessionId = ''ses1'', evConversationId = None, evSourceTurnId = None,
     evWorkspaceId = None, evTaskId = Some ''t1'', evSubtaskId = None, evAttemptId = None\<rparr>"

definition sample_kernel_event :: kernel_event where
  "sample_kernel_event = (sample_envelope ''e1'', DispatchRequested ''go'' None)"

definition sample_record :: KernelDecisionLedgerRecord where
  "sample_record = \<lparr>ldId = ''decision_e1'', ldEventId = ''e1'', ldEventType = ''dispatch_requested'', ldCorrelationId = ''q1'', ldCausationId = None,
     ldSessionId = ''ses1'', ldTaskId = Some ''t1'', ldSubtaskId = None, ldAttemptId = None, ldEvent = sample_kernel_event,
     ldSnapshot = \<lparr>snProductionAuthorization = None, snBody = InvalidSnapshot ''none''\<rparr>,
     ldDecision = decision (sample_envelope ''e1'') NoOp ''idle'', ldAction = ''no_op'', ldReason = ''idle'', ldConfigurationRevision = ''r1'',
     ldAuthorizedBindings = [], ldBindingFingerprints = [], ldCreatedAt = ''1000''\<rparr>"

definition sample_ledger :: ledger_db where
  "sample_ledger = \<lparr>lgEvents = [], lgDecisions = [], lgApplications = [], lgConfigurationRevisions = [''r1''], lgDeletedTasks = []\<rparr>"

definition sample_claimed :: ledger_db where
  "sample_claimed = ledger_step (ClaimNextOp ''2000'' None None None) (ledger_step (EnqueueOp sample_kernel_event None) sample_ledger)"

definition sample_applying :: ledger_db where
  "sample_applying = ledger_step (MarkApplyingOp ''decision_e1'' ''2000'') (ledger_step (IssueOp sample_record) sample_claimed)"

definition sample_finished :: ledger_db where
  "sample_finished = ledger_step (MarkAppliedOp ''decision_e1'' None ''2000'') sample_applying"

lemma sample_claimed_rows:
  "sample_claimed = sample_ledger\<lparr>lgEvents := [(new_event_row sample_kernel_event ''1000'')
     \<lparr>erStatus := EventProcessing, erProcessingStartedAt := Some ''2000'', erUpdatedAt := ''2000''\<rparr>]\<rparr>"
  by (simp add: sample_claimed_def sample_ledger_def enqueue_def rollback_def insertEvent_def claimNext_def claimable_def in_types_def
      matches_filter_def update_rows_def sample_kernel_event_def sample_envelope_def new_event_row_def)

lemma sample_applying_rows:
  "sample_applying = sample_ledger\<lparr>lgEvents := processed_by sample_record (lgEvents sample_claimed),
     lgDecisions := [KernelDecisionLedgerRecord.extend sample_record \<lparr>ldErased = False\<rparr>],
     lgApplications := [(new_application ''e1'' sample_record)\<lparr>apStatus := AppApplying, apApplyAttempts := 1, apApplyingAt := Some ''2000'',
       apUpdatedAt := ''2000''\<rparr>]\<rparr>"
proof -
  have "issue_transaction ''e1'' sample_record sample_claimed = Inr (findApplication ''decision_e1'' (sample_ledger\<lparr>lgEvents := processed_by sample_record (lgEvents sample_claimed),
     lgDecisions := [KernelDecisionLedgerRecord.extend sample_record \<lparr>ldErased = False\<rparr>], lgApplications := [new_application ''e1'' sample_record]\<rparr>),
     sample_ledger\<lparr>lgEvents := processed_by sample_record (lgEvents sample_claimed),
     lgDecisions := [KernelDecisionLedgerRecord.extend sample_record \<lparr>ldErased = False\<rparr>], lgApplications := [new_application ''e1'' sample_record]\<rparr>)"
    unfolding sample_claimed_rows
    by (simp add: issue_transaction_def insertIfAbsent_def insert_application_def application_known_def new_application_def processed_by_def
        sample_record_def sample_ledger_def sample_kernel_event_def sample_envelope_def Let_def)
  then have "ledger_step (IssueOp sample_record) sample_claimed = sample_ledger\<lparr>lgEvents := processed_by sample_record (lgEvents sample_claimed),
     lgDecisions := [KernelDecisionLedgerRecord.extend sample_record \<lparr>ldErased = False\<rparr>], lgApplications := [new_application ''e1'' sample_record]\<rparr>"
    by (simp add: snd_issue rollback_def sample_record_def)
  then show ?thesis
    unfolding sample_applying_def by (simp add: markApplying_def update_applications_def update_rows_def is_application_def new_application_def
      sample_record_def Let_def split: option.split)
qed

lemma sample_ledger_runs: "ledger_run sample_ledger sample_applying" "ledger_run sample_applying sample_finished" "ledger_run sample_ledger sample_claimed"
proof -
  have a: "ledger_run sample_ledger (ledger_step (EnqueueOp sample_kernel_event None) sample_ledger)" by (intro ledger_run.intros) simp_all
  show c: "ledger_run sample_ledger sample_claimed" unfolding sample_claimed_def by (rule run_step [OF a]) simp
  have i: "ledger_run sample_ledger (ledger_step (IssueOp sample_record) sample_claimed)" by (rule run_step [OF c]) simp
  show "ledger_run sample_ledger sample_applying" unfolding sample_applying_def by (rule run_step [OF i]) simp
  show "ledger_run sample_applying sample_finished" unfolding sample_finished_def by (rule run_step [OF run_refl]) simp
qed

lemma sample_ledger_ok: "ledger_ok sample_ledger"
  by (simp add: ledger_ok_def sample_ledger_def)

theorem ledger_exactly_once_witness:
  "list_all (\<lambda>r. length (filter (\<lambda>a. apEventId a = erId r) (lgApplications sample_applying)) = 1) (lgEvents sample_applying)"
proof -
  have "list_all (\<lambda>r. erStatus r = EventProcessed \<and> erType r \<notin> set permission_event_types) (lgEvents sample_applying)"
    by (simp add: sample_applying_rows processed_by_def update_rows_def sample_claimed_rows permission_event_types_def
        sample_record_def sample_kernel_event_def sample_envelope_def)
  with ledger_exactly_once [OF sample_ledger_runs(1) sample_ledger_ok] show ?thesis by (simp add: list_all_iff)
qed

lemma sample_finished_rows: "map (\<lambda>a. (apStatus a, apAppliedAt a)) (lgApplications sample_finished) = [(AppApplied, Some ''2000'')]"
  by (simp add: sample_finished_def markApplied_def rollback_def complete_application_def sample_applying_rows update_applications_def update_rows_def
      is_application_def new_application_def sample_record_def)

theorem applied_is_final_witness:
  "list_ex (\<lambda>a. apStatus a = AppApplied \<and> apAppliedAt a = Some ''2000'') (lgApplications (ledger_step ReconcileOp sample_finished))"
proof -
  from sample_finished_rows obtain a where "a \<in> set (lgApplications sample_finished)" "apStatus a = AppApplied" "apAppliedAt a = Some ''2000''"
    by (auto simp: map_eq_Cons_conv)
  with applied_is_final [of sample_finished "ledger_step ReconcileOp sample_finished" a] show ?thesis
    unfolding list_ex_iff by (metis ledger_run.intros ledger_op_allowed.simps)
qed

theorem application_lifecycle_witness:
  "applications_evolve (lgApplications sample_applying) (lgApplications (markApplicationFailed ''decision_e1'' AppUncertain ''lost'' ''2001'' sample_applying))"
  using application_lifecycle [of "MarkFailedOp ''decision_e1'' AppUncertain ''lost'' ''2001''" sample_applying] by simp

theorem recovery_strands_nothing_witness:
  "(\<exists>n db. reconcileProcessing sample_applying = (n, db) \<and> n = 1 \<and> list_all (\<lambda>a. apStatus a \<noteq> AppApplying) (lgApplications db)
      \<and> list_all (\<lambda>r. erStatus r = EventProcessed) (lgEvents db))
   \<and> list_all (\<lambda>r. erStatus r = EventPending) (lgEvents (snd (reconcileProcessing sample_claimed)))"
proof -
  have a: "map erStatus (lgEvents sample_applying) = [EventProcessed]" "map apStatus (lgApplications sample_applying) = [AppApplying]"
    and c: "map erStatus (lgEvents sample_claimed) = [EventProcessing]" "lgDecisions sample_claimed = []"
    by (simp_all add: sample_applying_rows sample_claimed_rows processed_by_def update_rows_def sample_record_def sample_kernel_event_def
        sample_envelope_def sample_ledger_def)
  from a obtain r x where rows: "lgEvents sample_applying = [r]" "erStatus r = EventProcessed" "lgApplications sample_applying = [x]" "apStatus x = AppApplying"
    by (auto simp: map_eq_Cons_conv)
  from c obtain y where row: "lgEvents sample_claimed = [y]" "erStatus y = EventProcessing" by (auto simp: map_eq_Cons_conv)
  have d: "\<not> has_decision sample_claimed y" using c(2) by (simp add: has_decision_def)
  show ?thesis
    using recovery_strands_nothing [of sample_applying "fst (reconcileProcessing sample_applying)" "snd (reconcileProcessing sample_applying)"]
      recovery_strands_nothing [of sample_claimed "fst (reconcileProcessing sample_claimed)" "snd (reconcileProcessing sample_claimed)"]
    by (cases "reconcileProcessing sample_applying") (auto simp: rows row d list_all2_Cons1 countByApplicationStatus_def)
qed

definition sample_answer :: "AuthorizationAnswer \<Rightarrow> PermissionResolution" where
  "sample_answer x = \<lparr>prRequestId = ''q1'', prResolution = x, prSource = CommandSource, prPlannerPlanId = None\<rparr>"

theorem first_resolution_wins_witness:
  "\<exists>ev db. admitPermissionResolution (sample_envelope ''e1'') (sample_answer Approve) sample_ledger = (Inr (True, ev), db)
     \<and> admitPermissionResolution (sample_envelope ''e2'') (sample_answer Deny) (ledger_step (PermissionAppliedOp ''e1'' ''2000'') db)
         = (Inr (False, ev), ledger_step (PermissionAppliedOp ''e1'' ''2000'') db)"
proof -
  let ?ev = "(sample_envelope ''e1'', PermissionResolutionReceived (sample_answer Approve))"
  let ?db = "sample_ledger\<lparr>lgEvents := [new_event_row ?ev ''1000'']\<rparr>"
  have one: "admitPermissionResolution (sample_envelope ''e1'') (sample_answer Approve) sample_ledger = (Inr (True, ?ev), ?db)"
    by (simp add: admitPermissionResolution_def admit_resolution_def rollback_def findPermissionResolution_def insertEvent_def
        sample_ledger_def sample_envelope_def)
  have run: "ledger_run ?db (ledger_step (PermissionAppliedOp ''e1'' ''2000'') ?db)" by (rule run_step [OF run_refl]) simp
  have kept: "\<forall>r \<in> set (lgEvents (ledger_step (PermissionAppliedOp ''e1'' ''2000'') ?db)). erEvent r \<noteq> None"
    by (simp add: markPermissionEventApplied_def update_rows_def new_event_row_def Let_def)
  from first_resolution_wins [OF sample_ledger_ok one _ run, of "sample_answer Deny" "sample_envelope ''e2''"] kept
  have "admitPermissionResolution (sample_envelope ''e2'') (sample_answer Deny) (ledger_step (PermissionAppliedOp ''e1'' ''2000'') ?db)
      = (Inr (False, ?ev), ledger_step (PermissionAppliedOp ''e1'' ''2000'') ?db)"
    by (auto simp: sample_envelope_def sample_answer_def)
  with one show ?thesis by blast
qed

end
