(* ===== verification/Kernel_Queries.thy ===== *)
theory Kernel_Queries
  imports Kernel_Ledger
begin

text \<open>
  The read side of the ledger (\<open>src/src/storage/kernel-decision-repo.ts\<close> and the listings of
  \<open>src/src/storage/kernel-workflow-repo.ts\<close>): records in order, bounded timelines, the current decision
  of a Task, and permission work.

  \<open>listPresentationIdentitiesByTasks\<close> reads inside stored JSON by path, and \<open>listCapacitySignals\<close> selects by the
  cycle id, which no decision reads; both are not modelled.
\<close>

subsection \<open>Decision records\<close>

definition decision_order :: "decision_row \<Rightarrow> decision_row \<Rightarrow> int" where
  "decision_order l r = cmp_or (code_unit_compare (ldCreatedAt l) (ldCreatedAt r)) (code_unit_compare (ldId l) (ldId r))"

fun each_record :: "ledger_db \<Rightarrow> decision_row list \<Rightarrow> KernelDecisionLedgerRecord list result" where
  "each_record db [] = Inr []"
| "each_record db (r # rs) = rbind (rowToDecisionRecord db r) (\<lambda>x. rbind (each_record db rs) (\<lambda>xs. Inr (x # xs)))"

definition list_records :: "(decision_row \<Rightarrow> bool) \<Rightarrow> ledger_db \<Rightarrow> KernelDecisionLedgerRecord list result" where
  "list_records p db = each_record db (js_sort decision_order (filter p (lgDecisions db)))"

definition listBySession :: "string \<Rightarrow> ledger_db \<Rightarrow> KernelDecisionLedgerRecord list result" where
  "listBySession sessionId db = list_records (\<lambda>d. ldSessionId d = sessionId) db"

definition listByCorrelation :: "string \<Rightarrow> ledger_db \<Rightarrow> KernelDecisionLedgerRecord list result" where
  "listByCorrelation correlationId db = list_records (\<lambda>d. ldCorrelationId d = correlationId) db"

definition listByTask :: "string \<Rightarrow> ledger_db \<Rightarrow> KernelDecisionLedgerRecord list result" where
  "listByTask task db = list_records (\<lambda>d. ldTaskId d = Some task) db"

subsection \<open>Timelines\<close>

record KernelDecisionTimelineRecord =
  tlAction :: string
  tlTaskId :: "string option"
  tlSubtaskId :: "string option"
  tlReason :: string

definition timeline_record :: "decision_row \<Rightarrow> KernelDecisionTimelineRecord" where
  "timeline_record d = \<lparr>tlAction = ldAction d, tlTaskId = ldTaskId d, tlSubtaskId = ldSubtaskId d, tlReason = ldReason d\<rparr>"

text \<open>The inner query takes the newest rows, the outer one puts them back in order.\<close>

definition newest :: "nat \<Rightarrow> decision_row list \<Rightarrow> decision_row list" where
  "newest n rows = js_sort decision_order (take n (js_sort (\<lambda>l r. decision_order r l) rows))"

definition listTimelineByTask :: "string \<Rightarrow> int \<Rightarrow> ledger_db \<Rightarrow> KernelDecisionTimelineRecord list" where
  "listTimelineByTask task limit db = map timeline_record (newest (nat (max 1 limit)) (filter (\<lambda>d. ldTaskId d = Some task) (lgDecisions db)))"

definition later_than :: "decision_row \<Rightarrow> decision_row \<Rightarrow> bool" where
  "later_than later d \<longleftrightarrow> ldCreatedAt d < ldCreatedAt later \<or> ldCreatedAt later = ldCreatedAt d \<and> ldId d < ldId later"

definition row_position :: "decision_row list \<Rightarrow> decision_row \<Rightarrow> nat" where
  "row_position rows d = Suc (length (filter (\<lambda>e. ldTaskId e = ldTaskId d \<and> later_than e d) rows))"

definition listTimelineByTasks :: "string list \<Rightarrow> int \<Rightarrow> ledger_db \<Rightarrow> KernelDecisionTimelineRecord list result" where
  "listTimelineByTasks tasks limit db =
     (if tasks = [] then Inr []
      else if 100 < length tasks \<or> \<bar>limit\<bar> > 9007199254740991 \<or> limit < 1 then Inl ''timeline_task_limit''
      else let rows = filter (\<lambda>d. \<exists>t \<in> set tasks. ldTaskId d = Some t) (lgDecisions db) in
        Inr (map timeline_record (js_sort decision_order (filter (\<lambda>d. int (row_position rows d) \<le> min limit 200) rows))))"

subsection \<open>The current decision of a Task\<close>

definition neutral_actions :: "string list" where
  "neutral_actions = [''no_op'', ''probe_capacity'']"

definition superseded :: "decision_row list \<Rightarrow> decision_row \<Rightarrow> bool" where
  "superseded rows d \<longleftrightarrow> list_ex (\<lambda>later. ldTaskId later = ldTaskId d \<and> ldAction later \<notin> set neutral_actions \<and> later_than later d) rows"

definition current_decision :: "string \<Rightarrow> ledger_db \<Rightarrow> decision_row \<Rightarrow> bool" where
  "current_decision action db d \<longleftrightarrow> ldAction d = action \<and> ldTaskId d \<noteq> None \<and> \<not> superseded (lgDecisions db) d"

definition listCurrentByAction :: "string \<Rightarrow> ledger_db \<Rightarrow> KernelDecisionLedgerRecord list result" where
  "listCurrentByAction action db = list_records (current_decision action db) db"

definition listCurrentTaskIdsByAction :: "string \<Rightarrow> string list \<Rightarrow> ledger_db \<Rightarrow> string list" where
  "listCurrentTaskIdsByAction action tasks db = filter (\<lambda>t. list_ex (\<lambda>d. ldTaskId d = Some t \<and> ldAction d = action
     \<and> \<not> superseded (lgDecisions db) d) (lgDecisions db)) (js_dedup tasks)"

subsection \<open>Permission work\<close>

record permission_work =
  pwEventId :: string
  pwRequestId :: string
  pwSessionId :: string
  pwDecisionId :: "string option"
  pwStatus :: "KernelApplicationStatus option"

definition created_order :: "event_row \<Rightarrow> event_row \<Rightarrow> int" where
  "created_order l r = cmp_or (code_unit_compare (erCreatedAt l) (erCreatedAt r)) (code_unit_compare (erId l) (erId r))"

definition application_of_event :: "ledger_db \<Rightarrow> event_row \<Rightarrow> application_row option" where
  "application_of_event db r = Option.bind (find (\<lambda>d. ldEventId d = erId r) (lgDecisions db)) (\<lambda>d.
     find (\<lambda>a. apDecisionId a = ldId d) (lgApplications db))"

definition permission_work_of :: "ledger_db \<Rightarrow> event_row \<Rightarrow> permission_work" where
  "permission_work_of db r = \<lparr>pwEventId = erId r, pwRequestId = erCorrelationId r, pwSessionId = erSessionId r,
     pwDecisionId = map_option apDecisionId (application_of_event db r), pwStatus = map_option apStatus (application_of_event db r)\<rparr>"

definition listPermissionWork :: "int \<Rightarrow> ledger_db \<Rightarrow> permission_work list" where
  "listPermissionWork limit db = map (permission_work_of db) (take (nat (max 1 (min 128 limit)))
     (js_sort created_order (filter (\<lambda>r. erType r \<in> set permission_event_types
        \<and> (erStatus r = EventPending \<or> (case application_of_event db r of None \<Rightarrow> False | Some a \<Rightarrow> apStatus a \<in> {AppPending, AppUncertain})))
        (lgEvents db))))"

subsection \<open>Properties\<close>

lemma each_record_Inr: "each_record db rows = Inr rs \<Longrightarrow> rs = map KernelDecisionLedgerRecord.truncate rows"
  by (induction rows arbitrary: rs) (auto simp: rowToDecisionRecord_def split: if_splits)

lemma each_record_Inl: "d \<in> set rows \<Longrightarrow> rowToDecisionRecord db d = Inl e \<Longrightarrow> \<exists>e'. each_record db rows = Inl e'"
proof (induction rows)
  case (Cons r rows)
  then show ?case by (cases "rowToDecisionRecord db r"; cases "each_record db rows") auto
qed simp

lemma truncate_simps [simp]:
  "ldTaskId (KernelDecisionLedgerRecord.truncate d) = ldTaskId d" "ldAction (KernelDecisionLedgerRecord.truncate d) = ldAction d"
  "ldCreatedAt (KernelDecisionLedgerRecord.truncate d) = ldCreatedAt d" "ldId (KernelDecisionLedgerRecord.truncate d) = ldId d"
  by (simp_all add: KernelDecisionLedgerRecord.truncate_def)

lemma extend_simps [simp]:
  "ldTaskId (KernelDecisionLedgerRecord.extend r m) = ldTaskId r" "ldAction (KernelDecisionLedgerRecord.extend r m) = ldAction r"
  "ldCreatedAt (KernelDecisionLedgerRecord.extend r m) = ldCreatedAt r"
  "KernelDecisionLedgerRecord.truncate (KernelDecisionLedgerRecord.extend r m) = r"
  by (simp_all add: KernelDecisionLedgerRecord.extend_def KernelDecisionLedgerRecord.truncate_def)

lemma later_total: "later_than a b \<or> later_than b a \<or> ldId a = ldId b"
  by (auto simp: later_than_def not_less_iff_gr_or_eq)

lemma current_unique:
  assumes "ledger_ok db" and "a \<notin> set neutral_actions" and "current_decision a db d" and "current_decision a db e"
    and "d \<in> set (lgDecisions db)" and "e \<in> set (lgDecisions db)" and "ldTaskId d = ldTaskId e"
  shows "d = e"
proof -
  have "\<not> later_than d e" "\<not> later_than e d" using assms(2-7) by (auto simp: current_decision_def superseded_def list_ex_iff)
  then have "ldId d = ldId e" using later_total by blast
  moreover have "distinct (map ldId (lgDecisions db))" using assms(1) by (simp add: ledger_ok_def)
  ultimately show ?thesis using assms(5,6) by (metis eq_key_imp_eq_value inj_on_def distinct_map)
qed

text \<open>
  Claim C37. The current decisions of an action are exact: when the listing succeeds it has one record per Task, and a
  record is listed exactly if it is a decision with that action for some Task and no decision of the
  Task other than a no-op or a capacity probe is later.
\<close>

theorem current_listing_exact:
  assumes "ledger_ok db" and "action \<notin> set neutral_actions" and "listCurrentByAction action db = Inr rs"
  shows "distinct (map ldTaskId rs)
    \<and> set rs = {KernelDecisionLedgerRecord.truncate d | d. d \<in> set (lgDecisions db) \<and> ldAction d = action \<and> ldTaskId d \<noteq> None
        \<and> \<not> (\<exists>e \<in> set (lgDecisions db). ldTaskId e = ldTaskId d \<and> ldAction e \<notin> {''no_op'', ''probe_capacity''}
              \<and> (ldCreatedAt d < ldCreatedAt e \<or> ldCreatedAt e = ldCreatedAt d \<and> ldId d < ldId e))}"
proof
  let ?rows = "js_sort decision_order (filter (current_decision action db) (lgDecisions db))"
  have rs: "rs = map KernelDecisionLedgerRecord.truncate ?rows"
    using each_record_Inr assms(3) by (simp add: listCurrentByAction_def list_records_def)
  have "distinct (lgDecisions db)" using assms(1) by (auto simp: ledger_ok_def distinct_map)
  moreover have "inj_on ldTaskId (set ?rows)" by (rule inj_onI) (use current_unique [OF assms(1,2)] in auto)
  ultimately show "distinct (map ldTaskId rs)" unfolding rs by (simp add: distinct_map comp_def)
  have "set rs = KernelDecisionLedgerRecord.truncate ` {d \<in> set (lgDecisions db). current_decision action db d}" unfolding rs by simp
  then show "set rs = {KernelDecisionLedgerRecord.truncate d | d. d \<in> set (lgDecisions db) \<and> ldAction d = action \<and> ldTaskId d \<noteq> None
        \<and> \<not> (\<exists>e \<in> set (lgDecisions db). ldTaskId e = ldTaskId d \<and> ldAction e \<notin> {''no_op'', ''probe_capacity''}
              \<and> (ldCreatedAt d < ldCreatedAt e \<or> ldCreatedAt e = ldCreatedAt d \<and> ldId d < ldId e))}"
    unfolding current_decision_def superseded_def list_ex_iff later_than_def neutral_actions_def by auto
qed

lemma list_ex_update_rows: "(\<And>r. q (f r) = q r) \<Longrightarrow> list_ex q (update_rows p f rows) = list_ex q rows"
  by (induction rows) (simp_all add: update_rows_def)

lemma erased_decisions:
  "lgDecisions (erase_conversation ss ts db) = update_rows (\<lambda>d. in_deletion ss ts (ldSessionId d) (ldTaskId d))
     (\<lambda>d. d\<lparr>ldErased := True, ldReason := []\<rparr>) (lgDecisions db)"
  by (simp add: erase_conversation_def)

lemma current_after_erase:
  "superseded (lgDecisions (erase_conversation ss ts db)) (d\<lparr>ldErased := True, ldReason := []\<rparr>) = superseded (lgDecisions db) d"
  unfolding superseded_def erased_decisions by (subst list_ex_update_rows) (simp_all add: later_than_def)

text \<open>
  Claim C38. A deleted Conversation blocks the listing of current decisions for everybody: once one of its Tasks has a
  current decision of some action, listing that action throws, whichever other Tasks wait for it; it does so as
  soon as the deletion begins, and after its rows are erased.
\<close>

theorem deletion_blocks_listing:
  assumes "d \<in> set (lgDecisions db)" and "ldTaskId d = Some t" and "t \<in> set tasks" and "t \<noteq> []" and "current_decision action db d"
  shows "(\<exists>e. listCurrentByAction action (begin_deletion tasks db) = Inl e)
    \<and> (\<exists>e. listCurrentByAction action (erase_conversation sessions tasks db) = Inl e)"
proof
  have "current_decision action (begin_deletion tasks db) d" "d \<in> set (lgDecisions (begin_deletion tasks db))"
    using assms(1,5) by (simp_all add: current_decision_def begin_deletion_def)
  moreover have "rowToDecisionRecord (begin_deletion tasks db) d = Inl ''conversation_deleted''"
    using assms(2-4) by (simp add: rowToDecisionRecord_def begin_deletion_def)
  ultimately show "\<exists>e. listCurrentByAction action (begin_deletion tasks db) = Inl e"
    unfolding listCurrentByAction_def list_records_def by (intro each_record_Inl [of d]) auto
next
  let ?db = "erase_conversation sessions tasks db" and ?d = "d\<lparr>ldErased := True, ldReason := []\<rparr>"
  have "?d \<in> set (lgDecisions ?db)" using assms(1-3) by (auto simp: erase_conversation_def set_update_rows in_deletion_def)
  moreover have "current_decision action ?db ?d"
    using assms(5) current_after_erase [of sessions tasks db d] by (simp add: current_decision_def)
  moreover obtain e where "rowToDecisionRecord ?db ?d = Inl e"
    by (cases "rowToDecisionRecord ?db ?d") (auto simp: rowToDecisionRecord_def split: if_splits)
  ultimately show "\<exists>e. listCurrentByAction action ?db = Inl e" unfolding listCurrentByAction_def list_records_def by (intro each_record_Inl [of ?d]) auto
qed

lemma update_rows_kept: "r \<in> set rows \<Longrightarrow> \<not> p r \<Longrightarrow> r \<in> set (update_rows p f rows)"
  by (metis set_update_rows)

text \<open>
  A session-level decision that was still pending when its Conversation is deleted keeps its
  application pending, so it is counted, and no recovery lists it.
\<close>

lemma erased_session_stays_pending:
  assumes "a \<in> set (lgApplications db)" and "apStatus a = AppPending"
    and "\<forall>d \<in> set (lgDecisions db). ldId d = apDecisionId a \<longrightarrow> ldTaskId d = None \<and> ldSessionId d \<in> set sessions"
  shows "0 < countByApplicationStatus (erase_conversation sessions tasks db) AppPending
    \<and> (\<forall>x \<in> set (listRecoverableApplications actions task corr (erase_conversation sessions tasks db)). apDecisionId x \<noteq> apDecisionId a)"
proof
  let ?db = "erase_conversation sessions tasks db"
  have "\<not> list_ex (\<lambda>d. ldId d = apDecisionId a \<and> (\<exists>t \<in> set tasks. ldTaskId d = Some t)) (lgDecisions db)"
    using assms(3) by (auto simp: list_ex_iff)
  with update_rows_kept [OF assms(1)] have "a \<in> set (lgApplications ?db)" by (simp add: erase_conversation_def)
  then have "a \<in> set (filter (\<lambda>a. apStatus a = AppPending) (lgApplications ?db))" using assms(2) by simp
  then show "0 < countByApplicationStatus ?db AppPending" unfolding countByApplicationStatus_def by (metis length_pos_if_in_set)
  have erased: "ldErased d" if "d \<in> set (lgDecisions ?db)" "ldId d = apDecisionId a" for d
  proof -
    from that(1) obtain r where r: "r \<in> set (lgDecisions db)"
      and d: "d = (if in_deletion sessions tasks (ldSessionId r) (ldTaskId r) then r\<lparr>ldErased := True, ldReason := []\<rparr> else r)"
      unfolding erased_decisions set_update_rows by blast
    then have "ldId r = apDecisionId a" using that(2) by (simp split: if_splits)
    with assms(3) r have "in_deletion sessions tasks (ldSessionId r) (ldTaskId r)" by (simp add: in_deletion_def)
    with d show ?thesis by simp
  qed
  have none: "decision_of ?db x = None" if "apDecisionId x = apDecisionId a" for x
    using erased that by (auto simp: decision_of_def find_None_iff)
  show "\<forall>x \<in> set (listRecoverableApplications actions task corr ?db). apDecisionId x \<noteq> apDecisionId a"
  proof (rule ballI, rule notI)
    fix x assume "x \<in> set (listRecoverableApplications actions task corr ?db)" "apDecisionId x = apDecisionId a"
    then obtain y d where "decision_of ?db y = Some d" "x = rowToApplication d y"
      by (auto simp: listRecoverableApplications_def list_applications_def List.map_filter_def bind_eq_Some_conv split: if_splits)
    with none [of y] \<open>apDecisionId x = apDecisionId a\<close> show False by (simp add: rowToApplication_def application_row.defs)
  qed
qed

subsection \<open>Witnesses\<close>

definition waiting_record :: "string \<Rightarrow> string \<Rightarrow> KernelDecisionLedgerRecord" where
  "waiting_record i task = sample_record\<lparr>ldId := ''decision_'' @ i, ldEventId := i, ldTaskId := Some task, ldAction := ''wait_for_capacity''\<rparr>"

definition waiting_ledger :: ledger_db where
  "waiting_ledger = sample_ledger
     \<lparr>lgEvents := map (\<lambda>i. (new_event_row (sample_envelope i, DispatchRequested ''go'' None) ''1000'')\<lparr>erStatus := EventProcessed\<rparr>) [''e1'', ''e2''],
      lgDecisions := map (\<lambda>r. KernelDecisionLedgerRecord.extend r \<lparr>ldErased = False\<rparr>) [waiting_record ''e1'' ''t1'', waiting_record ''e2'' ''t2''],
      lgApplications := [new_application ''e1'' (waiting_record ''e1'' ''t1''), new_application ''e2'' (waiting_record ''e2'' ''t2'')]\<rparr>"

lemma waiting_ok: "ledger_ok waiting_ledger"
  by (simp add: ledger_ok_def waiting_ledger_def waiting_record_def new_application_def application_key_def decision_key_def event_ok_def
      new_event_row_def sample_envelope_def)

lemma waiting_simps [simp]:
  "ldId (waiting_record i t) = ''decision_'' @ i" "ldTaskId (waiting_record i t) = Some t" "ldAction (waiting_record i t) = ''wait_for_capacity''"
  "ldCreatedAt (waiting_record i t) = ''1000''" "lgDeletedTasks waiting_ledger = []"
  by (simp_all add: waiting_record_def sample_record_def waiting_ledger_def sample_ledger_def)

lemma waiting_current:
  "current_decision ''wait_for_capacity'' waiting_ledger (KernelDecisionLedgerRecord.extend (waiting_record ''e1'' ''t1'') m)"
  "current_decision ''wait_for_capacity'' waiting_ledger (KernelDecisionLedgerRecord.extend (waiting_record ''e2'' ''t2'') m)"
  by (simp_all add: current_decision_def superseded_def waiting_ledger_def later_than_def)

lemma waiting_listed:
  "listCurrentByAction ''wait_for_capacity'' waiting_ledger = Inr [waiting_record ''e1'' ''t1'', waiting_record ''e2'' ''t2'']"
proof -
  have "filter (current_decision ''wait_for_capacity'' waiting_ledger) (lgDecisions waiting_ledger)
      = map (\<lambda>r. KernelDecisionLedgerRecord.extend r \<lparr>ldErased = False\<rparr>) [waiting_record ''e1'' ''t1'', waiting_record ''e2'' ''t2'']"
    using waiting_current by (simp add: waiting_ledger_def)
  then show ?thesis
    by (simp add: listCurrentByAction_def list_records_def js_sort_def decision_order_def code_unit_compare_def cmp_or_def rowToDecisionRecord_def)
qed

theorem current_listing_exact_witness:
  "\<exists>rs. listCurrentByAction ''wait_for_capacity'' waiting_ledger = Inr rs \<and> length rs = 2 \<and> distinct (map ldTaskId rs)"
  using current_listing_exact [OF waiting_ok _ waiting_listed] waiting_listed by (simp add: neutral_actions_def)

theorem deletion_blocks_listing_witness:
  "(\<exists>e. listCurrentByAction ''wait_for_capacity'' (begin_deletion [''t1''] waiting_ledger) = Inl e)
    \<and> (\<exists>e. listCurrentByAction ''wait_for_capacity'' (erase_conversation [] [''t1''] waiting_ledger) = Inl e)"
  by (rule deletion_blocks_listing [where t = "''t1''" and d = "KernelDecisionLedgerRecord.extend (waiting_record ''e1'' ''t1'') \<lparr>ldErased = False\<rparr>"])
    (use waiting_current(1) in \<open>simp_all add: waiting_ledger_def\<close>)

end
