(* ===== verification/Kernel_Dispatch.thy ===== *)
theory Kernel_Dispatch
  imports Kernel_Types
begin

text \<open>
  The Kernel's decisions on dispatch snapshots (\<open>src/src/kernel/control-kernel.ts\<close>): which Subtasks
  start, with which binding, what a finished or failed attempt leads to, and when the Task is
  complete, blocked or replanned. Optional strings follow JavaScript truthiness: the empty string
  counts as absent where the source tests it. A thrown error is \<^const>\<open>Inl\<close> of its message.
\<close>

subsection \<open>Identifiers and instants\<close>

definition id_char :: "char \<Rightarrow> bool" where
  "id_char c \<longleftrightarrow> is_lower c \<or> is_upper c \<or> is_digit c \<or> c = CHR ''_'' \<or> c = CHR ''-''"

text \<open>\<^verbatim>\<open>value.replace(/[^a-zA-Z0-9_-]/g, '_')\<close>\<close>

definition sanitize_id :: "string \<Rightarrow> string" where
  "sanitize_id v = map (\<lambda>c. if id_char c then c else CHR ''_'') v"

definition boundedIdSegment :: "js_runtime \<Rightarrow> string \<Rightarrow> string \<Rightarrow> string" where
  "boundedIdSegment rt value label =
     (let sanitized = sanitize_id value in
      if length sanitized \<le> 72 then sanitized
      else take 55 sanitized @ ''_'' @ take 16 (sha256Hex rt (label @ '':'' @ value)))"

definition deterministicAttemptId :: "js_runtime \<Rightarrow> string \<Rightarrow> string \<Rightarrow> string \<Rightarrow> string \<Rightarrow> string" where
  "deterministicAttemptId rt eventId subtaskId bindingFingerprint kind =
     ''attempt_'' @ js_join ''_'' [boundedIdSegment rt eventId ''event'', boundedIdSegment rt subtaskId ''subtask'',
       bindingFingerprint, kind]"

definition deterministicTaskId :: "string \<Rightarrow> string" where
  "deterministicTaskId eventId = ''task_'' @ sanitize_id eventId"

definition generationReplanRequestId :: "string \<Rightarrow> string \<Rightarrow> int \<Rightarrow> string" where
  "generationReplanRequestId tid generationId sourceRevision =
     ''generation_replan_'' @ js_join ''_'' (map sanitize_id [tid, generationId, show_int sourceRevision])"

definition addMilliseconds :: "js_runtime \<Rightarrow> string \<Rightarrow> int \<Rightarrow> string result" where
  "addMilliseconds rt value milliseconds = (case dateParse rt value of
      None \<Rightarrow> Inr value
    | Some t \<Rightarrow> if \<bar>t + milliseconds\<bar> \<le> MAX_DATE then Inr (toISOString rt (t + milliseconds)) else Inl ''Invalid time value'')"

definition or_empty :: "string option \<Rightarrow> string" where
  "or_empty s = (case s of None \<Rightarrow> [] | Some t \<Rightarrow> t)"

definition lookup_or :: "'v \<Rightarrow> ('k \<times> 'v) list \<Rightarrow> 'k \<Rightarrow> 'v" where
  "lookup_or d m k = (case map_of m k of None \<Rightarrow> d | Some v \<Rightarrow> v)"

text \<open>\<open>slice(0, n)\<close>, which counts a negative \<open>n\<close> from the end.\<close>

definition js_slice :: "int \<Rightarrow> 'a list \<Rightarrow> 'a list" where
  "js_slice n xs = take (nat (if n < 0 then int (length xs) + n else n)) xs"

subsection \<open>Selecting work\<close>

definition isPendingOrActiveDispatch :: "KernelDispatchItemStatus \<Rightarrow> bool" where
  "isPendingOrActiveDispatch s \<longleftrightarrow> s \<in> {DPendingLaunch, DLaunching, DRunning, DCancelling}"

definition active_subtask_ids :: "DispatchSnapshot \<Rightarrow> string list" where
  "active_subtask_ids snapshot =
     map kdSubtaskId (filter (\<lambda>i. isPendingOrActiveDispatch (kdStatus i)) (dsDispatchItems snapshot))"

definition ready_subtask :: "DispatchSnapshot \<Rightarrow> string \<Rightarrow> KernelSubtaskFact option" where
  "ready_subtask snapshot i = find (\<lambda>s. ksId s = i \<and> ksStatus s = SReady) (dsSubtasks snapshot)"

definition selectDispatchableSubtasks :: "DispatchSnapshot \<Rightarrow> KernelSubtaskFact list" where
  "selectDispatchableSubtasks snapshot =
     js_slice (min 4 (dsMaxConcurrentAttempts snapshot))
       (filter (\<lambda>s. ksId s \<notin> set (active_subtask_ids snapshot) \<and> ksId s \<notin> set (dsResourceConflictSubtaskIds snapshot))
          (List.map_filter (ready_subtask snapshot) (dsFrontier snapshot)))"

definition nextUsableBinding ::
  "js_runtime \<Rightarrow> KernelSubtaskFact \<Rightarrow> DispatchSnapshot \<Rightarrow> string \<Rightarrow> string list \<Rightarrow> AuthorizedExecutorBinding option"
where
  "nextUsableBinding rt subtask snapshot occurredAt attempted =
     (let unavailable = unavailableAgentClasses rt (dsExecutorStatuses snapshot) occurredAt in
      find (\<lambda>b. authorizedExecutorBindingFingerprint rt b \<notin> set attempted \<and> abAgentClassRef b \<notin> set unavailable)
        (ksExecutorBindings subtask))"

definition resourceGrantForSubtask :: "DispatchSnapshot \<Rightarrow> string \<Rightarrow> ResourceClaim list" where
  "resourceGrantForSubtask snapshot subtaskId = lookup_or [] (dsResourceGrantsBySubtask snapshot) subtaskId"

definition first_order :: "DispatchSnapshot \<Rightarrow> int" where
  "first_order snapshot = fold (\<lambda>i m. max m (kdOrder i)) (dsDispatchItems snapshot) (-1) + 1"

definition primary_item ::
  "js_runtime \<Rightarrow> KernelEventEnvelope \<Rightarrow> DispatchSnapshot \<Rightarrow> nat \<Rightarrow> KernelSubtaskFact \<Rightarrow> DispatchItem list"
where
  "primary_item rt event snapshot index subtask =
     (case nextUsableBinding rt subtask snapshot (evOccurredAt event) [] of
        None \<Rightarrow> []
      | Some binding \<Rightarrow>
          (let bindingFingerprint = authorizedExecutorBindingFingerprint rt binding in
           [\<lparr>diSubtaskId = ksId subtask, diAuthorizedBinding = binding, diBindingFingerprint = bindingFingerprint,
             diAttemptId = deterministicAttemptId rt (evId event) (ksId subtask) bindingFingerprint ''primary'',
             diAttemptKind = PrimaryAttempt, diSourceAttemptId = None, diRecoveryMode = FreshMode,
             diDefaultResourceGrant = resourceGrantForSubtask snapshot (ksId subtask),
             diOrder = first_order snapshot + int index, diAttemptPayload = None\<rparr>]))"

definition dispatchBatchItems ::
  "js_runtime \<Rightarrow> KernelEventEnvelope \<Rightarrow> DispatchSnapshot \<Rightarrow> KernelSubtaskFact list \<Rightarrow> DispatchItem list"
where
  "dispatchBatchItems rt event snapshot subtasks =
     concat (map (\<lambda>(index, subtask). primary_item rt event snapshot index subtask) (enumerate 0 subtasks))"

definition singleDispatchBatch ::
  "js_runtime \<Rightarrow> KernelEventEnvelope \<Rightarrow> string \<Rightarrow> string \<Rightarrow> AuthorizedExecutorBinding \<Rightarrow> KernelAttemptKind
   \<Rightarrow> string option \<Rightarrow> KernelRecoveryMode \<Rightarrow> ResourceClaim list \<Rightarrow> KernelAttemptPayload option \<Rightarrow> KernelDecisionAction"
where
  "singleDispatchBatch rt event tid subtaskId binding kind source mode grant payload =
     (let bindingFingerprint = authorizedExecutorBindingFingerprint rt binding in
      DispatchBatch tid
        [\<lparr>diSubtaskId = subtaskId, diAuthorizedBinding = binding, diBindingFingerprint = bindingFingerprint,
          diAttemptId = deterministicAttemptId rt (evId event) subtaskId bindingFingerprint (attempt_kind_name kind),
          diAttemptKind = kind, diSourceAttemptId = source, diRecoveryMode = mode, diDefaultResourceGrant = grant,
          diOrder = 0, diAttemptPayload = payload\<rparr>])"

subsection \<open>Dispatch\<close>

definition MAX_SERVICE_REPAIR_ATTEMPTS :: int where "MAX_SERVICE_REPAIR_ATTEMPTS = 3"
definition MAX_SERVICE_REPAIR_LOG_BYTES :: nat where "MAX_SERVICE_REPAIR_LOG_BYTES = 8192"
definition MAX_CORRECTION_INPUT_BYTES :: int where "MAX_CORRECTION_INPUT_BYTES = 131072"

abbreviation block_work :: "string \<Rightarrow> string option \<Rightarrow> KernelDecisionAction" where
  "block_work tid subtaskId \<equiv> BlockWork tid subtaskId False None"

definition find_subtask :: "DispatchSnapshot \<Rightarrow> string option \<Rightarrow> KernelSubtaskFact option" where
  "find_subtask snapshot i = (case i of None \<Rightarrow> None | Some s \<Rightarrow> find (\<lambda>t. ksId t = s) (dsSubtasks snapshot))"

fun graph_state_name :: "GraphState \<Rightarrow> string" where
  "graph_state_name GraphReady = ''ready''"
| "graph_state_name GraphMissing = ''missing''"
| "graph_state_name GraphConflict = ''conflict''"

text \<open>The Task that occupies the Conversation's execution slot.\<close>

definition slot_occupant :: "(string \<times> string option) list option \<Rightarrow> string option \<Rightarrow> string \<Rightarrow> string option" where
  "slot_occupant activeTaskByConversation runningTaskId conversationId =
     (case activeTaskByConversation of
        None \<Rightarrow> runningTaskId
      | Some m \<Rightarrow> (case map_of m conversationId of Some (Some t) \<Rightarrow> Some t | _ \<Rightarrow> None))"

definition conversation_of :: "KernelTaskFact \<Rightarrow> KernelEventEnvelope \<Rightarrow> string" where
  "conversation_of task event = (case ktConversationId task of Some c \<Rightarrow> c
     | None \<Rightarrow> (case evConversationId event of Some c \<Rightarrow> c | None \<Rightarrow> evSessionId event))"

definition service_repair :: "DispatchRecovery \<Rightarrow> ServiceRepair option" where
  "service_repair recovery = (case drAttemptPayload recovery of Some (ServiceRepairPayload p) \<Rightarrow> Some p | _ \<Rightarrow> None)"

definition recovery_status_authorized :: "DispatchRecovery \<Rightarrow> KernelSubtaskFact \<Rightarrow> bool" where
  "recovery_status_authorized recovery subtask \<longleftrightarrow>
     ksStatus subtask = (if drAttemptKind recovery = PrimaryAttempt then SReady else SAwaitingDecision)
     \<or> service_repair recovery \<noteq> None \<and> drAttemptKind recovery = ContinuationAttempt \<and> ksStatus subtask = SDone"

definition binding_authorized :: "js_runtime \<Rightarrow> KernelSubtaskFact \<Rightarrow> string \<Rightarrow> bool" where
  "binding_authorized rt subtask bindingFingerprint \<longleftrightarrow>
     (\<exists>b \<in> set (ksExecutorBindings subtask). authorizedExecutorBindingFingerprint rt b = bindingFingerprint)"

definition recovery_identity_valid ::
  "js_runtime \<Rightarrow> KernelEventEnvelope \<Rightarrow> DispatchRecovery \<Rightarrow> KernelSubtaskFact \<Rightarrow> bool"
where
  "recovery_identity_valid rt event recovery subtask \<longleftrightarrow>
     recovery_status_authorized recovery subtask
     \<and> drBindingFingerprint recovery = authorizedExecutorBindingFingerprint rt (drAuthorizedBinding recovery)
     \<and> abConfigurationRevision (drAuthorizedBinding recovery) = evConfigurationRevision event
     \<and> binding_authorized rt subtask (drBindingFingerprint recovery)"

definition repair_refused :: "DispatchRecovery \<Rightarrow> ServiceRepair \<Rightarrow> int \<Rightarrow> bool" where
  "repair_refused recovery payload used \<longleftrightarrow>
     drAttemptKind recovery \<noteq> ContinuationAttempt \<or> \<not> truthy (drSourceAttemptId recovery)
     \<or> spRepairOrdinal payload \<noteq> used \<or> MAX_SERVICE_REPAIR_ATTEMPTS \<le> used
     \<or> spServiceId payload = [] \<or> spSpecificationRevision payload = []
     \<or> MAX_SERVICE_REPAIR_LOG_BYTES < length (or_empty (spLogTail payload))"

definition repair_refusal :: "ServiceRepair \<Rightarrow> int \<Rightarrow> string" where
  "repair_refusal payload used =
     (if MAX_SERVICE_REPAIR_ATTEMPTS \<le> used
      then ''service repair budget exhausted after '' @ show_int used @ '' rounds: '' @ spFailureSummary payload
      else ''service repair continuation identity is incomplete, stale or out of order'')"

definition dispatch_recovery_attempt ::
  "js_runtime \<Rightarrow> KernelEventEnvelope \<Rightarrow> string \<Rightarrow> DispatchRecovery \<Rightarrow> DispatchSnapshot \<Rightarrow> KernelDecision"
where
  "dispatch_recovery_attempt rt event tid recovery snapshot =
     (case (if truthy (evSubtaskId event) then find_subtask snapshot (evSubtaskId event) else None) of
        None \<Rightarrow> decision event (block_work tid (evSubtaskId event))
          ''workspace recovery dispatch identity is incomplete or stale''
      | Some subtask \<Rightarrow>
          if \<not> recovery_identity_valid rt event recovery subtask
          then decision event (block_work tid (evSubtaskId event))
            ''workspace recovery dispatch identity is incomplete or stale''
          else (let used = lookup_or 0 (dsServiceRepairAttemptsBySubtask snapshot) (ksId subtask) in
            if (case service_repair recovery of Some p \<Rightarrow> repair_refused recovery p used | None \<Rightarrow> False)
            then decision event (block_work tid (Some (ksId subtask)))
              (repair_refusal (the (service_repair recovery)) used)
            else decision event
              (singleDispatchBatch rt event tid (ksId subtask) (drAuthorizedBinding recovery) (drAttemptKind recovery)
                 (drSourceAttemptId recovery) (drRecoveryMode recovery) (drDefaultResourceGrant recovery)
                 (drAttemptPayload recovery))
              ''exact workspace recovery attempt authorized''))"

definition has_active_dispatch :: "DispatchSnapshot \<Rightarrow> bool" where
  "has_active_dispatch snapshot \<longleftrightarrow> (\<exists>i \<in> set (dsDispatchItems snapshot). isPendingOrActiveDispatch (kdStatus i))"

definition pending_dependencies :: "DispatchSnapshot \<Rightarrow> KernelDependencyReadinessFact list" where
  "pending_dependencies snapshot = filter (\<lambda>f. \<not> dfTerminal f) (dsDependencyReadiness snapshot)"

definition awaits_publication :: "DispatchSnapshot \<Rightarrow> bool" where
  "awaits_publication snapshot \<longleftrightarrow> pending_dependencies snapshot \<noteq> []
     \<and> (has_active_dispatch snapshot \<or> (\<exists>s \<in> set (dsSubtasks snapshot). ksStatus s = SAwaitingIntegration)
        \<or> dsPendingRetrySubtaskIds snapshot \<noteq> [])"

definition terminal_dependency_failure :: "DispatchSnapshot \<Rightarrow> KernelDependencyReadinessFact option" where
  "terminal_dependency_failure snapshot =
     find (\<lambda>f. dfTerminal f \<and> dfCode f \<noteq> DependencyReady
        \<and> \<not> (\<exists>s \<in> set (dsSubtasks snapshot). ksId s = dfTargetSubtaskId f \<and> ksStatus s \<in> {SBlocked, SDone, SCancelled}))
       (dsDependencyReadiness snapshot)"

definition structural_replan_active :: "DispatchSnapshot \<Rightarrow> bool" where
  "structural_replan_active snapshot \<longleftrightarrow>
     (case dsGenerationReplanRequest snapshot of None \<Rightarrow> False
      | Some r \<Rightarrow> grStatus r \<in> {ReplanPendingQuiescence, ReplanPlanning, ReplanSubmitted, ReplanWaitingForAvailability})"

definition queue_replan :: "string \<Rightarrow> DispatchSnapshot \<Rightarrow> KernelDecisionAction" where
  "queue_replan tid snapshot = QueueGenerationReplan tid (dsGenerationId snapshot) (dsGraphRevision snapshot)
     (generationReplanRequestId tid (dsGenerationId snapshot) (dsGraphRevision snapshot))"

definition dependency_failure_decision ::
  "KernelEventEnvelope \<Rightarrow> string \<Rightarrow> DispatchSnapshot \<Rightarrow> KernelDependencyReadinessFact \<Rightarrow> KernelDecision"
where
  "dependency_failure_decision event tid snapshot f =
     (if structural_replan_active snapshot then decision event NoOp ''dependency repair replan is in progress''
      else if dsAutomaticReplansUsed snapshot < 1
      then decision event (queue_replan tid snapshot)
        (''dependency materialization failed: '' @ dfSourceSubtaskId f @ '' -> '' @ dfTargetSubtaskId f @ ''; '' @ dfDetail f)
      else decision event (BlockWork tid (Some (dfTargetSubtaskId f)) False (Some SystemBlocker))
        (''%u4E0A%u6E38%u7ED3%u679C%u672A%u80FD%u4EA4%u63A5%u7ED9%u4E0B%u6E38%u8282%u70B9%uFF08%u7CFB%u7EDF%u95EE%u9898%uFF0C%u81EA%u52A8%u91CD%u65B0%u89C4%u5212%u5DF2%u7528%u5C3D%uFF09%uFF1A'' @ dfSourceSubtaskId f @ '' -> '' @ dfTargetSubtaskId f @ ''%uFF1B'' @ dfDetail f))"

definition replan_request_decision ::
  "KernelEventEnvelope \<Rightarrow> string \<Rightarrow> KernelTaskFact \<Rightarrow> DispatchSnapshot \<Rightarrow> KernelDecision option"
where
  "replan_request_decision event tid task snapshot = (case dsGenerationReplanRequest snapshot of
      None \<Rightarrow> None
    | Some r \<Rightarrow>
        if grStatus r = ReplanFailed
        then Some (if ktStatus task = TNeedsAction
          then decision event NoOp ''planner_unavailable blocker is already recorded''
          else decision event (block_work tid None)
            ''planner_unavailable: the authorized Replan Job exhausted its retry budget'')
        else if grStatus r = ReplanPendingQuiescence
        then Some (if dsGenerationQuiescent snapshot
          then decision event (ScheduleReplan tid (dsGenerationId snapshot) (dsGraphRevision snapshot) (grId r))
            ''generation is quiescent; the coalesced automatic replan job may be scheduled''
          else decision event NoOp ''generation replan is waiting for quiescence'')
        else None)"

definition all_done :: "DispatchSnapshot \<Rightarrow> bool" where
  "all_done snapshot \<longleftrightarrow> dsSubtasks snapshot \<noteq> [] \<and> list_all (\<lambda>s. ksStatus s = SDone) (dsSubtasks snapshot)"

definition settle_decision :: "KernelEventEnvelope \<Rightarrow> string \<Rightarrow> DispatchSnapshot \<Rightarrow> KernelDecision" where
  "settle_decision event tid snapshot =
     (if all_done snapshot
      then (if dsCompletionBlockedReasons snapshot = []
            then decision event (CompleteTask tid) ''all Subtasks completed and runtime residue is clear''
            else decision event NoOp
              (''Task completion is waiting for: '' @ js_join '', '' (dsCompletionBlockedReasons snapshot)))
      else if has_active_dispatch snapshot
          \<or> (\<exists>s \<in> set (dsSubtasks snapshot). ksStatus s = SRunning \<or> ksStatus s = SAwaitingIntegration)
      then decision event NoOp ''work is already executing or awaiting publication''
      else if dsPendingRetrySubtaskIds snapshot \<noteq> []
      then decision event NoOp ''unfinished work has a durable retry wake''
      else if \<exists>s \<in> set (dsSubtasks snapshot). ksStatus s = SAwaitingDecision
      then decision event NoOp ''safe result awaits an explicit user decision''
      else decision event (block_work tid None) ''no runnable Subtask while work remains'')"

text \<open>What the Kernel answers when no Subtask can start.\<close>

definition idle_decision ::
  "KernelEventEnvelope \<Rightarrow> string \<Rightarrow> KernelTaskFact \<Rightarrow> DispatchSnapshot \<Rightarrow> KernelDecision"
where
  "idle_decision event tid task snapshot =
     (if awaits_publication snapshot
      then (let first = hd (pending_dependencies snapshot) in decision event NoOp
        (''dependency publication pending: '' @ dfSourceSubtaskId first @ '' -> '' @ dfTargetSubtaskId first @ ''; '' @ dfDetail first))
      else (case terminal_dependency_failure snapshot of
          Some f \<Rightarrow> dependency_failure_decision event tid snapshot f
        | None \<Rightarrow> (case replan_request_decision event tid task snapshot of
            Some d \<Rightarrow> d
          | None \<Rightarrow> settle_decision event tid snapshot)))"

definition decideDispatch ::
  "js_runtime \<Rightarrow> KernelEventEnvelope \<Rightarrow> DispatchRecovery option \<Rightarrow> DispatchSnapshot \<Rightarrow> KernelDecision"
where
  "decideDispatch rt event recovery snapshot =
     (case dsTask snapshot of
        None \<Rightarrow> decision event (block_work (or_empty (evTaskId event)) (evSubtaskId event)) ''dispatch task is missing or stale''
      | Some task \<Rightarrow>
          if \<not> truthy (evTaskId event) \<or> Some (ktId task) \<noteq> evTaskId event
          then decision event (block_work (or_empty (evTaskId event)) (evSubtaskId event)) ''dispatch task is missing or stale''
          else if dsGraphState snapshot \<noteq> GraphReady
          then decision event (ParkForReplan (ktId task))
            (''work graph is '' @ graph_state_name (dsGraphState snapshot) @ ''; replanning is required'')
          else (let tid = ktId task;
                    active = slot_occupant (dsActiveTaskByConversation snapshot) (dsRunningTaskId snapshot) (conversation_of task event) in
            if truthy active \<and> active \<noteq> Some tid
            then decision event (block_work tid (evSubtaskId event))
              (''Conversation execution slot is occupied by '' @ or_empty active)
            else (case recovery of
                Some r \<Rightarrow> dispatch_recovery_attempt rt event tid r snapshot
              | None \<Rightarrow>
                  (let subtasks = selectDispatchableSubtasks snapshot in
                   if subtasks = [] then idle_decision event tid task snapshot
                   else (let items = dispatchBatchItems rt event snapshot subtasks in
                     if items = []
                     then decision event (block_work tid (Some (ksId (hd subtasks))))
                       ''no healthy authorized Executor is available for this Subtask''
                     else decision event (DispatchBatch tid items) ''dispatch batch authorized'')))))"

subsection \<open>What a dispatch decision guarantees\<close>

text \<open>A Subtask the Kernel may start: ready, runnable, idle and free of resource conflicts.\<close>

definition startable :: "DispatchSnapshot \<Rightarrow> KernelSubtaskFact \<Rightarrow> bool" where
  "startable s t \<longleftrightarrow> t \<in> set (dsSubtasks s) \<and> ksStatus t = SReady \<and> ksId t \<in> set (dsFrontier s)
     \<and> ksId t \<notin> set (active_subtask_ids s) \<and> ksId t \<notin> set (dsResourceConflictSubtaskIds s)"

lemma set_js_slice: "set (js_slice n xs) \<subseteq> set xs"
  by (auto simp: js_slice_def dest: in_set_takeD)

lemma ready_subtask_Some:
  "ready_subtask s i = Some t \<Longrightarrow> t \<in> set (dsSubtasks s) \<and> ksId t = i \<and> ksStatus t = SReady"
  by (auto simp: ready_subtask_def dest: find_Some_mem)

lemma selected_startable: "t \<in> set (selectDispatchableSubtasks s) \<Longrightarrow> startable s t"
  using set_js_slice [of "min 4 (dsMaxConcurrentAttempts s)"]
  by (fastforce simp: selectDispatchableSubtasks_def startable_def set_map_filter dest: ready_subtask_Some)

lemma selected_length:
  "0 \<le> dsMaxConcurrentAttempts s \<Longrightarrow> int (length (selectDispatchableSubtasks s)) \<le> min 4 (dsMaxConcurrentAttempts s)"
  unfolding selectDispatchableSubtasks_def js_slice_def by auto

lemma selected_distinct:
  assumes "distinct (dsFrontier s)"
  shows "distinct (map ksId (selectDispatchableSubtasks s))"
  unfolding selectDispatchableSubtasks_def js_slice_def
  using map_filter_ids [of "ready_subtask s" ksId, OF _ assms]
  by (intro distinct_map_take distinct_map_filter) (auto dest: ready_subtask_Some)

lemma nextUsableBinding_Some:
  assumes "nextUsableBinding rt t s now tried = Some b"
  shows "b \<in> set (ksExecutorBindings t)" "authorizedExecutorBindingFingerprint rt b \<notin> set tried"
    "abAgentClassRef b \<notin> set (unavailableAgentClasses rt (dsExecutorStatuses s) now)"
  using find_Some_mem [OF assms [unfolded nextUsableBinding_def Let_def]] by auto

text \<open>A fresh first attempt on an authorized, available binding.\<close>

definition fresh_item :: "js_runtime \<Rightarrow> KernelEventEnvelope \<Rightarrow> DispatchSnapshot \<Rightarrow> KernelSubtaskFact \<Rightarrow> DispatchItem \<Rightarrow> bool" where
  "fresh_item rt event s t i \<longleftrightarrow> diSubtaskId i = ksId t
     \<and> diAuthorizedBinding i \<in> set (ksExecutorBindings t)
     \<and> abAgentClassRef (diAuthorizedBinding i) \<notin> set (unavailableAgentClasses rt (dsExecutorStatuses s) (evOccurredAt event))
     \<and> diAttemptKind i = PrimaryAttempt \<and> diSourceAttemptId i = None
     \<and> diDefaultResourceGrant i = resourceGrantForSubtask s (ksId t)
     \<and> (\<forall>d \<in> set (dsDispatchItems s). kdOrder d < diOrder i)"

lemma primary_item_fresh:
  assumes i: "i \<in> set (primary_item rt event s n t)"
  shows "fresh_item rt event s t i"
proof (cases "nextUsableBinding rt t s (evOccurredAt event) []")
  case None
  with i show ?thesis by (simp add: primary_item_def)
next
  case (Some b)
  have "kdOrder d < first_order s + int n" if "d \<in> set (dsDispatchItems s)" for d
    using fold_max_ge [where f = kdOrder and a = "-1" and xs = "dsDispatchItems s"] that
    by (force simp: first_order_def)
  with i nextUsableBinding_Some [OF Some] show ?thesis
    by (simp add: primary_item_def Some Let_def fresh_item_def)
qed

lemma primary_item_id: "map diSubtaskId (primary_item rt event s n t) = (if primary_item rt event s n t = [] then [] else [ksId t])"
  by (auto simp: primary_item_def Let_def split: option.splits)

lemma dispatchBatchItems_fresh:
  "i \<in> set (dispatchBatchItems rt event s ts) \<Longrightarrow> \<exists>t \<in> set ts. fresh_item rt event s t i"
  by (fastforce simp: dispatchBatchItems_def in_set_enumerate_eq dest!: primary_item_fresh)

lemma items_of_enumerate:
  assumes "distinct (map ksId ts)"
  shows "distinct (map diSubtaskId (concat (map (\<lambda>(n, t). primary_item rt event s n t) (enumerate k ts))))
    \<and> length (concat (map (\<lambda>(n, t). primary_item rt event s n t) (enumerate k ts))) \<le> length ts
    \<and> diSubtaskId ` set (concat (map (\<lambda>(n, t). primary_item rt event s n t) (enumerate k ts))) \<subseteq> ksId ` set ts"
  using assms
proof (induction ts arbitrary: k)
  case (Cons t ts)
  have one: "length (primary_item rt event s k t) \<le> 1"
    by (simp add: primary_item_def Let_def split: option.splits)
  have ids: "diSubtaskId ` set (primary_item rt event s k t) \<subseteq> {ksId t}"
    by (auto simp: primary_item_def Let_def split: option.splits)
  have dist: "distinct (map diSubtaskId (primary_item rt event s k t))"
    by (auto simp: primary_item_def Let_def split: option.splits)
  from Cons.IH [of "Suc k"] Cons.prems one ids dist show ?case
    by (auto simp: image_iff subset_iff) (metis imageI)+
qed simp

lemma dispatchBatchItems_distinct:
  assumes "distinct (dsFrontier s)" "0 \<le> dsMaxConcurrentAttempts s"
  shows "distinct (map diSubtaskId (dispatchBatchItems rt event s (selectDispatchableSubtasks s)))
    \<and> int (length (dispatchBatchItems rt event s (selectDispatchableSubtasks s))) \<le> min 4 (dsMaxConcurrentAttempts s)"
  using items_of_enumerate [OF selected_distinct [OF assms(1)], of rt event s 0] selected_length [OF assms(2)]
  unfolding dispatchBatchItems_def by linarith

text \<open>No decision taken while nothing can start dispatches work or completes unfinished work.\<close>

lemma idle_complete:
  "decAction (idle_decision event tid task s) = CompleteTask t \<Longrightarrow>
    t = tid \<and> all_done s \<and> dsCompletionBlockedReasons s = []"
  by (auto simp: idle_decision_def dependency_failure_decision_def replan_request_decision_def settle_decision_def
      queue_replan_def Let_def split: option.splits if_splits)

lemma family_single [simp]: "family (singleDispatchBatch rt e t s b k src m g p) = DispatchFamily"
  by (simp add: singleDispatchBatch_def Let_def)

lemma family_queue [simp]: "family (queue_replan t s) = ReplanFamily"
  by (simp add: queue_replan_def)

lemma family_dependency: "family (decAction (dependency_failure_decision e t s f)) \<in> {ReplanFamily, OtherFamily}"
  by (simp add: dependency_failure_decision_def)

lemma family_replan_request: "replan_request_decision e t task s = Some d \<Longrightarrow> family (decAction d) = OtherFamily"
  by (auto simp: replan_request_decision_def split: option.split_asm if_split_asm)

lemma family_settle: "family (decAction (settle_decision e t s)) \<in> {CompletionFamily, OtherFamily}"
  by (simp add: settle_decision_def)

lemma family_idle: "family (decAction (idle_decision e t task s)) \<in> {CompletionFamily, ReplanFamily, OtherFamily}"
  using family_dependency [of e t s] family_settle [of e t s]
  by (auto simp: idle_decision_def Let_def family_replan_request split: option.split)

lemma idle_not_batch: "decAction (idle_decision event tid task s) \<noteq> DispatchBatch t items"
  using family_idle [of event tid task s] by auto

lemma family_recovery_attempt: "family (decAction (dispatch_recovery_attempt rt e t r s)) \<in> {DispatchFamily, OtherFamily}"
  by (simp add: dispatch_recovery_attempt_def Let_def split: option.splits)

lemma family_dispatch: "family (decAction (decideDispatch rt e r s)) \<in> {DispatchFamily, CompletionFamily, ReplanFamily, OtherFamily}"
  using family_idle [of e _ _ s] family_recovery_attempt [of rt e _ _ s]
  by (auto simp: decideDispatch_def Let_def split: option.splits)

lemma family_recovery_dispatch:
  "family (decAction (decideDispatch rt e (Some r) s)) \<in> {DispatchFamily, OtherFamily}"
  using family_recovery_attempt [of rt e _ r s] by (auto simp: decideDispatch_def Let_def split: option.splits)

lemma recovery_not_complete: "decAction (dispatch_recovery_attempt rt e t r s) \<noteq> CompleteTask tid"
  using family_recovery_attempt [of rt e t r s] by auto

lemma dispatch_complete:
  assumes "decAction (decideDispatch rt e r s) = CompleteTask tid"
  shows "\<exists>task. r = None \<and> dsTask s = Some task \<and> ktId task = tid \<and> evTaskId e = Some tid \<and> dsGraphState s = GraphReady
    \<and> selectDispatchableSubtasks s = [] \<and> all_done s \<and> dsCompletionBlockedReasons s = []"
  using assms
  by (auto simp: decideDispatch_def Let_def recovery_not_complete dest: idle_complete split: option.splits if_splits) 

lemma dispatch_batch:
  assumes "decAction (decideDispatch rt e None s) = DispatchBatch tid items"
  shows "evTaskId e = Some tid \<and> dsGraphState s = GraphReady \<and> items \<noteq> []
    \<and> items = dispatchBatchItems rt e s (selectDispatchableSubtasks s)"
  using assms by (auto simp: decideDispatch_def Let_def idle_not_batch split: option.splits if_splits)

lemma find_subtask_Some: "find_subtask s i = Some t \<Longrightarrow> t \<in> set (dsSubtasks s) \<and> i = Some (ksId t)"
  by (auto simp: find_subtask_def dest: find_Some_mem split: option.splits)

lemma single_batch_iff:
  "singleDispatchBatch rt e t sid b k src m g p = DispatchBatch tid items \<longleftrightarrow> tid = t \<and> items =
     [\<lparr>diSubtaskId = sid, diAuthorizedBinding = b, diBindingFingerprint = authorizedExecutorBindingFingerprint rt b,
       diAttemptId = deterministicAttemptId rt (evId e) sid (authorizedExecutorBindingFingerprint rt b) (attempt_kind_name k),
       diAttemptKind = k, diSourceAttemptId = src, diRecoveryMode = m, diDefaultResourceGrant = g, diOrder = 0, diAttemptPayload = p\<rparr>]"
  by (auto simp: singleDispatchBatch_def Let_def)

definition recovery_sound :: "js_runtime \<Rightarrow> KernelEventEnvelope \<Rightarrow> DispatchRecovery \<Rightarrow> DispatchSnapshot \<Rightarrow> KernelSubtaskFact \<Rightarrow> bool" where
  "recovery_sound rt e r s t \<longleftrightarrow> t \<in> set (dsSubtasks s) \<and> evSubtaskId e = Some (ksId t)
     \<and> binding_authorized rt t (authorizedExecutorBindingFingerprint rt (drAuthorizedBinding r))
     \<and> abConfigurationRevision (drAuthorizedBinding r) = evConfigurationRevision e
     \<and> ksStatus t = (if drAttemptKind r = PrimaryAttempt then SReady
         else if service_repair r \<noteq> None \<and> ksStatus t = SDone then SDone else SAwaitingDecision)
     \<and> (case service_repair r of None \<Rightarrow> True
        | Some p \<Rightarrow> drAttemptKind r = ContinuationAttempt \<and> truthy (drSourceAttemptId r)
            \<and> spRepairOrdinal p = lookup_or 0 (dsServiceRepairAttemptsBySubtask s) (ksId t) \<and> spRepairOrdinal p < 3)"

lemma recovery_attempt_batch:
  assumes "decAction (dispatch_recovery_attempt rt e t r s) = DispatchBatch tid items"
  shows "tid = t \<and> (\<exists>i st. items = [i] \<and> recovery_sound rt e r s st \<and> diSubtaskId i = ksId st
     \<and> diAuthorizedBinding i = drAuthorizedBinding r \<and> diAttemptKind i = drAttemptKind r)"
proof -
  from assms obtain st where f: "find_subtask s (evSubtaskId e) = Some st"
    and v: "recovery_identity_valid rt e r st"
    and nr: "\<not> (case service_repair r of Some p \<Rightarrow> repair_refused r p (lookup_or 0 (dsServiceRepairAttemptsBySubtask s) (ksId st)) | None \<Rightarrow> False)"
    and b: "singleDispatchBatch rt e t (ksId st) (drAuthorizedBinding r) (drAttemptKind r)
                 (drSourceAttemptId r) (drRecoveryMode r) (drDefaultResourceGrant r) (drAttemptPayload r) = DispatchBatch tid items"
    by (simp add: dispatch_recovery_attempt_def Let_def split: option.splits if_splits)
  from v nr find_subtask_Some [OF f] have "recovery_sound rt e r s st"
    by (auto simp: recovery_sound_def recovery_identity_valid_def recovery_status_authorized_def repair_refused_def
        MAX_SERVICE_REPAIR_ATTEMPTS_def split: option.splits)
  with b show ?thesis by (auto simp: single_batch_iff)
qed

lemma idle_completes:
  assumes "all_done s" "dsCompletionBlockedReasons s = []" "\<not> has_active_dispatch s" "dsPendingRetrySubtaskIds s = []"
    and "\<forall>f \<in> set (dsDependencyReadiness s). dfTargetSubtaskId f \<in> ksId ` set (dsSubtasks s)"
    and "dsGenerationReplanRequest s = None"
  shows "decAction (idle_decision e tid task s) = CompleteTask tid"
proof -
  have "\<not> awaits_publication s"
    using assms by (auto simp: awaits_publication_def all_done_def list_all_iff)
  moreover have "terminal_dependency_failure s = None"
    using assms(1,5) unfolding terminal_dependency_failure_def find_None_all all_done_def list_all_iff by fastforce
  ultimately show ?thesis
    using assms by (simp add: idle_decision_def replan_request_decision_def settle_decision_def)
qed

lemma done_not_ready: "all_done s \<Longrightarrow> selectDispatchableSubtasks s = []"
  using selected_startable [of "hd (selectDispatchableSubtasks s)" s]
  by (cases "selectDispatchableSubtasks s") (auto simp: all_done_def list_all_iff startable_def)

end
