(* ===== verification/Kernel_Control.thy ===== *)
theory Kernel_Control
  imports Kernel_Dispatch
begin

text \<open>
  The Kernel's answers to control events (\<open>src/src/kernel/control-kernel.ts\<close>): recovered executors,
  cancellation and result acceptance, quiescence, timers, manual recovery, permissions, resource
  conflicts and lost sandboxes.
\<close>

subsection \<open>Deferred plans\<close>

definition bindingsForProposalSubtask :: "WorkGraphSubtask \<Rightarrow> AuthorizedExecutorBinding list \<Rightarrow> AuthorizedExecutorBinding list" where
  "bindingsForProposalSubtask subtask bindings =
     (let allowed = map pbAgentClassRef (wgExecutorBindings subtask) in
      if allowed = [] then bindings else filter (\<lambda>b. abAgentClassRef b \<in> set allowed) bindings)"

definition existing_binding :: "KernelTaskFact \<Rightarrow> ExistingTaskBinding option" where
  "existing_binding task = (case ktExecutionMode task of
      None \<Rightarrow> None
    | Some mode \<Rightarrow> Some \<lparr>ebWorkspaceId = or_empty (ktWorkspaceId task), ebExecutionMode = mode,
        ebDeliveryPolicy = (case ktDeliveryPolicy task of Some p \<Rightarrow> p | None \<Rightarrow> AwaitAcceptance)\<rparr>)"

text \<open>Whether a graph writes; \<open>decidePlan\<close> repeats the same expression for a proposal (lines 1200 to 1202).\<close>

definition deferred_writes :: "WorkGraphProposal \<Rightarrow> bool" where
  "deferred_writes graph \<longleftrightarrow> (\<exists>s \<in> set (wpSubtasks graph). wgDeliveryKind s \<noteq> ReportDelivery \<or> file_outputs s \<noteq> [])"

definition deferred_admission :: "PlanProposed \<Rightarrow> WorkGraphProposal \<Rightarrow> KernelTaskFact \<Rightarrow> WorkspaceExecutionDecisionInput" where
  "deferred_admission plan graph task = \<lparr>wxIntent = plWorkspaceIntent (ppProposal plan),
     wxTargetWorkspace = ppTargetWorkspace plan, wxExistingTaskBinding = existing_binding task,
     wxRiskLevel = plRiskLevel (ppProposal plan), wxWrites = deferred_writes graph,
     wxDeclaredOutputPaths = concat (map file_outputs (wpSubtasks graph))\<rparr>"

definition deferred_graph ::
  "KernelEventEnvelope \<Rightarrow> AvailabilityRecoverySnapshot \<Rightarrow> (KernelTaskFact \<times> PlanProposed \<times> WorkGraphProposal) option"
where
  "deferred_graph event snapshot = (case (avTask snapshot, avDeferredPlan snapshot) of
      (Some task, Some (envelope, plan)) \<Rightarrow>
        if truthy (evTaskId event) \<and> Some (ktId task) = evTaskId event \<and> ktStatus task \<in> {TRunning, TNeedsAction}
           \<and> evTaskId envelope = evTaskId event \<and> ppProposalSource plan = ReplanProposal
           \<and> ppTargetGraphRevision plan = (case avActiveGraphRevision snapshot of None \<Rightarrow> 0 | Some r \<Rightarrow> r) + 1
           \<and> Some (ppGenerationId plan) = avActiveGenerationId snapshot
        then map_option (\<lambda>g. (task, plan, g)) (plWorkGraph (ppProposal plan)) else None
    | _ \<Rightarrow> None)"

definition available_bindings ::
  "js_runtime \<Rightarrow> KernelEventEnvelope \<Rightarrow> AvailabilityRecoverySnapshot \<Rightarrow> WorkGraphProposal \<Rightarrow> (string \<times> AuthorizedExecutorBinding list) list"
where
  "available_bindings rt event snapshot graph =
     (let unavailable = unavailableAgentClasses rt (avExecutorStatuses snapshot) (evOccurredAt event) in
      js_map_of (map (\<lambda>s. (wgId s, filter (\<lambda>b. abAgentClassRef b \<notin> set unavailable)
          (bindingsForProposalSubtask s (avDeferredBindings snapshot)))) (wpSubtasks graph)))"

definition decideAvailabilityRecovery ::
  "js_runtime \<Rightarrow> KernelEventEnvelope \<Rightarrow> AvailabilityRecoverySnapshot \<Rightarrow> KernelDecision result"
where
  "decideAvailabilityRecovery rt event snapshot =
     (case deferred_graph event snapshot of
        None \<Rightarrow> Inr (decision event NoOp ''deferred availability proposal is missing, stale, or cancelled'')
      | Some (task, plan, graph) \<Rightarrow>
          (let bindings = available_bindings rt event snapshot graph in
           if \<exists>(i, bs) \<in> set bindings. bs = []
           then Inr (decision event NoOp ''recovered Executor does not make the deferred frontier executable'')
           else rbind (validateWorkGraph rt (wpSubtasks graph)) (\<lambda>violations.
             if violations \<noteq> [] then Inr (decision event NoOp ''deferred availability proposal no longer validates'')
             else (case resolveWorkspaceAdmission (deferred_admission plan graph task) of
                 WorkspaceResolved d admission _ \<Rightarrow>
                   Inr (decision event (ActivateDeferredTaskPlan \<lparr>adTaskId = ktId task, adReplanRequestId = evCorrelationId event,
                       adTask = plTask (ppProposal plan), adWorkGraph = graph, adAuthorizedBindingsBySubtask = bindings,
                       adGenerationId = ppGenerationId plan, adGraphRevision = ppTargetGraphRevision plan,
                       adWorkspaceExecution = d, adWorkspaceAdmission = admission\<rparr>)
                     ''deferred availability proposal is executable again'')
               | WorkspaceClarification _ reason \<Rightarrow>
                   Inr (decision event NoOp (''deferred Workspace execution cannot be authorized: '' @ reason))
               | WorkspaceRejected reason \<Rightarrow>
                   Inr (decision event NoOp (''deferred Workspace execution cannot be authorized: '' @ reason))))))"

subsection \<open>Task control\<close>

datatype TaskControlEvent =
    CancelTaskEvent
  | CancelSubtasksEvent "string list"
  | AcceptResultEvent "PendingResultIdentity option"
  | RetryResultEvent PendingResultIdentity

fun task_status_name :: "TaskStatus \<Rightarrow> string" where
  "task_status_name TQueued = ''queued''"
| "task_status_name TRunning = ''running''"
| "task_status_name TNeedsAction = ''needs_action''"
| "task_status_name TSucceeded = ''succeeded''"
| "task_status_name TFailed = ''failed''"
| "task_status_name TCancelled = ''cancelled''"

fun refusal_name :: "CancellationRefusal \<Rightarrow> string" where
  "refusal_name EmptyTargets = ''empty_targets''"
| "refusal_name UnknownSubtask = ''unknown_subtask''"
| "refusal_name AlreadyDone = ''already_done''"
| "refusal_name AlreadyCancelled = ''already_cancelled''"

definition control_graph :: "KernelCancellationSubtaskFact list \<Rightarrow> cancel_graph" where
  "control_graph subtasks = map (\<lambda>s. (ksId s, ksDependencySubtaskIds s)) subtasks"

definition control_facts :: "KernelCancellationSubtaskFact list \<Rightarrow> WorkGraphCancellationFact list" where
  "control_facts subtasks = map (\<lambda>s. \<lparr>cfSubtaskId = ksId s, cfStatus = ksStatus s\<rparr>) subtasks"

definition cancel_subtasks ::
  "js_runtime \<Rightarrow> KernelEventEnvelope \<Rightarrow> string \<Rightarrow> string \<Rightarrow> int \<Rightarrow> TaskControlSnapshot \<Rightarrow> string list \<Rightarrow> KernelDecision result"
where
  "cancel_subtasks rt event tid generation graphRev snapshot targets =
     (case deriveCancellationClosure rt (control_graph (tsSubtasks snapshot)) (control_facts (tsSubtasks snapshot)) targets of
        None \<Rightarrow> Inl ''Maximum call stack size exceeded''
      | Some (ClosureRefused r ids) \<Rightarrow> Inr (decision event RejectRequest
          (''Subtask cancellation rejected ('' @ refusal_name r @ ''): '' @ js_join '', '' ids))
      | Some (ClosureOk ids) \<Rightarrow> Inr (decision event (CancelSubtasks tid generation graphRev ids
          (js_sort (\<lambda>l r. localeCompare rt (fst l) (fst r))
             (map (\<lambda>s. (ksId s, ksStatus s)) (filter (\<lambda>s. ksId s \<in> set ids) (tsSubtasks snapshot)))))
          ''atomic downstream Subtask cancellation closure authorized''))"

definition result_expired ::
  "string \<Rightarrow> string \<Rightarrow> int \<Rightarrow> KernelTaskFact \<Rightarrow> UncertifiedResult option \<Rightarrow> PendingResultIdentity option \<Rightarrow> bool"
where
  "result_expired tid generation graphRev task pending expected \<longleftrightarrow>
     isTerminalTaskStatus (ktStatus task)
     \<or> (case expected of None \<Rightarrow> False
        | Some e \<Rightarrow> (case pending of None \<Rightarrow> True
            | Some p \<Rightarrow> piTaskId e \<noteq> tid \<or> piGenerationId e \<noteq> generation \<or> piGraphRevision e \<noteq> graphRev
                \<or> piSubtaskId e \<noteq> urSubtaskId p \<or> piAttemptId e \<noteq> urAttemptId p \<or> piResultId e \<noteq> urResultId p))"

definition ids_with_status :: "WorkGraphRuntimeStatus \<Rightarrow> KernelCancellationSubtaskFact list \<Rightarrow> string list" where
  "ids_with_status st subtasks = sort_strings (map ksId (filter (\<lambda>s. ksStatus s = st) subtasks))"

definition accept_partial ::
  "KernelEventEnvelope \<Rightarrow> string \<Rightarrow> string \<Rightarrow> int \<Rightarrow> KernelTaskFact \<Rightarrow> TaskControlSnapshot \<Rightarrow> KernelDecision"
where
  "accept_partial event tid generation graphRev task snapshot =
     (let done = ids_with_status SDone (tsSubtasks snapshot); cancelled = ids_with_status SCancelled (tsSubtasks snapshot) in
      if ktStatus task \<noteq> TNeedsAction \<or> \<not> tsPartialCancellation snapshot \<or> done = []
         \<or> (\<exists>s \<in> set (tsSubtasks snapshot). ksStatus s \<notin> {SDone, SCancelled})
         \<or> tsCompletionBlockedReasons snapshot \<noteq> []
      then decision event RejectRequest ''partial result is not ready for explicit acceptance''
      else decision event (AcceptPartialResult tid generation graphRev done cancelled)
        ''explicit partial result acceptance authorized'')"

definition accept_result ::
  "KernelEventEnvelope \<Rightarrow> string \<Rightarrow> string \<Rightarrow> int \<Rightarrow> KernelTaskFact \<Rightarrow> TaskControlSnapshot \<Rightarrow> PendingResultIdentity option \<Rightarrow> KernelDecision"
where
  "accept_result event tid generation graphRev task snapshot expected =
     (let pending = tsUncertifiedResult snapshot; accepted = tsAcceptedResult snapshot in
      if pending = None \<and> tsCandidateDeliveries snapshot \<noteq> [] \<and> \<not> isTerminalTaskStatus (ktStatus task)
      then decision event (AuthorizeWorkspaceDelivery tid generation graphRev (map fst (tsCandidateDeliveries snapshot)))
        ''explicit acceptance of isolated candidate changes authorized''
      else if expected \<noteq> None \<and> accepted \<noteq> None \<and> \<not> isTerminalTaskStatus (ktStatus task) \<and> expected = accepted
      then (let a = the accepted in decision event (AcceptUncertifiedResult (piTaskId a) (piGenerationId a) (piGraphRevision a)
          \<lparr>urSubtaskId = piSubtaskId a, urAttemptId = piAttemptId a, urResultId = piResultId a\<rparr>)
        ''previously authorized result acceptance replay'')
      else if result_expired tid generation graphRev task pending expected
      then decision event RejectRequest ''%u8BE5%u7ED3%u679C%u64CD%u4F5C%u5DF2%u8FC7%u671F%uFF0C%u8BF7%u5237%u65B0%u4EFB%u52A1%u540E%u91CD%u8BD5%u3002''
      else (case pending of
          Some p \<Rightarrow> if \<not> tsPartialCancellation snapshot
            then decision event (AcceptUncertifiedResult tid generation graphRev p)
              ''explicit acceptance of the safe uncertified result authorized''
            else accept_partial event tid generation graphRev task snapshot
        | None \<Rightarrow> accept_partial event tid generation graphRev task snapshot))"

definition retry_result ::
  "KernelEventEnvelope \<Rightarrow> string \<Rightarrow> string \<Rightarrow> int \<Rightarrow> KernelTaskFact \<Rightarrow> TaskControlSnapshot \<Rightarrow> PendingResultIdentity \<Rightarrow> KernelDecision"
where
  "retry_result event tid generation graphRev task snapshot expected =
     (if result_expired tid generation graphRev task (tsUncertifiedResult snapshot) (Some expected)
      then decision event RejectRequest ''%u8BE5%u7ED3%u679C%u64CD%u4F5C%u5DF2%u8FC7%u671F%uFF0C%u8BF7%u5237%u65B0%u4EFB%u52A1%u540E%u91CD%u8BD5%u3002''
      else (case tsUncertifiedResult snapshot of
          Some p \<Rightarrow> if tsResultRetrySafe snapshot = Some True
            then decision event (RetryUncertifiedResult tid generation graphRev p) ''explicit safe result retry authorized''
            else decision event RejectRequest ''%u65E0%u6CD5%u5B89%u5168%u91CD%u65B0%u6267%u884C%uFF1A%u8BF7%u5148%u786E%u8BA4%u4E0D%u786E%u5B9A%u7684%u5916%u90E8%u526F%u4F5C%u7528%u3002''
        | None \<Rightarrow> decision event RejectRequest ''%u65E0%u6CD5%u5B89%u5168%u91CD%u65B0%u6267%u884C%uFF1A%u8BF7%u5148%u786E%u8BA4%u4E0D%u786E%u5B9A%u7684%u5916%u90E8%u526F%u4F5C%u7528%u3002''))"

definition with_generation ::
  "KernelEventEnvelope \<Rightarrow> TaskControlSnapshot \<Rightarrow> (string \<Rightarrow> int \<Rightarrow> KernelDecision result) \<Rightarrow> KernelDecision result"
where
  "with_generation event snapshot f =
     (case (if truthy (tsGenerationId snapshot) then tsGenerationId snapshot else None, tsGraphRevision snapshot) of
        (Some generation, Some graphRev) \<Rightarrow> f generation graphRev
      | _ \<Rightarrow> Inr (decision event RejectRequest ''active Work Graph generation is missing''))"

definition decideTaskControl ::
  "js_runtime \<Rightarrow> KernelEventEnvelope \<Rightarrow> TaskControlEvent \<Rightarrow> TaskControlSnapshot \<Rightarrow> KernelDecision result"
where
  "decideTaskControl rt event control snapshot =
     (case tsTask snapshot of
        None \<Rightarrow> Inr (decision event RejectRequest ''Task control target is missing or stale'')
      | Some task \<Rightarrow>
          (let tid = ktId task in
           if \<not> truthy (evTaskId event) \<or> Some tid \<noteq> evTaskId event
           then Inr (decision event RejectRequest ''Task control target is missing or stale'')
           else (case control of
               CancelTaskEvent \<Rightarrow> Inr (if isTerminalTaskStatus (ktStatus task)
                 then decision event RejectRequest (''Task is already '' @ task_status_name (ktStatus task))
                 else decision event (CancelTask tid (tsGenerationId snapshot)) ''durable Task cancellation fence authorized'')
             | CancelSubtasksEvent targets \<Rightarrow> with_generation event snapshot (\<lambda>generation graphRev.
                 cancel_subtasks rt event tid generation graphRev snapshot targets)
             | AcceptResultEvent expected \<Rightarrow> with_generation event snapshot (\<lambda>generation graphRev.
                 Inr (accept_result event tid generation graphRev task snapshot expected))
             | RetryResultEvent expected \<Rightarrow> with_generation event snapshot (\<lambda>generation graphRev.
                 Inr (retry_result event tid generation graphRev task snapshot expected)))))"

subsection \<open>Quiescence\<close>

definition decideGenerationQuiescence ::
  "KernelEventEnvelope \<Rightarrow> string \<Rightarrow> string \<Rightarrow> int \<Rightarrow> DispatchSnapshot \<Rightarrow> KernelDecision"
where
  "decideGenerationQuiescence event requestId generation sourceRevision snapshot =
     (case dsGenerationReplanRequest snapshot of
        None \<Rightarrow> decision event NoOp ''generation quiescence observation is stale or incomplete''
      | Some r \<Rightarrow>
          if \<not> truthy (evTaskId event) \<or> grId r \<noteq> requestId \<or> grStatus r \<noteq> ReplanPendingQuiescence
             \<or> generation \<noteq> dsGenerationId snapshot \<or> sourceRevision \<noteq> dsGraphRevision snapshot
             \<or> \<not> dsGenerationQuiescent snapshot
          then decision event NoOp ''generation quiescence observation is stale or incomplete''
          else decision event (ScheduleReplan (or_empty (evTaskId event)) generation sourceRevision (grId r))
            ''generation quiescence token accepted; durable Replan Job scheduled for the Planner Worker'')"

subsection \<open>Timers\<close>

definition wake_identity :: "KernelEventEnvelope \<Rightarrow> TimerTick \<Rightarrow> TimerRetry \<Rightarrow> KernelRetryWakeFact \<Rightarrow> bool" where
  "wake_identity event tick retry wake \<longleftrightarrow>
     kwWakeId wake = tyWakeId retry \<and> Some (kwTaskId wake) = evTaskId event \<and> Some (kwSubtaskId wake) = evSubtaskId event
     \<and> kwGenerationId wake = tyGenerationId retry \<and> kwSourceDecisionId wake = ttSourceDecisionId tick
     \<and> kwSourceAttemptId wake = tySourceAttemptId retry
     \<and> kwConfigurationRevision wake = evConfigurationRevision event
     \<and> kwConfigurationRevision wake = tyConfigurationRevision retry
     \<and> kwBindingFingerprint wake = tyBindingFingerprint retry
     \<and> kwTimerEventId wake = Some (evId event)"

definition date_before :: "js_runtime \<Rightarrow> string \<Rightarrow> string \<Rightarrow> bool" where
  "date_before rt a b = (case (dateParse rt a, dateParse rt b) of (Some x, Some y) \<Rightarrow> x < y | _ \<Rightarrow> False)"

definition recover_wake :: "KernelEventEnvelope \<Rightarrow> KernelRetryWakeFact \<Rightarrow> string \<Rightarrow> string \<Rightarrow> KernelDecision" where
  "recover_wake event wake cause reason =
     decision event (RecoverRetryWake (case evTaskId event of Some t \<Rightarrow> t | None \<Rightarrow> kwTaskId wake) (kwWakeId wake) cause) reason"

definition fire_retry_wake ::
  "js_runtime \<Rightarrow> KernelEventEnvelope \<Rightarrow> TimerTick \<Rightarrow> TimerRetry \<Rightarrow> KernelRetryWakeFact \<Rightarrow> TimerSnapshot \<Rightarrow> KernelDecision"
where
  "fire_retry_wake rt event tick retry wake snapshot =
     (if kwStatus wake = WakeConsumed then decision event NoOp ''retry wake is already consumed''
      else if kwStatus wake = WakeSuperseded then decision event NoOp ''retry wake is already superseded''
      else if kwStatus wake = WakeRecoveryRequired
      then decision event (RecoverRetryWake (kwTaskId wake) (kwWakeId wake) ''retry wake already requires recovery'')
        ''retry wake requires explicit recovery''
      else if date_before rt (evOccurredAt event) (ttScheduledFor tick)
      then decision event NoOp ''retry wake arrived before its scheduled time''
      else if (case tmTask snapshot of None \<Rightarrow> False | Some t \<Rightarrow> isTerminalTaskStatus (ktStatus t))
      then decision event (SupersedeRetryWake (kwTaskId wake) (kwWakeId wake))
        ''retry wake is obsolete because the Task is terminal''
      else if kwStatus wake \<noteq> WakeFired \<or> \<not> truthy (evTaskId event) \<or> \<not> truthy (evSubtaskId event)
         \<or> (case tmTask snapshot of None \<Rightarrow> True
            | Some t \<Rightarrow> Some (ktId t) \<noteq> evTaskId event \<or> ktStatus t \<notin> {TRunning, TNeedsAction})
         \<or> \<not> tmWakeAuthorized snapshot
      then recover_wake event wake ''fired Retry Wake no longer has its exact Task blocker''
        ''retry wake lost its authorized Task blocker''
      else decision event (singleDispatchBatch rt event (or_empty (evTaskId event)) (or_empty (evSubtaskId event))
          (tyAuthorizedBinding retry) ContinuationAttempt (Some (tySourceAttemptId retry))
          (if abAgentClassRef (tyAuthorizedBinding retry) \<in> set (tmNativeContinuationAgentClasses snapshot)
           then NativeSession else RecoveryPacket)
          (tmDefaultResourceGrant snapshot) None)
        ''durable Retry Wake continuation authorized'')"

definition decide_retry_wake ::
  "js_runtime \<Rightarrow> KernelEventEnvelope \<Rightarrow> TimerTick \<Rightarrow> TimerSnapshot \<Rightarrow> KernelDecision"
where
  "decide_retry_wake rt event tick snapshot =
     (case ttRetry tick of
        None \<Rightarrow> decision event NoOp ''retry timer has no wake identity''
      | Some retry \<Rightarrow> (case tmRetryWake snapshot of
          None \<Rightarrow> decision event (RecoverRetryWake (or_empty (evTaskId event)) (tyWakeId retry)
              ''retry timer references a missing durable Retry Wake'') ''retry wake fact is missing''
        | Some wake \<Rightarrow>
            if \<not> wake_identity event tick retry wake
            then recover_wake event wake ''retry timer identity does not match the durable Retry Wake''
              ''retry wake identity is stale or contradictory''
            else fire_retry_wake rt event tick retry wake snapshot))"

definition capacity_recheck ::
  "js_runtime \<Rightarrow> KernelEventEnvelope \<Rightarrow> string \<Rightarrow> TimerSnapshot \<Rightarrow> string \<Rightarrow> KernelDecision"
where
  "capacity_recheck rt event tid snapshot blockedAt =
     (case (dateParse rt (evOccurredAt event), dateParse rt blockedAt) of
        (Some now, Some since) \<Rightarrow>
          if now - since < tmRecheckAfterMs snapshot
          then decision event NoOp ''capacity recheck interval has not elapsed''
          else (let unavailable = unavailableAgentClasses rt (tmExecutorStatuses snapshot) (evOccurredAt event) in
            case find (\<lambda>b. abAgentClassRef b \<notin> set unavailable) (tmCapacityBindings snapshot) of
              Some b \<Rightarrow> decision event (ProbeCapacity tid (or_empty (evSubtaskId event)) b (authorizedExecutorBindingFingerprint rt b))
                ''capacity timer recheck authorized''
            | None \<Rightarrow> decision event NoOp ''no healthy AgentClass is eligible for capacity probe'')
      | _ \<Rightarrow> decision event NoOp ''capacity recheck interval has not elapsed'')"

definition decideTimer :: "js_runtime \<Rightarrow> KernelEventEnvelope \<Rightarrow> TimerTick \<Rightarrow> TimerSnapshot \<Rightarrow> KernelDecision" where
  "decideTimer rt event tick snapshot =
     (if ttWakeKind tick = RetryWake then decide_retry_wake rt event tick snapshot
      else if \<not> truthy (evTaskId event)
         \<or> (case tmTask snapshot of None \<Rightarrow> True
            | Some t \<Rightarrow> Some (ktId t) \<noteq> evTaskId event \<or> ktStatus t \<notin> {TRunning, TNeedsAction})
         \<or> \<not> tmWakeAuthorized snapshot
      then decision event NoOp ''timer wake is stale or no longer authorized by Task state''
      else if ttWakeKind tick \<noteq> CapacityWake then decision event NoOp ''availability wake has no eligible work''
      else if \<not> truthy (evSubtaskId event) \<or> \<not> truthy (tmCapacityBlockedAt snapshot)
      then decision event NoOp ''no capacity block is eligible''
      else capacity_recheck rt event (or_empty (evTaskId event)) snapshot (or_empty (tmCapacityBlockedAt snapshot)))"

subsection \<open>Recovery\<close>

fun resolution_name :: "RecoveryResolution \<Rightarrow> string" where
  "resolution_name AssumeApplied = ''assume_applied''"
| "resolution_name RetryResolution = ''retry''"

definition decideRecovery ::
  "KernelEventEnvelope \<Rightarrow> string \<Rightarrow> RecoveryResolution \<Rightarrow> KernelTaskFact option \<Rightarrow> RecoveryItem option \<Rightarrow> KernelDecision"
where
  "decideRecovery event recoveryItemId resolution task item = (case (task, item) of
      (Some t, Some i) \<Rightarrow>
        (let tid = or_empty (evTaskId event) in
         if \<not> truthy (evTaskId event) \<or> Some (ktId t) \<noteq> evTaskId event
         then decision event (block_work tid None) ''recovery item is missing or stale''
         else if riId i \<noteq> recoveryItemId then decision event (block_work tid None) ''recovery item identity mismatch''
         else if resolution = RetryResolution \<and> \<not> riRetrySafe i
         then decision event (block_work tid None) ''recovery retry cannot prove idempotency''
         else decision event (ResolveRecovery tid recoveryItemId resolution)
           (''manual recovery '' @ resolution_name resolution @ '' authorized''))
    | _ \<Rightarrow> decision event (block_work (or_empty (evTaskId event)) None) ''recovery item is missing or stale'')"

definition decideRecoveryRequired ::
  "KernelEventEnvelope \<Rightarrow> string \<Rightarrow> KernelTaskFact option \<Rightarrow> KernelDecision"
where
  "decideRecoveryRequired event reason task = (case task of
      None \<Rightarrow> decision event NoOp ''recovery_required observation has no matching Task''
    | Some t \<Rightarrow>
        if Some (ktId t) \<noteq> evTaskId event then decision event NoOp ''recovery_required observation has no matching Task''
        else if ktStatus t = TNeedsAction then decision event NoOp ''recovery_required blocker is already recorded''
        else if isTerminalTaskStatus (ktStatus t)
        then decision event NoOp ''recovery_required observation arrived after the Task terminal state''
        else decision event (block_work (ktId t) None) (''recovery_required: '' @ reason))"

subsection \<open>Permissions\<close>

definition request_status_name :: "PermissionRequestStatus option \<Rightarrow> string" where
  "request_status_name s = (case s of None \<Rightarrow> ''missing'' | Some PendingRequest \<Rightarrow> ''pending''
     | Some GrantedRequest \<Rightarrow> ''granted'' | Some DeniedRequest \<Rightarrow> ''denied'' | Some ExpiredRequest \<Rightarrow> ''expired'')"

definition received :: "KernelEventEnvelope \<Rightarrow> AuthorizationAnswer \<Rightarrow> PermissionResolution \<Rightarrow> PermissionAuthorization" where
  "received event answer r = \<lparr>puReceivedEventId = evId event, puResolution = answer, puSource = prSource r,
     puPlannerPlanId = prPlannerPlanId r\<rparr>"

definition evaluate_permission ::
  "js_runtime \<Rightarrow> KernelEventEnvelope \<Rightarrow> PermissionResolution option \<Rightarrow> PermissionSnapshot \<Rightarrow> NormalizedCapabilityRequest \<Rightarrow> KernelDecision result"
where
  "evaluate_permission rt event resolution snapshot request =
     rbind (evaluateCapabilityRequest rt \<lparr>peRequest = request, peRules = psRules snapshot, peNow = evOccurredAt event,
         pePreviouslyDenied = psPreviouslyDeniedFingerprints snapshot,
         peUserAuthorizations = (if resolution = None then psUserAuthorizationFingerprints snapshot
            else js_dedup (psUserAuthorizationFingerprints snapshot @ [rqFingerprint request])),
         peMaxDistinctRequests = None\<rparr>) (\<lambda>outcome.
       Inr (case outcome of
           GrantCapability rid reason limits \<Rightarrow> decision event
             (GrantCapabilityAction (rqId request) limits rid (map_option (received event Approve) resolution)) reason
         | EscalateCapability _ reason \<Rightarrow> decision event (EscalateCapabilityAction (rqId request)) reason
         | DenyCapability _ reason \<Rightarrow> decision event (DenyCapabilityAction (rqId request) None) reason))"

definition settled_permission ::
  "KernelEventEnvelope \<Rightarrow> PermissionSnapshot \<Rightarrow> NormalizedCapabilityRequest \<Rightarrow> KernelDecision"
where
  "settled_permission event snapshot request =
     (case find (\<lambda>g. grantRequestId g = rqId request) (psCurrentGrants snapshot) of
        Some g \<Rightarrow> if psRequestStatus snapshot = Some GrantedRequest
          then decision event (GrantCapabilityAction (rqId request) (grantLimits g) ''existing_grant'' None)
            ''duplicate request returns the existing grant''
          else decision event (DenyCapabilityAction (rqId request) None)
            (''permission request is '' @ request_status_name (psRequestStatus snapshot))
      | None \<Rightarrow> decision event (DenyCapabilityAction (rqId request) None)
          (''permission request is '' @ request_status_name (psRequestStatus snapshot)))"

definition decidePermission ::
  "js_runtime \<Rightarrow> KernelEventEnvelope \<Rightarrow> PermissionResolution option \<Rightarrow> PermissionSnapshot \<Rightarrow> KernelDecision result"
where
  "decidePermission rt event resolution snapshot =
     (case psRequest snapshot of
        None \<Rightarrow> Inr (decision event (DenyCapabilityAction [] None) ''permission request identity mismatch'')
      | Some request \<Rightarrow>
          if Some (rqTaskId request) \<noteq> evTaskId event \<or> Some (rqSubtaskId request) \<noteq> evSubtaskId event
          then Inr (decision event (DenyCapabilityAction (rqId request) None) ''permission request identity mismatch'')
          else (case resolution of
              Some r \<Rightarrow>
                if prRequestId r \<noteq> rqId request
                then Inr (decision event (DenyCapabilityAction (prRequestId r) None) ''permission resolution request ID mismatch'')
                else if psRequestStatus snapshot \<noteq> Some PendingRequest then Inr (settled_permission event snapshot request)
                else if prResolution r = Deny
                then Inr (decision event (DenyCapabilityAction (rqId request) (Some (received event Deny r)))
                  ''user denied the exact capability request'')
                else if \<not> psAttemptActive snapshot
                then Inr (if truthy (psWorkspaceId snapshot)
                  then decision event (RecoverWorkspaceAttempt (rqTaskId request) (rqSubtaskId request) (or_empty (psWorkspaceId snapshot))
                      (psCheckpointId snapshot) (Some (rqId request)) (Some (received event Approve r)) None)
                    ''user authorization recorded; a fresh recovery attempt must receive a new bounded grant''
                  else decision event (DenyCapabilityAction (rqId request) None) ''approved request has no recoverable workspace'')
                else evaluate_permission rt event (Some r) snapshot request
            | None \<Rightarrow>
                if psRequestStatus snapshot \<noteq> Some PendingRequest then Inr (settled_permission event snapshot request)
                else evaluate_permission rt event None snapshot request))"

subsection \<open>Resource conflicts and lost sandboxes\<close>

definition decidePartitionConflict :: "KernelEventEnvelope \<Rightarrow> string list \<Rightarrow> bool \<Rightarrow> KernelDecision" where
  "decidePartitionConflict event leaseIds conflictConfirmed =
     (if \<not> truthy (evTaskId event) \<or> \<not> truthy (evSubtaskId event) \<or> \<not> conflictConfirmed \<or> leaseIds = []
      then decision event (block_work (or_empty (evTaskId event)) (evSubtaskId event)) ''partition conflict facts are incomplete''
      else decision event (WaitForPartition (or_empty (evTaskId event)) (or_empty (evSubtaskId event)) (sort_strings (js_dedup leaseIds)))
        ''conflicting resource lease requires Kernel wait'')"

definition decideSandboxRecovery :: "KernelEventEnvelope \<Rightarrow> SandboxLost \<Rightarrow> SandboxRecoverySnapshot \<Rightarrow> KernelDecision" where
  "decideSandboxRecovery event lost snapshot =
     (if \<not> truthy (evTaskId event) \<or> \<not> truthy (evSubtaskId event) \<or> \<not> srWorkspaceExists snapshot
         \<or> srWorkspaceId snapshot \<noteq> Some (slWorkspaceId lost)
      then decision event (block_work (or_empty (evTaskId event)) (evSubtaskId event)) ''sandbox loss has no recoverable workspace''
      else decision event (RecoverWorkspaceAttempt (or_empty (evTaskId event)) (or_empty (evSubtaskId event)) (slWorkspaceId lost)
          (srCheckpointId snapshot) None None
          (Some \<lparr>laLostAttemptId = evAttemptId event, laAuthorizedBinding = slAuthorizedBinding lost,
             laBindingFingerprint = slBindingFingerprint lost, laAttemptKind = slAttemptKind lost,
             laSourceAttemptId = slSourceAttemptId lost, laRecoveryMode = slRecoveryMode lost,
             laDefaultResourceGrant = srDefaultResourceGrant snapshot\<rparr>))
        ''lost sandbox will be replaced by a fresh attempt using the persistent workspace'')"

subsection \<open>What an answer to a control event guarantees\<close>

lemma family_quiescence: "family (decAction (decideGenerationQuiescence e i g r s)) = OtherFamily"
  by (simp add: decideGenerationQuiescence_def split: option.splits)

lemma family_accept: "family (decAction (accept_result e t g r task s x)) = OtherFamily"
  by (simp add: accept_result_def accept_partial_def Let_def split: option.splits)

lemma family_retry: "family (decAction (retry_result e t g r task s x)) = OtherFamily"
  by (simp add: retry_result_def split: option.splits)

lemma family_cancel: "cancel_subtasks rt e t g r s ids = Inr d \<Longrightarrow> family (decAction d) \<in> {CancellationFamily, OtherFamily}"
  by (auto simp: cancel_subtasks_def split: option.splits CancellationClosureResult.splits)

lemma family_control: "decideTaskControl rt e c s = Inr d \<Longrightarrow> family (decAction d) \<in> {CancellationFamily, OtherFamily}"
  using family_cancel [of rt e _ _ _ s _ d]
  by (cases c) (auto simp: decideTaskControl_def with_generation_def Let_def family_accept family_retry
      split: option.splits if_splits)

lemma family_fire: "family (decAction (fire_retry_wake rt e t r w s)) \<in> {DispatchFamily, OtherFamily}"
  by (simp add: fire_retry_wake_def recover_wake_def)

lemma family_recheck: "family (decAction (capacity_recheck rt e t s b)) = OtherFamily"
  by (simp add: capacity_recheck_def Let_def split: option.split)

lemma family_timer: "family (decAction (decideTimer rt e t s)) \<in> {DispatchFamily, OtherFamily}"
  using family_fire [of rt e t _ _ s]
  by (auto simp: decideTimer_def decide_retry_wake_def recover_wake_def family_recheck split: option.split)

lemma family_recovery:
  "family (decAction (decideRecovery e i r t item)) = OtherFamily"
  "family (decAction (decideRecoveryRequired e reason t)) = OtherFamily"
  "family (decAction (decidePartitionConflict e ids c)) = OtherFamily"
  "family (decAction (decideSandboxRecovery e l sb)) = OtherFamily"
  by (simp_all add: decideRecovery_def decideRecoveryRequired_def decidePartitionConflict_def decideSandboxRecovery_def
      Let_def split: option.splits)

lemma family_evaluate: "evaluate_permission rt e r s q = Inr d \<Longrightarrow> family (decAction d) \<in> {GrantFamily, OtherFamily}"
  unfolding evaluate_permission_def rbind_Inr_iff by (elim exE conjE) (simp split: PermissionDecision.splits, auto)

lemma family_settled: "family (decAction (settled_permission e s q)) \<in> {GrantFamily, OtherFamily}"
  by (simp add: settled_permission_def split: option.splits)

lemma family_permission: "decidePermission rt e r s = Inr d \<Longrightarrow> family (decAction d) \<in> {GrantFamily, OtherFamily}"
  using family_evaluate [of rt e _ s _ d] family_settled [of e s]
  by (auto simp: decidePermission_def split: option.splits if_splits)

lemma family_availability: "decideAvailabilityRecovery rt e s = Inr d \<Longrightarrow> family (decAction d) = OtherFamily"
  by (auto simp: decideAvailabilityRecovery_def Let_def split: option.splits if_splits WorkspaceExecutionResolution.splits)

lemma fire_batch:
  assumes "decAction (fire_retry_wake rt e tick retry wake s) = DispatchBatch tid items"
  shows "kwStatus wake = WakeFired \<and> tmWakeAuthorized s \<and> \<not> date_before rt (evOccurredAt e) (ttScheduledFor tick)
    \<and> truthy (evTaskId e) \<and> singleDispatchBatch rt e (or_empty (evTaskId e)) (or_empty (evSubtaskId e))
          (tyAuthorizedBinding retry) ContinuationAttempt (Some (tySourceAttemptId retry))
          (if abAgentClassRef (tyAuthorizedBinding retry) \<in> set (tmNativeContinuationAgentClasses s)
           then NativeSession else RecoveryPacket)
          (tmDefaultResourceGrant s) None = DispatchBatch tid items"
  using assms by (cases "kwStatus wake") (simp_all add: fire_retry_wake_def recover_wake_def split: if_splits)

lemma fire_task:
  assumes "decAction (fire_retry_wake rt e tick retry wake s) = DispatchBatch tid items"
  shows "\<exists>t. tmTask s = Some t \<and> evTaskId e = Some (ktId t) \<and> ktStatus t \<in> {TRunning, TNeedsAction}"
  using assms by (cases "tmTask s") (auto simp: fire_retry_wake_def recover_wake_def split: if_splits)

lemma timer_batch:
  assumes "decAction (decideTimer rt e tick s) = DispatchBatch tid items"
  obtains retry wake where "ttRetry tick = Some retry" "tmRetryWake s = Some wake" "wake_identity e tick retry wake"
    "decAction (fire_retry_wake rt e tick retry wake s) = DispatchBatch tid items"
  using assms
  by (auto simp: decideTimer_def decide_retry_wake_def recover_wake_def capacity_recheck_def Let_def split: option.splits if_splits)

lemma with_generation_Inr:
  assumes "with_generation e s f = Inr d" "family (decAction d) \<noteq> OtherFamily"
  shows "\<exists>g r. tsGenerationId s = Some g \<and> g \<noteq> [] \<and> tsGraphRevision s = Some r \<and> f g r = Inr d"
  using assms by (auto simp: with_generation_def truthy_def split: option.splits if_splits)

end
