(* ===== verification/Kernel_Plan.thy ===== *)
theory Kernel_Plan
  imports Kernel_Control
begin

text \<open>
  Admission of a proposed plan (\<open>decidePlan\<close> and its helpers in
  \<open>src/src/kernel/control-kernel.ts\<close>): validation, confirmation, slots and queues, context
  references, Workspace admission, and the bindings the Kernel authorizes. The Planner's schema is
  the argument \<open>safeParse\<close>.
\<close>

subsection \<open>The fingerprint of a proposal\<close>

text \<open>The proposal as the JSON value its fingerprint is taken of; an optional field is written only
  when it is set.\<close>

definition json_nullable :: "string option \<Rightarrow> json" where
  "json_nullable v = (case v of None \<Rightarrow> JNull | Some s \<Rightarrow> JStr s)"

definition json_field :: "string \<Rightarrow> json option \<Rightarrow> (string \<times> json) list" where
  "json_field k v = (case v of None \<Rightarrow> [] | Some j \<Rightarrow> [(k, j)])"

definition json_string_list :: "string list \<Rightarrow> json" where
  "json_string_list ss = JArr (map JStr ss)"

fun binding_name :: "IntentTaskBinding \<Rightarrow> string" where
  "binding_name NewTask = ''new''" | "binding_name ReferenceTask = ''reference''" | "binding_name NoTask = ''none''"

fun priority_name :: "TaskSemanticPriority \<Rightarrow> string" where
  "priority_name NormalPriority = ''normal''" | "priority_name HighPriority = ''high''" | "priority_name UrgentPriority = ''urgent''"

definition task_json :: "PlanTask \<Rightarrow> json" where
  "task_json t = JObj (
     json_field ''publicProjectDirectory'' (map_option JStr (ptPublicProjectDirectory t))
     @ json_field ''startServiceAfterPublish'' (map_option JBool (ptStartServiceAfterPublish t))
     @ [(''binding'', JStr (binding_name (ptBinding t))), (''taskId'', json_nullable (ptTaskId t)),
        (''control'', JStr (control_name (ptControl t))), (''scope'', json_nullable (ptScope t)),
        (''title'', json_nullable (ptTitle t)), (''goal'', json_nullable (ptGoal t)),
        (''includeRecentConversationContext'', JBool (ptIncludeRecentConversationContext t)),
        (''priority'', (case ptPriority t of None \<Rightarrow> JNull
           | Some (level, reason) \<Rightarrow> JObj [(''level'', JStr (priority_name level)), (''reason'', JStr reason)]))])"

fun context_ref_json :: "ContextRef \<Rightarrow> json" where
  "context_ref_json CurrentUserInput = JObj [(''kind'', JStr ''current_user_input'')]"
| "context_ref_json (Interaction i s) = JObj [(''kind'', JStr ''interaction''), (''interactionId'', JStr i), (''side'', JStr (side_name s))]"
| "context_ref_json (Attachment i) = JObj [(''kind'', JStr ''attachment''), (''attachmentId'', JStr i)]"
| "context_ref_json (Artifact i) = JObj [(''kind'', JStr ''artifact''), (''artifactId'', JStr i)]"
| "context_ref_json (TaskResource l) = JObj [(''kind'', JStr ''task_resource''), (''locator'', JStr l)]"
| "context_ref_json (TaskEvidence i) = JObj [(''kind'', JStr ''task_evidence''), (''evidenceId'', JStr i)]"
| "context_ref_json (MemoryRef i r) = JObj ([(''kind'', JStr ''memory''), (''memoryId'', JStr i)] @ json_field ''revision'' (map_option JStr r))"
| "context_ref_json (RetiredRef k) = JObj [(''kind'', JStr k)]"

fun selection_json :: "ProposedModelSelection \<Rightarrow> json" where
  "selection_json FixedByAgentClass = JObj [(''mode'', JStr ''fixed-by-agent-class'')]"
| "selection_json (Proposed m r) = JObj [(''mode'', JStr ''proposed''), (''modelRef'', JStr m), (''reason'', JStr r)]"
| "selection_json AgentClassDefault = JObj [(''mode'', JStr ''agent-class-default'')]"

definition dependency_json :: "WorkGraphDependency \<Rightarrow> json" where
  "dependency_json d = JObj [(''fromSubtaskId'', JStr (fromSubtaskId d)),
     (''requiredItems'', JArr (map (\<lambda>i. JObj [(''key'', JStr (itemKey i)),
        (''type'', JStr (case itemType i of TextItem \<Rightarrow> ''text'' | ArtifactItem \<Rightarrow> ''artifact'')),
        (''description'', JStr (itemDescription i))]) (requiredItems d)))]"

definition acceptance_json :: "WorkGraphAcceptanceCriterion \<Rightarrow> json" where
  "acceptance_json a = JObj [(''key'', JStr (accKey a)), (''description'', JStr (accDescription a)),
     (''requiredEvidence'', json_string_list (requiredEvidence a))]"

definition risk_name :: "riskLevel \<Rightarrow> string" where
  "risk_name r = (case r of LowRisk \<Rightarrow> ''low'' | MediumRisk \<Rightarrow> ''medium'' | HighRisk \<Rightarrow> ''high'')"

definition subtask_json :: "WorkGraphSubtask \<Rightarrow> json" where
  "subtask_json s = JObj (
     [(''id'', JStr (wgId s)), (''title'', JStr (wgTitle s)), (''goal'', JStr (wgGoal s)),
      (''dependencies'', JArr (map dependency_json (wgDependencies s))),
      (''contextRefs'', JArr (map context_ref_json (wgContextRefs s))),
      (''requiredCapabilities'', json_string_list (wgRequiredCapabilities s)),
      (''executorBindings'', JArr (map (\<lambda>b. JObj [(''agentClassRef'', JStr (pbAgentClassRef b)),
         (''modelSelection'', selection_json (pbModelSelection b))]) (wgExecutorBindings s)))]
     @ json_field ''workspaceEffect'' (map_option JStr (wgWorkspaceEffect s))
     @ [(''deliveryKind'', JStr (case wgDeliveryKind s of EditDelivery \<Rightarrow> ''edit'' | ReportDelivery \<Rightarrow> ''report''))]
     @ json_field ''fileOutputs'' (map_option json_string_list (wgFileOutputs s))
     @ [(''acceptance'', JArr (map acceptance_json (wgAcceptance s))), (''riskLevel'', JStr (risk_name (wgRiskLevel s)))])"

definition graph_json :: "WorkGraphProposal \<Rightarrow> json" where
  "graph_json g = JObj [(''schemaVersion'', JNum 7), (''configurationRevision'', JStr (wpConfigurationRevision g)),
     (''reason'', JStr (wpReason g)), (''subtasks'', JArr (map subtask_json (wpSubtasks g)))]"

subsection \<open>Span probabilities\<close>

record SubtaskSpanApplication =
  saApplied :: bool
  saReason :: "string option"
  saProbabilities :: "(string \<times> (string \<times> js_number) list) list"

definition not_applied :: "string \<Rightarrow> SubtaskSpanApplication" where
  "not_applied reason = \<lparr>saApplied = False, saReason = Some reason, saProbabilities = []\<rparr>"

definition span_model_of :: "KernelConfigurationView \<Rightarrow> string" where
  "span_model_of configuration = (case kcSpanModel configuration of Some m \<Rightarrow> m | None \<Rightarrow> ''inception/mercury-decide:free'')"

definition observation_current ::
  "KernelConfigurationView \<Rightarrow> KernelEventEnvelope \<Rightarrow> PlanProposed \<Rightarrow> string \<Rightarrow> SpanRoutingObservation \<Rightarrow> bool"
where
  "observation_current configuration event plan proposalFingerprint ob \<longleftrightarrow>
     srSchemaVersion ob = 1 \<and> srPolicyVersion ob = ''span-routing-v1'' \<and> srQuestionVersion ob = ''span-fit-v5''
     \<and> srModel ob = span_model_of configuration \<and> srEventId ob = evId event
     \<and> srConfigurationRevision ob = evConfigurationRevision event
     \<and> srObservedGenerationId ob = ppGenerationId plan \<and> srTargetGraphRevision ob = ppTargetGraphRevision plan
     \<and> srProposalFingerprint ob = proposalFingerprint"

definition group_identities :: "PlanSubtaskCandidateGroup list \<Rightarrow> PlanRoutingCandidateIdentity list" where
  "group_identities groups = concat (map (\<lambda>g. map (\<lambda>c. \<lparr>ciAgentClassRef = cgAgentClassRef g,
     ciProviderRef = mcProviderRef c, ciModelRef = mcModelRef c\<rparr>) (cgEligible g)) groups)"

definition span_identity :: "SpanRoutingCandidate \<Rightarrow> string" where
  "span_identity c = planRoutingCandidateId \<lparr>ciAgentClassRef = scAgentClassRef c, ciProviderRef = scProviderRef c, ciModelRef = scModelRef c\<rparr>"

text \<open>The loop over the observed candidates: \<^const>\<open>None\<close> on the first that is unknown, repeated or no
  probability.\<close>

fun collect_probabilities ::
  "string list \<Rightarrow> string list \<Rightarrow> (string \<times> (string \<times> js_number) list) list \<Rightarrow> SpanRoutingCandidate list
   \<Rightarrow> (string list \<times> (string \<times> (string \<times> js_number) list) list) option"
where
  "collect_probabilities eligibleIds seen m [] = Some (seen, m)"
| "collect_probabilities eligibleIds seen m (c # cs) =
     (if span_identity c \<notin> set eligibleIds \<or> span_identity c \<in> set seen \<or> \<not> unit_interval (scProbability c) then None
      else collect_probabilities eligibleIds (span_identity c # seen)
        (AList.update (scAgentClassRef c)
           (AList.update (scModelRef c) (scProbability c) (lookup_or [] m (scAgentClassRef c))) m) cs)"

definition advised_probabilities ::
  "js_runtime \<Rightarrow> PlanRoutingCandidateIdentity list \<Rightarrow> string \<Rightarrow> SpanRoutingCandidate list \<Rightarrow> SubtaskSpanApplication"
where
  "advised_probabilities rt eligible candidateSetFingerprint candidates =
     (if planRoutingCandidateSetFingerprint rt eligible \<noteq> candidateSetFingerprint then not_applied ''candidate_set_changed''
      else (let eligibleIds = map planRoutingCandidateId eligible in
        case collect_probabilities eligibleIds [] [] candidates of
          None \<Rightarrow> not_applied ''candidate_identity_mismatch''
        | Some (seen, m) \<Rightarrow>
            if length (js_dedup seen) \<noteq> length (js_dedup eligibleIds) then not_applied ''incomplete_probabilities''
            else \<lparr>saApplied = True, saReason = None, saProbabilities = m\<rparr>))"

definition resolveSubtaskSpanProbabilities ::
  "js_runtime \<Rightarrow> js_platform \<Rightarrow> KernelConfigurationView \<Rightarrow> KernelEventEnvelope \<Rightarrow> PlanProposed \<Rightarrow> string \<Rightarrow> string list
   \<Rightarrow> WorkGraphSubtask \<Rightarrow> SpanRoutingObservation \<Rightarrow> SubtaskSpanApplication result"
where
  "resolveSubtaskSpanProbabilities rt pf configuration event plan proposalFingerprint unavailable subtask ob =
     (if \<not> observation_current configuration event plan proposalFingerprint ob then Inr (not_applied ''stale_observation'')
      else (case find (\<lambda>s. spanSubtaskId s = wgId subtask) (srSubtasks ob) of
          None \<Rightarrow> Inr (not_applied ''missing_subtask_observation'')
        | Some (SpanFallback _ _ reason) \<Rightarrow> Inr (not_applied reason)
        | Some (SpanSkipped _ reason) \<Rightarrow> Inr (not_applied reason)
        | Some (SpanAdvised _ fp candidates) \<Rightarrow>
            rbind (planSubtaskCandidateGroups rt pf configuration subtask unavailable) (\<lambda>groups.
              Inr (advised_probabilities rt (group_identities groups) fp candidates))))"

subsection \<open>Authorized bindings\<close>

record binding_entry =
  beBinding :: AuthorizedExecutorBinding
  beOrder :: nat
  beProbability :: "js_number option"
  beAudit :: RoutingResolutionAudit

definition kernel_requirements :: "js_runtime \<Rightarrow> WorkGraphSubtask \<Rightarrow> AutoModelRequirements result" where
  "kernel_requirements rt subtask =
     rbind (requiredModelCapabilitiesForRoutingCapabilities rt (wgRequiredCapabilities subtask)) (\<lambda>cs. Inr (routing_requirements cs))"

definition resolver_input ::
  "js_runtime \<Rightarrow> KernelConfigurationView \<Rightarrow> ProposedExecutorBinding \<Rightarrow> KernelAgentClassConfiguration \<Rightarrow> string
   \<Rightarrow> AutoModelRequirements \<Rightarrow> (string \<times> js_number) list option \<Rightarrow> AutoModelResolverInput"
where
  "resolver_input rt configuration proposed agentClass profile requirements probabilities =
     \<lparr>miConfigurationRevision = kcRevisionId configuration, miAgentClassRef = pbAgentClassRef proposed,
      miHarnessRef = kaHarnessRef agentClass, miPermissionProfileRef = profile, miPolicy = kaModelPolicy agentClass,
      miCandidates = projectConfigurationCandidates rt configuration (pbAgentClassRef proposed) (fixed_policy (kaModelPolicy agentClass)),
      miRequirements = requirements,
      miPreferredModelRef = resolvePreferredModelRef (pbModelSelection proposed) (kaModelPolicy agentClass),
      miSpanProbabilities = probabilities\<rparr>"

definition span_audit ::
  "SubtaskSpanApplication option \<Rightarrow> (string \<times> js_number) list option \<Rightarrow> (bool \<times> string option \<times> (string \<times> js_number) list option) option"
where
  "span_audit application probabilities = map_option (\<lambda>a. (saApplied a, saReason a, probabilities)) application"

text \<open>The \<open>try\<close> block: a thrown error becomes an error of the Subtask.\<close>

definition authorize_binding ::
  "js_runtime \<Rightarrow> js_platform \<Rightarrow> KernelConfigurationView \<Rightarrow> SubtaskSpanApplication option \<Rightarrow> WorkGraphSubtask \<Rightarrow> nat
   \<Rightarrow> ProposedExecutorBinding \<Rightarrow> KernelAgentClassConfiguration \<Rightarrow> string \<Rightarrow> binding_entry result"
where
  "authorize_binding rt pf configuration application subtask index proposed agentClass profile =
     (let probabilities = Option.bind application (\<lambda>a. map_of (saProbabilities a) (pbAgentClassRef proposed)) in
      rbind (kernel_requirements rt subtask) (\<lambda>requirements.
      rbind (AutoModelResolver_resolve rt pf (resolver_input rt configuration proposed agentClass profile requirements probabilities)) (\<lambda>resolution.
        case mxBinding resolution of
          None \<Rightarrow> Inl ''resolver returned no concrete binding''
        | Some b \<Rightarrow>
            (let authorized = resolvePublicRoutingIdentity pf configuration b in
             Inr \<lparr>beBinding = authorized, beOrder = index, beProbability = span_value probabilities (abModelRef b),
                  beAudit = \<lparr>raAgentClassRef = pbAgentClassRef proposed, raBinding = authorized,
                    raRejectedCandidates = mxRejectedCandidates resolution, raScoreBreakdown = mxScoreBreakdown resolution,
                    raPolicyVersion = mxPolicyVersion resolution, raSpanApplied = span_audit application probabilities\<rparr>\<rparr>))))"

definition binding_entry_or_error ::
  "js_runtime \<Rightarrow> js_platform \<Rightarrow> KernelConfigurationView \<Rightarrow> SubtaskSpanApplication option \<Rightarrow> WorkGraphSubtask
   \<Rightarrow> nat \<times> ProposedExecutorBinding \<Rightarrow> binding_entry result"
where
  "binding_entry_or_error rt pf configuration application subtask = (\<lambda>(index, proposed).
     let ref = pbAgentClassRef proposed in
     case executor_class configuration ref of
       None \<Rightarrow> Inl (''subtask '' @ wgId subtask @ '' AgentClass is unavailable: '' @ ref)
     | Some agentClass \<Rightarrow> (case permission_ref configuration agentClass of
         None \<Rightarrow> Inl (''subtask '' @ wgId subtask @ '' AgentClass has no valid permission profile: '' @ ref)
       | Some profile \<Rightarrow> (case authorize_binding rt pf configuration application subtask index proposed agentClass profile of
           Inr e \<Rightarrow> Inr e
         | Inl message \<Rightarrow> Inl (''subtask '' @ wgId subtask @ '' model selection is not authorized for AgentClass '' @ ref @ '': '' @ message))))"

definition probability_or :: "binding_entry \<Rightarrow> js_number" where
  "probability_or e = (case beProbability e of Some p \<Rightarrow> p | None \<Rightarrow> js_int (-1))"

definition entry_compare :: "binding_entry \<Rightarrow> binding_entry \<Rightarrow> int" where
  "entry_compare left right = cmp_or (js_diff (probability_or right) (probability_or left)) (int (beOrder left) - int (beOrder right))"

definition lefts :: "('a + 'b) list \<Rightarrow> 'a list" where
  "lefts xs = List.map_filter (\<lambda>x. case x of Inl a \<Rightarrow> Some a | Inr _ \<Rightarrow> None) xs"

definition rights :: "('a + 'b) list \<Rightarrow> 'b list" where
  "rights xs = List.map_filter (\<lambda>x. case x of Inl _ \<Rightarrow> None | Inr b \<Rightarrow> Some b) xs"

definition subtask_bindings ::
  "js_runtime \<Rightarrow> js_platform \<Rightarrow> KernelConfigurationView \<Rightarrow> SubtaskSpanApplication option \<Rightarrow> WorkGraphSubtask
   \<Rightarrow> string list \<times> binding_entry list"
where
  "subtask_bindings rt pf configuration application subtask =
     (let results = map (binding_entry_or_error rt pf configuration application subtask)
            (enumerate 0 (proposed_bindings rt configuration subtask));
          entries = rights results in
      (lefts results @ when_error (entries = []) (''subtask '' @ wgId subtask @ '' has no authorized executor binding''),
       js_sort entry_compare entries))"

record ResolvedBindings =
  rbBindingsBySubtask :: "(string \<times> AuthorizedExecutorBinding list) list"
  rbRouting :: "(string \<times> RoutingResolutionAudit list) list"

fun span_applications ::
  "(WorkGraphSubtask \<Rightarrow> SubtaskSpanApplication result) option \<Rightarrow> WorkGraphSubtask list \<Rightarrow> (WorkGraphSubtask \<times> SubtaskSpanApplication option) list result"
where
  "span_applications f [] = Inr []"
| "span_applications f (s # ss) =
     rbind (case f of None \<Rightarrow> Inr None | Some g \<Rightarrow> rbind (g s) (\<lambda>a. Inr (Some a))) (\<lambda>a.
     rbind (span_applications f ss) (\<lambda>rest. Inr ((s, a) # rest)))"

definition resolveAuthorizedBindings ::
  "js_runtime \<Rightarrow> js_platform \<Rightarrow> WorkGraphProposal \<Rightarrow> KernelConfigurationView
   \<Rightarrow> (WorkGraphSubtask \<Rightarrow> SubtaskSpanApplication result) option \<Rightarrow> (string list + ResolvedBindings) result"
where
  "resolveAuthorizedBindings rt pf graph configuration spanOf =
     (if wpConfigurationRevision graph \<noteq> kcRevisionId configuration
      then Inr (Inl [''work graph configurationRevision '' @ wpConfigurationRevision graph
             @ '' does not match Kernel configuration revision '' @ kcRevisionId configuration])
      else rbind (span_applications spanOf (wpSubtasks graph)) (\<lambda>applications.
        let resolved = map (\<lambda>(s, a). (wgId s, subtask_bindings rt pf configuration a s)) applications;
            errors = concat (map (\<lambda>(i, errs, es). errs) resolved) in
        Inr (if errors \<noteq> [] then Inl (sort_strings errors)
             else Inr \<lparr>rbBindingsBySubtask = js_map_of (map (\<lambda>(i, errs, es). (i, map beBinding es)) resolved),
                       rbRouting = js_map_of (map (\<lambda>(i, errs, es). (i, map beAudit es)) resolved)\<rparr>)))"

subsection \<open>Scheduling and context\<close>

definition isStateChanging :: "PlanningAgentPlan \<Rightarrow> bool" where
  "isStateChanging proposal \<longleftrightarrow> plAction proposal = PlanWorkGraph
     \<or> plAction proposal = TaskControl \<and> ptControl (plTask proposal) \<noteq> StatusQuery"

definition event_conversation :: "KernelEventEnvelope \<Rightarrow> string" where
  "event_conversation event = (case evConversationId event of Some c \<Rightarrow> c | None \<Rightarrow> evSessionId event)"

definition admission_occupant :: "KernelEventEnvelope \<Rightarrow> PlanAdmissionSnapshot \<Rightarrow> string option" where
  "admission_occupant event snapshot =
     slot_occupant (asActiveTaskByConversation snapshot) (asRunningTaskId snapshot) (event_conversation event)"

definition active_task_count :: "PlanAdmissionSnapshot \<Rightarrow> int" where
  "active_task_count snapshot = (case asActiveTaskCount snapshot of Some n \<Rightarrow> n
     | None \<Rightarrow> (case asOccupiedConversationIds snapshot of Some ids \<Rightarrow> int (length ids) | None \<Rightarrow> 0))"

definition account_capacity_reached :: "PlanProposed \<Rightarrow> PlanAdmissionSnapshot \<Rightarrow> string option \<Rightarrow> bool" where
  "account_capacity_reached plan snapshot active \<longleftrightarrow>
     \<not> truthy active \<and> ppProposalSource plan = InitialProposal \<and> ptTaskId (plTask (ppProposal plan)) = None
     \<and> (case rpMaxConcurrentTasks (kcRuntimePolicy (asKernelConfiguration snapshot)) of Some n \<Rightarrow> n | None \<Rightarrow> 2)
        \<le> active_task_count snapshot"

definition queue_limit :: "PlanAdmissionSnapshot \<Rightarrow> int" where
  "queue_limit snapshot =
     (case rpSameConversationQueueLimit (kcRuntimePolicy (asKernelConfiguration snapshot)) of Some n \<Rightarrow> n | None \<Rightarrow> 8)"

definition queued_count :: "KernelEventEnvelope \<Rightarrow> PlanAdmissionSnapshot \<Rightarrow> int" where
  "queued_count event snapshot = (case asQueuedTaskCountByConversation snapshot of None \<Rightarrow> 0
     | Some m \<Rightarrow> lookup_or 0 m (event_conversation event))"

definition slot_rejection :: "KernelEventEnvelope \<Rightarrow> PlanProposed \<Rightarrow> PlanAdmissionSnapshot \<Rightarrow> string option" where
  "slot_rejection event plan snapshot =
     (let active = admission_occupant event snapshot; target = ptTaskId (plTask (ppProposal plan)) in
      if (truthy active \<or> account_capacity_reached plan snapshot active) \<and> target \<noteq> active
      then (if ppProposalSource plan = InitialProposal \<and> target = None
            then (if queue_limit snapshot \<le> queued_count event snapshot
                  then Some (''same-Conversation queue limit reached: '' @ show_int (queue_limit snapshot)) else None)
            else Some (''task '' @ or_empty target @ '' is not owned by the active Conversation slot''))
      else None)"

definition scheduling_reason :: "KernelEventEnvelope \<Rightarrow> PlanProposed \<Rightarrow> PlanAdmissionSnapshot \<Rightarrow> SchedulingReason option" where
  "scheduling_reason event plan snapshot =
     (let active = admission_occupant event snapshot in
      if truthy active then Some ConversationSlotOccupied
      else if account_capacity_reached plan snapshot active then Some AccountTaskCapacity else None)"

definition revision_rejection :: "PlanProposed \<Rightarrow> string option" where
  "revision_rejection plan =
     (if ppGenerationId plan = [] \<or> \<not> isSafeInteger (ppTargetGraphRevision plan) \<or> ppTargetGraphRevision plan < 1
      then Some ''invalid graph generation or revision''
      else if ppProposalSource plan = InitialProposal \<and> ppTargetGraphRevision plan \<noteq> 1
      then Some ''initial plan must authorize graph revision 1''
      else if ppProposalSource plan \<noteq> InitialProposal
         \<and> (\<not> truthy (ptTaskId (plTask (ppProposal plan))) \<or> ppTargetGraphRevision plan < 2)
      then Some ''replan must target an existing Task and a later revision''
      else None)"

definition invalid_refs :: "WorkGraphProposal \<Rightarrow> string list \<Rightarrow> string list result" where
  "invalid_refs graph eligible =
     collect_results (\<lambda>s. collect_results (\<lambda>r. rbind (contextRefKey r) (\<lambda>k. Inr (if k \<in> set eligible then [] else [k])))
       (wgContextRefs s)) (wpSubtasks graph)"

definition ref_kind_label :: "string \<Rightarrow> string" where
  "ref_kind_label k = lookup_or k
     [(''current_user_input'', ''%u5F53%u524D%u7528%u6237%u8F93%u5165''), (''interaction'', ''%u5386%u53F2%u4F1A%u8BDD''), (''artifact'', ''%u5386%u53F2%u4EA7%u7269''),
      (''attachment'', ''%u9644%u4EF6''), (''task_resource'', ''%u4EFB%u52A1%u8D44%u6E90''), (''task_evidence'', ''%u4EFB%u52A1%u8BC1%u636E''),
      (''preference'', ''%u504F%u597D%u8BBE%u7F6E'')] k"

definition kind_hint :: "string list \<Rightarrow> string" where
  "kind_hint keys = js_join ''%u3001'' (map ref_kind_label (js_dedup (map (\<lambda>k. hd (js_split (CHR '':'') k)) keys)))"

definition proposal_admission :: "PlanProposed \<Rightarrow> WorkGraphProposal \<Rightarrow> PlanAdmissionSnapshot \<Rightarrow> WorkspaceExecutionDecisionInput" where
  "proposal_admission plan graph snapshot = \<lparr>wxIntent = plWorkspaceIntent (ppProposal plan),
     wxTargetWorkspace = ppTargetWorkspace plan,
     wxExistingTaskBinding = (case ptTaskId (plTask (ppProposal plan)) of
        None \<Rightarrow> None
      | Some t \<Rightarrow> if t = [] then None else Option.bind (find (\<lambda>k. ktId k = t) (asTasks snapshot)) existing_binding),
     wxRiskLevel = plRiskLevel (ppProposal plan), wxWrites = deferred_writes graph,
     wxDeclaredOutputPaths = concat (map file_outputs (wpSubtasks graph))\<rparr>"

definition conflict_rejection :: "PlanProposed \<Rightarrow> PlanAdmissionSnapshot \<Rightarrow> string option" where
  "conflict_rejection plan snapshot = (case plConflictOldTaskId (ppProposal plan) of
      None \<Rightarrow> None
    | Some old \<Rightarrow> (case find (\<lambda>t. ktId t = old) (asTasks snapshot) of
        None \<Rightarrow> Some (''conflictResolution targets an unknown Task: '' @ old)
      | Some t \<Rightarrow> if isTerminalTaskStatus (ktStatus t)
          then Some (''conflictResolution targets an already-terminal Task: '' @ task_status_name (ktStatus t)) else None))"

subsection \<open>The decision\<close>

definition question_or :: "PlanningAgentPlan \<Rightarrow> string \<Rightarrow> string" where
  "question_or proposal d = (case plClarificationQuestion proposal of Some q \<Rightarrow> q | None \<Rightarrow> d)"

definition decide_task_control_plan :: "KernelEventEnvelope \<Rightarrow> PlanningAgentPlan \<Rightarrow> PlanAdmissionSnapshot \<Rightarrow> KernelDecision" where
  "decide_task_control_plan event proposal snapshot =
     (let task = plTask proposal; control = ptControl task;
          target = (if truthy (ptTaskId task) then find (\<lambda>t. Some (ktId t) = ptTaskId task) (asTasks snapshot) else None);
          owner = Option.bind target ktConversationId;
          active = admission_occupant event snapshot in
      if control \<in> {ResumeTask, RecoverBlocked, AbandonTask} \<and> \<not> truthy (ptTaskId task)
      then decision event (RequestClarification (question_or proposal ''Which task should be resumed?'')) ''resume requires an explicit task''
      else if control \<notin> {StatusQuery, ClearTasks} \<and> truthy owner \<and> owner \<noteq> Some (event_conversation event)
      then decision event RejectRequest ''task is owned by another Conversation''
      else if control \<notin> {StatusQuery, ClearTasks, AbandonTask} \<and> \<not> startsWith (control_name control) ''service_''
         \<and> truthy active \<and> ptTaskId task \<noteq> active
      then decision event RejectRequest (''Conversation execution slot is occupied by '' @ or_empty active)
      else decision event (AuthorizeTaskControl task) ''task control authorized'')"

definition authorize_action ::
  "KernelEventEnvelope \<Rightarrow> PlanProposed \<Rightarrow> WorkGraphProposal \<Rightarrow> PlanAdmissionSnapshot \<Rightarrow> ResolvedBindings
   \<Rightarrow> (string \<times> AuthorizedExecutorBinding list) list \<Rightarrow> WorkspaceExecutionDecision \<Rightarrow> WorkspaceAdmission \<Rightarrow> WorkspaceIntent option \<Rightarrow> KernelDecisionAction"
where
  "authorize_action event plan graph snapshot resolved available d admission intent =
     AuthorizeTaskPlanAction
      \<lparr>auTaskId = (case ptTaskId (plTask (ppProposal plan)) of Some t \<Rightarrow> t | None \<Rightarrow> deterministicTaskId (evId event)),
       auTask = plTask (ppProposal plan), auWorkGraph = graph,
       auScheduleState = (if scheduling_reason event plan snapshot = None then ScheduleEligible else ScheduleQueued),
       auSchedulingReason = scheduling_reason event plan snapshot,
       auConversationId = event_conversation event, auWorkspaceId = evWorkspaceId event, auPlannerSessionId = evSessionId event,
       auAuthorizedBindingsBySubtask = available, auGenerationId = ppGenerationId plan,
       auGraphRevision = ppTargetGraphRevision plan, auProposalSource = ppProposalSource plan,
       auRouting = Some (rbRouting resolved), auWorkspaceExecution = d, auWorkspaceAdmission = Some admission,
       auWorkspaceIntent = intent, auConflictOldTaskId = plConflictOldTaskId (ppProposal plan)\<rparr>"

definition defer_action ::
  "KernelEventEnvelope \<Rightarrow> PlanProposed \<Rightarrow> string \<Rightarrow> ResolvedBindings \<Rightarrow> string list \<Rightarrow> WorkspaceExecutionDecision \<Rightarrow> WorkspaceAdmission \<Rightarrow> KernelDecisionAction"
where
  "defer_action event plan target resolved unavailable d admission =
     DeferTaskPlanAction \<lparr>dpTaskId = target, dpProposalEvent = (event, plan),
       dpAuthorizedBindingsBySubtask = rbBindingsBySubtask resolved,
       dpUnavailableAgentClassNames = js_dedup (map abAgentClassRef
          (filter (\<lambda>b. abAgentClassRef b \<in> set unavailable) (concat (map snd (rbBindingsBySubtask resolved))))),
       dpExplanation = (case ppAvailabilityExplanation plan of Some e \<Rightarrow> e
          | None \<Rightarrow> ''The revised plan is waiting because every eligible Executor for at least one Subtask is unavailable.''),
       dpWorkspaceExecution = Some d, dpWorkspaceAdmission = Some admission\<rparr>"

definition span_resolution ::
  "js_runtime \<Rightarrow> js_platform \<Rightarrow> KernelEventEnvelope \<Rightarrow> PlanProposed \<Rightarrow> WorkGraphProposal \<Rightarrow> PlanAdmissionSnapshot
   \<Rightarrow> (WorkGraphSubtask \<Rightarrow> SubtaskSpanApplication result) option"
where
  "span_resolution rt pf event plan graph snapshot = map_option
     (\<lambda>ob s. resolveSubtaskSpanProbabilities rt pf (asKernelConfiguration snapshot) event plan
        (planProposalFingerprint rt (task_json (plTask (ppProposal plan))) (graph_json graph))
        (unavailableAgentClasses rt (asExecutorStatuses snapshot) (evOccurredAt event)) s ob)
     (ppSpanRouting plan)"

text \<open>From the resolved bindings to the decision.\<close>

definition settle_plan ::
  "js_runtime \<Rightarrow> KernelEventEnvelope \<Rightarrow> PlanProposed \<Rightarrow> WorkGraphProposal \<Rightarrow> PlanAdmissionSnapshot \<Rightarrow> ResolvedBindings
   \<Rightarrow> WorkspaceExecutionDecision \<Rightarrow> WorkspaceAdmission \<Rightarrow> WorkspaceIntent option \<Rightarrow> KernelDecision result"
where
  "settle_plan rt event plan graph snapshot resolved d admission intent =
     (let unavailable = unavailableAgentClasses rt (asExecutorStatuses snapshot) (evOccurredAt event);
          available = map (\<lambda>(i, bs). (i, filter (\<lambda>b. abAgentClassRef b \<notin> set unavailable) bs)) (rbBindingsBySubtask resolved);
          target = ptTaskId (plTask (ppProposal plan)) in
      if \<exists>(i, bs) \<in> set available. bs = []
      then Inr (if ppProposalSource plan = ReplanProposal \<and> truthy target
           then decision event (defer_action event plan (or_empty target) resolved unavailable d admission)
             ''latest replan proposal deferred until Executor availability recovers''
           else decision event RejectRequest ''no healthy canonical AgentClass remains'')
      else rbind (validateWorkGraph rt (wpSubtasks graph)) (\<lambda>violations.
        Inr (if violations \<noteq> []
             then decision event RejectRequest (js_join ''; '' (map (\<lambda>v. code_name (vCode v) @ '': '' @ vMessage v) violations))
             else (case conflict_rejection plan snapshot of
                 Some reason \<Rightarrow> decision event RejectRequest reason
               | None \<Rightarrow> decision event (authorize_action event plan graph snapshot resolved available d admission intent)
                   ''work graph authorized''))))"

definition decide_work_graph ::
  "js_runtime \<Rightarrow> js_platform \<Rightarrow> KernelEventEnvelope \<Rightarrow> PlanProposed \<Rightarrow> WorkGraphProposal \<Rightarrow> PlanAdmissionSnapshot \<Rightarrow> KernelDecision result"
where
  "decide_work_graph rt pf event plan graph snapshot =
     (let target = ptTaskId (plTask (ppProposal plan)) in
      case revision_rejection plan of
        Some reason \<Rightarrow> Inr (decision event RejectRequest reason)
      | None \<Rightarrow> (case slot_rejection event plan snapshot of
        Some reason \<Rightarrow> Inr (decision event RejectRequest reason)
      | None \<Rightarrow>
          if ppProposalSource plan = InitialProposal \<and> truthy target \<and> or_empty target \<in> set (asV5WorkGraphTaskIds snapshot)
          then Inr (decision event RejectRequest (''task '' @ or_empty target @ '' already has an active v5 work graph''))
          else rbind (invalid_refs graph (asEligibleContextRefKeys snapshot)) (\<lambda>invalidRefs.
            if invalidRefs \<noteq> []
            then Inr (decision event (RequestClarification
                (''%u8BA1%u5212%u5F15%u7528%u4E86%u5F53%u524D%u4EFB%u52A1%u4E0D%u53EF%u7528%u7684%u4E0A%u4E0B%u6587%uFF08'' @ kind_hint invalidRefs @ ''%uFF09%u3002%u8BF7%u91CD%u65B0%u8BF4%u660E%u9700%u6C42%uFF0C%u6216%u660E%u786E%u5F15%u7528%u4F1A%u8BDD%u4E2D%u5DF2%u6709%u7684%u5177%u4F53%u5185%u5BB9%u540E%u518D%u63D0%u4EA4%u3002''))
              (''unqualified context refs: '' @ js_join '', '' invalidRefs))
            else (case resolveWorkspaceAdmission (proposal_admission plan graph snapshot) of
                WorkspaceClarification question reason \<Rightarrow>
                  Inr (decision event (RequestClarification (question_or (ppProposal plan) question)) reason)
              | WorkspaceRejected reason \<Rightarrow> Inr (decision event RejectRequest reason)
              | WorkspaceResolved d admission intent \<Rightarrow>
                  rbind (resolveAuthorizedBindings rt pf graph (asKernelConfiguration snapshot) (span_resolution rt pf event plan graph snapshot)) (\<lambda>resolved.
                    case resolved of
                      Inl errors \<Rightarrow> Inr (decision event RejectRequest (js_join ''; '' errors))
                    | Inr bindings \<Rightarrow> settle_plan rt event plan graph snapshot bindings d admission intent)))))"

definition decide_valid_plan ::
  "js_runtime \<Rightarrow> js_platform \<Rightarrow> KernelEventEnvelope \<Rightarrow> PlanProposed \<Rightarrow> PlanAdmissionSnapshot \<Rightarrow> KernelDecision result"
where
  "decide_valid_plan rt pf event plan snapshot =
     (let proposal = ppProposal plan; task = plTask proposal in
      if isStateChanging proposal \<and> plRequiresConfirmation proposal
      then Inr (decision event (RequestClarification (question_or proposal ''%u8BE5%u64CD%u4F5C%u5B58%u5728%u8F83%u9AD8%u98CE%u9669%uFF0C%u8BF7%u660E%u786E%u786E%u8BA4%u662F%u5426%u7EE7%u7EED%u6267%u884C%u3002'')) ''risk confirmation required'')
      else if plAction proposal \<in> {TaskControl, PlanWorkGraph} \<and> js_less (plConfidence proposal) double_045
      then Inr (decision event (RequestClarification (question_or proposal ''Please clarify the requested task change.'')) ''low confidence state-changing plan'')
      else if plAction proposal = DirectReply
      then Inr (decision event (DeliverDirectReply (or_empty (plDirectReply proposal))) ''direct reply authorized'')
      else if plAction proposal = ClarificationAction
      then Inr (decision event (RequestClarification (question_or proposal ''Please clarify your request.'')) (plReason proposal))
      else if plAction proposal = NoAction then Inr (decision event NoOp ''no runtime action required'')
      else if plAction proposal = AuthorizationResolution
      then Inr (case (plAuthorizationResolution proposal, asPendingAuthorizationRequest snapshot) of
          (Some (requestId, answer), Some pending) \<Rightarrow>
            if requestId \<noteq> paRequestId pending
            then decision event RejectRequest ''authorization resolution does not match the pending request''
            else decision event (RecordPermissionResolution (paTaskId pending) requestId answer (plId proposal))
              ''Planner interpretation of exact authorization response accepted''
        | _ \<Rightarrow> decision event RejectRequest ''authorization resolution does not match the pending request'')
      else if ptTaskId task \<noteq> None \<and> \<not> (\<exists>t \<in> set (asTasks snapshot). Some (ktId t) = ptTaskId task)
      then Inr (decision event RejectRequest (''task not found: '' @ or_empty (ptTaskId task)))
      else if plAction proposal = TaskControl then Inr (decide_task_control_plan event proposal snapshot)
      else (case plWorkGraph proposal of
          None \<Rightarrow> Inr (decision event RejectRequest ''work graph is required'')
        | Some graph \<Rightarrow> decide_work_graph rt pf event plan graph snapshot))"

definition decidePlan ::
  "js_runtime \<Rightarrow> js_platform \<Rightarrow> plan_schema \<Rightarrow> KernelEventEnvelope \<Rightarrow> PlanProposed \<Rightarrow> PlanAdmissionSnapshot \<Rightarrow> KernelDecision result"
where
  "decidePlan rt pf safeParse event plan snapshot =
     rbind (validatePlanningAgentPlan rt safeParse (ppProposal plan) (asPlannerConfiguration snapshot)
              (asPendingAuthorizationRequest snapshot) None) (\<lambda>(valid, errors).
       if \<not> valid then Inr (decision event RejectRequest (''invalid PlanningAgentPlan: '' @ js_join ''; '' errors))
       else decide_valid_plan rt pf event plan snapshot)"

subsection \<open>What a plan decision guarantees\<close>

lemma family_control_plan: "family (decAction (decide_task_control_plan e p s)) = OtherFamily"
  by (simp add: decide_task_control_plan_def Let_def)

lemma family_settle_plan:
  "settle_plan rt e p g s b d0 ad i = Inr d \<Longrightarrow> family (decAction d) \<in> {PlanFamily, OtherFamily}"
  unfolding settle_plan_def defer_action_def authorize_action_def Let_def
  by (auto split: if_split_asm option.split_asm)

lemma case_sum_Inr_iff:
  "(case x of Inl a \<Rightarrow> Inr (f a) | Inr b \<Rightarrow> g b) = Inr d \<longleftrightarrow> (\<exists>a. x = Inl a \<and> f a = d) \<or> (\<exists>b. x = Inr b \<and> g b = Inr d)"
  by (cases x) auto

lemma family_work_graph:
  "decide_work_graph rt pf e p g s = Inr d \<Longrightarrow> family (decAction d) \<in> {PlanFamily, OtherFamily}"
  unfolding decide_work_graph_def Let_def
  by (auto simp: case_sum_Inr_iff dest: family_settle_plan split: option.split_asm if_split_asm WorkspaceExecutionResolution.split_asm)

lemma family_valid_plan: "decide_valid_plan rt pf e p s = Inr d \<Longrightarrow> family (decAction d) \<in> {PlanFamily, OtherFamily}"
  using family_work_graph [of rt pf e p _ s d]
  by (auto simp: decide_valid_plan_def family_control_plan Let_def split: option.splits if_splits prod.splits)

lemma family_plan: "decidePlan rt pf sp e p s = Inr d \<Longrightarrow> family (decAction d) \<in> {PlanFamily, OtherFamily}"
  using family_valid_plan [of rt pf e p s d]
  by (auto simp: decidePlan_def split: prod.splits if_splits)

text \<open>A binding of the configuration: an enabled Executor class, a Model its policy allows and its
  permission profile, at the configuration's revision.\<close>

definition configured_binding :: "KernelConfigurationView \<Rightarrow> AuthorizedExecutorBinding \<Rightarrow> bool" where
  "configured_binding c b \<longleftrightarrow> (\<exists>a. executor_class c (abAgentClassRef b) = Some a
     \<and> abConfigurationRevision b = kcRevisionId c \<and> abHarnessRef b = kaHarnessRef a
     \<and> abModelRef b \<in> set (policy_allowed (kaModelPolicy a))
     \<and> permission_ref c a = Some (abPermissionProfileRef b))"

lemma binding_entry_configured:
  assumes "binding_entry_or_error rt pf c app s (n, p) = Inr entry"
  shows "configured_binding c (beBinding entry)"
proof -
  from assms obtain a profile where a: "executor_class c (pbAgentClassRef p) = Some a" "permission_ref c a = Some profile"
    and "authorize_binding rt pf c app s n p a profile = Inr entry"
    by (auto simp: binding_entry_or_error_def Let_def split: option.splits sum.splits)
  then obtain req res b where r: "AutoModelResolver_resolve rt pf (resolver_input rt c p a profile req
        (Option.bind app (\<lambda>x. map_of (saProbabilities x) (pbAgentClassRef p)))) = Inr res"
      "mxBinding res = Some b" "beBinding entry = resolvePublicRoutingIdentity pf c b"
    unfolding authorize_binding_def Let_def rbind_Inr_iff by (auto split: option.splits)
  from resolver_binding [OF r(1,2)] a r(3) show ?thesis
    by (auto simp: configured_binding_def candidate_binding_def resolver_input_def routable_def)
qed

lemma rights_iff: "x \<in> set (rights xs) \<longleftrightarrow> Inr x \<in> set xs"
  by (induction xs) (auto simp: rights_def List.map_filter_simps split: sum.split_asm sum.split)

lemma span_applications_fst:
  "span_applications f ss = Inr apps \<Longrightarrow> map fst apps = ss"
  by (induction ss arbitrary: apps) auto

lemma subtask_bindings_ok:
  assumes "subtask_bindings rt pf c app s = ([], es)"
  shows "es \<noteq> [] \<and> (\<forall>x \<in> set es. configured_binding c (beBinding x))"
proof -
  let ?r = "map (binding_entry_or_error rt pf c app s) (enumerate 0 (proposed_bindings rt c s))"
  from assms have "rights ?r \<noteq> []" "es = js_sort entry_compare (rights ?r)"
    by (auto simp: subtask_bindings_def Let_def when_error_def split: if_splits)
  moreover have "configured_binding c (beBinding x)" if "x \<in> set (rights ?r)" for x
  proof -
    from that obtain q where "binding_entry_or_error rt pf c app s q = Inr x" by (force simp: rights_iff)
    then show ?thesis by (cases q) (auto intro: binding_entry_configured)
  qed
  ultimately show ?thesis by (metis set_empty set_js_sort)
qed

lemma resolved_bindings_ok:
  assumes "resolveAuthorizedBindings rt pf g c spanOf = Inr (Inr rb)"
  shows "wpConfigurationRevision g = kcRevisionId c \<and> fst ` set (rbBindingsBySubtask rb) = wgId ` set (wpSubtasks g)
    \<and> (\<forall>(i, bs) \<in> set (rbBindingsBySubtask rb). bs \<noteq> [] \<and> (\<forall>b \<in> set bs. configured_binding c b))"
proof -
  from assms obtain apps where a: "span_applications spanOf (wpSubtasks g) = Inr apps"
    and rev: "wpConfigurationRevision g = kcRevisionId c"
    and none: "concat (map (\<lambda>(i, errs, es). errs) (map (\<lambda>(s, a). (wgId s, subtask_bindings rt pf c a s)) apps)) = []"
    and rb: "rbBindingsBySubtask rb = js_map_of (map (\<lambda>(i, errs, es). (i, map beBinding es))
        (map (\<lambda>(s, a). (wgId s, subtask_bindings rt pf c a s)) apps))"
    by (auto simp: resolveAuthorizedBindings_def Let_def split: if_splits)
  have ok: "snd (subtask_bindings rt pf c a s) \<noteq> [] \<and> (\<forall>x \<in> set (snd (subtask_bindings rt pf c a s)). configured_binding c (beBinding x))"
    if "(s, a) \<in> set apps" for s a
  proof -
    from none that have "fst (subtask_bindings rt pf c a s) = []" by (fastforce simp: case_prod_beta)
    then show ?thesis
      using subtask_bindings_ok [of rt pf c a s "snd (subtask_bindings rt pf c a s)"] by (metis prod.collapse)
  qed
  have "fst ` set (rbBindingsBySubtask rb) = wgId ` set (map fst apps)"
    unfolding rb set_keys_js_map_of by (force simp: case_prod_beta image_iff)
  moreover have "bs \<noteq> [] \<and> (\<forall>b \<in> set bs. configured_binding c b)" if m: "(i, bs) \<in> set (rbBindingsBySubtask rb)" for i bs
  proof -
    from js_map_of_mem [OF m [unfolded rb]] obtain s a where "(s, a) \<in> set apps" "bs = map beBinding (snd (subtask_bindings rt pf c a s))"
      by (auto simp: case_prod_beta)
    with ok [of s a] show ?thesis by auto
  qed
  ultimately show ?thesis using rev span_applications_fst [OF a] by (auto simp: case_prod_beta)
qed

lemma settle_authorize:
  assumes "settle_plan rt e p g s rb d0 ad i = Inr d" "decAction d = AuthorizeTaskPlanAction au"
  shows "valid_work_graph (wpSubtasks g) \<and> conflict_rejection p s = None
    \<and> auAuthorizedBindingsBySubtask au = map (\<lambda>(i, bs). (i, filter (\<lambda>b. abAgentClassRef b \<notin>
          set (unavailableAgentClasses rt (asExecutorStatuses s) (evOccurredAt e))) bs)) (rbBindingsBySubtask rb)
    \<and> (\<forall>(i, bs) \<in> set (auAuthorizedBindingsBySubtask au). bs \<noteq> [])
    \<and> auWorkGraph au = g \<and> auWorkspaceAdmission au = Some ad \<and> auWorkspaceExecution au = d0 \<and> auWorkspaceIntent au = i
    \<and> auGraphRevision au = ppTargetGraphRevision p"
proof -
  let ?bs = "map (\<lambda>(i, bs). (i, filter (\<lambda>b. abAgentClassRef b \<notin>
          set (unavailableAgentClasses rt (asExecutorStatuses s) (evOccurredAt e))) bs)) (rbBindingsBySubtask rb)"
  have full: "\<not> (\<exists>(i, bs) \<in> set ?bs. bs = [])"
    using assms by (auto simp: settle_plan_def defer_action_def Let_def split: if_splits)
  from assms have a: "validateWorkGraph rt (wpSubtasks g) = Inr [] \<and> conflict_rejection p s = None
      \<and> decAction d = authorize_action e p g s rb ?bs d0 ad i"
    unfolding settle_plan_def Let_def if_not_P [OF full] rbind_Inr_iff
    by (elim exE conjE) (simp split: if_splits option.splits, auto)
  with assms(2) have b: "auAuthorizedBindingsBySubtask au = ?bs" "auWorkGraph au = g" "auWorkspaceAdmission au = Some ad"
    "auWorkspaceExecution au = d0" "auWorkspaceIntent au = i" "auGraphRevision au = ppTargetGraphRevision p"
    by (auto simp: authorize_action_def)
  with a full show ?thesis unfolding b validateWorkGraph_Nil_iff by auto
qed

lemma work_graph_authorize:
  assumes "decide_work_graph rt pf e p g s = Inr d" "decAction d = AuthorizeTaskPlanAction au"
  obtains rb d0 ad i where "resolveWorkspaceAdmission (proposal_admission p g s) = WorkspaceResolved d0 ad i"
    "resolveAuthorizedBindings rt pf g (asKernelConfiguration s) (span_resolution rt pf e p g s) = Inr (Inr rb)"
    "settle_plan rt e p g s rb d0 ad i = Inr d" "revision_rejection p = None" "slot_rejection e p s = None"
  using assms unfolding decide_work_graph_def Let_def
  by (auto simp: case_sum_Inr_iff split: option.split_asm if_split_asm WorkspaceExecutionResolution.split_asm)

lemma valid_plan_authorize:
  assumes "decide_valid_plan rt pf e p s = Inr d" "decAction d = AuthorizeTaskPlanAction au"
  shows "plAction (ppProposal p) = PlanWorkGraph \<and> \<not> plRequiresConfirmation (ppProposal p) \<and> \<not> js_less (plConfidence (ppProposal p)) double_045
    \<and> (\<exists>g. plWorkGraph (ppProposal p) = Some g \<and> decide_work_graph rt pf e p g s = Inr d)"
proof -
  from assms family_control_plan [of e "ppProposal p" s] have "plAction (ppProposal p) = PlanWorkGraph"
    by (cases "plAction (ppProposal p)")
       (auto simp: decide_valid_plan_def Let_def split: if_splits option.splits prod.splits)
  with assms show ?thesis
    by (auto simp: decide_valid_plan_def isStateChanging_def Let_def split: if_splits option.splits)
qed

end
