(* ===== verification/Kernel_Outcome.thy ===== *)
theory Kernel_Outcome
  imports Kernel_Dispatch
begin

text \<open>
  The Kernel's answers to what happens to dispatched work (\<open>src/src/kernel/control-kernel.ts\<close>): an
  explicit resume, a capacity signal, a finished or failed attempt, a contract failure, an observed
  result and a merge conflict. A decision that can throw is a \<open>result\<close>.
\<close>

subsection \<open>Explicit resume\<close>

definition resume_candidate_valid ::
  "js_runtime \<Rightarrow> KernelEventEnvelope \<Rightarrow> DispatchSnapshot \<Rightarrow> KernelResumeRecoveryCandidate \<Rightarrow> bool"
where
  "resume_candidate_valid rt event snapshot c = (case find_subtask snapshot (Some (rdSubtaskId c)) of
      None \<Rightarrow> False
    | Some subtask \<Rightarrow>
        (ksStatus subtask = SAwaitingDecision \<or> ksStatus subtask = SBlocked
         \<or> ksStatus subtask = SRunning
           \<and> (\<exists>i \<in> set (dsDispatchItems snapshot). kdSubtaskId i = rdSubtaskId c \<and> kdStatus i = DUncertain))
        \<and> rdBindingFingerprint c = authorizedExecutorBindingFingerprint rt (rdAuthorizedBinding c)
        \<and> abConfigurationRevision (rdAuthorizedBinding c) = evConfigurationRevision event
        \<and> binding_authorized rt subtask (rdBindingFingerprint c)
        \<and> \<not> (\<exists>i \<in> set (dsDispatchItems snapshot). kdSubtaskId i = rdSubtaskId c \<and> isPendingOrActiveDispatch (kdStatus i)))"

definition restored_upstream :: "TaskResume \<Rightarrow> DispatchSnapshot \<Rightarrow> KernelResumeRecoveryCandidate \<Rightarrow> bool" where
  "restored_upstream request snapshot recovery \<longleftrightarrow>
     rdReason recovery = UpstreamInputRestored
     \<and> tuBlockerCategory request \<notin> {ContractBlocker, MaterialBlocker}
     \<and> dsUpstreamInputResume snapshot \<noteq> None
     \<and> dsGenerationQuiescent snapshot
     \<and> dsRecoverySafety snapshot \<noteq> ExternalNonIdempotent
     \<and> list_all (\<lambda>r. r \<in> {''generation_replan'', ''kernel_application''}) (dsCompletionBlockedReasons snapshot)
     \<and> (case dsGenerationReplanRequest snapshot of None \<Rightarrow> True
        | Some r \<Rightarrow> grStatus r = ReplanSubmitted \<and> dsUpstreamInputResume snapshot = Some (Some (grId r)))"

definition metadata_reason :: "ResumeReason \<Rightarrow> bool" where
  "metadata_reason r \<longleftrightarrow> r \<in> {CompletionMetadataInvalid, CompletionMarkerMissing}"

definition recovery_attempt_kind :: "KernelResumeRecoveryCandidate \<Rightarrow> KernelAttemptKind" where
  "recovery_attempt_kind c = (case rdAttemptKind c of Some k \<Rightarrow> k
     | None \<Rightarrow> if metadata_reason (rdReason c) then ContractCorrection else ContinuationAttempt)"

definition uncorrectable :: "ContractViolation list \<Rightarrow> bool" where
  "uncorrectable violations \<longleftrightarrow> (\<exists>v \<in> set violations. cvCode v \<noteq> ''completion_malformed'' \<or> cvPath v = ''reportPath'')"

definition metadata_correction_refused :: "DispatchSnapshot \<Rightarrow> KernelResumeRecoveryCandidate \<Rightarrow> bool" where
  "metadata_correction_refused snapshot c \<longleftrightarrow>
     recovery_attempt_kind c \<noteq> ContractCorrection
     \<or> abAgentClassRef (rdAuthorizedBinding c) \<notin> set (dsCorrectionSupportedAgentClasses snapshot)
     \<or> (case rdCorrectionFacts c of None \<Rightarrow> True
        | Some f \<Rightarrow> cfReceiptCount f \<noteq> 1 \<or> \<not> isFinite (cfResponseBytes f) \<or> js_less (cfResponseBytes f) (js_int 0)
            \<or> js_less (js_int MAX_CORRECTION_INPUT_BYTES) (cfResponseBytes f))
     \<or> (case rdAttemptPayload c of
          Some (CompletionCorrection _ violations) \<Rightarrow> violations = [] \<or> uncorrectable violations
        | _ \<Rightarrow> True)
     \<or> (\<exists>a \<in> set (dsAttempts snapshot). atSourceAttemptId a = Some (rdSourceAttemptId c) \<and> atAttemptKind a = ContractCorrection)"

definition resume_recovery :: "KernelResumeRecoveryCandidate \<Rightarrow> DispatchSnapshot \<Rightarrow> ResumeRecovery" where
  "resume_recovery c snapshot = \<lparr>reSubtaskId = rdSubtaskId c, reSourceAttemptId = rdSourceAttemptId c,
     reAuthorizedBinding = rdAuthorizedBinding c, reBindingFingerprint = rdBindingFingerprint c,
     reAttemptKind = recovery_attempt_kind c, reRecoveryMode = rdRecoveryMode c,
     reDefaultResourceGrant = resourceGrantForSubtask snapshot (rdSubtaskId c), reAttemptPayload = rdAttemptPayload c\<rparr>"

definition resume_action ::
  "string \<Rightarrow> TaskResume \<Rightarrow> DispatchSnapshot \<Rightarrow> string list \<Rightarrow> string list option \<Rightarrow> string option \<Rightarrow> ResumeRecovery option \<Rightarrow> KernelDecisionAction"
where
  "resume_action tid request snapshot subtaskIds publicationIds retired recovery =
     ResumeTaskAction \<lparr>rsTaskId = tid, rsGenerationId = dsGenerationId snapshot, rsGraphRevision = dsGraphRevision snapshot,
       rsSubtaskIds = subtaskIds, rsDeliveryPublicationIds = publicationIds, rsRetireReplanRequestId = retired,
       rsBlockerCategory = tuBlockerCategory request, rsRecovery = recovery\<rparr>"

definition recovery_applies :: "TaskResume \<Rightarrow> DispatchSnapshot \<Rightarrow> KernelResumeRecoveryCandidate \<Rightarrow> bool" where
  "recovery_applies request snapshot c \<longleftrightarrow>
     (if rdReason c = UpstreamInputRestored then restored_upstream request snapshot c
      else tuBlockerCategory request \<notin> {ManualBlocker, MaterialBlocker, ContractBlocker})"

definition resume_with_recovery ::
  "KernelEventEnvelope \<Rightarrow> string \<Rightarrow> TaskResume \<Rightarrow> DispatchSnapshot \<Rightarrow> KernelResumeRecoveryCandidate \<Rightarrow> KernelDecision"
where
  "resume_with_recovery event tid request snapshot c =
     (let correction = metadata_reason (rdReason c) \<or> recovery_attempt_kind c = ContractCorrection;
          restored = restored_upstream request snapshot c;
          retired = (if restored then Option.bind (dsUpstreamInputResume snapshot) (\<lambda>r. if truthy r then r else None) else None) in
      if correction \<and> metadata_correction_refused snapshot c
      then decision event NoOp ''metadata correction is unavailable or exhausted''
      else if \<not> correction \<and> dsRecoverySafety snapshot = ExternalNonIdempotent
      then decision event NoOp ''explicit resume cannot prove external effect safety''
      else decision event (resume_action tid request snapshot [] None retired (Some (resume_recovery c snapshot)))
        (if restored then ''Kernel authorized recovery after revalidating published upstream inputs''
         else if recovery_attempt_kind c = ContractCorrection
         then ''Kernel authorized metadata-only correction of the existing safe result''
         else ''Kernel authorized exact uncertified-result workspace recovery''))"

definition resume_without_recovery ::
  "KernelEventEnvelope \<Rightarrow> KernelTaskFact \<Rightarrow> TaskResume \<Rightarrow> DispatchSnapshot \<Rightarrow> KernelDecision"
where
  "resume_without_recovery event task request snapshot =
     (let tid = ktId task;
          recoverable = map ksId (filter (\<lambda>s. ksStatus s = SReady \<or> ksStatus s = SBlocked) (dsSubtasks snapshot)) in
      if ktStatus task = TRunning then decision event NoOp ''running Task has no exact recoverable Subtask''
      else if tuBlockerCategory request = RetryBlocker \<and> dsRecoverySafety snapshot = ExternalNonIdempotent
      then decision event (block_work tid (evSubtaskId event)) ''explicit resume cannot prove external effect safety''
      else if tuBlockerCategory request \<in> {ManualBlocker, MaterialBlocker, ContractBlocker, UnknownBlocker}
      then decision event (block_work tid (evSubtaskId event))
        (''resume requires resolving the '' @ blocker_name (tuBlockerCategory request) @ '' blocker first'')
      else if recoverable = [] then decision event NoOp ''resume has no recoverable Subtask''
      else decision event (resume_action tid request snapshot recoverable None None None)
        ''Kernel authorized explicit Task resume'')"

definition stale_resume :: "TaskResume \<Rightarrow> DispatchSnapshot \<Rightarrow> bool" where
  "stale_resume request snapshot \<longleftrightarrow>
     (case tuExpectedGenerationId request of None \<Rightarrow> False | Some g \<Rightarrow> g \<noteq> dsGenerationId snapshot)
     \<or> (case tuExpectedGraphRevision request of None \<Rightarrow> False | Some r \<Rightarrow> r \<noteq> dsGraphRevision snapshot)"

definition resume_ready ::
  "js_runtime \<Rightarrow> KernelEventEnvelope \<Rightarrow> KernelTaskFact \<Rightarrow> TaskResume \<Rightarrow> DispatchSnapshot \<Rightarrow> KernelDecision"
where
  "resume_ready rt event task request snapshot =
     (if dsDeliveryRecoveryPublicationIds snapshot \<noteq> []
      then decision event (resume_action (ktId task) request snapshot [] (Some (dsDeliveryRecoveryPublicationIds snapshot)) None None)
        ''resume user delivery without repeating Executor work''
      else if tuBlockerCategory request = DependencyPublicationBlocker \<and> pending_dependencies snapshot \<noteq> []
      then (let pending = hd (pending_dependencies snapshot) in decision event NoOp
        (''resume is waiting for dependency publication: '' @ dfSourceSubtaskId pending @ '' -> '' @ dfTargetSubtaskId pending))
      else (case find (resume_candidate_valid rt event snapshot) (dsResumeRecoveryCandidates snapshot) of
          Some c \<Rightarrow> if recovery_applies request snapshot c then resume_with_recovery event (ktId task) request snapshot c
                    else resume_without_recovery event task request snapshot
        | None \<Rightarrow> resume_without_recovery event task request snapshot))"

definition decideTaskResume ::
  "js_runtime \<Rightarrow> KernelEventEnvelope \<Rightarrow> TaskResume \<Rightarrow> DispatchSnapshot \<Rightarrow> KernelDecision"
where
  "decideTaskResume rt event request snapshot =
     (case dsTask snapshot of
        None \<Rightarrow> decision event NoOp ''resume target is not an active recoverable Task''
      | Some task \<Rightarrow>
          if \<not> truthy (evTaskId event) \<or> Some (ktId task) \<noteq> evTaskId event \<or> ktStatus task \<notin> {TNeedsAction, TRunning}
          then decision event NoOp ''resume target is not an active recoverable Task''
          else if stale_resume request snapshot
          then decision event NoOp ''resume request targets a stale generation or graph revision''
          else if dsGraphState snapshot \<noteq> GraphReady
          then decision event (ParkForReplan (ktId task))
            (''work graph is '' @ graph_state_name (dsGraphState snapshot) @ ''; replanning is required'')
          else resume_ready rt event task request snapshot)"

subsection \<open>Capacity\<close>

definition capacity_subtask :: "KernelEventEnvelope \<Rightarrow> DispatchSnapshot \<Rightarrow> KernelSubtaskFact option" where
  "capacity_subtask event snapshot = (case find_subtask snapshot (evSubtaskId event) of
      Some s \<Rightarrow> Some s
    | None \<Rightarrow> (case selectDispatchableSubtasks snapshot of [] \<Rightarrow> None | s # _ \<Rightarrow> Some s))"

definition decideCapacity ::
  "js_runtime \<Rightarrow> KernelEventEnvelope \<Rightarrow> CapacitySignal \<Rightarrow> DispatchSnapshot \<Rightarrow> KernelDecision"
where
  "decideCapacity rt event s snapshot =
     (case capacity_subtask event snapshot of
        None \<Rightarrow> decision event (block_work (or_empty (evTaskId event)) (evSubtaskId event)) ''capacity signal has no ready work''
      | Some subtask \<Rightarrow>
          (let tid = or_empty (evTaskId event); grant = resourceGrantForSubtask snapshot (ksId subtask) in
           if \<not> truthy (evTaskId event)
           then decision event (block_work tid (evSubtaskId event)) ''capacity signal has no ready work''
           else (case csFailure s of
               Some failure \<Rightarrow> decision event (block_work tid (Some (ksId subtask)))
                 (''Executor environment unavailable: '' @ kfSummary failure)
             | None \<Rightarrow>
                 if csAttemptKind s = ContractCorrection
                 then (if csAvailable s
                       then decision event (singleDispatchBatch rt event tid (ksId subtask) (csAuthorizedBinding s) ContractCorrection
                              (evAttemptId event) FreshMode grant (csAttemptPayload s)) ''response-only correction capacity confirmed''
                       else decision event (block_work tid (Some (ksId subtask))) ''response-only correction capacity unavailable'')
                 else if csAvailable s
                 then decision event (singleDispatchBatch rt event tid (ksId subtask) (csAuthorizedBinding s) PrimaryAttempt
                        None FreshMode grant None) ''capacity confirmed''
                 else (case nextUsableBinding rt subtask snapshot (evOccurredAt event)
                          (lookup_or [] (dsCapacityProbeBindingFingerprints snapshot) (ksId subtask) @ [csBindingFingerprint s]) of
                     Some b \<Rightarrow> decision event (ProbeCapacity tid (ksId subtask) b (authorizedExecutorBindingFingerprint rt b))
                       ''try next authorized binding''
                   | None \<Rightarrow> decision event (WaitForCapacity tid (ksId subtask)) ''authorized AgentClass capacity exhausted''))))"

subsection \<open>Outcomes\<close>

fun failure_kind_name :: "KernelFailureKind \<Rightarrow> string" where
  "failure_kind_name NetworkFailure = ''network''"
| "failure_kind_name TimeoutFailure = ''timeout''"
| "failure_kind_name InfrastructureFailure = ''infrastructure''"
| "failure_kind_name HeartbeatLost = ''heartbeat_lost''"
| "failure_kind_name PermissionFailure = ''permission''"
| "failure_kind_name AuthenticationFailure = ''authentication''"
| "failure_kind_name ProviderQuota = ''provider_quota''"
| "failure_kind_name ConfigurationFailure = ''configuration''"
| "failure_kind_name AdapterFailure = ''adapter''"
| "failure_kind_name CapabilityMismatch = ''capability_mismatch''"
| "failure_kind_name TaskFailed = ''task_failed''"
| "failure_kind_name QualityFailed = ''quality_failed''"
| "failure_kind_name CancelledFailure = ''cancelled''"
| "failure_kind_name StaleFailure = ''stale''"
| "failure_kind_name UnknownFailure = ''unknown''"

definition attempted_bindings :: "ExecutionOutcome \<Rightarrow> DispatchSnapshot \<Rightarrow> KernelSubtaskFact \<Rightarrow> string list" where
  "attempted_bindings outcome snapshot subtask =
     eoBindingFingerprint outcome
     # map atBindingFingerprint (filter (\<lambda>a. atSubtaskId a = ksId subtask \<and> atAttemptKind a \<noteq> ContractCorrection) (dsAttempts snapshot))
     @ map kdBindingFingerprint (filter (\<lambda>i. kdSubtaskId i = ksId subtask) (dsDispatchItems snapshot))"

definition fallbackOrReplan ::
  "js_runtime \<Rightarrow> KernelEventEnvelope \<Rightarrow> ExecutionOutcome \<Rightarrow> DispatchSnapshot \<Rightarrow> KernelSubtaskFact \<Rightarrow> KernelDecision"
where
  "fallbackOrReplan rt event outcome snapshot subtask =
     (let tid = or_empty (evTaskId event) in
      case nextUsableBinding rt subtask snapshot (evOccurredAt event) (attempted_bindings outcome snapshot subtask) of
        Some binding \<Rightarrow> decision event (singleDispatchBatch rt event tid (ksId subtask) binding FallbackAttempt
            (evAttemptId event) RecoveryPacket (resourceGrantForSubtask snapshot (ksId subtask)) None)
            ''next authorized fallback AgentClass selected''
      | None \<Rightarrow> if dsAutomaticReplansUsed snapshot < 1
          then decision event (queue_replan tid snapshot)
            ''authorized candidates exhausted; one coalesced automatic replan is allowed''
          else decision event (ParkForReplan tid) ''automatic replan budget exhausted'')"

definition retryable_kind :: "KernelFailureKind \<Rightarrow> bool" where
  "retryable_kind k \<longleftrightarrow> k \<in> {NetworkFailure, TimeoutFailure, InfrastructureFailure, HeartbeatLost}"

definition binding_attempts :: "KernelEventEnvelope \<Rightarrow> ExecutionOutcome \<Rightarrow> DispatchSnapshot \<Rightarrow> KernelSubtaskFact \<Rightarrow> nat" where
  "binding_attempts event outcome snapshot subtask =
     length (js_dedup (or_empty (evAttemptId event)
       # map atAttemptId (filter (\<lambda>a. atSubtaskId a = ksId subtask \<and> atBindingFingerprint a = eoBindingFingerprint outcome
             \<and> atAttemptKind a \<noteq> ContractCorrection) (dsAttempts snapshot))
       @ map kdAttemptId (filter (\<lambda>i. kdSubtaskId i = ksId subtask \<and> kdBindingFingerprint i = eoBindingFingerprint outcome)
             (dsDispatchItems snapshot))))"

text \<open>The policy for a failure that automatic recovery may answer.\<close>

definition recover_failure ::
  "js_runtime \<Rightarrow> KernelEventEnvelope \<Rightarrow> ExecutionOutcome \<Rightarrow> DispatchSnapshot \<Rightarrow> KernelSubtaskFact \<Rightarrow> KernelFailure \<Rightarrow> KernelDecision result"
where
  "recover_failure rt event outcome snapshot subtask failure =
     (let tid = or_empty (evTaskId event); kind = kfKind failure in
      case ksExecutorBindings subtask of
        [] \<Rightarrow> Inl ''Cannot read properties of undefined (reading 'agentClassRef')''
      | preferred # _ \<Rightarrow>
          if retryable_kind kind \<and> authorizedExecutorBindingFingerprint rt preferred = eoBindingFingerprint outcome
             \<and> binding_attempts event outcome snapshot subtask \<le> 1
          then rbind (addMilliseconds rt (evOccurredAt event) (if kind = NetworkFailure then 5000 else 30000)) (\<lambda>resumeAt.
            Inr (decision event (WaitForRetry tid (ksId subtask) resumeAt (eoAuthorizedBinding outcome)
                   (eoBindingFingerprint outcome) (or_empty (evAttemptId event)))
              (''preferred AgentClass continuation delayed after '' @ failure_kind_name kind)))
          else if \<not> retryable_kind kind \<and> kind \<notin> {AuthenticationFailure, ConfigurationFailure, AdapterFailure,
                    CapabilityMismatch, TaskFailed, QualityFailed, ProviderQuota}
          then Inr (decision event (block_work tid (Some (ksId subtask))) (failure_kind_name kind @ '' has no safe recovery policy''))
          else Inr (fallbackOrReplan rt event outcome snapshot subtask))"

definition explicit_recovery_kind :: "KernelFailureKind \<Rightarrow> bool" where
  "explicit_recovery_kind k \<longleftrightarrow>
     k \<in> {ConfigurationFailure, AdapterFailure, PermissionFailure, UnknownFailure, StaleFailure, CancelledFailure}"

definition decideFailure ::
  "js_runtime \<Rightarrow> KernelEventEnvelope \<Rightarrow> ExecutionOutcome \<Rightarrow> DispatchSnapshot \<Rightarrow> KernelDecision result"
where
  "decideFailure rt event outcome snapshot =
     (let tid = or_empty (evTaskId event) in
      case (find_subtask snapshot (evSubtaskId event), truthy (evAttemptId event), eoFailure outcome) of
        (Some subtask, True, Some failure) \<Rightarrow>
          if eoAttemptKind outcome = ContractCorrection
          then Inr (decision event (BlockWork tid (evSubtaskId event) True None)
            ''metadata correction failed; safe result remains uncertified and requires explicit resolution'')
          else if eoAttemptKind outcome = MergeRepair
          then Inr (decision event NoOp ''merge repair failure is governed by the publication conflict chain'')
          else if kfCode failure = ''startup_orphaned_work''
          then Inr (decision event (block_work tid (Some (ksId subtask))) ''startup orphaned work requires explicit recovery'')
          else if kfCode failure \<in> {''workspace_source_missing'', ''workspace_binding_missing'', ''dispatch_context_invalid''}
          then Inr (decision event (BlockWork tid (Some (ksId subtask)) True None)
            (kfCode failure @ '' requires Workspace/context repair before explicit resume''))
          else if map_option ktStatus (dsTask snapshot) = Some TCancelled \<or> ksStatus subtask = SCancelled
          then Inr (decision event NoOp ''cancellation fence makes the late attempt outcome stale'')
          else if \<not> dsAutomaticRecoveryAllowed snapshot \<or> dsRecoverySafety snapshot = ExternalNonIdempotent
          then Inr (decision event (block_work tid (Some (ksId subtask))) ''automatic recovery cannot prove external effect safety'')
          else if explicit_recovery_kind (kfKind failure)
          then Inr (decision event (block_work tid (Some (ksId subtask)))
            (failure_kind_name (kfKind failure) @ '' requires explicit recovery''))
          else recover_failure rt event outcome snapshot subtask failure
      | _ \<Rightarrow> Inr (decision event (block_work tid (evSubtaskId event)) ''failure facts are incomplete''))"

definition decideOutcome ::
  "js_runtime \<Rightarrow> KernelEventEnvelope \<Rightarrow> ExecutionOutcome \<Rightarrow> DispatchSnapshot \<Rightarrow> KernelDecision result"
where
  "decideOutcome rt event outcome snapshot =
     (if \<not> truthy (evTaskId event) then Inr (decision event (block_work [] (evSubtaskId event)) ''outcome has no Task'')
      else if eoTerminalKind outcome = TerminalFailed then decideFailure rt event outcome snapshot
      else Inr (decideDispatch rt event None snapshot))"

subsection \<open>Contracts and results\<close>

definition correction_unavailable :: "'a HandoffContractFailed_scheme \<Rightarrow> DispatchSnapshot \<Rightarrow> bool" where
  "correction_unavailable r snapshot \<longleftrightarrow>
     uncorrectable (hfViolations r) \<or> hfReceiptCount r \<noteq> 1
     \<or> js_less (js_int MAX_CORRECTION_INPUT_BYTES) (hfResponseBytes r)
     \<or> abAgentClassRef (hfAuthorizedBinding r) \<notin> set (dsCorrectionSupportedAgentClasses snapshot)"

definition correction_batch ::
  "js_runtime \<Rightarrow> KernelEventEnvelope \<Rightarrow> 'a HandoffContractFailed_scheme \<Rightarrow> DispatchSnapshot \<Rightarrow> KernelDecisionAction"
where
  "correction_batch rt event r snapshot =
     singleDispatchBatch rt event (or_empty (evTaskId event)) (or_empty (evSubtaskId event)) (hfAuthorizedBinding r)
       ContractCorrection (evAttemptId event) FreshMode (resourceGrantForSubtask snapshot (or_empty (evSubtaskId event)))
       (Some (CompletionCorrection (hfContract r) (hfViolations r)))"

definition decideContractFailure ::
  "js_runtime \<Rightarrow> KernelEventEnvelope \<Rightarrow> HandoffContractFailed \<Rightarrow> DispatchSnapshot \<Rightarrow> KernelDecision"
where
  "decideContractFailure rt event r snapshot =
     (if \<not> truthy (evTaskId event) \<or> \<not> truthy (evSubtaskId event)
      then decision event (block_work (or_empty (evTaskId event)) (evSubtaskId event)) ''contract failure identity is incomplete''
      else if correction_unavailable r snapshot
      then decision event (block_work (or_empty (evTaskId event)) (evSubtaskId event))
        ''response-only correction is unavailable or already exhausted''
      else decision event (correction_batch rt event r snapshot) ''one response-only contract correction authorized'')"

definition deterministic_delivery_failure :: "ContractViolation list \<Rightarrow> bool" where
  "deterministic_delivery_failure violations \<longleftrightarrow>
     (\<exists>v \<in> set violations. cvCode v \<in> {''completion_file_output_missing'', ''completion_artifact_invalid'',
        ''completion_workspace_delta_uncertain'', ''completion_file_output_limit''})"

definition decideExecutionResult ::
  "js_runtime \<Rightarrow> KernelEventEnvelope \<Rightarrow> ExecutionResultObserved \<Rightarrow> DispatchSnapshot \<Rightarrow> KernelDecision"
where
  "decideExecutionResult rt event r snapshot =
     (let tid = or_empty (evTaskId event) in
      if \<not> truthy (evTaskId event) \<or> \<not> truthy (evSubtaskId event)
      then decision event (block_work tid (evSubtaskId event)) ''execution result identity is incomplete''
      else if \<not> erSafe r \<or> \<not> erDeliverable r
      then decision event (block_work tid (evSubtaskId event)) ''execution result is quarantined by a safety boundary''
      else if erCertified r then decideDispatch rt event None snapshot
      else if deterministic_delivery_failure (hfViolations r)
      then decision event (BlockWork tid (evSubtaskId event) True None)
        ''result delivery failed deterministic output checks; no complete deliverable is available''
      else if correction_unavailable r snapshot
      then decision event (AwaitUserDecision tid (or_empty (evSubtaskId event)) UncertifiedResultReason)
        ''safe result remains uncertified; user may accept and deliver it or retry the Attempt''
      else decision event (correction_batch rt event r snapshot) ''one response-only metadata correction authorized'')"

subsection \<open>Merge conflicts\<close>

definition decideMergeConflict ::
  "js_runtime \<Rightarrow> KernelEventEnvelope \<Rightarrow> MergeConflict \<Rightarrow> DispatchSnapshot \<Rightarrow> KernelDecision"
where
  "decideMergeConflict rt event c snapshot =
     (let tid = or_empty (evTaskId event); sid = or_empty (evSubtaskId event) in
      if \<not> truthy (evTaskId event) \<or> \<not> truthy (evSubtaskId event) \<or> mkConflictingPaths c = []
      then decision event (block_work tid (evSubtaskId event)) ''merge conflict facts are incomplete''
      else if mkRepairAttemptsUsed c < 3
      then (if dsAvailableSlots snapshot \<le> 0
            then decision event (WaitForCapacity tid sid) ''merge repair is waiting for an attempt slot''
            else decision event (singleDispatchBatch rt event tid sid (mkAuthorizedBinding c) MergeRepair
                (Some (mkSourceAttemptId c))
                (if abAgentClassRef (mkAuthorizedBinding c) \<in> set (dsNativeContinuationAgentClasses snapshot)
                 then NativeSession else RecoveryPacket)
                (resourceGrantForSubtask snapshot sid)
                (Some (MergeRepairPayload (mkPublicationId c) (mkConflictChainId c) (sort_strings (mkConflictingPaths c)))))
              (''merge repair '' @ show_int (mkRepairAttemptsUsed c + 1) @ '' of 3 authorized''))
      else if mkConflictReplansUsed c < 1
      then decision event (RequestMergeReplan tid sid (mkPublicationId c) (mkConflictChainId c))
        ''three merge repairs failed; one conflict replan is authorized''
      else decision event (ParkForReplan tid) ''merge repair and conflict replan budgets are exhausted'')"

subsection \<open>What an answer to an outcome guarantees\<close>

lemma family_resume: "family (decAction (decideTaskResume rt e r s)) = OtherFamily"
proof -
  have "family (decAction (resume_with_recovery e t r s c)) = OtherFamily" for t c
    by (simp add: resume_with_recovery_def resume_action_def Let_def)
  moreover have "family (decAction (resume_without_recovery e t r s)) = OtherFamily" for t
    by (simp add: resume_without_recovery_def resume_action_def Let_def)
  ultimately have "family (decAction (resume_ready rt e t r s)) = OtherFamily" for t
    by (simp add: resume_ready_def resume_action_def Let_def split: option.split)
  then show ?thesis by (simp add: decideTaskResume_def split: option.split)
qed

lemma family_capacity: "family (decAction (decideCapacity rt e c s)) \<in> {DispatchFamily, OtherFamily}"
  by (simp add: decideCapacity_def Let_def split: option.splits)

lemma family_failure: "decideFailure rt e c s = Inr d \<Longrightarrow> family (decAction d) \<in> {DispatchFamily, ReplanFamily, OtherFamily}"
  unfolding decideFailure_def recover_failure_def fallbackOrReplan_def Let_def
  by (auto split: option.split_asm bool.split_asm list.split_asm if_split_asm)

lemma family_contract: "family (decAction (decideContractFailure rt e c s)) \<in> {DispatchFamily, OtherFamily}"
  by (simp add: decideContractFailure_def correction_batch_def)

lemma family_merge: "family (decAction (decideMergeConflict rt e c s)) \<in> {DispatchFamily, OtherFamily}"
  by (simp add: decideMergeConflict_def Let_def)

lemma family_result:
  "family (decAction (decideExecutionResult rt e r s)) = CompletionFamily \<Longrightarrow> decideExecutionResult rt e r s = decideDispatch rt e None s"
  "family (decAction (decideExecutionResult rt e r s)) \<in> {DispatchFamily, CompletionFamily, ReplanFamily, OtherFamily}"
  using family_dispatch [of rt e None s]
  by (auto simp: decideExecutionResult_def correction_batch_def Let_def split: if_splits)

lemma family_outcome:
  assumes "decideOutcome rt e x s = Inr d"
  shows "family (decAction d) = CompletionFamily \<Longrightarrow> d = decideDispatch rt e None s"
    "family (decAction d) \<in> {DispatchFamily, CompletionFamily, ReplanFamily, OtherFamily}"
  using assms family_dispatch [of rt e None s] family_failure [of rt e x s d]
  by (auto simp: decideOutcome_def split: if_splits)

lemma fallback_batch:
  assumes "decAction (fallbackOrReplan rt e x s st) = DispatchBatch tid items"
  shows "\<exists>i b. items = [i] \<and> diSubtaskId i = ksId st \<and> diAuthorizedBinding i = b \<and> diAttemptKind i = FallbackAttempt
    \<and> b \<in> set (ksExecutorBindings st)
    \<and> abAgentClassRef b \<notin> set (unavailableAgentClasses rt (dsExecutorStatuses s) (evOccurredAt e))
    \<and> diBindingFingerprint i = authorizedExecutorBindingFingerprint rt b
    \<and> diBindingFingerprint i \<notin> set (attempted_bindings x s st)"
  using assms nextUsableBinding_Some [of rt st s "evOccurredAt e" "attempted_bindings x s st"]
  by (auto simp: fallbackOrReplan_def Let_def single_batch_iff queue_replan_def split: option.splits if_splits)

lemma failure_batch:
  assumes "decideFailure rt e x s = Inr d" "decAction d = DispatchBatch tid items"
  shows "\<exists>st f. find_subtask s (evSubtaskId e) = Some st \<and> eoFailure x = Some f \<and> ksStatus st \<noteq> SCancelled
    \<and> dsAutomaticRecoveryAllowed s \<and> dsRecoverySafety s \<noteq> ExternalNonIdempotent \<and> \<not> explicit_recovery_kind (kfKind f)
    \<and> d = fallbackOrReplan rt e x s st"
  using assms unfolding decideFailure_def recover_failure_def Let_def
  by (auto split: option.split_asm bool.split_asm list.split_asm if_split_asm)

text \<open>A round of the failure policy: the fallback the Kernel dispatched is among the dispatch items of the
  next snapshot, which keeps the earlier ones and the authorized bindings of the Subtask.\<close>

definition tried_fingerprints :: "string \<Rightarrow> DispatchSnapshot \<Rightarrow> string set" where
  "tried_fingerprints sid s = kdBindingFingerprint ` {i \<in> set (dsDispatchItems s). kdSubtaskId i = sid}"

definition bindings_of :: "string \<Rightarrow> DispatchSnapshot \<Rightarrow> AuthorizedExecutorBinding list" where
  "bindings_of sid s = (case find_subtask s (Some sid) of None \<Rightarrow> [] | Some t \<Rightarrow> ksExecutorBindings t)"

definition untried :: "js_runtime \<Rightarrow> string \<Rightarrow> DispatchSnapshot \<Rightarrow> string set" where
  "untried rt sid s = authorizedExecutorBindingFingerprint rt ` set (bindings_of sid s) - tried_fingerprints sid s"

inductive fallback_round :: "js_runtime \<Rightarrow> string \<Rightarrow> DispatchSnapshot \<Rightarrow> DispatchSnapshot \<Rightarrow> bool" for rt sid where
  fallback_round:
    "evSubtaskId e = Some sid \<Longrightarrow> decideFailure rt e x s = Inr d \<Longrightarrow> decAction d = DispatchBatch tid items
     \<Longrightarrow> i \<in> set items \<Longrightarrow> insert (diBindingFingerprint i) (tried_fingerprints sid s) \<subseteq> tried_fingerprints sid s'
     \<Longrightarrow> bindings_of sid s' = bindings_of sid s \<Longrightarrow> fallback_round rt sid s s'"

lemma finite_untried [simp]: "finite (untried rt sid s)"
  by (simp add: untried_def)

lemma tried_attempted: "tried_fingerprints (ksId t) s \<subseteq> set (attempted_bindings x s t)"
  by (auto simp: tried_fingerprints_def attempted_bindings_def)

lemma fallback_round_decreases:
  assumes "fallback_round rt sid s s'"
  shows "card (untried rt sid s') < card (untried rt sid s)"
  using assms
proof cases
  case (fallback_round e x d tid items i)
  from failure_batch [OF fallback_round(2,3)] obtain t where t: "find_subtask s (Some sid) = Some t" "d = fallbackOrReplan rt e x s t"
    using fallback_round(1) by auto
  with fallback_batch [of rt e x s t tid items] fallback_round(3,4)
  have i: "diBindingFingerprint i \<in> authorizedExecutorBindingFingerprint rt ` set (ksExecutorBindings t)"
    "diBindingFingerprint i \<notin> set (attempted_bindings x s t)" by auto
  have "bindings_of sid s = ksExecutorBindings t" by (simp add: bindings_of_def t(1))
  moreover from find_subtask_Some [OF t(1)] have "sid = ksId t" by simp
  ultimately have "diBindingFingerprint i \<in> untried rt sid s"
    using tried_attempted [of t s x] i by (auto simp: untried_def)
  moreover from fallback_round(5,6) have "untried rt sid s' \<subseteq> untried rt sid s - {diBindingFingerprint i}"
    by (auto simp: untried_def)
  ultimately have "untried rt sid s' \<subset> untried rt sid s" by auto
  then show ?thesis by (simp add: psubset_card_mono)
qed

end
