(* ===== verification/Control_Kernel.thy ===== *)
theory Control_Kernel
  imports Kernel_Plan Kernel_Outcome
begin

text \<open>
  The Kernel as a whole (\<open>ControlKernel.decide\<close> in \<open>src/src/kernel/control-kernel.ts\<close>): one decision
  for every event and snapshot, under the production-authorization policy of
  \<open>src/src/kernel/production-authorization.ts\<close>.
\<close>

subsection \<open>Remaining work and managed services\<close>

definition decide_remaining_work ::
  "KernelEventEnvelope \<Rightarrow> int \<Rightarrow> KernelTaskFact option \<Rightarrow> RemainingTaskWork option \<Rightarrow> bool \<Rightarrow> KernelDecision"
where
  "decide_remaining_work event expected task remaining safeToRetry = (case (task, remaining) of
      (Some t, Some r) \<Rightarrow>
        if Some (ktId t) \<noteq> evTaskId event \<or> ktStatus t \<noteq> TFailed \<or> \<not> safeToRetry \<or> rwSourceVersion r \<noteq> expected
           \<or> Some (rwSourceTaskId r) \<noteq> evTaskId event \<or> (\<not> rwStartService r \<and> rwPublicationIds r = [])
        then decision event RejectRequest ''%u672A%u5B8C%u6210%u5DE5%u4F5C%u7F3A%u5C11%u53EF%u5B89%u5168%u590D%u7528%u7684%u6210%u679C%uFF0C%u8BF7%u57FA%u4E8E%u539F%u4EFB%u52A1%u91CD%u65B0%u89C4%u5212%u3002''
        else decision event (RetryRemainingWork (''task_retry_'' @ rwSourceTaskId r @ ''_'' @ show_int (rwSourceVersion r)) r)
          ''explicit retry authorizes only remaining delivery and service work''
    | _ \<Rightarrow> decision event RejectRequest ''%u672A%u5B8C%u6210%u5DE5%u4F5C%u7F3A%u5C11%u53EF%u5B89%u5168%u590D%u7528%u7684%u6210%u679C%uFF0C%u8BF7%u57FA%u4E8E%u539F%u4EFB%u52A1%u91CD%u65B0%u89C4%u5212%u3002'')"

definition resource_task :: "KernelEventEnvelope \<Rightarrow> ServiceControlSnapshot \<Rightarrow> string option" where
  "resource_task event facts = (case scRetryOfTaskId facts of Some t \<Rightarrow> Some t | None \<Rightarrow> evTaskId event)"

definition registration_from_other_task :: "KernelEventEnvelope \<Rightarrow> ServiceControlSnapshot \<Rightarrow> bool" where
  "registration_from_other_task event facts \<longleftrightarrow> truthy (scServiceTaskId facts) \<and> scServiceTaskId facts \<noteq> resource_task event facts"

definition same_workspace_registration :: "KernelEventEnvelope \<Rightarrow> ServiceControlSnapshot \<Rightarrow> bool" where
  "same_workspace_registration event facts \<longleftrightarrow> registration_from_other_task event facts
     \<and> truthy (evWorkspaceId event) \<and> truthy (scServiceWorkspaceId facts) \<and> scServiceWorkspaceId facts = evWorkspaceId event"

definition inherited_registration :: "KernelEventEnvelope \<Rightarrow> ManagedServiceRequest \<Rightarrow> ServiceControlSnapshot \<Rightarrow> bool" where
  "inherited_registration event request facts \<longleftrightarrow> same_workspace_registration event facts
     \<and> truthy (msSpecificationRevision request) \<and> scServiceRevision facts = msSpecificationRevision request"

definition service_ownership_mismatch :: "KernelEventEnvelope \<Rightarrow> ManagedServiceRequest \<Rightarrow> ServiceControlSnapshot \<Rightarrow> bool" where
  "service_ownership_mismatch event request facts \<longleftrightarrow>
     \<not> truthy (evTaskId event) \<or> map_option ktId (scTask facts) \<noteq> evTaskId event
     \<or> registration_from_other_task event facts \<and> \<not> same_workspace_registration event facts
        \<and> \<not> inherited_registration event request facts
     \<or> (case msSpecification request of None \<Rightarrow> False
        | Some s \<Rightarrow> Some (lsTaskId s) \<noteq> resource_task event facts \<or> lsServiceId s \<noteq> msServiceId request)"

definition set_if :: "string option \<Rightarrow> string option" where
  "set_if v = (if truthy v then v else None)"

definition decide_managed_service ::
  "js_runtime \<Rightarrow> KernelEventEnvelope \<Rightarrow> ManagedServiceRequest \<Rightarrow> ServiceControlSnapshot \<Rightarrow> KernelDecision"
where
  "decide_managed_service rt event request facts =
     (let sid = msServiceId request; requested = msSpecificationRevision request in
      if truthy (evWorkspaceId event) \<and> truthy (scServiceWorkspaceId facts) \<and> scServiceWorkspaceId facts \<noteq> evWorkspaceId event
      then decision event RejectRequest (''%u670D%u52A1%u4E0D%u5C5E%u4E8E%u8BE5 Workspace%uFF1AserviceId='' @ sid)
      else if service_ownership_mismatch event request facts
      then decision event RejectRequest (''%u670D%u52A1%u5F52%u5C5E%u4E0D%u5339%u914D%uFF1AserviceId='' @ sid @ ''%uFF0C%u8BF7%u6C42%u4EFB%u52A1=''
        @ (case evTaskId event of Some t \<Rightarrow> t | None \<Rightarrow> ''%u672A%u6307%u5B9A'') @ ''%uFF0C%u670D%u52A1%u767B%u8BB0%u4EFB%u52A1=''
        @ (case scServiceTaskId facts of Some t \<Rightarrow> t | None \<Rightarrow> ''%u672A%u767B%u8BB0'') @ ''%uFF0C%u4EFB%u52A1%u72B6%u6001=''
        @ (case scTask facts of Some t \<Rightarrow> task_status_name (ktStatus t) | None \<Rightarrow> ''missing''))
      else if msSpecification request \<noteq> None \<and> truthy requested
         \<and> Some (localServiceSpecificationRevision rt (the (msSpecification request))) \<noteq> requested
      then decision event RejectRequest (''%u670D%u52A1%u89C4%u683C revision %u4E0E%u8BF7%u6C42%u5185%u5BB9%u4E0D%u4E00%u81F4%uFF1AserviceId='' @ sid)
      else if msOperation request \<noteq> UpdateOperation \<and> truthy requested \<and> truthy (scServiceRevision facts) \<and> scServiceRevision facts \<noteq> requested
      then decision event RejectRequest (''%u670D%u52A1%u89C4%u683C revision %u4E0E%u5DF2%u6388%u6743 revision %u4E0D%u4E00%u81F4%uFF0C%u9700%u8981%u663E%u5F0F%u66F4%u65B0%u6388%u6743%uFF1AserviceId='' @ sid)
      else if msOperation request \<noteq> StopOperation \<and> \<not> scPublished facts
      then decision event RejectRequest ''%u4EE3%u7801%u5C1A%u672A%u53D1%u5E03%u5230%u7528%u6237%u4EFB%u52A1%u76EE%u5F55%uFF0C%u4E0D%u80FD%u542F%u52A8%u670D%u52A1''
      else if msOperation request \<noteq> StartOperation \<and> \<not> truthy (scServiceTaskId facts)
      then decision event RejectRequest ''%u670D%u52A1%u4E0D%u5B58%u5728''
      else decision event (ControlManagedService (or_empty (evTaskId event))
          (request\<lparr>msTurnId := set_if (msTurnId request), msSpecificationRevision := set_if requested\<rparr>) (set_if (evWorkspaceId event)))
        ''explicit managed service action authorized'')"

subsection \<open>Every event\<close>

definition mismatch :: "KernelEventEnvelope \<Rightarrow> KernelDecision" where
  "mismatch event = decision event (block_work (or_empty (evTaskId event)) (evSubtaskId event)) ''event and snapshot do not match''"

definition decide_dispatch_event ::
  "js_runtime \<Rightarrow> KernelEventEnvelope \<Rightarrow> KernelEventBody \<Rightarrow> DispatchSnapshot \<Rightarrow> KernelDecision result"
where
  "decide_dispatch_event rt event body s = (case body of
      DispatchRequested _ recovery \<Rightarrow> Inr (decideDispatch rt event recovery s)
    | TaskResumeRequested r \<Rightarrow> Inr (decideTaskResume rt event r s)
    | CapacitySignalEvent c \<Rightarrow> Inr (decideCapacity rt event c s)
    | ExecutionOutcomeEvent outcome \<Rightarrow> decideOutcome rt event outcome s
    | HandoffContractFailedEvent f \<Rightarrow> Inr (decideContractFailure rt event f s)
    | ExecutionResultEvent r \<Rightarrow> Inr (decideExecutionResult rt event r s)
    | MergeConflictObserved c \<Rightarrow> Inr (decideMergeConflict rt event c s)
    | GenerationQuiescenceObserved requestId generation sourceRevision \<Rightarrow>
        Inr (decideGenerationQuiescence event requestId generation sourceRevision s)
    | _ \<Rightarrow> Inr (mismatch event))"

definition control_event :: "KernelEventBody \<Rightarrow> TaskControlEvent option" where
  "control_event body = (case body of
      TaskCancelRequested _ \<Rightarrow> Some CancelTaskEvent
    | SubtasksCancelRequested targets _ \<Rightarrow> Some (CancelSubtasksEvent targets)
    | PartialResultAcceptanceRequested expected \<Rightarrow> Some (AcceptResultEvent expected)
    | TaskResultRetryRequested expected \<Rightarrow> Some (RetryResultEvent expected)
    | _ \<Rightarrow> None)"

text \<open>The \<open>switch\<close> over the event; an event whose snapshot has another type is blocked.\<close>

definition decidePolicy ::
  "js_runtime \<Rightarrow> js_platform \<Rightarrow> plan_schema \<Rightarrow> KernelEventEnvelope \<Rightarrow> KernelEventBody \<Rightarrow> KernelSnapshotBody \<Rightarrow> KernelDecision result"
where
  "decidePolicy rt pf safeParse event body snapshot =
     (if \<not> snapshotMatches body snapshot then Inr (mismatch event)
      else (case snapshot of
          DispatchFacts s \<Rightarrow> decide_dispatch_event rt event body s
        | TaskControlFacts s \<Rightarrow> (case control_event body of
              Some c \<Rightarrow> decideTaskControl rt event c s | None \<Rightarrow> Inr (mismatch event))
        | PlanAdmission s \<Rightarrow> (case body of PlanProposedEvent p \<Rightarrow> decidePlan rt pf safeParse event p s | _ \<Rightarrow> Inr (mismatch event))
        | AvailabilityRecoveryFacts s \<Rightarrow> decideAvailabilityRecovery rt event s
        | TimerFacts s \<Rightarrow> (case body of TimerTickEvent t \<Rightarrow> Inr (decideTimer rt event t s) | _ \<Rightarrow> Inr (mismatch event))
        | RecoveryFacts t i \<Rightarrow> (case body of
              RecoveryResolutionRequested item resolution \<Rightarrow> Inr (decideRecovery event item resolution t i) | _ \<Rightarrow> Inr (mismatch event))
        | RecoveryRequiredFacts t _ _ \<Rightarrow> (case body of
              RecoveryRequiredObserved _ reason \<Rightarrow> Inr (decideRecoveryRequired event reason t) | _ \<Rightarrow> Inr (mismatch event))
        | PermissionFacts s \<Rightarrow> decidePermission rt event
              (case body of PermissionResolutionReceived r \<Rightarrow> Some r | _ \<Rightarrow> None) s
        | PartitionFacts confirmed _ _ \<Rightarrow> (case body of
              PartitionConflictObserved _ leaseIds \<Rightarrow> Inr (decidePartitionConflict event leaseIds confirmed) | _ \<Rightarrow> Inr (mismatch event))
        | SandboxRecoveryFacts s \<Rightarrow> (case body of SandboxLostEvent l \<Rightarrow> Inr (decideSandboxRecovery event l s) | _ \<Rightarrow> Inr (mismatch event))
        | RemainingWorkRetry t r safe \<Rightarrow> (case body of
              TaskRemainingWorkRetryRequested expected \<Rightarrow> Inr (decide_remaining_work event expected t r safe) | _ \<Rightarrow> Inr (mismatch event))
        | ServiceControl s \<Rightarrow> (case body of
              ManagedServiceRequested r \<Rightarrow> Inr (decide_managed_service rt event r s) | _ \<Rightarrow> Inr (mismatch event))
        | InvalidSnapshot _ \<Rightarrow> Inr (mismatch event)))"

subsection \<open>Production authorization\<close>

definition allowsProduction :: "ProductionAuthorizationFact option \<Rightarrow> bool" where
  "allowsProduction pfact = (case pfact of None \<Rightarrow> True | Some f \<Rightarrow> pfAllowed f)"

fun allowed_without_production :: "KernelDecisionAction \<Rightarrow> bool" where
  "allowed_without_production (RetryRemainingWork _ _) = False"
| "allowed_without_production (AuthorizeTaskPlanAction _) = False"
| "allowed_without_production (DispatchBatch _ _) = False"
| "allowed_without_production (ResumeTaskAction _) = False"
| "allowed_without_production (ProbeCapacity _ _ _ _) = False"
| "allowed_without_production (WaitForRetry _ _ _ _ _ _) = False"
| "allowed_without_production (RecoverRetryWake _ _ _) = False"
| "allowed_without_production (RequestReplan _ _ _) = False"
| "allowed_without_production (ScheduleReplan _ _ _ _) = False"
| "allowed_without_production (QueueGenerationReplan _ _ _ _) = False"
| "allowed_without_production (DeferTaskPlanAction _) = False"
| "allowed_without_production (ActivateDeferredTaskPlan _) = False"
| "allowed_without_production (RequestMergeReplan _ _ _ _) = False"
| "allowed_without_production (RecoverWorkspaceAttempt _ _ _ _ _ _ _) = False"
| "allowed_without_production (GrantCapabilityAction _ _ _ _) = False"
| "allowed_without_production (EscalateCapabilityAction _) = False"
| "allowed_without_production (ControlManagedService _ r _) = (msOperation r = StopOperation)"
| "allowed_without_production (RetryUncertifiedResult _ _ _ _) = False"
| "allowed_without_production (AcceptUncertifiedResult _ _ _ _) = False"
| "allowed_without_production (AuthorizeTaskControl task) =
     (control_name (ptControl task) \<in> {''cancel'', ''pause'', ''block'', ''service_stop''})"
| "allowed_without_production (ResolveRecovery _ _ resolution) = (resolution \<noteq> RetryResolution)"
| "allowed_without_production _ = True"

definition allowsKernelAction :: "KernelDecisionAction \<Rightarrow> ProductionAuthorizationFact option \<Rightarrow> bool" where
  "allowsKernelAction action pfact = (if allowsProduction pfact then True else allowed_without_production action)"

definition decide ::
  "js_runtime \<Rightarrow> js_platform \<Rightarrow> plan_schema \<Rightarrow> KernelEventEnvelope \<Rightarrow> KernelEventBody \<Rightarrow> KernelSnapshot \<Rightarrow> KernelDecision result"
where
  "decide rt pf safeParse event body snapshot =
     rbind (decidePolicy rt pf safeParse event body (snBody snapshot)) (\<lambda>outcome.
       let pfact = snProductionAuthorization snapshot in
       Inr (if \<not> allowsKernelAction (decAction outcome) pfact
            then decision event (BlockWork (or_empty (evTaskId event)) (evSubtaskId event) True None)
              (case Option.bind pfact pfReason of Some r \<Rightarrow> r | None \<Rightarrow> ''official_authorization_required'')
            else outcome))"

subsection \<open>Where each consequential action comes from\<close>

lemma family_service:
  "family (decAction (decide_remaining_work e v t rw safe)) = OtherFamily"
  "family (decAction (decide_managed_service rt e ms sc)) = OtherFamily"
  "family (decAction (mismatch e)) = OtherFamily"
  by (simp_all add: decide_remaining_work_def decide_managed_service_def mismatch_def Let_def split: option.splits)

lemma dispatch_event_cases:
  assumes "decide_dispatch_event rt e body s = Inr d"
  shows "(family (decAction d) = CompletionFamily \<longrightarrow> d = decideDispatch rt e None s)
    \<and> family (decAction d) \<in> {DispatchFamily, CompletionFamily, ReplanFamily, OtherFamily}"
proof (cases body)
  case (DispatchRequested reason recovery)
  with assms family_recovery_dispatch [of rt e "the recovery" s] family_dispatch [of rt e recovery s] show ?thesis
    by (cases recovery) (auto simp: decide_dispatch_event_def)
next
  case (CapacitySignalEvent c)
  with assms family_capacity [of rt e c s] show ?thesis by (auto simp: decide_dispatch_event_def)
next
  case (ExecutionOutcomeEvent x)
  with assms family_outcome [of rt e x s d] show ?thesis by (auto simp: decide_dispatch_event_def)
next
  case (HandoffContractFailedEvent f)
  with assms family_contract [of rt e f s] show ?thesis by (auto simp: decide_dispatch_event_def)
next
  case (ExecutionResultEvent r)
  with assms family_result [of rt e r s] show ?thesis by (auto simp: decide_dispatch_event_def)
next
  case (MergeConflictObserved c)
  with assms family_merge [of rt e c s] show ?thesis by (auto simp: decide_dispatch_event_def)
qed (insert assms, auto simp: decide_dispatch_event_def family_resume family_quiescence family_recovery family_service)

lemma decidePolicy_origin:
  assumes "decidePolicy rt pf sp e body snap = Inr d"
  obtains (dispatch) s where "snap = DispatchFacts s" "decide_dispatch_event rt e body s = Inr d"
  | (control) s c where "snap = TaskControlFacts s" "control_event body = Some c" "decideTaskControl rt e c s = Inr d"
  | (plan) s p where "snap = PlanAdmission s" "body = PlanProposedEvent p" "decidePlan rt pf sp e p s = Inr d"
  | (permission) s r where "snap = PermissionFacts s" "decidePermission rt e r s = Inr d"
      "r = (case body of PermissionResolutionReceived r \<Rightarrow> Some r | _ \<Rightarrow> None)"
  | (timer) s t where "snap = TimerFacts s" "body = TimerTickEvent t" "d = decideTimer rt e t s"
  | (other) "family (decAction d) = OtherFamily"
proof (cases "snapshotMatches body snap")
  case False
  with assms other show ?thesis by (auto simp: decidePolicy_def family_recovery family_service)
next
  case m: True
  show ?thesis
  proof (cases snap)
    case (DispatchFacts s)
    with assms m dispatch show ?thesis by (simp add: decidePolicy_def)
  next
    case (TaskControlFacts s)
    with assms m control other show ?thesis by (auto simp: decidePolicy_def family_recovery family_service split: option.splits)
  next
    case (PlanAdmission s)
    with assms m plan other show ?thesis by (cases body) (auto simp: decidePolicy_def family_recovery family_service)
  next
    case (PermissionFacts s)
    with assms m permission show ?thesis by (simp add: decidePolicy_def)
  next
    case (TimerFacts s)
    with assms m timer other show ?thesis by (cases body) (auto simp: decidePolicy_def family_recovery family_service)
  next
    case (AvailabilityRecoveryFacts s)
    with assms m other show ?thesis by (auto simp: decidePolicy_def dest: family_availability)
  next
    case (RemainingWorkRetry t r safe)
    with assms m other show ?thesis by (cases body) (auto simp: decidePolicy_def family_recovery family_service)
  next
    case (ServiceControl s)
    with assms m other show ?thesis by (cases body) (auto simp: decidePolicy_def family_recovery family_service)
  next
    case (RecoveryFacts t i)
    with assms m other show ?thesis by (cases body) (auto simp: decidePolicy_def family_recovery family_service)
  next
    case (RecoveryRequiredFacts t i r)
    with assms m other show ?thesis by (cases body) (auto simp: decidePolicy_def family_recovery family_service)
  next
    case (PartitionFacts c w k)
    with assms m other show ?thesis by (cases body) (auto simp: decidePolicy_def family_recovery family_service)
  next
    case (SandboxRecoveryFacts s)
    with assms m other show ?thesis by (cases body) (auto simp: decidePolicy_def family_recovery family_service)
  next
    case (InvalidSnapshot r)
    with assms m other show ?thesis by (auto simp: decidePolicy_def family_recovery family_service)
  qed
qed

lemma decide_policy:
  assumes "decide rt pf sp e body snap = Inr d" "family (decAction d) \<noteq> OtherFamily"
  shows "decidePolicy rt pf sp e body (snBody snap) = Inr d"
  using assms by (auto simp: decide_def Let_def split: if_splits)

text \<open>Where each consequential action comes from.\<close>

lemma decide_origin:
  assumes "decide rt pf sp e body snap = Inr d"
  obtains (dispatch) s where "snBody snap = DispatchFacts s" "decide_dispatch_event rt e body s = Inr d"
      "family (decAction d) \<in> {DispatchFamily, CompletionFamily, ReplanFamily, OtherFamily}"
  | (control) s c where "snBody snap = TaskControlFacts s" "control_event body = Some c" "decideTaskControl rt e c s = Inr d"
      "family (decAction d) \<in> {CancellationFamily, OtherFamily}"
  | (plan) s p where "snBody snap = PlanAdmission s" "body = PlanProposedEvent p" "decidePlan rt pf sp e p s = Inr d"
      "family (decAction d) \<in> {PlanFamily, OtherFamily}"
  | (permission) s r where "snBody snap = PermissionFacts s" "decidePermission rt e r s = Inr d"
      "r = (case body of PermissionResolutionReceived r \<Rightarrow> Some r | _ \<Rightarrow> None)" "family (decAction d) \<in> {GrantFamily, OtherFamily}"
  | (timer) s t where "snBody snap = TimerFacts s" "body = TimerTickEvent t" "d = decideTimer rt e t s"
      "family (decAction d) \<in> {DispatchFamily, OtherFamily}"
  | (other) "family (decAction d) = OtherFamily"
proof (cases "family (decAction d) = OtherFamily")
  case True
  then show ?thesis by (rule other)
next
  case False
  with assms have "decidePolicy rt pf sp e body (snBody snap) = Inr d" by (rule decide_policy)
  then show ?thesis
  proof (cases rule: decidePolicy_origin)
    case (dispatch s)
    with dispatch_event_cases [OF dispatch(2)] show ?thesis by (intro that(1)) auto
  next
    case (control s c)
    with family_control [OF control(3)] show ?thesis by (intro that(2)) auto
  next
    case (plan s p)
    with family_plan [OF plan(3)] show ?thesis by (intro that(3)) auto
  next
    case (permission s r)
    with family_permission [OF permission(2)] show ?thesis by (intro that(4)) auto
  next
    case (timer s t)
    with family_timer [of rt e t s] show ?thesis by (intro that(5)) auto
  qed (rule other)
qed

end
