(* ===== verification/Kernel_Safety.thy ===== *)
theory Kernel_Safety
  imports Control_Kernel
begin

text \<open>
  What the Kernel as a whole guarantees (\<open>ControlKernel.decide\<close>), for every event and snapshot:
  completion, dispatch, fallback, retry, cancellation, permission and plan authorization. The
  evaluations at the end run the Kernel on sample snapshots.
\<close>

subsection \<open>Properties\<close>

text \<open>
  Claim C1. The Kernel completes a Task only when it is done: a decision to complete is taken on a
  dispatch snapshot of the very Task the event names, whose Work Graph is ready and non-empty, every
  Subtask of which is done, with no outstanding completion blocker.
\<close>

theorem completion_sound:
  assumes "decide rt pf sp e body snap = Inr d" "decAction d = CompleteTask tid"
  shows "\<exists>s task. snBody snap = DispatchFacts s \<and> dsTask s = Some task \<and> ktId task = tid \<and> evTaskId e = Some tid
    \<and> dsGraphState s = GraphReady \<and> dsSubtasks s \<noteq> [] \<and> (\<forall>t \<in> set (dsSubtasks s). ksStatus t = SDone)
    \<and> dsCompletionBlockedReasons s = []"
  using assms(1)
proof (cases rule: decide_origin)
  case (dispatch s)
  with dispatch_event_cases [OF dispatch(2)] assms(2) dispatch_complete [of rt e None s tid] show ?thesis
    by (auto simp: all_done_def list_all_iff)
qed (use assms(2) in auto)

definition continues_work :: "KernelEventBody \<Rightarrow> bool" where
  "continues_work body = (case body of
      DispatchRequested _ recovery \<Rightarrow> recovery = None
    | ExecutionOutcomeEvent x \<Rightarrow> eoTerminalKind x = TerminalCompleted
    | ExecutionResultEvent r \<Rightarrow> erCertified r
    | _ \<Rightarrow> False)"

lemma continues_dispatch:
  assumes "decide_dispatch_event rt e body s = Inr d" "continues_work body" "family (decAction d) \<noteq> OtherFamily"
  shows "d = decideDispatch rt e None s"
  using assms by (cases body) (auto simp: decide_dispatch_event_def continues_work_def decideOutcome_def
      decideExecutionResult_def Let_def split: if_splits)

text \<open>
  Claim C2. When the Kernel continues a Task it starts only work that may run: at most four, and at
  most as many as the concurrency limit, distinct Subtasks, each ready, on the frontier, idle and
  free of resource conflicts, each on a binding authorized for it whose AgentClass is available, and
  with an order after every earlier dispatch.
\<close>

theorem dispatch_batch_sound:
  assumes "decide rt pf sp e body snap = Inr d" "decAction d = DispatchBatch tid items" "continues_work body"
    and "snBody snap = DispatchFacts s" "distinct (dsFrontier s)" "0 \<le> dsMaxConcurrentAttempts s"
  shows "evTaskId e = Some tid \<and> dsGraphState s = GraphReady \<and> items \<noteq> [] \<and> distinct (map diSubtaskId items)
    \<and> int (length items) \<le> min 4 (dsMaxConcurrentAttempts s)
    \<and> (\<forall>i \<in> set items. \<exists>t. startable s t \<and> fresh_item rt e s t i)"
  using assms(1)
proof (cases rule: decide_origin)
  case (dispatch s')
  with assms continues_dispatch [OF dispatch(2)] have d: "decAction (decideDispatch rt e None s) = DispatchBatch tid items"
    by auto
  show ?thesis
    using dispatch_batch [OF d] dispatchBatchItems_distinct [OF assms(5,6)]
    by (auto dest!: dispatchBatchItems_fresh selected_startable)
qed (use assms in auto)

definition well_formed_item :: "js_runtime \<Rightarrow> KernelEventEnvelope \<Rightarrow> DispatchItem \<Rightarrow> bool" where
  "well_formed_item rt e i \<longleftrightarrow> diBindingFingerprint i = authorizedExecutorBindingFingerprint rt (diAuthorizedBinding i)
     \<and> diAttemptId i = deterministicAttemptId rt (evId e) (diSubtaskId i) (diBindingFingerprint i) (attempt_kind_name (diAttemptKind i))"

definition well_formed_batch :: "js_runtime \<Rightarrow> KernelEventEnvelope \<Rightarrow> KernelDecisionAction \<Rightarrow> bool" where
  "well_formed_batch rt e a = (case a of DispatchBatch tid items \<Rightarrow> items \<noteq> [] \<and> list_all (well_formed_item rt e) items | _ \<Rightarrow> True)"

lemma wf_single [simp]: "well_formed_batch rt e (singleDispatchBatch rt e t s b k src m g p)"
  by (simp add: singleDispatchBatch_def Let_def well_formed_batch_def well_formed_item_def)

lemma wf_other: "family a \<noteq> DispatchFamily \<Longrightarrow> well_formed_batch rt e a"
  by (cases a) (auto simp: well_formed_batch_def)

lemma wf_batch: "(\<And>t items. a = DispatchBatch t items \<Longrightarrow> well_formed_batch rt e a) \<Longrightarrow> well_formed_batch rt e a"
  by (cases a) (auto simp: well_formed_batch_def)

lemma wf_items: "list_all (well_formed_item rt e) (dispatchBatchItems rt e s ts)"
  by (auto simp: dispatchBatchItems_def list_all_iff primary_item_def well_formed_item_def Let_def split: option.splits)

lemma wf_recovery: "well_formed_batch rt e (decAction (dispatch_recovery_attempt rt e t r s))"
  by (simp add: dispatch_recovery_attempt_def Let_def wf_other split: option.splits)

lemma wf_idle: "well_formed_batch rt e (decAction (idle_decision e t task s))"
  using family_idle [of e t task s] by (auto intro!: wf_other)

lemma wf_dispatch: "well_formed_batch rt e (decAction (decideDispatch rt e r s))"
  by (auto simp: decideDispatch_def Let_def wf_recovery wf_idle wf_other wf_items well_formed_batch_def [of _ _ "DispatchBatch _ _"] split: option.splits)

lemma wf_capacity: "well_formed_batch rt e (decAction (decideCapacity rt e c s))"
  by (simp add: decideCapacity_def Let_def wf_other split: option.splits)

lemma wf_failure: "decideFailure rt e c s = Inr d \<Longrightarrow> well_formed_batch rt e (decAction d)"
proof (rule wf_batch)
  fix tid items
  assume "decideFailure rt e c s = Inr d" "decAction d = DispatchBatch tid items"
  from failure_batch [OF this] obtain st where "d = fallbackOrReplan rt e c s st" by blast
  then show "well_formed_batch rt e (decAction d)"
    by (simp add: fallbackOrReplan_def Let_def wf_other split: option.split)
qed

lemma wf_outcome: "decideOutcome rt e x s = Inr d \<Longrightarrow> well_formed_batch rt e (decAction d)"
  by (auto simp: decideOutcome_def wf_dispatch wf_other dest: wf_failure split: if_splits)

lemma wf_result: "well_formed_batch rt e (decAction (decideExecutionResult rt e r s))"
  by (simp add: decideExecutionResult_def correction_batch_def Let_def wf_other wf_dispatch)

lemma wf_contract: "well_formed_batch rt e (decAction (decideContractFailure rt e c s))"
  by (simp add: decideContractFailure_def correction_batch_def wf_other)

lemma wf_merge: "well_formed_batch rt e (decAction (decideMergeConflict rt e c s))"
  by (simp add: decideMergeConflict_def Let_def wf_other)

lemma wf_timer: "well_formed_batch rt e (decAction (decideTimer rt e t s))"
proof (rule wf_batch)
  fix tid items
  assume "decAction (decideTimer rt e t s) = DispatchBatch tid items"
  moreover from this obtain retry wake where "decAction (fire_retry_wake rt e t retry wake s) = DispatchBatch tid items"
    by (rule timer_batch)
  from conjunct2 [OF conjunct2 [OF conjunct2 [OF conjunct2 [OF fire_batch [OF this]]]]]
  have "well_formed_batch rt e (DispatchBatch tid items)" by (metis wf_single)
  ultimately show "well_formed_batch rt e (decAction (decideTimer rt e t s))" by simp
qed

lemma wf_dispatch_event: "decide_dispatch_event rt e body s = Inr d \<Longrightarrow> well_formed_batch rt e (decAction d)"
  by (cases body) (auto simp: decide_dispatch_event_def wf_dispatch wf_capacity wf_result wf_contract wf_merge wf_other
      family_resume family_quiescence family_recovery family_service wf_outcome)

lemma decide_well_formed:
  assumes "decide rt pf sp e body snap = Inr d"
  shows "well_formed_batch rt e (decAction d)"
  using assms by (cases rule: decide_origin) (auto intro: wf_other wf_dispatch_event wf_timer)

text \<open>
  Claim C19. Every attempt the Kernel dispatches, on whatever event, is well formed: batches are not
  empty, an item carries the fingerprint of its own binding, and its attempt id is the deterministic
  one for its event, Subtask, binding and kind.
\<close>

theorem dispatched_items_well_formed:
  assumes "decide rt pf sp e body snap = Inr d" "decAction d = DispatchBatch tid items"
  shows "items \<noteq> [] \<and> (\<forall>i \<in> set items.
    diBindingFingerprint i = authorizedExecutorBindingFingerprint rt (diAuthorizedBinding i)
     \<and> diAttemptId i = deterministicAttemptId rt (evId e) (diSubtaskId i) (diBindingFingerprint i) (attempt_kind_name (diAttemptKind i)))"
  using decide_well_formed [OF assms(1)] assms(2) by (simp add: well_formed_batch_def well_formed_item_def list_all_iff)

text \<open>
  Claim C17. A recovery is dispatched only with a complete and current identity: the Subtask of the
  event, in the status the attempt kind requires, on a binding authorized for it at the
  configuration revision of the event; a service repair continues a named attempt and its ordinal is
  the number of repairs already made, fewer than three.
\<close>

theorem recovery_dispatch_sound:
  assumes "decide rt pf sp e (DispatchRequested reason (Some r)) snap = Inr d" "decAction d = DispatchBatch tid items"
  shows "\<exists>s t i. snBody snap = DispatchFacts s \<and> evTaskId e = Some tid \<and> items = [i] \<and> recovery_sound rt e r s t
    \<and> diSubtaskId i = ksId t \<and> diAuthorizedBinding i = drAuthorizedBinding r \<and> diAttemptKind i = drAttemptKind r"
  using assms(1)
proof (cases rule: decide_origin)
  case (dispatch s)
  then have d: "d = decideDispatch rt e (Some r) s" by (simp add: decide_dispatch_event_def)
  with assms(2) have "evTaskId e = Some tid \<and> decAction (dispatch_recovery_attempt rt e tid r s) = DispatchBatch tid items"
    by (auto simp: decideDispatch_def Let_def dest: recovery_attempt_batch split: option.splits if_splits)
  with dispatch(1) recovery_attempt_batch [of rt e tid r s tid items] show ?thesis by blast
qed (use assms(2) in auto)

text \<open>
  Claim C12. A failed attempt falls back only to an untried binding: one authorized for the Subtask,
  of an available AgentClass, different from the failed one and from those of all its earlier
  attempts and dispatches, and only while automatic recovery is safe.
\<close>

theorem fallback_sound:
  assumes "decide rt pf sp e (ExecutionOutcomeEvent x) snap = Inr d" "decAction d = DispatchBatch tid items"
    and "eoTerminalKind x = TerminalFailed"
  shows "\<exists>s t i b. snBody snap = DispatchFacts s \<and> items = [i] \<and> t \<in> set (dsSubtasks s) \<and> evSubtaskId e = Some (ksId t)
    \<and> diSubtaskId i = ksId t \<and> diAuthorizedBinding i = b \<and> diAttemptKind i = FallbackAttempt \<and> b \<in> set (ksExecutorBindings t)
    \<and> abAgentClassRef b \<notin> set (unavailableAgentClasses rt (dsExecutorStatuses s) (evOccurredAt e))
    \<and> diBindingFingerprint i = authorizedExecutorBindingFingerprint rt b
    \<and> diBindingFingerprint i \<notin> set (attempted_bindings x s t)
    \<and> dsAutomaticRecoveryAllowed s \<and> dsRecoverySafety s \<noteq> ExternalNonIdempotent"
  using assms(1)
proof (cases rule: decide_origin)
  case (dispatch s)
  with assms(2,3) have "decideFailure rt e x s = Inr d"
    by (auto simp: decide_dispatch_event_def decideOutcome_def split: if_splits)
  from failure_batch [OF this assms(2)] obtain st where f: "find_subtask s (evSubtaskId e) = Some st"
    "dsAutomaticRecoveryAllowed s" "dsRecoverySafety s \<noteq> ExternalNonIdempotent" "d = fallbackOrReplan rt e x s st" by blast
  with fallback_batch [of rt e x s st tid items] find_subtask_Some [OF f(1)] dispatch(1) assms(2) show ?thesis by auto
qed (use assms(2) in auto)

text \<open>
  Claim C13. Falling back ends: as long as dispatched attempts are recorded, there are at most as
  many fallback rounds for a Subtask as it has authorized bindings.
\<close>

theorem fallback_rounds_bounded:
  assumes "(fallback_round rt sid ^^ n) s s'"
  shows "n \<le> length (bindings_of sid s)"
proof -
  from assms have "n + card (untried rt sid s') \<le> card (untried rt sid s)"
  proof (induction n arbitrary: s')
    case (Suc n)
    then obtain m where "(fallback_round rt sid ^^ n) s m" "fallback_round rt sid m s'" by auto
    with Suc.IH [of m] fallback_round_decreases [of rt sid m s'] show ?case by simp
  qed simp
  also have "card (untried rt sid s) \<le> card (authorizedExecutorBindingFingerprint rt ` set (bindings_of sid s))"
    by (rule card_mono) (auto simp: untried_def)
  also have "\<dots> \<le> length (bindings_of sid s)"
    by (metis card_image_le card_length finite_set le_trans)
  finally show ?thesis by simp
qed

text \<open>
  Claim C18. A retry timer dispatches only for the durable wake it was armed for: the wake matches the event and
  the timer in every identity field, it has fired and is authorized, its time has come, and its Task
  is running or waits for action. The one dispatched item continues the wake's Subtask from the
  wake's source attempt on the binding the timer carries, with that binding's fingerprint and the
  attempt id derived from the event.
\<close>

theorem retry_wake_sound:
  assumes "decide rt pf sp e (TimerTickEvent tick) snap = Inr d" "decAction d = DispatchBatch tid items"
  shows "\<exists>s retry wake i t. snBody snap = TimerFacts s \<and> ttRetry tick = Some retry \<and> tmRetryWake s = Some wake
    \<and> wake_identity e tick retry wake \<and> kwStatus wake = WakeFired \<and> tmWakeAuthorized s
    \<and> \<not> date_before rt (evOccurredAt e) (ttScheduledFor tick)
    \<and> tmTask s = Some t \<and> ktId t = tid \<and> ktStatus t \<in> {TRunning, TNeedsAction}
    \<and> tid = kwTaskId wake \<and> evTaskId e = Some tid \<and> items = [i]
    \<and> diSubtaskId i = kwSubtaskId wake \<and> diSourceAttemptId i = Some (kwSourceAttemptId wake) \<and> diAttemptKind i = ContinuationAttempt
    \<and> diAuthorizedBinding i = tyAuthorizedBinding retry
    \<and> diBindingFingerprint i = authorizedExecutorBindingFingerprint rt (tyAuthorizedBinding retry)
    \<and> diAttemptId i = deterministicAttemptId rt (evId e) (kwSubtaskId wake) (diBindingFingerprint i) (attempt_kind_name ContinuationAttempt)"
  using assms(1)
proof (cases rule: decide_origin)
  case (dispatch s)
  then show ?thesis using assms(2) by (auto simp: decide_dispatch_event_def mismatch_def)
next
  case (timer s t)
  with assms(2) have "decAction (decideTimer rt e tick s) = DispatchBatch tid items" by simp
  then obtain retry wake where w: "ttRetry tick = Some retry" "tmRetryWake s = Some wake" "wake_identity e tick retry wake"
    "decAction (fire_retry_wake rt e tick retry wake s) = DispatchBatch tid items" by (rule timer_batch)
  moreover from w(3) have ids: "evTaskId e = Some (kwTaskId wake)" "evSubtaskId e = Some (kwSubtaskId wake)"
    "tySourceAttemptId retry = kwSourceAttemptId wake"
    by (simp_all add: wake_identity_def)
  moreover from fire_task [OF w(4)] ids(1) obtain t where "tmTask s = Some t" "ktId t = kwTaskId wake" "ktStatus t \<in> {TRunning, TNeedsAction}"
    by auto
  ultimately show ?thesis using timer(1) fire_batch [OF w(4)] by (auto simp: single_batch_iff or_empty_def)
qed (use assms(2) in auto)

text \<open>
  Claim C3. An authorized plan can be executed: its Work Graph is valid and belongs to the
  configuration revision of the Kernel, each of its Subtasks has at least one binding, every binding
  names an enabled Executor class with a Model its policy allows and a permission profile, and is
  available; the Workspace admission is the one resolved for the plan, no confirmation is
  outstanding, and the graph revision is 1 for an initial plan and later for a replan.
\<close>

theorem plan_authorization_sound:
  assumes "decide rt pf sp e body snap = Inr d" "decAction d = AuthorizeTaskPlanAction au"
  shows "\<exists>s p. snBody snap = PlanAdmission s \<and> body = PlanProposedEvent p
    \<and> plWorkGraph (ppProposal p) = Some (auWorkGraph au) \<and> valid_work_graph (wpSubtasks (auWorkGraph au))
    \<and> wpConfigurationRevision (auWorkGraph au) = kcRevisionId (asKernelConfiguration s)
    \<and> fst ` set (auAuthorizedBindingsBySubtask au) = wgId ` set (wpSubtasks (auWorkGraph au))
    \<and> (\<forall>(i, bs) \<in> set (auAuthorizedBindingsBySubtask au). bs \<noteq> [] \<and> (\<forall>b \<in> set bs.
         configured_binding (asKernelConfiguration s) b
         \<and> abAgentClassRef b \<notin> set (unavailableAgentClasses rt (asExecutorStatuses s) (evOccurredAt e))))
    \<and> \<not> plRequiresConfirmation (ppProposal p) \<and> \<not> js_less (plConfidence (ppProposal p)) double_045
    \<and> (\<exists>admission. auWorkspaceAdmission au = Some admission \<and> resolveWorkspaceAdmission (proposal_admission p (auWorkGraph au) s)
         = WorkspaceResolved (auWorkspaceExecution au) admission (auWorkspaceIntent au))
    \<and> auGraphRevision au = ppTargetGraphRevision p
    \<and> (if ppProposalSource p = InitialProposal then auGraphRevision au = 1 else 2 \<le> auGraphRevision au)"
  using assms(1)
proof (cases rule: decide_origin)
  case (plan s p)
  then have "decide_valid_plan rt pf e p s = Inr d"
    using assms(2) by (auto simp: decidePlan_def split: if_splits)
  from valid_plan_authorize [OF this assms(2)] obtain g
    where v: "\<not> plRequiresConfirmation (ppProposal p)" "\<not> js_less (plConfidence (ppProposal p)) double_045"
      "plWorkGraph (ppProposal p) = Some g" and w: "decide_work_graph rt pf e p g s = Inr d" by blast
  from w assms(2) obtain rb d0 ad i where r: "resolveWorkspaceAdmission (proposal_admission p g s) = WorkspaceResolved d0 ad i"
    "resolveAuthorizedBindings rt pf g (asKernelConfiguration s) (span_resolution rt pf e p g s) = Inr (Inr rb)"
    "settle_plan rt e p g s rb d0 ad i = Inr d" "revision_rejection p = None" by (rule work_graph_authorize)
  note a = settle_authorize [OF r(3) assms(2)]
  have au: "auWorkGraph au = g" "auWorkspaceAdmission au = Some ad" "auWorkspaceExecution au = d0" "auWorkspaceIntent au = i"
    "auGraphRevision au = ppTargetGraphRevision p"
    using a by simp_all
  have keys: "fst ` set (auAuthorizedBindingsBySubtask au) = fst ` set (rbBindingsBySubtask rb)"
    unfolding conjunct1 [OF a [THEN conjunct2, THEN conjunct2]] by (force simp: image_iff case_prod_beta)
  have rev: "if ppProposalSource p = InitialProposal then ppTargetGraphRevision p = 1 else 2 \<le> ppTargetGraphRevision p"
    using r(4) by (auto simp: revision_rejection_def split: if_splits)
  have bs: "bs \<noteq> [] \<and> (\<forall>b \<in> set bs. configured_binding (asKernelConfiguration s) b
         \<and> abAgentClassRef b \<notin> set (unavailableAgentClasses rt (asExecutorStatuses s) (evOccurredAt e)))"
    if "(k, bs) \<in> set (auAuthorizedBindingsBySubtask au)" for k bs
  proof
    show "bs \<noteq> []" using a that by auto
    from that obtain bs0 where "(k, bs0) \<in> set (rbBindingsBySubtask rb)"
      "bs = filter (\<lambda>b. abAgentClassRef b \<notin> set (unavailableAgentClasses rt (asExecutorStatuses s) (evOccurredAt e))) bs0"
      unfolding conjunct1 [OF a [THEN conjunct2, THEN conjunct2]] by auto
    with resolved_bindings_ok [OF r(2)]
    show "\<forall>b \<in> set bs. configured_binding (asKernelConfiguration s) b
         \<and> abAgentClassRef b \<notin> set (unavailableAgentClasses rt (asExecutorStatuses s) (evOccurredAt e))" by fastforce
  qed
  show ?thesis
  proof (intro exI conjI)
    show "valid_work_graph (wpSubtasks (auWorkGraph au))" using a au(1) by simp
    show "\<forall>(i, bs) \<in> set (auAuthorizedBindingsBySubtask au). bs \<noteq> [] \<and> (\<forall>b \<in> set bs.
         configured_binding (asKernelConfiguration s) b
         \<and> abAgentClassRef b \<notin> set (unavailableAgentClasses rt (asExecutorStatuses s) (evOccurredAt e)))"
      using bs by blast
    show "if ppProposalSource p = InitialProposal then auGraphRevision au = 1 else 2 \<le> auGraphRevision au"
      unfolding au(5) by (rule rev)
  qed (use plan(1,2) v r(1) au keys resolved_bindings_ok [OF r(2)] in simp_all)
qed (use assms(2) in auto)

text \<open>
  Claim C4. The Kernel grants a capability only to the pending request of the event Task and
  Subtask, or repeats the limits of a grant already made: a new grant is for no hard-denied
  operation and no previously denied request, within the default limits, and either allowed by the
  first matching rule or, where no rule matches, authorized by the user for this very request.
\<close>

theorem kernel_grant_sound:
  assumes "decide rt pf sp e body snap = Inr d" "decAction d = GrantCapabilityAction rid limits rule auth"
  shows "\<exists>s q. snBody snap = PermissionFacts s \<and> psRequest s = Some q \<and> rid = rqId q
    \<and> evTaskId e = Some (rqTaskId q) \<and> evSubtaskId e = Some (rqSubtaskId q)
    \<and> (psRequestStatus s = Some GrantedRequest \<and> (\<exists>g \<in> set (psCurrentGrants s). grantRequestId g = rid \<and> limits = grantLimits g)
       \<or> psRequestStatus s = Some PendingRequest \<and> rqFingerprint q \<notin> set (psPreviouslyDeniedFingerprints s)
         \<and> \<not> (\<exists>token \<in> set HARD_DENY_TOKENS. js_includes (toLowerCase (rqOperation q)) token)
         \<and> defaultGrantLimits rt q (evOccurredAt e) = Inr limits
         \<and> ((\<exists>r. matchingRule q (psRules s) = Inr (Some r) \<and> ruleEffect r = AllowEffect)
            \<or> matchingRule q (psRules s) = Inr None
              \<and> (rqFingerprint q \<in> set (psUserAuthorizationFingerprints s)
                 \<or> (\<exists>r. body = PermissionResolutionReceived r \<and> prRequestId r = rid \<and> prResolution r = Approve \<and> psAttemptActive s))))"
  using assms(1)
proof (cases rule: decide_origin)
  case (permission s res)
  from permission(2) assms(2) obtain q where q: "psRequest s = Some q" "evTaskId e = Some (rqTaskId q)" "evSubtaskId e = Some (rqSubtaskId q)"
    by (auto simp: decidePermission_def split: option.splits if_splits)
  consider (settled) "psRequestStatus s \<noteq> Some PendingRequest" "d = settled_permission e s q"
    | (eval) "psRequestStatus s = Some PendingRequest" "evaluate_permission rt e res s q = Inr d"
        "\<forall>r. res = Some r \<longrightarrow> prRequestId r = rqId q \<and> prResolution r = Approve \<and> psAttemptActive s"
    using permission(2) assms(2) q
    by (cases res; cases "prResolution (the res)") (auto simp: decidePermission_def split: if_splits)
  then show ?thesis
  proof cases
    case settled
    with assms(2) q permission(1) show ?thesis
      by (auto simp: settled_permission_def dest: find_Some_mem split: option.splits if_splits)
  next
    case eval
    let ?in = "\<lparr>peRequest = q, peRules = psRules s, peNow = evOccurredAt e,
         pePreviouslyDenied = psPreviouslyDeniedFingerprints s,
         peUserAuthorizations = (if res = None then psUserAuthorizationFingerprints s
            else js_dedup (psUserAuthorizationFingerprints s @ [rqFingerprint q])),
         peMaxDistinctRequests = None\<rparr>"
    from eval(2) obtain x where x: "evaluateCapabilityRequest rt ?in = Inr x"
      and "d = (case x of
           GrantCapability rid reason limits \<Rightarrow> decision e
             (GrantCapabilityAction (rqId q) limits rid (map_option (received e Approve) res)) reason
         | EscalateCapability _ reason \<Rightarrow> decision e (EscalateCapabilityAction (rqId q)) reason
         | DenyCapability _ reason \<Rightarrow> decision e (DenyCapabilityAction (rqId q) None) reason)"
      by (auto simp: evaluate_permission_def)
    with assms(2) obtain why where w: "x = GrantCapability rule why limits" and rid: "rid = rqId q"
      by (auto split: PermissionDecision.splits)
    have "res = None \<or> (\<exists>r. body = PermissionResolutionReceived r \<and> res = Some r)"
      using permission(3) by (auto split: KernelEventBody.splits)
    with evaluate_grant_cases [OF x [unfolded w]] eval(1,3) q permission(1) rid show ?thesis
      by (auto split: if_splits)
  qed
qed (use assms(2) in auto)

text \<open>
  Claim C14. Cancelling Subtasks is all or nothing over the graph the Kernel sees: the cancelled
  Subtasks are exactly the targets and everything downstream of them, once each, none of them done
  or already cancelled, and the expected statuses are those of the snapshot.
\<close>

theorem subtask_cancellation_sound:
  assumes "decide rt pf sp e (SubtasksCancelRequested targets reason) snap = Inr d"
    and "decAction d = CancelSubtasks tid generation graphRev ids expected"
    and "snBody snap = TaskControlFacts s" "acyclic (downstream (control_graph (tsSubtasks s)))"
  shows "evTaskId e = Some tid \<and> tsGenerationId s = Some generation \<and> tsGraphRevision s = Some graphRev
    \<and> distinct ids \<and> set ids = {j. \<exists>t \<in> set targets. (t, j) \<in> (downstream (control_graph (tsSubtasks s)))\<^sup>*}
    \<and> mset expected = mset (map (\<lambda>t. (ksId t, ksStatus t)) (filter (\<lambda>t. ksId t \<in> set ids) (tsSubtasks s)))
    \<and> (\<forall>i \<in> set ids. \<not> status_is (control_facts (tsSubtasks s)) SDone i \<and> \<not> status_is (control_facts (tsSubtasks s)) SCancelled i)"
  using assms(1)
proof (cases rule: decide_origin)
  case (control s' c)
  with assms have "decideTaskControl rt e (CancelSubtasksEvent targets) s = Inr d" by (simp add: control_event_def)
  with assms(2) obtain task where tk: "tsTask s = Some task" "evTaskId e = Some (ktId task)"
    "with_generation e s (\<lambda>generation graphRev. cancel_subtasks rt e (ktId task) generation graphRev s targets) = Inr d"
    by (auto simp: decideTaskControl_def Let_def split: option.splits if_splits)
  from with_generation_Inr [OF tk(3)] assms(2) obtain g r where gr: "tsGenerationId s = Some g" "tsGraphRevision s = Some r"
    "cancel_subtasks rt e (ktId task) g r s targets = Inr d" by auto
  then have ok: "deriveCancellationClosure rt (control_graph (tsSubtasks s)) (control_facts (tsSubtasks s)) targets = Some (ClosureOk ids)"
    and "tid = ktId task" "g = generation" "r = graphRev"
    and ex: "expected = js_sort (\<lambda>l r. localeCompare rt (fst l) (fst r))
             (map (\<lambda>s. (ksId s, ksStatus s)) (filter (\<lambda>s. ksId s \<in> set ids) (tsSubtasks s)))"
    using assms(2) by (auto simp: cancel_subtasks_def split: option.splits CancellationClosureResult.splits)
  then show ?thesis using closure_ok_exact [OF assms(4) ok] gr(1,2) tk(2) by (simp add: ex)
qed (use assms in auto)

text \<open>An account at capacity never reaches the test of the queue limit: a Conversation without an occupant
  compares the absent Task id with the absent occupant.\<close>

lemma capacity_skips_queue_limit:
  assumes "\<not> truthy (admission_occupant e s)" "ptTaskId (plTask (ppProposal p)) = None" "admission_occupant e s = None"
  shows "slot_rejection e p s = None"
  using assms by (simp add: slot_rejection_def Let_def)

text \<open>
  Claim C20. Finished work completes: when every Subtask is done and nothing is running, pending or
  blocking, a dispatch request is answered by completing the Task, even while production is not
  authorized.
\<close>

theorem completion_live:
  assumes "snBody snap = DispatchFacts s" "dsTask s = Some task" "evTaskId e = Some (ktId task)" "ktId task \<noteq> []" "dsGraphState s = GraphReady"
    and "slot_occupant (dsActiveTaskByConversation s) (dsRunningTaskId s) (conversation_of task e) \<in> {None, Some (ktId task)}"
    and "dsSubtasks s \<noteq> []" "\<forall>t \<in> set (dsSubtasks s). ksStatus t = SDone" "dsCompletionBlockedReasons s = []"
    and "\<not> has_active_dispatch s" "dsPendingRetrySubtaskIds s = []" "dsGenerationReplanRequest s = None"
    and "\<forall>f \<in> set (dsDependencyReadiness s). dfTargetSubtaskId f \<in> ksId ` set (dsSubtasks s)"
  shows "\<exists>d. decide rt pf sp e (DispatchRequested reason None) snap = Inr d \<and> decAction d = CompleteTask (ktId task)"
proof -
  have fin: "all_done s" using assms by (simp add: all_done_def list_all_iff)
  then have "decAction (decideDispatch rt e None s) = CompleteTask (ktId task)"
    using assms(2-6) idle_completes [OF fin assms(9,10,11,13,12), of e "ktId task" task]
    by (auto simp: decideDispatch_def truthy_def done_not_ready Let_def)
  moreover have "decidePolicy rt pf sp e (DispatchRequested reason None) (snBody snap) = Inr (decideDispatch rt e None s)"
    by (simp add: decidePolicy_def assms(1) decide_dispatch_event_def)
  ultimately show ?thesis by (simp add: decide_def allowsKernelAction_def Let_def)
qed

lemma report_only_read:
  assumes "\<forall>s \<in> set (wpSubtasks g). wgDeliveryKind s = ReportDelivery \<and> file_outputs s = []"
    and "plWorkspaceIntent (ppProposal p) = Some i" "wiOperation i \<noteq> ReadOnlyOperation"
  shows "resolveWorkspaceAdmission (proposal_admission p g s)
    = WorkspaceRejected ''a non-read-only intent cannot authorize a read admission''"
  using assms by (simp add: resolveWorkspaceAdmission_def proposal_admission_def deferred_writes_def resolve_read_request_def)

text \<open>
  A plan of the current schema whose Subtasks all report, declare no file output and announce a
  Workspace write can pass validation and is still never authorized: the validator demands an intent
  that is not read-only, and admission refuses such an intent for a graph without edits and file
  outputs. Reports that declare file outputs are writes for both.
\<close>

theorem report_write_never_authorized:
  assumes "decide rt pf sp e (PlanProposedEvent p) snap = Inr d" "sp (ppProposal p) = Inr (ppProposal p)"
    and "plSchemaVersion (ppProposal p) = Schema9" "plWorkGraph (ppProposal p) = Some g"
    and "\<forall>s \<in> set (wpSubtasks g). wgDeliveryKind s = ReportDelivery \<and> file_outputs s = []"
    and "\<exists>s \<in> set (wpSubtasks g). wgWorkspaceEffect s = Some ''write''"
  shows "\<not> (\<exists>au. decAction d = AuthorizeTaskPlanAction au)"
proof
  assume "\<exists>au. decAction d = AuthorizeTaskPlanAction au"
  then obtain au where au: "decAction d = AuthorizeTaskPlanAction au" by blast
  from assms(1) show False
  proof (cases rule: decide_origin)
    case (plan s q)
    then have v: "validatePlanningAgentPlan rt sp (ppProposal p) (asPlannerConfiguration s) (asPendingAuthorizationRequest s) None = Inr (True, [])"
      and dv: "decide_valid_plan rt pf e p s = Inr d"
      using au by (auto simp: decidePlan_def validatePlanningAgentPlan_valid split: if_splits)
    from valid_plan_authorize [OF dv au] assms(4) have w: "decide_work_graph rt pf e p g s = Inr d"
      and act: "plAction (ppProposal p) = PlanWorkGraph" by simp_all
    from v assms(2) have "plan_errors rt (asPlannerConfiguration s) (asPendingAuthorizationRequest s) None (ppProposal p) = Inr []"
      by (auto simp: validatePlanningAgentPlan_valid)
    from graph_intent_errors_Nil [OF plan_errors_Nil(1) [OF this]] act assms(3) have "intent_covers (ppProposal p)" by blast
    moreover have "\<exists>x \<in> set (plan_subtasks (ppProposal p)). subtask_writes x"
      using assms(4,6) by (auto simp: plan_subtasks_def subtask_writes_def)
    ultimately obtain i where "plWorkspaceIntent (ppProposal p) = Some i" "wiOperation i \<noteq> ReadOnlyOperation"
      by (auto simp: intent_covers_def)
    with report_only_read [OF assms(5)] work_graph_authorize [OF w au] show False by (metis WorkspaceExecutionResolution.distinct)
  qed (use au assms(1) in \<open>auto simp: decide_dispatch_event_def control_event_def\<close>)
qed

lemma family_allowed: "allowed_without_production a \<Longrightarrow> family a \<in> {CompletionFamily, CancellationFamily, OtherFamily}"
  by (cases a) simp_all

text \<open>
  Without production authorization the Kernel dispatches nothing, authorizes no plan,
  grants no capability and queues no replan, whatever the event.
\<close>

theorem unlicensed_never_produces:
  assumes "decide rt pf sp e body snap = Inr d" "snProductionAuthorization snap = Some f" "\<not> pfAllowed f"
  shows "family (decAction d) \<in> {CompletionFamily, CancellationFamily, OtherFamily}"
proof (rule family_allowed)
  from assms obtain x why where "d = (if \<not> allowed_without_production (decAction x)
            then decision e (BlockWork (or_empty (evTaskId e)) (evSubtaskId e) True None) why else x)"
    by (auto simp: decide_def allowsKernelAction_def allowsProduction_def)
  then show "allowed_without_production (decAction d)" by simp
qed

subsection \<open>Evaluations\<close>

definition sample_event :: KernelEventEnvelope where
  "sample_event = \<lparr>evConfigurationRevision = ''r1'', evId = ''e1'', evCorrelationId = ''c1'', evCausationId = None,
     evOccurredAt = ''1000'', evSessionId = ''ses1'', evConversationId = Some ''conv1'', evSourceTurnId = None,
     evWorkspaceId = Some ''w1'', evTaskId = Some ''t1'', evSubtaskId = Some ''a'', evAttemptId = Some ''at1''\<rparr>"

definition sample_task :: KernelTaskFact where
  "sample_task = \<lparr>ktId = ''t1'', ktStatus = TRunning, ktConversationId = Some ''conv1'', ktWorkspaceId = Some ''w1'',
     ktExecutionMode = None, ktDeliveryPolicy = None\<rparr>"

definition sample_subtask_fact :: "string \<Rightarrow> WorkGraphRuntimeStatus \<Rightarrow> KernelSubtaskFact" where
  "sample_subtask_fact i st = \<lparr>ksId = i, ksTaskId = ''t1'', ksStatus = st,
     ksExecutorBindings = [sample_binding ''pi'', sample_binding ''codex'']\<rparr>"

definition sample_dispatch :: "KernelSubtaskFact list \<Rightarrow> string list \<Rightarrow> DispatchSnapshot" where
  "sample_dispatch subtasks frontier = \<lparr>dsTask = Some sample_task, dsActiveTaskByConversation = None,
     dsRunningTaskId = Some ''t1'', dsGraphState = GraphReady, dsSubtasks = subtasks, dsFrontier = frontier,
     dsDependencyReadiness = [], dsResumeRecoveryCandidates = [], dsUpstreamInputResume = None,
     dsDeliveryRecoveryPublicationIds = [], dsPendingRetrySubtaskIds = [], dsDispatchItems = [],
     dsMaxConcurrentAttempts = 2, dsAvailableSlots = 2, dsResourceConflictSubtaskIds = [],
     dsCapacityProbeBindingFingerprints = [], dsServiceRepairAttemptsBySubtask = [], dsExecutorStatuses = [],
     dsCorrectionSupportedAgentClasses = [], dsNativeContinuationAgentClasses = [], dsAttempts = [],
     dsGenerationId = ''g1'', dsGraphRevision = 1, dsAutomaticReplansUsed = 0, dsRecoverySafety = WorkspaceReconcilable,
     dsAutomaticRecoveryAllowed = True, dsResourceGrantsBySubtask = [], dsCompletionBlockedReasons = [],
     dsGenerationReplanRequest = None, dsGenerationQuiescent = True\<rparr>"

abbreviation sample_snapshot :: "KernelSnapshotBody \<Rightarrow> KernelSnapshot" where
  "sample_snapshot body \<equiv> \<lparr>snProductionAuthorization = None, snBody = body\<rparr>"

lemma decide_sample:
  "decidePolicy rt pf sp e body b = Inr d \<Longrightarrow> decide rt pf sp e body (sample_snapshot b) = Inr d"
  by (simp add: decide_def allowsKernelAction_def allowsProduction_def)

lemma decide_sample_dispatch:
  "decide_dispatch_event rt e body s = Inr d \<Longrightarrow> snapshotMatches body (DispatchFacts s)
    \<Longrightarrow> decide rt pf sp e body (sample_snapshot (DispatchFacts s)) = Inr d"
  by (rule decide_sample) (simp add: decidePolicy_def)

definition sample_done :: DispatchSnapshot where
  "sample_done = sample_dispatch [sample_subtask_fact ''a'' SDone, sample_subtask_fact ''b'' SDone] []"

lemma sample_completion:
  "decide rt pf sp sample_event (DispatchRequested ''go'' None) (sample_snapshot (DispatchFacts sample_done))
   = Inr (decision sample_event (CompleteTask ''t1'') ''all Subtasks completed and runtime residue is clear'')"
  by (rule decide_sample_dispatch)
    (simp_all add: decide_dispatch_event_def decideDispatch_def sample_done_def sample_dispatch_def sample_event_def sample_task_def
      sample_subtask_fact_def truthy_def slot_occupant_def selectDispatchableSubtasks_def ready_subtask_def js_slice_def
      idle_decision_def awaits_publication_def pending_dependencies_def terminal_dependency_failure_def replan_request_decision_def
      settle_decision_def all_done_def List.map_filter_simps Let_def)

theorem completion_sound_witness:
  "\<exists>s. DispatchFacts sample_done = DispatchFacts s \<and> dsSubtasks s \<noteq> [] \<and> list_all (\<lambda>t. ksStatus t = SDone) (dsSubtasks s)"
  using completion_sound [OF sample_completion decision_simps(1)] by (auto simp: list_all_iff)

theorem completion_live_witness:
  "\<exists>d. decide sample_runtime sample_platform Inr sample_event (DispatchRequested ''go'' None) (sample_snapshot (DispatchFacts sample_done)) = Inr d
     \<and> decAction d = CompleteTask ''t1''"
  using completion_live [of "sample_snapshot (DispatchFacts sample_done)" sample_done sample_task sample_event]
  by (simp add: sample_done_def sample_dispatch_def sample_event_def sample_task_def sample_subtask_fact_def slot_occupant_def
      has_active_dispatch_def)

definition sample_ready :: DispatchSnapshot where
  "sample_ready = sample_dispatch [sample_subtask_fact ''a'' SReady, sample_subtask_fact ''b'' SReady] [''a'', ''b'']"

lemma no_statuses: "unavailableAgentClasses rt [] now = []"
  by (simp add: unavailableAgentClasses_def)

lemma sample_bindings_differ:
  "authorizedExecutorBindingFingerprint sample_runtime (sample_binding ''codex'')
     \<noteq> authorizedExecutorBindingFingerprint sample_runtime (sample_binding ''pi'')"
  by (simp add: authorizedExecutorBindingFingerprint_def sample_runtime_def sample_binding_def binding_fields_def)

lemma sample_time: "dateParse sample_runtime ''1000'' = Some 1000" "dateParse sample_runtime ''900'' = Some 900"
  by (simp_all add: sample_runtime_def all_digits_def digits_value_def is_digit_code)

lemmas sample_defs = sample_dispatch_def sample_event_def sample_task_def sample_subtask_fact_def truthy_def or_empty_def
  slot_occupant_def lookup_or_def Let_def

lemma sample_selected: "map ksId (selectDispatchableSubtasks sample_ready) = [''a'', ''b'']"
  by (simp add: sample_ready_def sample_dispatch_def sample_subtask_fact_def selectDispatchableSubtasks_def List.map_filter_simps js_slice_def
      active_subtask_ids_def ready_subtask_def)

lemma sample_items:
  "map diSubtaskId (dispatchBatchItems sample_runtime sample_event sample_ready (selectDispatchableSubtasks sample_ready)) = [''a'', ''b'']"
  by (simp add: sample_ready_def sample_dispatch_def sample_subtask_fact_def selectDispatchableSubtasks_def List.map_filter_simps js_slice_def
      active_subtask_ids_def ready_subtask_def dispatchBatchItems_def primary_item_def nextUsableBinding_def no_statuses Let_def)

lemma sample_batch:
  "decAction (decideDispatch sample_runtime sample_event None sample_ready)
   = DispatchBatch ''t1'' (dispatchBatchItems sample_runtime sample_event sample_ready (selectDispatchableSubtasks sample_ready))"
proof -
  have "selectDispatchableSubtasks sample_ready \<noteq> []"
    "dispatchBatchItems sample_runtime sample_event sample_ready (selectDispatchableSubtasks sample_ready) \<noteq> []"
    using sample_selected sample_items by auto
  moreover have "dsTask sample_ready = Some sample_task" "dsGraphState sample_ready = GraphReady" "dsRunningTaskId sample_ready = Some ''t1''"
    "dsActiveTaskByConversation sample_ready = None" "evTaskId sample_event = Some ''t1''" "ktId sample_task = ''t1''"
    by (simp_all add: sample_ready_def sample_defs)
  ultimately show ?thesis by (simp add: decideDispatch_def truthy_def slot_occupant_def Let_def)
qed

lemma sample_batch_decision:
  "decide sample_runtime pf sp sample_event (DispatchRequested ''go'' None) (sample_snapshot (DispatchFacts sample_ready))
   = Inr (decideDispatch sample_runtime sample_event None sample_ready)"
  by (rule decide_sample_dispatch) (simp_all add: decide_dispatch_event_def)

theorem dispatch_batch_sound_witness:
  "\<exists>items. decAction (decideDispatch sample_runtime sample_event None sample_ready) = DispatchBatch ''t1'' items
     \<and> map diSubtaskId items = [''a'', ''b''] \<and> int (length items) \<le> 2"
  using dispatch_batch_sound [OF sample_batch_decision sample_batch, of sample_ready] sample_batch sample_items
  by (simp add: continues_work_def sample_ready_def sample_dispatch_def)

theorem dispatched_items_well_formed_witness:
  "\<exists>items. decAction (decideDispatch sample_runtime sample_event None sample_ready) = DispatchBatch ''t1'' items
     \<and> items \<noteq> [] \<and> list_all (\<lambda>i. diAttemptId i = deterministicAttemptId sample_runtime (evId sample_event) (diSubtaskId i)
         (diBindingFingerprint i) (attempt_kind_name (diAttemptKind i))) items"
  using dispatched_items_well_formed [OF sample_batch_decision sample_batch] sample_batch by (simp add: list_all_iff)

definition sample_repair :: DispatchRecovery where
  "sample_repair = \<lparr>drAuthorizedBinding = sample_binding ''pi'',
     drBindingFingerprint = authorizedExecutorBindingFingerprint sample_runtime (sample_binding ''pi''),
     drAttemptKind = ContinuationAttempt, drSourceAttemptId = Some ''at0'', drRecoveryMode = RecoveryPacket,
     drDefaultResourceGrant = [], drAttemptPayload = Some (ServiceRepairPayload \<lparr>spServiceId = ''web'', spWorkspaceId = None,
       spSpecificationRevision = ''v1'', spRepairOrdinal = 2, spFailureSummary = ''exit 1'', spCommand = ''node'', spArgs = [],
       spLogTail = None\<rparr>)\<rparr>"

definition sample_published :: DispatchSnapshot where
  "sample_published = (sample_dispatch [sample_subtask_fact ''a'' SDone] [])\<lparr>dsServiceRepairAttemptsBySubtask := [(''a'', 2)]\<rparr>"

lemma sample_repair_batch:
  "decide rt pf sp sample_event (DispatchRequested ''go'' (Some sample_repair)) (sample_snapshot (DispatchFacts sample_published))
   = Inr (decideDispatch rt sample_event (Some sample_repair) sample_published)"
  "decAction (decideDispatch sample_runtime sample_event (Some sample_repair) sample_published)
   = singleDispatchBatch sample_runtime sample_event ''t1'' ''a'' (sample_binding ''pi'') ContinuationAttempt (Some ''at0'') RecoveryPacket []
       (drAttemptPayload sample_repair)"
proof -
  show "decide rt pf sp sample_event (DispatchRequested ''go'' (Some sample_repair)) (sample_snapshot (DispatchFacts sample_published))
   = Inr (decideDispatch rt sample_event (Some sample_repair) sample_published)"
    by (rule decide_sample_dispatch) (simp_all add: decide_dispatch_event_def)
  show "decAction (decideDispatch sample_runtime sample_event (Some sample_repair) sample_published)
   = singleDispatchBatch sample_runtime sample_event ''t1'' ''a'' (sample_binding ''pi'') ContinuationAttempt (Some ''at0'') RecoveryPacket []
       (drAttemptPayload sample_repair)"
    by (simp add: decideDispatch_def dispatch_recovery_attempt_def recovery_identity_valid_def recovery_status_authorized_def
      binding_authorized_def repair_refused_def service_repair_def find_subtask_def sample_repair_def sample_published_def
      MAX_SERVICE_REPAIR_ATTEMPTS_def MAX_SERVICE_REPAIR_LOG_BYTES_def sample_defs)
      (simp add: sample_binding_def)
qed

theorem recovery_dispatch_sound_witness:
  "\<exists>t. recovery_sound sample_runtime sample_event sample_repair sample_published t \<and> ksId t = ''a''"
  using recovery_dispatch_sound [OF sample_repair_batch(1) sample_repair_batch(2) [unfolded singleDispatchBatch_def Let_def]]
  by (fastforce simp: recovery_sound_def sample_event_def)


lemmas single_decision = trans [OF decision_simps(1) singleDispatchBatch_def [unfolded Let_def]]

definition sample_failed :: ExecutionOutcome where
  "sample_failed = \<lparr>eoTerminalKind = TerminalFailed, eoAuthorizedBinding = sample_binding ''pi'',
     eoBindingFingerprint = authorizedExecutorBindingFingerprint sample_runtime (sample_binding ''pi''),
     eoAttemptKind = PrimaryAttempt, eoSourceAttemptId = None,
     eoFailure = Some (unknown_failure\<lparr>kfKind := TaskFailed, kfCode := ''task_failed''\<rparr>)\<rparr>"

definition sample_running :: "KernelDispatchItemFact list \<Rightarrow> DispatchSnapshot" where
  "sample_running items = (sample_dispatch [sample_subtask_fact ''a'' SRunning] [])\<lparr>dsDispatchItems := items\<rparr>"

lemma sample_fallback:
  "decideFailure sample_runtime sample_event sample_failed (sample_running [])
   = Inr (decision sample_event (singleDispatchBatch sample_runtime sample_event ''t1'' ''a'' (sample_binding ''codex'') FallbackAttempt
       (Some ''at1'') RecoveryPacket [] None) ''next authorized fallback AgentClass selected'')"
  by (simp add: decideFailure_def recover_failure_def explicit_recovery_kind_def retryable_kind_def fallbackOrReplan_def
      nextUsableBinding_def attempted_bindings_def no_statuses find_subtask_def sample_failed_def sample_running_def unknown_failure_def
      resourceGrantForSubtask_def sample_bindings_differ sample_defs)

lemma sample_fallback_decision:
  "decide sample_runtime pf sp sample_event (ExecutionOutcomeEvent sample_failed) (sample_snapshot (DispatchFacts (sample_running [])))
   = decideFailure sample_runtime sample_event sample_failed (sample_running [])"
  unfolding sample_fallback
  by (rule decide_sample_dispatch)
    (simp_all add: decide_dispatch_event_def decideOutcome_def sample_fallback, simp_all add: sample_failed_def sample_event_def truthy_def)

theorem fallback_sound_witness:
  "authorizedExecutorBindingFingerprint sample_runtime (sample_binding ''codex'')
     \<notin> set (attempted_bindings sample_failed (sample_running []) (sample_subtask_fact ''a'' SRunning))"
proof -
  have failed: "eoTerminalKind sample_failed = TerminalFailed" by (simp add: sample_failed_def)
  have subtasks: "dsSubtasks (sample_running []) = [sample_subtask_fact ''a'' SRunning]"
    by (simp add: sample_running_def sample_dispatch_def)
  show ?thesis
    using fallback_sound [OF sample_fallback_decision [unfolded sample_fallback] single_decision failed] by (auto simp: subtasks)
qed

definition sample_recorded :: DispatchSnapshot where
  "sample_recorded = sample_running [\<lparr>kdAttemptId = ''at2'', kdSubtaskId = ''a'',
     kdBindingFingerprint = authorizedExecutorBindingFingerprint sample_runtime (sample_binding ''codex''), kdStatus = DRunning, kdOrder = 0\<rparr>]"

theorem fallback_rounds_bounded_witness:
  "(fallback_round sample_runtime ''a'' ^^ 1) (sample_running []) sample_recorded \<and> 1 \<le> length (bindings_of ''a'' (sample_running []))"
proof -
  have "fallback_round sample_runtime ''a'' (sample_running []) sample_recorded"
  proof (rule fallback_round [OF _ sample_fallback single_decision])
    show "bindings_of ''a'' sample_recorded = bindings_of ''a'' (sample_running [])"
      by (simp add: bindings_of_def find_subtask_def sample_recorded_def sample_running_def sample_dispatch_def)
  qed (auto simp: sample_event_def tried_fingerprints_def sample_recorded_def sample_running_def)
  then have "(fallback_round sample_runtime ''a'' ^^ 1) (sample_running []) sample_recorded" by (simp add: eq_OO)
  with fallback_rounds_bounded [OF this] show ?thesis by blast
qed


definition sample_wake :: KernelRetryWakeFact where
  "sample_wake = \<lparr>kwWakeId = ''wk1'', kwTaskId = ''t1'', kwSubtaskId = ''a'', kwGenerationId = ''g1'', kwSourceDecisionId = ''d0'',
     kwSourceAttemptId = ''at0'', kwConfigurationRevision = ''r1'', kwBindingFingerprint = ''fp'', kwResumeAt = ''900'',
     kwStatus = WakeFired, kwTimerEventId = Some ''e1''\<rparr>"

definition sample_tick :: TimerTick where
  "sample_tick = \<lparr>ttWakeKind = RetryWake, ttSourceDecisionId = ''d0'', ttScheduledFor = ''900'',
     ttRetry = Some \<lparr>tyWakeId = ''wk1'', tyGenerationId = ''g1'', tyConfigurationRevision = ''r1'',
       tyAuthorizedBinding = sample_binding ''pi'', tyBindingFingerprint = ''fp'', tySourceAttemptId = ''at0''\<rparr>\<rparr>"

definition sample_timer :: TimerSnapshot where
  "sample_timer = \<lparr>tmTask = Some sample_task, tmWakeAuthorized = True, tmCapacityBlockedAt = None, tmRecheckAfterMs = 1000,
     tmCapacityBindings = [], tmNativeContinuationAgentClasses = [], tmExecutorStatuses = [], tmDefaultResourceGrant = [],
     tmRetryWake = Some sample_wake\<rparr>"

lemma sample_wake_decision:
  "decide sample_runtime pf sp sample_event (TimerTickEvent sample_tick) (sample_snapshot (TimerFacts sample_timer))
   = Inr (decision sample_event (singleDispatchBatch sample_runtime sample_event ''t1'' ''a'' (sample_binding ''pi'') ContinuationAttempt
       (Some ''at0'') RecoveryPacket [] None) ''durable Retry Wake continuation authorized'')"
proof (rule decide_sample)
  have "decideTimer sample_runtime sample_event sample_tick sample_timer =
    decision sample_event (singleDispatchBatch sample_runtime sample_event ''t1'' ''a'' (sample_binding ''pi'') ContinuationAttempt
       (Some ''at0'') RecoveryPacket [] None) ''durable Retry Wake continuation authorized''" 
    using sample_time
    by (simp add: decideTimer_def decide_retry_wake_def fire_retry_wake_def wake_identity_def date_before_def sample_tick_def
      sample_timer_def sample_wake_def isTerminalTaskStatus_def sample_defs)
  then show "decidePolicy sample_runtime pf sp sample_event (TimerTickEvent sample_tick) (TimerFacts sample_timer)
   = Inr (decision sample_event (singleDispatchBatch sample_runtime sample_event ''t1'' ''a'' (sample_binding ''pi'') ContinuationAttempt
       (Some ''at0'') RecoveryPacket [] None) ''durable Retry Wake continuation authorized'')"
    by (simp add: decidePolicy_def)
qed

theorem retry_wake_sound_witness:
  "\<exists>i. singleDispatchBatch sample_runtime sample_event ''t1'' ''a'' (sample_binding ''pi'') ContinuationAttempt (Some ''at0'') RecoveryPacket [] None
      = DispatchBatch (kwTaskId sample_wake) [i]
    \<and> diSubtaskId i = kwSubtaskId sample_wake \<and> diSourceAttemptId i = Some (kwSourceAttemptId sample_wake)
    \<and> \<not> date_before sample_runtime (evOccurredAt sample_event) ''900''"
  using retry_wake_sound [OF sample_wake_decision single_decision] by (auto simp: sample_timer_def sample_tick_def singleDispatchBatch_def Let_def)

definition sample_control :: TaskControlSnapshot where
  "sample_control = \<lparr>tsTask = Some sample_task, tsGenerationId = Some ''g1'', tsGraphRevision = Some 1,
     tsSubtasks = map (\<lambda>(i, st, deps). \<lparr>ksId = i, ksTaskId = ''t1'', ksStatus = st, ksExecutorBindings = [], ksDependencySubtaskIds = deps\<rparr>)
       [(''a'', SDone, []), (''b'', SReady, [''a'']), (''c'', SReady, [''a'', ''b''])],
     tsCompletionBlockedReasons = [], tsPartialCancellation = False, tsUncertifiedResult = None, tsResultRetrySafe = None,
     tsAcceptedResult = None, tsCandidateDeliveries = []\<rparr>"

lemma sample_control_graph: "control_graph (tsSubtasks sample_control) = sample_chain"
  by (simp add: control_graph_def sample_control_def sample_chain_def)

lemma sample_cancel:
  "decideTaskControl sample_runtime sample_event (CancelSubtasksEvent [''b'']) sample_control
   = Inr (decision sample_event (CancelSubtasks ''t1'' ''g1'' 1 [''c'', ''b''] [(''b'', SReady), (''c'', SReady)])
       ''atomic downstream Subtask cancellation closure authorized'')"
proof -
  have facts: "control_facts (tsSubtasks sample_control) = sample_states SReady"
    by (simp add: control_facts_def sample_control_def sample_states_def)
  have "js_sort (\<lambda>l r. localeCompare sample_runtime (fst l) (fst r)) [(''b'', SReady), (''c'', SReady)] = [(''b'', SReady), (''c'', SReady)]"
    by (simp add: js_sort_def sample_runtime_def code_unit_compare_def)
  then have "cancel_subtasks sample_runtime sample_event ''t1'' ''g1'' 1 sample_control [''b''] =
     Inr (decision sample_event (CancelSubtasks ''t1'' ''g1'' 1 [''c'', ''b''] [(''b'', SReady), (''c'', SReady)])
       ''atomic downstream Subtask cancellation closure authorized'')"
    unfolding cancel_subtasks_def sample_control_graph facts sample_chain_closure by (simp add: sample_control_def)
  then show ?thesis
    by (simp add: decideTaskControl_def with_generation_def sample_control_def sample_defs)
qed

lemma sample_cancel_decision:
  "decide sample_runtime pf sp sample_event (SubtasksCancelRequested [''b''] ''stop'') (sample_snapshot (TaskControlFacts sample_control))
   = Inr (decision sample_event (CancelSubtasks ''t1'' ''g1'' 1 [''c'', ''b''] [(''b'', SReady), (''c'', SReady)])
       ''atomic downstream Subtask cancellation closure authorized'')"
proof (rule decide_sample)
  from sample_cancel show "decidePolicy sample_runtime pf sp sample_event (SubtasksCancelRequested [''b''] ''stop'') (TaskControlFacts sample_control)
   = Inr (decision sample_event (CancelSubtasks ''t1'' ''g1'' 1 [''c'', ''b''] [(''b'', SReady), (''c'', SReady)])
       ''atomic downstream Subtask cancellation closure authorized'')"
    by (simp add: decidePolicy_def control_event_def)
qed

theorem subtask_cancellation_sound_witness:
  "set [''c'', ''b''] = {j. \<exists>t \<in> set [''b'']. (t, j) \<in> (downstream (control_graph (tsSubtasks sample_control)))\<^sup>*}"
  using subtask_cancellation_sound [OF sample_cancel_decision decision_simps(1), of sample_control] sample_chain_acyclic
  by (simp add: sample_control_graph)

definition sample_permission :: PermissionSnapshot where
  "sample_permission = \<lparr>psRequest = Some (sample_request NetworkTarget ''get''), psRequestStatus = Some PendingRequest,
     psRules = [public_http_rule StandardAgent], psCurrentGrants = [], psUserAuthorizationFingerprints = [''f1''],
     psPreviouslyDeniedFingerprints = [], psAttemptActive = True, psWorkspaceId = None, psCheckpointId = None\<rparr>"

lemma sample_grant_decision:
  "decide sample_runtime pf sp (sample_event\<lparr>evSubtaskId := Some ''s1''\<rparr>) (PermissionRequested (sample_request NetworkTarget ''get''))
     (sample_snapshot (PermissionFacts sample_permission))
   = Inr (decision (sample_event\<lparr>evSubtaskId := Some ''s1''\<rparr>)
       (GrantCapabilityAction ''r1'' \<lparr>expiresAt = ''901000'', maxCalls = 100, maxBytes = 104857600\<rparr> (ruleId (public_http_rule StandardAgent)) None)
       (ruleReason (public_http_rule StandardAgent)))"
proof (rule decide_sample)
  have "evaluate_permission sample_runtime (sample_event\<lparr>evSubtaskId := Some ''s1''\<rparr>) None sample_permission (sample_request NetworkTarget ''get'')
    = Inr (decision (sample_event\<lparr>evSubtaskId := Some ''s1''\<rparr>)
       (GrantCapabilityAction ''r1'' \<lparr>expiresAt = ''901000'', maxCalls = 100, maxBytes = 104857600\<rparr> (ruleId (public_http_rule StandardAgent)) None)
       (ruleReason (public_http_rule StandardAgent)))"
    using sample_network_grant
    by (simp add: evaluate_permission_def sample_permission_def sample_evaluation_def sample_event_def sample_request_def)
  then show "decidePolicy sample_runtime pf sp (sample_event\<lparr>evSubtaskId := Some ''s1''\<rparr>) (PermissionRequested (sample_request NetworkTarget ''get''))
     (PermissionFacts sample_permission) = Inr (decision (sample_event\<lparr>evSubtaskId := Some ''s1''\<rparr>)
       (GrantCapabilityAction ''r1'' \<lparr>expiresAt = ''901000'', maxCalls = 100, maxBytes = 104857600\<rparr> (ruleId (public_http_rule StandardAgent)) None)
       (ruleReason (public_http_rule StandardAgent)))"
    by (simp add: decidePolicy_def decidePermission_def sample_permission_def sample_request_def sample_event_def)
qed

theorem kernel_grant_sound_witness:
  "rqFingerprint (sample_request NetworkTarget ''get'') \<notin> set (psPreviouslyDeniedFingerprints sample_permission)
   \<and> defaultGrantLimits sample_runtime (sample_request NetworkTarget ''get'') ''1000''
      = Inr \<lparr>expiresAt = ''901000'', maxCalls = 100, maxBytes = 104857600\<rparr>"
  using kernel_grant_sound [OF sample_grant_decision decision_simps(1)]
  by (simp add: sample_permission_def sample_event_def)

definition sample_class :: KernelAgentClassConfiguration where
  "sample_class = \<lparr>kaDisplayName = None, kaKind = ExecutorKind, kaHarnessRef = ''h'', kaDriverId = ''pi-cli'', kaModelPolicy = sample_policy,
     kaPermissionProfileRef = Some ''std'', kaRoutingCapabilities = [''workspace-engineering''], kaModelCapabilities = [], kaEnabled = True\<rparr>"

definition sample_kernel_view :: KernelConfigurationView where
  "sample_kernel_view = \<lparr>kcRevisionId = ''rev1'', kcAgentClasses = [(''pi'', sample_class), (''codex'', sample_class)],
     kcModels = [(''m1'', \<lparr>kmProviderRef = ''p'', kmModelId = ''m1'', kmCapabilities = [''coding''], kmContextLimit = None,
       kmLatencyTier = None, kmQualityTier = None, kmCostInputPerMillion = None, kmCostOutputPerMillion = None, kmEnabled = True\<rparr>)],
     kcProviders = [(''p'', \<lparr>kpDisplayName = None, kpEnabled = True\<rparr>)], kcPermissionProfiles = [(''std'', StandardAgent)],
     kcRuntimePolicy = \<lparr>rpMaxConcurrentTasks = None, rpSameConversationQueueLimit = None\<rparr>, kcSpanModel = None\<rparr>"

definition sample_plan_snapshot :: PlanAdmissionSnapshot where
  "sample_plan_snapshot = \<lparr>asTasks = [], asActiveTaskByConversation = None, asOccupiedConversationIds = None,
     asQueuedTaskCountByConversation = None, asActiveTaskCount = None, asRunningTaskId = None,
     asPlannerConfiguration = sample_planner_view, asKernelConfiguration = sample_kernel_view, asExecutorStatuses = [],
     asV5WorkGraphTaskIds = [], asEligibleContextRefKeys = [''current_user_input''], asPendingAuthorizationRequest = None\<rparr>"

definition sample_proposal :: PlanProposed where
  "sample_proposal = \<lparr>ppProposal = sample_plan, ppRequestText = ''do it'', ppGenerationId = ''g1'', ppProposalSource = InitialProposal,
     ppTargetGraphRevision = 1, ppAttachmentIds = None, ppAvailabilityExplanation = None,
     ppTargetWorkspace = Some \<lparr>twWorkspaceId = ''w1'', twCanonicalPath = ''/home/u/w1''\<rparr>, ppSpanRouting = None\<rparr>"

lemma sample_refs: "invalid_refs sample_plan_graph [''current_user_input''] = Inr []"
  by (simp add: invalid_refs_def sample_plan_graph_def sample_graph_def sample_subtask_def)

lemma sample_plan_admission:
  "\<exists>d a i. resolveWorkspaceAdmission (proposal_admission sample_proposal sample_plan_graph sample_plan_snapshot) = WorkspaceResolved d a i"
proof -
  have "case resolveWorkspaceAdmission (proposal_admission sample_proposal sample_plan_graph sample_plan_snapshot) of
      WorkspaceResolved _ _ _ \<Rightarrow> True | _ \<Rightarrow> False" by code_simp
  then show ?thesis by (auto split: WorkspaceExecutionResolution.splits)
qed

lemma sample_resolved:
  "\<exists>rb. resolveAuthorizedBindings sample_runtime sample_platform sample_plan_graph sample_kernel_view None = Inr (Inr rb)"
proof -
  have "case resolveAuthorizedBindings sample_runtime sample_platform sample_plan_graph sample_kernel_view None of
      Inr (Inr _) \<Rightarrow> True | _ \<Rightarrow> False" by code_simp
  then show ?thesis by (auto split: sum.splits)
qed

lemmas sample_plan_defs = sample_proposal_def sample_plan_snapshot_def sample_plan_def sample_plan_task_def sample_kernel_view_def
  revision_rejection_def slot_rejection_def conflict_rejection_def span_resolution_def admission_occupant_def
  account_capacity_reached_def active_task_count_def isSafeInteger_def MAX_SAFE_INTEGER_def slot_occupant_def truthy_def Let_def

lemma sample_plan_slots:
  "revision_rejection sample_proposal = None" "slot_rejection sample_event sample_proposal sample_plan_snapshot = None"
  "conflict_rejection sample_proposal sample_plan_snapshot = None"
  "span_resolution rt pf sample_event sample_proposal g sample_plan_snapshot = None"
  by (simp_all add: sample_plan_defs)

lemma sample_graph_authorized:
  "\<exists>d au. decide_work_graph sample_runtime sample_platform sample_event sample_proposal sample_plan_graph sample_plan_snapshot = Inr d
     \<and> decAction d = AuthorizeTaskPlanAction au"
proof -
  obtain rb where rb: "resolveAuthorizedBindings sample_runtime sample_platform sample_plan_graph sample_kernel_view None = Inr (Inr rb)"
    using sample_resolved by blast
  obtain d a i where adm: "resolveWorkspaceAdmission (proposal_admission sample_proposal sample_plan_graph sample_plan_snapshot) = WorkspaceResolved d a i"
    using sample_plan_admission by blast
  have full: "\<not> (\<exists>(i, bs) \<in> set (rbBindingsBySubtask rb). bs = [])"
    using resolved_bindings_ok [OF rb] by auto
  have valid: "validateWorkGraph sample_runtime (wpSubtasks sample_plan_graph) = Inr []"
  proof -
    from sample_plan_valid have "plan_errors sample_runtime sample_planner_view None None sample_plan = Inr []"
      by (simp add: validatePlanningAgentPlan_valid)
    from graph_errors_Nil(1) [OF plan_errors_Nil(5) [OF this]] show ?thesis
      unfolding validateWorkGraph_Nil_iff by (simp add: sample_plan_def)
  qed
  have statuses: "asExecutorStatuses sample_plan_snapshot = []" "asKernelConfiguration sample_plan_snapshot = sample_kernel_view"
    "asV5WorkGraphTaskIds sample_plan_snapshot = []" "asEligibleContextRefKeys sample_plan_snapshot = [''current_user_input'']"
    by (simp_all add: sample_plan_snapshot_def)
  have "\<exists>d' au. settle_plan sample_runtime sample_event sample_proposal sample_plan_graph sample_plan_snapshot rb d a i = Inr d'
      \<and> decAction d' = AuthorizeTaskPlanAction au"
    using full valid by (simp add: settle_plan_def statuses no_statuses sample_plan_slots authorize_action_def Let_def)
  then show ?thesis
    using rb adm sample_refs by (simp add: decide_work_graph_def sample_plan_slots statuses Let_def)
qed

lemma sample_plan_decision:
  obtains d au where
    "decide sample_runtime sample_platform Inr sample_event (PlanProposedEvent sample_proposal) (sample_snapshot (PlanAdmission sample_plan_snapshot)) = Inr d"
    "decAction d = AuthorizeTaskPlanAction au"
proof -
  obtain d au where g: "decide_work_graph sample_runtime sample_platform sample_event sample_proposal sample_plan_graph sample_plan_snapshot = Inr d"
    and a: "decAction d = AuthorizeTaskPlanAction au"
    using sample_graph_authorized by blast
  from g sample_confident have "decide_valid_plan sample_runtime sample_platform sample_event sample_proposal sample_plan_snapshot = Inr d"
    by (simp add: decide_valid_plan_def sample_proposal_def sample_plan_def sample_plan_task_def)
  with sample_plan_valid
  have "decidePlan sample_runtime sample_platform Inr sample_event sample_proposal sample_plan_snapshot = Inr d"
    by (simp add: decidePlan_def sample_plan_snapshot_def sample_proposal_def)
  then have "decide sample_runtime sample_platform Inr sample_event (PlanProposedEvent sample_proposal)
      (sample_snapshot (PlanAdmission sample_plan_snapshot)) = Inr d"
    by (intro decide_sample) (simp add: decidePolicy_def)
  then show thesis using a by (rule that)
qed

theorem plan_authorization_sound_witness:
  "\<exists>d au. decide sample_runtime sample_platform Inr sample_event (PlanProposedEvent sample_proposal)
       (sample_snapshot (PlanAdmission sample_plan_snapshot)) = Inr d
     \<and> decAction d = AuthorizeTaskPlanAction au \<and> valid_work_graph (wpSubtasks (auWorkGraph au)) \<and> auGraphRevision au = 1"
proof -
  obtain d au where d: "decide sample_runtime sample_platform Inr sample_event (PlanProposedEvent sample_proposal)
      (sample_snapshot (PlanAdmission sample_plan_snapshot)) = Inr d" "decAction d = AuthorizeTaskPlanAction au"
    by (rule sample_plan_decision)
  with plan_authorization_sound [OF d] show ?thesis by (auto simp: sample_proposal_def)
qed

theorem unlicensed_never_produces_witness:
  "\<exists>d. decide sample_runtime sample_platform Inr sample_event (DispatchRequested ''go'' None)
       \<lparr>snProductionAuthorization = Some \<lparr>pfAllowed = False, pfReason = None\<rparr>, snBody = DispatchFacts sample_ready\<rparr> = Inr d
     \<and> family (decAction d) \<noteq> DispatchFamily"
proof -
  obtain d where d: "decide sample_runtime sample_platform Inr sample_event (DispatchRequested ''go'' None)
       \<lparr>snProductionAuthorization = Some \<lparr>pfAllowed = False, pfReason = None\<rparr>, snBody = DispatchFacts sample_ready\<rparr> = Inr d"
    by (simp add: decide_def decidePolicy_def decide_dispatch_event_def Let_def)
  from unlicensed_never_produces [OF this] show ?thesis using d by auto
qed

definition report_proposal :: PlanProposed where
  "report_proposal = sample_proposal\<lparr>ppProposal := report_plan\<rparr>"

lemma report_graph: "plWorkGraph (ppProposal report_proposal) = Some (the (plWorkGraph (ppProposal report_proposal)))"
  by (simp add: report_proposal_def report_plan_def)

lemma report_refs: "invalid_refs (the (plWorkGraph (ppProposal report_proposal))) [''current_user_input''] = Inr []"
  by (simp add: invalid_refs_def report_proposal_def report_plan_def sample_plan_graph_def sample_graph_def sample_subtask_def)

lemma report_graph_rejected:
  "decide_work_graph sample_runtime sample_platform sample_event report_proposal (the (plWorkGraph (ppProposal report_proposal))) sample_plan_snapshot
     = Inr (decision sample_event RejectRequest ''a non-read-only intent cannot authorize a read admission'')"
proof -
  have "resolveWorkspaceAdmission (proposal_admission report_proposal (the (plWorkGraph (ppProposal report_proposal))) sample_plan_snapshot)
      = WorkspaceRejected ''a non-read-only intent cannot authorize a read admission''"
    by (rule report_only_read [where i = "sample_intent\<lparr>wiTargetWorkspaceId := None\<rparr>"])
      (auto simp: report_proposal_def report_plan_def sample_proposal_def sample_plan_def sample_intent_def sample_plan_graph_def sample_graph_def
        sample_subtask_def file_outputs_def)
  moreover have "revision_rejection report_proposal = None" "slot_rejection sample_event report_proposal sample_plan_snapshot = None"
    "ppProposalSource report_proposal = InitialProposal" "ptTaskId (plTask (ppProposal report_proposal)) = None"
    by (simp_all add: report_proposal_def report_plan_def sample_plan_defs)
  moreover have "asEligibleContextRefKeys sample_plan_snapshot = [''current_user_input'']" by (simp add: sample_plan_snapshot_def)
  ultimately show ?thesis using report_refs by (simp add: decide_work_graph_def truthy_def Let_def)
qed

lemma report_decision:
  "decide sample_runtime sample_platform Inr sample_event (PlanProposedEvent report_proposal) (sample_snapshot (PlanAdmission sample_plan_snapshot))
   = Inr (decision sample_event RejectRequest ''a non-read-only intent cannot authorize a read admission'')"
proof (rule decide_sample)
  note g = report_graph_rejected
  have v: "validatePlanningAgentPlan sample_runtime Inr (ppProposal report_proposal) sample_planner_view None None = Inr (True, [])"
    using report_plan_valid by (simp add: report_proposal_def)
  from g sample_confident have "decide_valid_plan sample_runtime sample_platform sample_event report_proposal sample_plan_snapshot
     = Inr (decision sample_event RejectRequest ''a non-read-only intent cannot authorize a read admission'')"
    by (simp add: decide_valid_plan_def report_proposal_def report_plan_def sample_proposal_def sample_plan_def sample_plan_task_def)
  with v have "decidePlan sample_runtime sample_platform Inr sample_event report_proposal sample_plan_snapshot
     = Inr (decision sample_event RejectRequest ''a non-read-only intent cannot authorize a read admission'')"
    by (simp add: decidePlan_def sample_plan_snapshot_def)
  then show "decidePolicy sample_runtime sample_platform Inr sample_event (PlanProposedEvent report_proposal) (PlanAdmission sample_plan_snapshot)
     = Inr (decision sample_event RejectRequest ''a non-read-only intent cannot authorize a read admission'')"
    by (simp add: decidePolicy_def)
qed

end
