(* ===== verification/Kernel_Workflow.thy ===== *)
theory Kernel_Workflow
  imports Kernel_Ledger Kernel_Safety
begin

text \<open>
  The durable Kernel workflow (\<open>src/src/kernel/kernel-workflow.ts\<close>,
  \<open>src/src/kernel/kernel-application-settlement.ts\<close>): it drains recoverable applications and pending
  events, decides, records and applies, and settles or parks what the Runtime could not finish.

  The Runtime, the snapshot builder, the production licence and the clock are arguments. What they
  return may change with every call, so each takes the number \<open>n\<close> of host calls made so far; the
  Runtime may also use the store, so it returns the next ledger. One workflow drains at a time
  (\<open>drainSerially\<close>).
\<close>

subsection \<open>Settlements\<close>

datatype KernelApplicationSettlementKind = RejectedWithoutEffect | OperationSettled

record KernelApplicationSettlement =
  stKind :: KernelApplicationSettlementKind
  stCode :: string
  stDetail :: string

fun settlement_kind_name :: "KernelApplicationSettlementKind \<Rightarrow> string" where
  "settlement_kind_name RejectedWithoutEffect = ''rejected_without_effect''"
| "settlement_kind_name OperationSettled = ''operation_settled''"

definition SETTLEMENT_PREFIX :: string where
  "SETTLEMENT_PREFIX = ''kernel_settlement/''"

definition MAX_SUMMARY_CHARS :: nat where
  "MAX_SUMMARY_CHARS = 320"

definition code_pattern :: "string \<Rightarrow> bool" where
  "code_pattern c \<longleftrightarrow> 1 \<le> length c \<and> length c \<le> 64 \<and> list_all (\<lambda>x. is_lower x \<or> is_digit x \<or> x = CHR ''_'') c"

definition formatApplicationSettlement :: "KernelApplicationSettlement \<Rightarrow> string" where
  "formatApplicationSettlement settlement =
     (let detail = js_trim (one_line (stDetail settlement));
          head = SETTLEMENT_PREFIX @ settlement_kind_name (stKind settlement) @ '':'' @ stCode settlement in
      take MAX_SUMMARY_CHARS (head @ (if detail \<noteq> [] then '' '' @ detail else [])))"

definition parse_kind :: "string \<Rightarrow> KernelApplicationSettlementKind option" where
  "parse_kind k = (if k = ''rejected_without_effect'' then Some RejectedWithoutEffect
     else if k = ''operation_settled'' then Some OperationSettled else None)"

definition parse_body :: "string \<Rightarrow> KernelApplicationSettlement option" where
  "parse_body body =
     (let kind = takeWhile (\<lambda>c. c \<noteq> CHR '':'') body in
      if CHR '':'' \<notin> set body \<or> kind = [] then None
      else Option.bind (parse_kind kind) (\<lambda>k.
        let rest = tl (dropWhile (\<lambda>c. c \<noteq> CHR '':'') body); code = takeWhile (\<lambda>c. c \<noteq> CHR '' '') rest in
        if \<not> code_pattern code then None
        else Some \<lparr>stKind = k, stCode = code, stDetail = tl (dropWhile (\<lambda>c. c \<noteq> CHR '' '') rest)\<rparr>))"

definition parseApplicationSettlement :: "string option \<Rightarrow> KernelApplicationSettlement option" where
  "parseApplicationSettlement summary = (case summary of None \<Rightarrow> None
     | Some s \<Rightarrow> if startsWith s SETTLEMENT_PREFIX then parse_body (drop (length SETTLEMENT_PREFIX) s) else None)"

definition isEffectFreeSettlement :: "string option \<Rightarrow> bool" where
  "isEffectFreeSettlement summary = (case parseApplicationSettlement summary of None \<Rightarrow> False
     | Some s \<Rightarrow> stKind s = RejectedWithoutEffect)"

subsection \<open>What the Runtime returns\<close>

datatype apply_error =
    InterruptedError
  | RejectionError string string string
  | SettledError string string string
  | OtherError string

datatype apply_outcome = Observation "kernel_event option" | ApplyThrew apply_error

fun settlementFor :: "apply_error \<Rightarrow> KernelApplicationSettlement option" where
  "settlementFor (RejectionError message code detail) = Some \<lparr>stKind = RejectedWithoutEffect, stCode = code, stDetail = detail\<rparr>"
| "settlementFor (SettledError message code detail) = Some \<lparr>stKind = OperationSettled, stCode = code, stDetail = detail\<rparr>"
| "settlementFor _ = None"

fun error_message :: "apply_error \<Rightarrow> string" where
  "error_message InterruptedError = ''kernel application interrupted before producing an observation''"
| "error_message (RejectionError message _ _) = message"
| "error_message (SettledError message _ _) = message"
| "error_message (OtherError message) = message"

definition boundedError :: "apply_error \<Rightarrow> string" where
  "boundedError e = take 320 (one_line (error_message e))"

record workflow_deps =
  wdProductionAuthorization :: "(nat \<Rightarrow> ProductionAuthorizationFact) option"
  wdDecide :: "kernel_event \<Rightarrow> KernelSnapshot \<Rightarrow> KernelDecision result"
  wdBuildSnapshot :: "nat \<Rightarrow> kernel_event \<Rightarrow> ledger_db \<Rightarrow> KernelSnapshot result"
  wdRuntime :: "nat \<Rightarrow> KernelDecision \<Rightarrow> ledger_db \<Rightarrow> apply_outcome \<times> ledger_db"
  wdClock :: "nat \<Rightarrow> string"
  wdAcceptedEventTypes :: "string list option"
  wdAcceptedActions :: "string list option"
  wdTaskId :: "string option"
  wdCorrelationId :: "string option"

subsection \<open>The ledger record of a decision\<close>

type_synonym binding_entries = "(AuthorizedExecutorBinding \<times> string option) list"

fun event_bindings :: "KernelEventBody \<Rightarrow> binding_entries" where
  "event_bindings (CapacitySignalEvent c) = [(csAuthorizedBinding c, Some (csBindingFingerprint c))]"
| "event_bindings (ExecutionOutcomeEvent o') = [(eoAuthorizedBinding o', Some (eoBindingFingerprint o'))]"
| "event_bindings (HandoffContractFailedEvent h) = [(hfAuthorizedBinding h, Some (hfBindingFingerprint h))]"
| "event_bindings (ExecutionResultEvent h) = [(hfAuthorizedBinding h, Some (hfBindingFingerprint h))]"
| "event_bindings (MergeConflictObserved c) = [(mkAuthorizedBinding c, Some (mkBindingFingerprint c))]"
| "event_bindings (TimerTickEvent t) = (case ttRetry t of None \<Rightarrow> []
     | Some r \<Rightarrow> [(tyAuthorizedBinding r, Some (tyBindingFingerprint r))])"
| "event_bindings _ = []"

definition subtask_map_bindings :: "(string \<times> AuthorizedExecutorBinding list) list \<Rightarrow> binding_entries" where
  "subtask_map_bindings m = concat (map (\<lambda>k. case map_of m k of None \<Rightarrow> [] | Some bs \<Rightarrow> map (\<lambda>b. (b, None)) bs)
     (sort_strings (map fst m)))"

definition item_order :: "js_runtime \<Rightarrow> DispatchItem \<Rightarrow> DispatchItem \<Rightarrow> int" where
  "item_order rt l r = cmp_or (diOrder l - diOrder r) (localeCompare rt (diAttemptId l) (diAttemptId r))"

fun action_bindings :: "js_runtime \<Rightarrow> KernelDecisionAction \<Rightarrow> binding_entries" where
  "action_bindings rt (AuthorizeTaskPlanAction a) = subtask_map_bindings (auAuthorizedBindingsBySubtask a)"
| "action_bindings rt (DeferTaskPlanAction a) = subtask_map_bindings (dpAuthorizedBindingsBySubtask a)"
| "action_bindings rt (ActivateDeferredTaskPlan a) = subtask_map_bindings (adAuthorizedBindingsBySubtask a)"
| "action_bindings rt (DispatchBatch t items) = map (\<lambda>i. (diAuthorizedBinding i, Some (diBindingFingerprint i))) (js_sort (item_order rt) items)"
| "action_bindings rt (ProbeCapacity t s b f) = [(b, Some f)]"
| "action_bindings rt (WaitForRetry t s at' b f src) = [(b, Some f)]"
| "action_bindings rt (ResumeTaskAction a) = (case rsRecovery a of None \<Rightarrow> []
     | Some r \<Rightarrow> [(reAuthorizedBinding r, Some (reBindingFingerprint r))])"
| "action_bindings rt _ = []"

fun collect_entries ::
  "js_runtime \<Rightarrow> string \<Rightarrow> binding_entries \<Rightarrow> AuthorizedExecutorBinding list \<Rightarrow> string list
   \<Rightarrow> (AuthorizedExecutorBinding list \<times> string list) result"
where
  "collect_entries rt revn [] bindings fingerprints = Inr (bindings, fingerprints)"
| "collect_entries rt revn ((b, f) # rest) bindings fingerprints =
     (let fingerprint = authorizedExecutorBindingFingerprint rt b in
      if abConfigurationRevision b \<noteq> revn then Inl (''Kernel binding configuration revision mismatch: '' @ abAgentClassRef b)
      else if f \<noteq> None \<and> f \<noteq> Some fingerprint then Inl (''Kernel binding fingerprint mismatch: '' @ abAgentClassRef b)
      else if fingerprint \<in> set fingerprints then collect_entries rt revn rest bindings fingerprints
      else collect_entries rt revn rest (bindings @ [b]) (fingerprints @ [fingerprint]))"

definition collectBindingIdentity ::
  "js_runtime \<Rightarrow> kernel_event \<Rightarrow> KernelDecisionAction \<Rightarrow> (AuthorizedExecutorBinding list \<times> string list) result"
where
  "collectBindingIdentity rt ev action =
     collect_entries rt (evConfigurationRevision (fst ev)) (event_bindings (snd ev) @ action_bindings rt action) [] []"

fun action_task :: "KernelDecisionAction \<Rightarrow> string option" where
  "action_task RejectRequest = None"
| "action_task (RequestClarification _) = None"
| "action_task (DeliverDirectReply _) = None"
| "action_task NoOp = None"
| "action_task (AuthorizeTaskControl _) = None"
| "action_task (GrantCapabilityAction _ _ _ _) = None"
| "action_task (DenyCapabilityAction _ _) = None"
| "action_task (EscalateCapabilityAction _) = None"
| "action_task (AuthorizeTaskPlanAction a) = Some (auTaskId a)"
| "action_task (DeferTaskPlanAction a) = Some (dpTaskId a)"
| "action_task (ActivateDeferredTaskPlan a) = Some (adTaskId a)"
| "action_task (ResumeTaskAction a) = Some (rsTaskId a)"
| "action_task (RetryRemainingWork t _) = Some t"
| "action_task (ControlManagedService t _ _) = Some t"
| "action_task (DispatchBatch t _) = Some t"
| "action_task (ProbeCapacity t _ _ _) = Some t"
| "action_task (WaitForCapacity t _) = Some t"
| "action_task (WaitForRetry t _ _ _ _ _) = Some t"
| "action_task (SupersedeRetryWake t _) = Some t"
| "action_task (RecoverRetryWake t _ _) = Some t"
| "action_task (RequestReplan t _ _) = Some t"
| "action_task (ScheduleReplan t _ _ _) = Some t"
| "action_task (QueueGenerationReplan t _ _ _) = Some t"
| "action_task (CancelTask t _) = Some t"
| "action_task (CancelSubtasks t _ _ _ _) = Some t"
| "action_task (AuthorizeWorkspaceDelivery t _ _ _) = Some t"
| "action_task (AcceptPartialResult t _ _ _ _) = Some t"
| "action_task (AcceptUncertifiedResult t _ _ _) = Some t"
| "action_task (RetryUncertifiedResult t _ _ _) = Some t"
| "action_task (RequestMergeReplan t _ _ _) = Some t"
| "action_task (ResolveRecovery t _ _) = Some t"
| "action_task (BlockWork t _ _ _) = Some t"
| "action_task (AwaitUserDecision t _ _) = Some t"
| "action_task (ParkForReplan t) = Some t"
| "action_task (CompleteTask t) = Some t"
| "action_task (RecordPermissionResolution t _ _ _) = Some t"
| "action_task (WaitForPartition t _ _) = Some t"
| "action_task (RecoverWorkspaceAttempt t _ _ _ _ _ _) = Some t"

definition decisionTaskId :: "KernelDecision \<Rightarrow> string option" where
  "decisionTaskId d = action_task (decAction d)"

fun action_subtask :: "KernelDecisionAction \<Rightarrow> string option" where
  "action_subtask (ProbeCapacity _ s _ _) = Some s"
| "action_subtask (WaitForCapacity _ s) = Some s"
| "action_subtask (WaitForRetry _ s _ _ _ _) = Some s"
| "action_subtask (AcceptUncertifiedResult _ _ _ u) = Some (urSubtaskId u)"
| "action_subtask (RetryUncertifiedResult _ _ _ u) = Some (urSubtaskId u)"
| "action_subtask (RequestMergeReplan _ s _ _) = Some s"
| "action_subtask (BlockWork _ s _ _) = s"
| "action_subtask (AwaitUserDecision _ s _) = Some s"
| "action_subtask (WaitForPartition _ s _) = Some s"
| "action_subtask (RecoverWorkspaceAttempt _ s _ _ _ _ _) = Some s"
| "action_subtask _ = None"

definition decisionSubtaskId :: "KernelDecision \<Rightarrow> string option" where
  "decisionSubtaskId d = action_subtask (decAction d)"

definition decisionAttemptId :: "KernelDecision \<Rightarrow> string option" where
  "decisionAttemptId d = (case decAction d of DispatchBatch t [i] \<Rightarrow> Some (diAttemptId i) | _ \<Rightarrow> None)"

definition first_some :: "'a option \<Rightarrow> 'a option \<Rightarrow> 'a option" where
  "first_some a b = (case a of Some x \<Rightarrow> Some x | None \<Rightarrow> b)"

definition ledgerRecord :: "js_runtime \<Rightarrow> kernel_event \<Rightarrow> KernelSnapshot \<Rightarrow> KernelDecision \<Rightarrow> KernelDecisionLedgerRecord result" where
  "ledgerRecord rt ev snapshot d =
     (let e = fst ev in
      if evConfigurationRevision e \<noteq> decConfigurationRevision d
      then Inl (''Kernel event/decision configuration revision mismatch: '' @ evId e)
      else rbind (collectBindingIdentity rt ev (decAction d)) (\<lambda>(bindings, fingerprints).
        Inr \<lparr>ldId = decId d, ldEventId = evId e, ldEventType = event_type (snd ev), ldCorrelationId = evCorrelationId e,
             ldCausationId = evCausationId e, ldSessionId = evSessionId e, ldTaskId = first_some (evTaskId e) (decisionTaskId d),
             ldSubtaskId = first_some (evSubtaskId e) (decisionSubtaskId d), ldAttemptId = first_some (evAttemptId e) (decisionAttemptId d),
             ldEvent = ev, ldSnapshot = snapshot, ldDecision = d, ldAction = action_type (decAction d), ldReason = decReason d,
             ldConfigurationRevision = evConfigurationRevision e, ldAuthorizedBindings = bindings,
             ldBindingFingerprints = fingerprints, ldCreatedAt = evOccurredAt e\<rparr>))"

subsection \<open>Applying one decision\<close>

definition settle :: "workflow_deps \<Rightarrow> nat \<Rightarrow> string \<Rightarrow> KernelApplicationSettlement \<Rightarrow> ledger_db \<Rightarrow> bool \<times> ledger_db" where
  "settle d n decisionId settlement db =
     (case markApplicationSettled decisionId (formatApplicationSettlement settlement) (wdClock d n) db of
        (Inl e, db') \<Rightarrow> (False, db') | (Inr _, db') \<Rightarrow> (True, db'))"

definition park :: "workflow_deps \<Rightarrow> nat \<Rightarrow> string \<Rightarrow> apply_error \<Rightarrow> ledger_db \<Rightarrow> bool result \<times> nat \<times> ledger_db" where
  "park d n decisionId e db =
     (Inr False, Suc n, markApplicationFailed decisionId AppUncertain (boundedError e) (wdClock d n) db)"

definition handle_error :: "workflow_deps \<Rightarrow> nat \<Rightarrow> string \<Rightarrow> apply_error \<Rightarrow> ledger_db \<Rightarrow> bool result \<times> nat \<times> ledger_db" where
  "handle_error d n decisionId e db =
     (if e = InterruptedError then (Inr False, n, db)
      else case settlementFor e of
        None \<Rightarrow> park d n decisionId e db
      | Some settlement \<Rightarrow> (case settle d n decisionId settlement db of
          (True, db') \<Rightarrow> (Inr True, Suc n, db')
        | (False, db') \<Rightarrow> park d (Suc n) decisionId e db'))"

definition apply_application ::
  "workflow_deps \<Rightarrow> nat \<Rightarrow> KernelDecisionApplicationRecord \<Rightarrow> ledger_db \<Rightarrow> bool result \<times> nat \<times> ledger_db"
where
  "apply_application d n application db =
     (case markApplying (apDecisionId application) (wdClock d n) db of
        (Inl e, db1) \<Rightarrow> (Inl e, Suc n, db1)
      | (Inr applying, db1) \<Rightarrow>
          (case wdRuntime d (Suc n) (apDecision applying) db1 of
             (ApplyThrew e, db2) \<Rightarrow> handle_error d (Suc (Suc n)) (apDecisionId applying) e db2
           | (Observation observation, db2) \<Rightarrow>
               if isDecisionApplied (apDecisionId applying) db2 then (Inr True, Suc (Suc n), db2)
               else (case markApplied (apDecisionId applying) observation (wdClock d (Suc (Suc n))) db2 of
                       (Inr _, db3) \<Rightarrow> (Inr True, Suc (Suc (Suc n)), db3)
                     | (Inl e, db3) \<Rightarrow> handle_error d (Suc (Suc (Suc n))) (apDecisionId applying) (OtherError e) db3)))"

subsection \<open>Draining\<close>

definition MAX_DECISIONS_PER_DRAIN :: nat where
  "MAX_DECISIONS_PER_DRAIN = 100"

record KernelWorkflowResult =
  wrDecisions :: "KernelDecision list"
  wrQuiescent :: bool
  wrPendingRecovery :: nat

text \<open>\<open>find\<close> asks for the licence once per application it looks at.\<close>

fun find_allowed ::
  "(nat \<Rightarrow> ProductionAuthorizationFact) option \<Rightarrow> nat \<Rightarrow> KernelDecisionApplicationRecord list
   \<Rightarrow> KernelDecisionApplicationRecord option \<times> nat"
where
  "find_allowed production n [] = (None, n)"
| "find_allowed production n (a # rest) =
     (if allowsKernelAction (decAction (apDecision a)) (map_option (\<lambda>p. p n) production) then (Some a, Suc n)
      else find_allowed production (Suc n) rest)"

definition drain_result ::
  "nat \<Rightarrow> nat \<Rightarrow> KernelDecision list \<Rightarrow> ledger_db \<Rightarrow> KernelWorkflowResult result \<times> nat \<times> ledger_db"
where
  "drain_result n handled decisions db =
     (if MAX_DECISIONS_PER_DRAIN \<le> handled then (Inl ''Kernel workflow did not reach quiescence'', n, db)
      else (Inr \<lparr>wrDecisions = decisions,
              wrQuiescent = (countByApplicationStatus db AppPending = 0 \<and> countByApplicationStatus db AppApplying = 0),
              wrPendingRecovery = countByApplicationStatus db AppUncertain + countByApplicationStatus db AppFailed\<rparr>, n, db))"

definition with_production :: "workflow_deps \<Rightarrow> nat \<Rightarrow> KernelSnapshot \<Rightarrow> KernelSnapshot" where
  "with_production d n snapshot = (case wdProductionAuthorization d of None \<Rightarrow> snapshot
     | Some p \<Rightarrow> snapshot\<lparr>snProductionAuthorization := Some (p n)\<rparr>)"

text \<open>One claimed event: snapshot, decision, ledger record, issue.\<close>

definition decide_event :: "js_runtime \<Rightarrow> workflow_deps \<Rightarrow> nat \<Rightarrow> kernel_event \<Rightarrow> ledger_db \<Rightarrow> unit result \<times> ledger_db" where
  "decide_event rt d n ev db =
     (case rbind (wdBuildSnapshot d n ev db) (\<lambda>s. let snapshot = with_production d (Suc n) s in
             rbind (wdDecide d ev snapshot) (\<lambda>nextDecision. ledgerRecord rt ev snapshot nextDecision)) of
        Inl e \<Rightarrow> (Inl e, db)
      | Inr r \<Rightarrow> (case issue (evId (fst ev)) r db of (Inl e, db') \<Rightarrow> (Inl e, db') | (Inr _, db') \<Rightarrow> (Inr (), db')))"

definition pending_events :: "ledger_db \<Rightarrow> nat" where
  "pending_events db = length (filter (\<lambda>r. erStatus r = EventPending) (lgEvents db))"

lemma pending_map:
  "(\<And>r. r \<in> set rs \<Longrightarrow> erStatus (f r) = EventPending \<Longrightarrow> erStatus r = EventPending) \<Longrightarrow>
   length (filter (\<lambda>r. erStatus r = EventPending) (map f rs)) \<le> length (filter (\<lambda>r. erStatus r = EventPending) rs)"
proof (induction rs)
  case (Cons r rs)
  then have "length (filter (\<lambda>r. erStatus r = EventPending) (map f rs)) \<le> length (filter (\<lambda>r. erStatus r = EventPending) rs)" by simp
  with Cons.prems [of r] show ?case by simp
qed simp

lemma pending_map_strict:
  "(\<And>r. r \<in> set rs \<Longrightarrow> erStatus (f r) = EventPending \<Longrightarrow> erStatus r = EventPending) \<Longrightarrow>
   x \<in> set rs \<Longrightarrow> erStatus x = EventPending \<Longrightarrow> erStatus (f x) \<noteq> EventPending \<Longrightarrow>
   length (filter (\<lambda>r. erStatus r = EventPending) (map f rs)) < length (filter (\<lambda>r. erStatus r = EventPending) rs)"
proof (induction rs)
  case (Cons r rs)
  show ?case
  proof (cases "x = r")
    case True
    with Cons.prems(3,4) pending_map [of rs f] Cons.prems(1) show ?thesis by simp
  next
    case False
    with Cons.prems have "length (filter (\<lambda>r. erStatus r = EventPending) (map f rs)) < length (filter (\<lambda>r. erStatus r = EventPending) rs)"
      by (intro Cons.IH) simp_all
    with Cons.prems(1) [of r] show ?thesis by simp
  qed
qed simp

lemma claimNext_pending:
  assumes "claimNext now types task corr db = (Some ev, db')"
  shows "pending_events db' < pending_events db"
proof (cases "js_sort event_order (filter (claimable now types task corr) (lgEvents db))")
  case Nil
  with assms show ?thesis by (simp add: claimNext_def)
next
  case (Cons r rs)
  then have "r \<in> set (js_sort event_order (filter (claimable now types task corr) (lgEvents db)))" by simp
  then have r: "r \<in> set (lgEvents db)" "erStatus r = EventPending" by (simp_all add: claimable_def)
  from assms Cons have "lgEvents db' = map (\<lambda>x. if erId x = erId r \<and> erStatus x = EventPending
      then x\<lparr>erStatus := EventProcessing, erProcessingStartedAt := Some now, erUpdatedAt := now\<rparr> else x) (lgEvents db)"
    by (auto simp: claimNext_def update_rows_def)
  then show ?thesis unfolding pending_events_def by (simp only:) (rule pending_map_strict [OF _ r]; simp add: r split: if_splits)
qed

lemma issue_pending: "pending_events (snd (issue i r db)) \<le> pending_events db"
proof -
  have "pending_events db' \<le> pending_events db" if run: "issue_transaction i r db = Inr (a, db')" for a db'
  proof (cases "insertIfAbsent r db")
    case (Inl e)
    with run show ?thesis by (simp add: issue_transaction_def split: if_splits)
  next
    case (Inr y)
    obtain b db1 where y: "y = (b, db1)" by (cases y)
    note ins = Inr
    show ?thesis
    proof (cases "insert_application (new_application i r) db1")
      case (Inl e)
      with run ins y show ?thesis by (simp add: issue_transaction_def split: if_splits)
    next
      case (Inr db2)
      have "lgEvents db2 = lgEvents db"
        using Inr insertIfAbsent_events ins y by (auto simp: insert_application_def split: if_splits)
      moreover have "lgEvents db' = map (\<lambda>x. if erId x = i then x\<lparr>erStatus := EventProcessed, erProcessedAt := Some (ldCreatedAt r),
          erProcessingStartedAt := None, erUpdatedAt := ldCreatedAt r\<rparr> else x) (lgEvents db2)"
        using run Inr ins y by (auto simp: issue_transaction_def update_rows_def Let_def split: if_splits)
      ultimately show ?thesis unfolding pending_events_def by (simp only:) (rule pending_map; simp split: if_splits)
    qed
  qed
  then show ?thesis unfolding snd_issue
    by (intro rollback_keeps [where P = "\<lambda>x. pending_events x \<le> pending_events db"]) simp_all
qed

lemma decide_event_pending: "pending_events (snd (decide_event rt d n ev db)) \<le> pending_events db"
  using issue_pending [of "evId (fst ev)" _ db]
  by (auto simp: decide_event_def split: sum.split prod.split) (metis snd_conv)+

lemma drain_decreases:
  assumes "(Some ev, db1) = claimNext now types task corr db" and "(r, db2) = decide_event rt d n ev db1"
  shows "pending_events db2 < pending_events db"
proof -
  from assms(2) have "pending_events db2 \<le> pending_events db1" using decide_event_pending [of rt d n ev db1] by (metis snd_conv)
  also from assms(1) have "\<dots> < pending_events db" by (metis claimNext_pending)
  finally show ?thesis .
qed

function drain ::
  "js_runtime \<Rightarrow> workflow_deps \<Rightarrow> nat \<Rightarrow> nat \<Rightarrow> KernelDecision list \<Rightarrow> ledger_db \<Rightarrow> KernelWorkflowResult result \<times> nat \<times> ledger_db"
where
  "drain rt d n handled decisions db =
     (if MAX_DECISIONS_PER_DRAIN \<le> handled then drain_result n handled decisions db
      else case find_allowed (wdProductionAuthorization d) n
             (listRecoverableApplications (wdAcceptedActions d) (wdTaskId d) (wdCorrelationId d) db) of
        (Some application, n1) \<Rightarrow>
          (case apply_application d n1 application db of
             (Inl e, n2, db2) \<Rightarrow> (Inl e, n2, db2)
           | (Inr continued, n2, db2) \<Rightarrow>
               if continued then drain rt d n2 (Suc handled) (decisions @ [apDecision application]) db2
               else drain_result n2 (Suc handled) (decisions @ [apDecision application]) db2)
      | (None, n1) \<Rightarrow>
          (case claimNext (wdClock d n1) (wdAcceptedEventTypes d) (wdTaskId d) (wdCorrelationId d) db of
             (None, db1) \<Rightarrow> drain_result (Suc n1) handled decisions db1
           | (Some ev, db1) \<Rightarrow>
               (case decide_event rt d (Suc n1) ev db1 of
                  (Inl e, db2) \<Rightarrow> (Inl e, n1 + 3, db2)
                | (Inr _, db2) \<Rightarrow> drain rt d (n1 + 3) handled decisions db2)))"
  by pat_completeness auto
termination
  by (relation "measures [\<lambda>(rt, d, n, handled, ds, db). MAX_DECISIONS_PER_DRAIN - handled, \<lambda>(rt, d, n, handled, ds, db). pending_events db]")
    (auto intro: drain_decreases)

declare drain.simps [simp del]

definition submit :: "js_runtime \<Rightarrow> workflow_deps \<Rightarrow> nat \<Rightarrow> kernel_event \<Rightarrow> ledger_db \<Rightarrow> KernelWorkflowResult result \<times> nat \<times> ledger_db" where
  "submit rt d n ev db = (case enqueue ev (Some (wdClock d n)) db of
     (Inl e, db') \<Rightarrow> (Inl e, Suc n, db') | (Inr _, db') \<Rightarrow> drain rt d (Suc n) 0 [] db')"

record KernelRecoveryReport = KernelWorkflowResult +
  rrReconciledProcessingEvents :: nat
  rrApplicationCounts :: "KernelApplicationStatus \<Rightarrow> nat"

definition recover :: "js_runtime \<Rightarrow> workflow_deps \<Rightarrow> nat \<Rightarrow> ledger_db \<Rightarrow> KernelRecoveryReport result \<times> nat \<times> ledger_db" where
  "recover rt d n db = (let (reconciled, db1) = reconcileProcessing db in
     case drain rt d n 0 [] db1 of
       (Inl e, n', db') \<Rightarrow> (Inl e, n', db')
     | (Inr res, n', db') \<Rightarrow> (Inr (KernelWorkflowResult.extend res
         \<lparr>rrReconciledProcessingEvents = reconciled, rrApplicationCounts = countByApplicationStatus db'\<rparr>), n', db'))"

subsection \<open>The workflow works through the store\<close>

text \<open>
  The Runtime keeps what the store keeps: its own changes of the ledger are store operations.
\<close>

definition runtime_keeps :: "(ledger_db \<Rightarrow> bool) \<Rightarrow> workflow_deps \<Rightarrow> bool" where
  "runtime_keeps P d \<longleftrightarrow> (\<forall>n x db. P db \<longrightarrow> P (snd (wdRuntime d n x db)))"

lemma ledgerRecord_event: "ledgerRecord rt ev s x = Inr r \<Longrightarrow> ldEventId r = evId (fst ev)"
  by (auto simp: ledgerRecord_def Let_def split: if_splits)

text \<open>The seven ways one round of the drain goes on, as an induction rule.\<close>

definition allowed_at :: "workflow_deps \<Rightarrow> nat \<Rightarrow> ledger_db \<Rightarrow> KernelDecisionApplicationRecord option \<times> nat" where
  "allowed_at d n db = find_allowed (wdProductionAuthorization d) n
     (listRecoverableApplications (wdAcceptedActions d) (wdTaskId d) (wdCorrelationId d) db)"

definition claim_at :: "workflow_deps \<Rightarrow> nat \<Rightarrow> ledger_db \<Rightarrow> kernel_event option \<times> ledger_db" where
  "claim_at d n db = claimNext (wdClock d n) (wdAcceptedEventTypes d) (wdTaskId d) (wdCorrelationId d) db"

lemma drain_rule [case_names limit failed continued stopped idle refused decided]:
  assumes limit: "\<And>n h ds db. MAX_DECISIONS_PER_DRAIN \<le> h \<Longrightarrow> Q n h ds db (drain_result n h ds db)"
    and failed: "\<And>n h ds db a n1 e n2 db2. \<not> MAX_DECISIONS_PER_DRAIN \<le> h \<Longrightarrow> allowed_at d n db = (Some a, n1) \<Longrightarrow>
      apply_application d n1 a db = (Inl e, n2, db2) \<Longrightarrow> Q n h ds db (Inl e, n2, db2)"
    and continued: "\<And>n h ds db a n1 n2 db2 res. \<not> MAX_DECISIONS_PER_DRAIN \<le> h \<Longrightarrow> allowed_at d n db = (Some a, n1) \<Longrightarrow>
      apply_application d n1 a db = (Inr True, n2, db2) \<Longrightarrow> Q n2 (Suc h) (ds @ [apDecision a]) db2 res \<Longrightarrow> Q n h ds db res"
    and stopped: "\<And>n h ds db a n1 n2 db2. \<not> MAX_DECISIONS_PER_DRAIN \<le> h \<Longrightarrow> allowed_at d n db = (Some a, n1) \<Longrightarrow>
      apply_application d n1 a db = (Inr False, n2, db2) \<Longrightarrow> Q n h ds db (drain_result n2 (Suc h) (ds @ [apDecision a]) db2)"
    and idle: "\<And>n h ds db n1 db1. \<not> MAX_DECISIONS_PER_DRAIN \<le> h \<Longrightarrow> allowed_at d n db = (None, n1) \<Longrightarrow>
      claim_at d n1 db = (None, db1) \<Longrightarrow> Q n h ds db (drain_result (Suc n1) h ds db1)"
    and refused: "\<And>n h ds db n1 ev db1 e db2. \<not> MAX_DECISIONS_PER_DRAIN \<le> h \<Longrightarrow> allowed_at d n db = (None, n1) \<Longrightarrow>
      claim_at d n1 db = (Some ev, db1) \<Longrightarrow> decide_event rt d (Suc n1) ev db1 = (Inl e, db2) \<Longrightarrow> Q n h ds db (Inl e, n1 + 3, db2)"
    and decided: "\<And>n h ds db n1 ev db1 u db2 res. \<not> MAX_DECISIONS_PER_DRAIN \<le> h \<Longrightarrow> allowed_at d n db = (None, n1) \<Longrightarrow>
      claim_at d n1 db = (Some ev, db1) \<Longrightarrow> decide_event rt d (Suc n1) ev db1 = (Inr u, db2) \<Longrightarrow>
      Q (n1 + 3) h ds db2 res \<Longrightarrow> Q n h ds db res"
  shows "Q n h ds db (drain rt d n h ds db)"
  using assms
proof (induction rt d n h ds db rule: drain.induct)
  case (1 rt d n h ds db)
  note eq = drain.simps [of rt d n h ds db, folded allowed_at_def claim_at_def]
  note IH = "1.IH" [folded allowed_at_def claim_at_def, OF _ _ _ _ _ _ _ "1.prems"]
  show ?case
  proof (cases "MAX_DECISIONS_PER_DRAIN \<le> h")
    case True
    with eq "1.prems"(1) show ?thesis by simp
  next
    case False
    obtain app n1 where f: "allowed_at d n db = (app, n1)" by (cases "allowed_at d n db")
    show ?thesis
    proof (cases app)
      case (Some a)
      obtain r n2 db2 where ap: "apply_application d n1 a db = (r, n2, db2)" by (cases "apply_application d n1 a db")
      consider e where "r = Inl e" | "r = Inr True" | "r = Inr False" by (metis (full_types) sum.exhaust)
      then show ?thesis
      proof cases
        case 1
        with False f Some ap eq "1.prems"(2) show ?thesis by simp
      next
        case 2
        then have "drain rt d n h ds db = drain rt d n2 (Suc h) (ds @ [apDecision a]) db2" using False f Some ap eq by simp
        moreover have "Q n2 (Suc h) (ds @ [apDecision a]) db2 (drain rt d n2 (Suc h) (ds @ [apDecision a]) db2)"
          by (rule IH(2) [OF False f [symmetric] Some ap [symmetric] 2 refl TrueI])
        ultimately show ?thesis using "1.prems"(3) [of h n db a n1 n2 db2 ds] False f Some ap 2 by simp
      next
        case 3
        with False f Some ap eq "1.prems"(4) show ?thesis by simp
      qed
    next
      case None
      obtain c db1 where c: "claim_at d n1 db = (c, db1)" by (cases "claim_at d n1 db")
      show ?thesis
      proof (cases c)
        case None
        with False f \<open>app = None\<close> c eq "1.prems"(5) show ?thesis by simp
      next
        case (Some ev)
        obtain r db2 where de: "decide_event rt d (Suc n1) ev db1 = (r, db2)" by (cases "decide_event rt d (Suc n1) ev db1")
        show ?thesis
        proof (cases r)
          case (Inl e)
          with False f \<open>app = None\<close> c Some de eq "1.prems"(6) show ?thesis by simp
        next
          case (Inr u)
          have "drain rt d n h ds db = drain rt d (n1 + 3) h ds db2" using False f \<open>app = None\<close> c Some de Inr eq by simp
          moreover have "Q (n1 + 3) h ds db2 (drain rt d (n1 + 3) h ds db2)"
            by (rule IH(1) [OF False f [symmetric] \<open>app = None\<close> c [symmetric] Some de [symmetric] Inr])
          ultimately show ?thesis using "1.prems"(7) [of h n db n1 ev db1 u db2 ds] False f \<open>app = None\<close> c Some de Inr by simp
        qed
      qed
    qed
  qed
qed

context ledger_property
begin

lemma park_keeps: "P db \<Longrightarrow> P (snd (snd (park d n i e db)))"
  using step_keeps [of db "MarkFailedOp i AppUncertain (boundedError e) (wdClock d n)"] by (simp add: park_def)

lemma settle_keeps: "P db \<Longrightarrow> P (snd (settle d n i st db))"
  using step_keeps [of db "MarkSettledOp i (formatApplicationSettlement st) (wdClock d n)"]
  by (cases "markApplicationSettled i (formatApplicationSettlement st) (wdClock d n) db") (auto simp: settle_def split: sum.split)

lemma handle_error_keeps: "P db \<Longrightarrow> P (snd (snd (handle_error d n i e db)))"
proof (cases "settlementFor e")
  case (Some st)
  assume "P db"
  then have "P (snd (settle d n i st db))" by (rule settle_keeps)
  with Some \<open>P db\<close> show ?thesis by (auto simp: handle_error_def park_keeps split: prod.split bool.split)
qed (simp add: handle_error_def park_keeps)

lemma apply_keeps:
  assumes "P db" and "runtime_keeps P d"
  shows "P (snd (snd (apply_application d n a db)))"
proof -
  obtain r db1 where m: "markApplying (apDecisionId a) (wdClock d n) db = (r, db1)" by (cases "markApplying (apDecisionId a) (wdClock d n) db")
  have p1: "P db1" using step_keeps [OF assms(1), of "MarkApplyingOp (apDecisionId a) (wdClock d n)"] m by simp
  show ?thesis
  proof (cases r)
    case (Inl e)
    with m p1 show ?thesis by (simp add: apply_application_def)
  next
    case (Inr applying)
    obtain out db2 where o: "wdRuntime d (Suc n) (apDecision applying) db1 = (out, db2)"
      by (cases "wdRuntime d (Suc n) (apDecision applying) db1")
    have p2: "P db2" using assms(2) p1 o unfolding runtime_keeps_def by (metis snd_conv)
    show ?thesis
    proof (cases out)
      case (ApplyThrew e)
      with m Inr o p2 show ?thesis by (simp add: apply_application_def handle_error_keeps)
    next
      case (Observation obs)
      obtain r3 db3 where c: "markApplied (apDecisionId applying) obs (wdClock d (Suc (Suc n))) db2 = (r3, db3)"
        by (cases "markApplied (apDecisionId applying) obs (wdClock d (Suc (Suc n))) db2")
      have "P db3" using step_keeps [OF p2, of "MarkAppliedOp (apDecisionId applying) obs (wdClock d (Suc (Suc n)))"] c by simp
      with m Inr o p2 c Observation show ?thesis by (cases r3) (simp_all add: apply_application_def handle_error_keeps)
    qed
  qed
qed

lemma claim_keeps: "P db \<Longrightarrow> claim_at d n db = (ev, db1) \<Longrightarrow> P db1"
  using step_keeps [of db "ClaimNextOp (wdClock d n) (wdAcceptedEventTypes d) (wdTaskId d) (wdCorrelationId d)"] by (simp add: claim_at_def)

lemma decide_event_keeps: "P db \<Longrightarrow> P (snd (decide_event rt d n ev db))"
proof -
  assume p: "P db"
  let ?written = "rbind (wdBuildSnapshot d n ev db) (\<lambda>s. let snapshot = with_production d (Suc n) s in
             rbind (wdDecide d ev snapshot) (\<lambda>nextDecision. ledgerRecord rt ev snapshot nextDecision))"
  show ?thesis
  proof (cases ?written)
    case (Inl e)
    with p show ?thesis by (simp only: decide_event_def sum.case snd_conv)
  next
    case (Inr r)
    then obtain snapshot x where "ledgerRecord rt ev snapshot x = Inr r" by (auto simp: Let_def)
    then have "ldEventId r = evId (fst ev)" by (rule ledgerRecord_event)
    then have "P (snd (issue (evId (fst ev)) r db))" using step_keeps [OF p, of "IssueOp r"] by simp
    then show ?thesis unfolding decide_event_def Inr by (cases "issue (evId (fst ev)) r db") (auto split: sum.split)
  qed
qed

lemma drain_keeps:
  assumes "P db" and "runtime_keeps P d"
  shows "P (snd (snd (drain rt d n handled ds db)))"
proof -
  have "P db \<longrightarrow> P (snd (snd (drain rt d n handled ds db)))"
  proof (induction rule: drain_rule [where Q = "\<lambda>n h ds db res. P db \<longrightarrow> P (snd (snd res))" and rt = rt and d = d])
    case (failed n handled ds db a n1 e n2 db2)
    with apply_keeps [of db d n1 a] assms(2) show ?case by simp
  next
    case (continued n handled ds db a n1 n2 db2 res)
    with apply_keeps [of db d n1 a] assms(2) show ?case by simp
  next
    case (stopped n handled ds db a n1 n2 db2)
    with apply_keeps [of db d n1 a] assms(2) show ?case by (simp add: drain_result_def)
  next
    case (idle n handled ds db n1 db1)
    with claim_keeps [of db d n1] show ?case by (simp add: drain_result_def)
  next
    case (refused n handled ds db n1 ev db1 e db2)
    with claim_keeps [of db d n1] decide_event_keeps [of db1 rt d "Suc n1" ev] show ?case by simp
  next
    case (decided n handled ds db n1 ev db1 u db2 res)
    with claim_keeps [of db d n1] decide_event_keeps [of db1 rt d "Suc n1" ev] show ?case by simp
  qed (simp add: drain_result_def)
  with assms(1) show ?thesis by blast
qed

end

subsection \<open>Properties\<close>

lemma ledger_run_trans: "ledger_run b c \<Longrightarrow> ledger_run a b \<Longrightarrow> ledger_run a c"
  by (induction rule: ledger_run.induct) (auto intro: run_step)

interpretation runs: ledger_property "ledger_run db0" for db0
  by unfold_locales (rule run_step)

lemma runtime_runs: "(\<And>n x db. ledger_run db (snd (wdRuntime d n x db))) \<Longrightarrow> runtime_keeps (ledger_run db0) d"
  unfolding runtime_keeps_def by (blast intro: ledger_run_trans)

text \<open>
  Submitting an event and recovering after a crash change the ledger only by store operations,
  whatever the policy decides and however applying goes, provided the Runtime itself uses the ledger
  only through the store; so every guarantee of the ledger holds for the workflow.
\<close>

theorem workflow_refines_ledger:
  assumes "\<And>n x db. ledger_run db (snd (wdRuntime d n x db))"
  shows "ledger_run db (snd (snd (submit rt d n ev db))) \<and> ledger_run db (snd (snd (recover rt d n db)))"
proof
  note runtime = runtime_runs [of d, OF assms]
  obtain r db1 where q: "enqueue ev (Some (wdClock d n)) db = (r, db1)" by (cases "enqueue ev (Some (wdClock d n)) db")
  have "ledger_run db db1" using runs.step_keeps [OF run_refl, of "EnqueueOp ev (Some (wdClock d n))" db] q by simp
  with q runs.drain_keeps [OF _ runtime, of db db1] show "ledger_run db (snd (snd (submit rt d n ev db)))"
    by (cases r) (simp_all add: submit_def)
  have "ledger_run db (snd (reconcileProcessing db))" using runs.step_keeps [OF run_refl, of ReconcileOp db] by simp
  from runs.drain_keeps [OF this runtime, of rt n 0 "[]"] show "ledger_run db (snd (snd (recover rt d n db)))"
    by (cases "drain rt d n 0 [] (snd (reconcileProcessing db))")
      (auto simp: recover_def case_prod_unfold Let_def split: sum.split)
qed

text \<open>
  What the ledger and the licence say of a decision when the Runtime is called for it: the decision is
  stored and not erased, its application is marked as being applied, this workflow accepts its action,
  Task and correlation, and the licence asked two host calls earlier allows the action.
\<close>

definition may_apply :: "workflow_deps \<Rightarrow> nat \<Rightarrow> KernelDecision \<Rightarrow> ledger_db \<Rightarrow> bool" where
  "may_apply d n x db \<longleftrightarrow>
     list_ex (\<lambda>a. apStatus a = AppApplying \<and> list_ex (\<lambda>r. ldId r = apDecisionId a \<and> \<not> ldErased r \<and> ldDecision r = x
       \<and> in_types (wdAcceptedActions d) (ldAction r) \<and> matches_filter (wdTaskId d) (ldTaskId r)
       \<and> matches_filter (wdCorrelationId d) (Some (ldCorrelationId r))) (lgDecisions db)) (lgApplications db)
     \<and> 2 \<le> n \<and> allowsKernelAction (decAction x) (map_option (\<lambda>p. p (n - 2)) (wdProductionAuthorization d))"

lemma find_allowed_Some:
  "find_allowed p n xs = (Some a, n1) \<Longrightarrow> a \<in> set xs \<and> 0 < n1 \<and> allowsKernelAction (decAction (apDecision a)) (map_option (\<lambda>p. p (n1 - 1)) p)"
  by (induction p n xs rule: find_allowed.induct) (auto split: if_splits)

lemma listed_application:
  "x \<in> set (list_applications p db) \<Longrightarrow> \<exists>a r. decision_of db a = Some r \<and> p a r \<and> x = rowToApplication r a"
  unfolding list_applications_def List.map_filter_def by (auto simp: bind_eq_Some_conv split: if_splits) blast

lemma rowToApplication_simps [simp]:
  "apDecisionId (rowToApplication r a) = apDecisionId a" "apStatus (rowToApplication r a) = apStatus a" "apDecision (rowToApplication r a) = ldDecision r"
  by (simp_all add: rowToApplication_def application_row.defs)

lemma apply_recorded:
  assumes allowed: "allowed_at d n db = (Some a, n1)" and mark: "markApplying (apDecisionId a) t db = (Inr x, db1)"
  shows "may_apply d (Suc n1) (apDecision x) db1"
proof -
  let ?filter = "\<lambda>r. in_types (wdAcceptedActions d) (ldAction r) \<and> matches_filter (wdTaskId d) (ldTaskId r)
    \<and> matches_filter (wdCorrelationId d) (Some (ldCorrelationId r))"
  note found = find_allowed_Some [OF allowed [unfolded allowed_at_def]]
  then obtain a0 r where r: "decision_of db a0 = Some r" "?filter r" "a = rowToApplication r a0"
    using listed_application unfolding listRecoverableApplications_def by blast
  from mark have x: "findApplication (apDecisionId a) db1 = Some x" "apStatus x = AppApplying" and db1: "lgDecisions db1 = lgDecisions db"
    by (auto simp: markApplying_def Let_def update_applications_def split: option.splits if_splits)
  from x(1) obtain a1 r1 where a1: "find (\<lambda>b. apDecisionId b = apDecisionId a) (lgApplications db1) = Some a1"
    "decision_of db1 a1 = Some r1" "x = rowToApplication r1 a1"
    unfolding findApplication_def by (auto simp: bind_eq_Some_conv)
  from find_Some_mem [OF a1(1)] have mem: "a1 \<in> set (lgApplications db1)" "apDecisionId a1 = apDecisionId a" by simp_all
  with a1(2) r(1,3) db1 have same: "r1 = r" by (simp add: decision_of_def)
  from r(1) have "r \<in> set (lgDecisions db1)" "ldId r = apDecisionId a0" "\<not> ldErased r"
    using find_Some_mem [OF r(1) [unfolded decision_of_def]] db1 by simp_all
  moreover have "apDecision x = ldDecision r" "apStatus a1 = AppApplying" using a1(3) x(2) same by simp_all
  moreover have "apDecisionId a1 = apDecisionId a0" using mem(2) r(3) by simp
  ultimately have "list_ex (\<lambda>a. apStatus a = AppApplying \<and> list_ex (\<lambda>r. ldId r = apDecisionId a \<and> \<not> ldErased r
      \<and> ldDecision r = apDecision x \<and> ?filter r) (lgDecisions db1)) (lgApplications db1)"
    using mem(1) r(2) unfolding list_ex_iff by metis
  then show ?thesis using found \<open>apDecision x = ldDecision r\<close> r(3) unfolding may_apply_def by (simp add: numeral_2_eq_2)
qed

lemma recording_runtime:
  "settle (d\<lparr>wdRuntime := r\<rparr>) = settle d" "park (d\<lparr>wdRuntime := r\<rparr>) = park d" "handle_error (d\<lparr>wdRuntime := r\<rparr>) = handle_error d"
  "wdClock (d\<lparr>wdRuntime := r\<rparr>) = wdClock d"
proof -
  show s: "settle (d\<lparr>wdRuntime := r\<rparr>) = settle d" and p: "park (d\<lparr>wdRuntime := r\<rparr>) = park d"
    by (simp_all add: fun_eq_iff settle_def park_def)
  show "handle_error (d\<lparr>wdRuntime := r\<rparr>) = handle_error d" unfolding fun_eq_iff handle_error_def s p by simp
  show "wdClock (d\<lparr>wdRuntime := r\<rparr>) = wdClock d" by simp
qed

lemma apply_agrees:
  assumes "\<And>n x db. may_apply d n x db \<Longrightarrow> r n x db = wdRuntime d n x db" and "allowed_at d n db = (Some a, n1)"
  shows "apply_application (d\<lparr>wdRuntime := r\<rparr>) n1 a db = apply_application d n1 a db"
proof (cases "markApplying (apDecisionId a) (wdClock d n1) db")
  case (Pair y db1)
  show ?thesis
  proof (cases y)
    case (Inr x)
    with assms(1) apply_recorded [OF assms(2)] Pair have "r (Suc n1) (apDecision x) db1 = wdRuntime d (Suc n1) (apDecision x) db1" by blast
    with Pair Inr show ?thesis unfolding apply_application_def recording_runtime by simp
  qed (use Pair in \<open>simp add: apply_application_def\<close>)
qed

lemma drain_agrees:
  assumes agree: "\<And>n x db. may_apply d n x db \<Longrightarrow> r n x db = wdRuntime d n x db"
  shows "drain rt (d\<lparr>wdRuntime := r\<rparr>) n h ds db = drain rt d n h ds db"
proof -
  let ?d = "d\<lparr>wdRuntime := r\<rparr>"
  have same: "allowed_at ?d = allowed_at d" "claim_at ?d = claim_at d" "decide_event rt ?d = decide_event rt d"
    by (auto simp: fun_eq_iff allowed_at_def claim_at_def decide_event_def with_production_def)
  note unfold = drain.simps [of rt ?d, folded allowed_at_def claim_at_def]
  have agrees: "allowed_at d n db = (Some a, n1) \<Longrightarrow> apply_application ?d n1 a db = apply_application d n1 a db" for n db a n1
    by (rule apply_agrees) (rule agree)
  show ?thesis
  proof (induction rule: drain_rule [where Q = "\<lambda>n h ds db res. drain rt ?d n h ds db = res" and rt = rt and d = d])
    case (failed n h ds db a n1 e n2 db2)
    with agrees [OF failed(2)] show ?case by (simp add: unfold [of n h ds db] same)
  next
    case (continued n h ds db a n1 n2 db2 res)
    with agrees [OF continued(2)] show ?case by (simp add: unfold [of n h ds db] same)
  next
    case (stopped n h ds db a n1 n2 db2)
    with agrees [OF stopped(2)] show ?case by (simp add: unfold [of n h ds db] same)
  next
    case (limit n h ds db)
    then show ?case by (simp add: unfold [of n h ds db])
  next
    case (idle n h ds db n1 db1)
    then show ?case by (simp add: unfold [of n h ds db] same)
  next
    case (refused n h ds db n1 ev db1 e db2)
    then show ?case by (simp add: unfold [of n h ds db] same)
  next
    case (decided n h ds db n1 ev db1 u db2 res)
    then show ?case by (simp add: unfold [of n h ds db] same)
  qed
qed

text \<open>
  Claim C7. The Runtime is only ever asked to carry out what is on record: two Runtimes that agree on decisions that
  are stored, not erased, durably marked as being applied, accepted by this workflow and allowed by the
  licence give the same result, the same host calls and the same ledger for every submitted event and
  every recovery, however they differ elsewhere.
\<close>

theorem runtime_called_only_recorded:
  assumes "\<And>n x db. may_apply d n x db \<Longrightarrow> r n x db = wdRuntime d n x db"
  shows "submit rt (d\<lparr>wdRuntime := r\<rparr>) n ev db = submit rt d n ev db \<and> recover rt (d\<lparr>wdRuntime := r\<rparr>) n db = recover rt d n db"
proof -
  have eq: "drain rt (d\<lparr>wdRuntime := r\<rparr>) = drain rt d" unfolding fun_eq_iff using drain_agrees [of d r] assms by blast
  show ?thesis unfolding submit_def recover_def recording_runtime eq by simp
qed

lemma claim_None: "claim_at d n db = (None, db1) \<Longrightarrow> db1 = db"
proof (cases "js_sort event_order (filter (claimable (wdClock d n) (wdAcceptedEventTypes d) (wdTaskId d) (wdCorrelationId d)) (lgEvents db))")
  case (Cons r rs)
  then have "r \<in> set (js_sort event_order (filter (claimable (wdClock d n) (wdAcceptedEventTypes d) (wdTaskId d) (wdCorrelationId d)) (lgEvents db)))" by simp
  then have "erEvent r \<noteq> None" by (simp add: claimable_def)
  moreover assume "claim_at d n db = (None, db1)"
  ultimately show ?thesis unfolding claim_at_def claimNext_def Cons by simp
qed (simp add: claim_at_def claimNext_def)

definition idle_at :: "workflow_deps \<Rightarrow> nat \<Rightarrow> ledger_db \<Rightarrow> bool" where
  "idle_at d n db \<longleftrightarrow> fst (allowed_at d n db) = None \<and> fst (claim_at d (snd (allowed_at d n db)) db) = None"

definition halted_on :: "workflow_deps \<Rightarrow> KernelDecision \<Rightarrow> nat \<Rightarrow> ledger_db \<Rightarrow> bool" where
  "halted_on d x n db \<longleftrightarrow> (\<exists>m a db1. apDecision a = x \<and> apply_application d m a db1 = (Inr False, n, db))"

text \<open>
  Claim C24. A drain always returns. When it reports a result it handled fewer than a hundred decisions, and
  it stopped for one of two reasons: nothing was left that it may apply and no event was due, or the
  last application was interrupted or became uncertain.
\<close>

theorem drain_outcome:
  assumes "drain rt d n 0 [] db = (Inr res, n', db')"
  shows "length (wrDecisions res) < 100
    \<and> ((\<exists>m. idle_at d m db') \<or> wrDecisions res \<noteq> [] \<and> halted_on d (last (wrDecisions res)) n' db')"
proof -
  let ?Q = "\<lambda>n h ds db out. \<forall>res n' db'. out = (Inr res, n', db') \<longrightarrow> length ds = h \<longrightarrow> length (wrDecisions res) < MAX_DECISIONS_PER_DRAIN
    \<and> ((\<exists>m. idle_at d m db') \<or> wrDecisions res \<noteq> [] \<and> halted_on d (last (wrDecisions res)) n' db')"
  have gen: "?Q n h ds db (drain rt d n h ds db)" for n h ds db
  proof (induction rule: drain_rule [where Q = ?Q and rt = rt and d = d])
    case (stopped n h ds db a n1 n2 db2)
    then show ?case by (auto simp: drain_result_def halted_on_def split: if_splits)
  next
    case (idle n h ds db n1 db1)
    then have "db1 = db" using claim_None by blast
    moreover have "idle_at d n db" using idle(2,3) by (simp add: idle_at_def)
    ultimately show ?case using idle(1) by (auto simp: drain_result_def)
  qed (auto simp: drain_result_def)
  show ?thesis using gen [of n 0 "[]" db] assms by (simp add: MAX_DECISIONS_PER_DRAIN_def)
qed

lemma kind_plain: "CHR '':'' \<notin> set (settlement_kind_name k)" "settlement_kind_name k \<noteq> []" "length (settlement_kind_name k) \<le> 23"
  "parse_kind (settlement_kind_name k) = Some k"
  by (cases k; simp add: parse_kind_def)+

lemma code_plain:
  assumes "code_pattern c"
  shows "CHR '' '' \<notin> set c" "length c \<le> 64"
  using assms by (auto simp: code_pattern_def list_all_iff is_lower_code is_digit_code)

lemma takeWhile_sep: "x \<notin> set s \<Longrightarrow> takeWhile (\<lambda>c. c \<noteq> x) (s @ x # t) = s" "x \<notin> set s \<Longrightarrow> dropWhile (\<lambda>c. c \<noteq> x) (s @ x # t) = x # t"
  by (induction s) auto

lemma parse_formatted:
  assumes "code_pattern c"
  shows "parse_body (settlement_kind_name k @ '':'' @ c @ (if t = [] then [] else '' '' @ t)) = Some \<lparr>stKind = k, stCode = c, stDetail = t\<rparr>"
proof -
  let ?rest = "c @ (if t = [] then [] else '' '' @ t)"
  have "takeWhile (\<lambda>x. x \<noteq> CHR '' '') ?rest = c" "tl (dropWhile (\<lambda>x. x \<noteq> CHR '' '') ?rest) = t"
  proof (atomize (full), cases "t = []")
    case True
    have all: "dropWhile (\<lambda>x. x \<noteq> CHR '' '') c = []" "takeWhile (\<lambda>x. x \<noteq> CHR '' '') c = c"
      using code_plain(1) [OF assms] by (auto simp: takeWhile_eq_all_conv)
    show "takeWhile (\<lambda>x. x \<noteq> CHR '' '') ?rest = c \<and> tl (dropWhile (\<lambda>x. x \<noteq> CHR '' '') ?rest) = t"
      unfolding True by (simp only: if_True append_Nil2 all list.sel simp_thms)
  qed (use code_plain(1) [OF assms] takeWhile_sep [of "CHR '' ''" c t] in simp)
  then show ?thesis
    using kind_plain [of k] takeWhile_sep [of "CHR '':''" "settlement_kind_name k" ?rest] assms
    by (simp add: parse_body_def Let_def)
qed

text \<open>
  Claim C36. A settlement survives storage: for every machine code of the documented form the stored summary
  parses back to the same kind and code, and to the one-line detail cut at the length limit.
\<close>

theorem settlement_round_trip:
  assumes "code_pattern (stCode s)"
  shows "parseApplicationSettlement (Some (formatApplicationSettlement s)) = Some \<lparr>stKind = stKind s, stCode = stCode s,
    stDetail = take (MAX_SUMMARY_CHARS - (length (SETTLEMENT_PREFIX @ settlement_kind_name (stKind s) @ '':'' @ stCode s) + 1))
      (js_trim (one_line (stDetail s)))\<rparr>"
proof -
  let ?detail = "js_trim (one_line (stDetail s))" and ?k = "settlement_kind_name (stKind s)" and ?c = "stCode s"
  let ?head = "SETTLEMENT_PREFIX @ ?k @ '':'' @ ?c"
  let ?t = "take (MAX_SUMMARY_CHARS - (length ?head + 1)) ?detail"
  have len: "length ?head < MAX_SUMMARY_CHARS"
    using kind_plain(3) [of "stKind s"] code_plain(2) [OF assms] by (simp add: SETTLEMENT_PREFIX_def MAX_SUMMARY_CHARS_def)
  then obtain m where m: "MAX_SUMMARY_CHARS - length ?head = Suc m" "MAX_SUMMARY_CHARS - (length ?head + 1) = m"
    by (metis Suc_diff_Suc Suc_eq_plus1 diff_Suc_eq_diff_pred zero_less_diff add.commute diff_diff_left plus_1_eq_Suc)
  have t: "?t = [] \<longleftrightarrow> m = 0 \<or> ?detail = []" using m by auto
  have "0 < m" using kind_plain(3) [of "stKind s"] code_plain(2) [OF assms] m by (simp add: SETTLEMENT_PREFIX_def MAX_SUMMARY_CHARS_def)
  have "formatApplicationSettlement s = ?head @ (if ?t = [] then [] else '' '' @ ?t)"
    using len m t \<open>0 < m\<close> by (simp add: formatApplicationSettlement_def Let_def)
  then have "formatApplicationSettlement s = SETTLEMENT_PREFIX @ (?k @ '':'' @ ?c @ (if ?t = [] then [] else '' '' @ ?t))" by simp
  then show ?thesis
    unfolding parseApplicationSettlement_def using parse_formatted [OF assms, of "stKind s" ?t]
    by (simp add: startsWith_iff)
qed

lemma collect_entries_sound:
  "collect_entries rt v es bs fs = Inr (bs', fs') \<Longrightarrow> fs = map (authorizedExecutorBindingFingerprint rt) bs \<Longrightarrow> distinct fs \<Longrightarrow>
   fs' = map (authorizedExecutorBindingFingerprint rt) bs' \<and> distinct fs'
   \<and> set fs' = set fs \<union> authorizedExecutorBindingFingerprint rt ` fst ` set es
   \<and> (\<forall>(b, f) \<in> set es. abConfigurationRevision b = v \<and> (f = None \<or> f = Some (authorizedExecutorBindingFingerprint rt b)))"
proof (induction rt v es bs fs rule: collect_entries.induct)
  case (2 rt v b f rest bs fs)
  let ?fp = "authorizedExecutorBindingFingerprint rt b"
  from "2.prems"(1) have ok: "abConfigurationRevision b = v" "f = None \<or> f = Some ?fp"
    by (simp_all add: Let_def split: if_splits)
  then have guards: "\<not> abConfigurationRevision b \<noteq> v" "\<not> (f \<noteq> None \<and> f \<noteq> Some ?fp)" by blast+
  show ?case
  proof (cases "?fp \<in> set fs")
    case True
    with "2.prems"(1) ok have "collect_entries rt v rest bs fs = Inr (bs', fs')" by (auto simp: Let_def)
    note ih = "2.IH"(1) [OF refl guards True this "2.prems"(2,3)]
    have "set fs' = set fs \<union> authorizedExecutorBindingFingerprint rt ` fst ` set ((b, f) # rest)"
      unfolding ih [THEN conjunct2, THEN conjunct2, THEN conjunct1] using True by auto
    moreover have "\<forall>(b, f) \<in> set ((b, f) # rest). abConfigurationRevision b = v \<and> (f = None \<or> f = Some (authorizedExecutorBindingFingerprint rt b))"
      using ih ok by simp
    ultimately show ?thesis using ih by blast
  next
    case False
    with "2.prems"(1) ok have "collect_entries rt v rest (bs @ [b]) (fs @ [?fp]) = Inr (bs', fs')" by (auto simp: Let_def)
    note ih = "2.IH"(2) [OF refl guards False this]
    have "fs @ [?fp] = map (authorizedExecutorBindingFingerprint rt) (bs @ [b])" "distinct (fs @ [?fp])" using "2.prems"(2,3) False by simp_all
    note ih = ih [OF this]
    have "set fs' = set fs \<union> authorizedExecutorBindingFingerprint rt ` fst ` set ((b, f) # rest)" 
      unfolding ih [THEN conjunct2, THEN conjunct2, THEN conjunct1] by auto
    moreover have "\<forall>(b, f) \<in> set ((b, f) # rest). abConfigurationRevision b = v \<and> (f = None \<or> f = Some (authorizedExecutorBindingFingerprint rt b))"
      using ih ok by simp
    ultimately show ?thesis using ih by blast
  qed
qed auto

text \<open>
  The recorded binding identity is exact: a ledger record exists only if every binding of the event and
  of the action has the configuration revision of the event and carries its own fingerprint, and it
  lists each of these fingerprints once, beside its binding.
\<close>

theorem ledger_record_sound:
  assumes "ledgerRecord rt ev snapshot x = Inr r"
  shows "ldEventId r = evId (fst ev) \<and> ldDecision r = x \<and> distinct (ldBindingFingerprints r)
    \<and> ldBindingFingerprints r = map (authorizedExecutorBindingFingerprint rt) (ldAuthorizedBindings r)
    \<and> set (ldBindingFingerprints r) = authorizedExecutorBindingFingerprint rt ` fst ` set (event_bindings (snd ev) @ action_bindings rt (decAction x))
    \<and> (\<forall>(b, f) \<in> set (event_bindings (snd ev) @ action_bindings rt (decAction x)).
         abConfigurationRevision b = evConfigurationRevision (fst ev) \<and> (f = None \<or> f = Some (authorizedExecutorBindingFingerprint rt b)))"
proof -
  from assms obtain bs fs where c: "collectBindingIdentity rt ev (decAction x) = Inr (bs, fs)"
    and r: "ldEventId r = evId (fst ev)" "ldDecision r = x" "ldAuthorizedBindings r = bs" "ldBindingFingerprints r = fs"
    by (auto simp: ledgerRecord_def Let_def split: if_splits)
  let ?es = "event_bindings (snd ev) @ action_bindings rt (decAction x)"
  have "fs = map (authorizedExecutorBindingFingerprint rt) bs \<and> distinct fs
    \<and> set fs = set [] \<union> authorizedExecutorBindingFingerprint rt ` fst ` set ?es
    \<and> (\<forall>(b, f) \<in> set ?es. abConfigurationRevision b = evConfigurationRevision (fst ev)
         \<and> (f = None \<or> f = Some (authorizedExecutorBindingFingerprint rt b)))"
    by (rule collect_entries_sound [OF c [unfolded collectBindingIdentity_def]]) simp_all
  then show ?thesis unfolding r list.set(1) Un_empty_left by blast
qed

lemma collect_entries_total:
  "\<forall>(b, f) \<in> set es. abConfigurationRevision b = v \<and> (f = None \<or> f = Some (authorizedExecutorBindingFingerprint rt b)) \<Longrightarrow>
   \<exists>bs' fs'. collect_entries rt v es bs fs = Inr (bs', fs')"
  by (induction rt v es bs fs rule: collect_entries.induct) (auto simp: Let_def)

text \<open>
  What the Kernel dispatches the workflow can record: if the items of a dispatch batch have the event's
  configuration revision and the event carries no binding of its own, the fingerprint test passes
  for every item and the recorded fingerprints are those of the items.
\<close>

theorem dispatch_recordable:
  assumes "decide rt pf sp e body snap = Inr x" and "decAction x = DispatchBatch t items" and "event_bindings body = []"
    and "list_all (\<lambda>i. abConfigurationRevision (diAuthorizedBinding i) = evConfigurationRevision e) items"
  shows "\<exists>bs fs. collectBindingIdentity rt (e, body) (decAction x) = Inr (bs, fs) \<and> set fs = diBindingFingerprint ` set items"
proof -
  have wf: "diBindingFingerprint i = authorizedExecutorBindingFingerprint rt (diAuthorizedBinding i)" if "i \<in> set items" for i
    using decide_well_formed [OF assms(1)] assms(2) that by (simp add: well_formed_batch_def well_formed_item_def list_all_iff)
  let ?es = "map (\<lambda>i. (diAuthorizedBinding i, Some (diBindingFingerprint i))) (js_sort (item_order rt) items)"
  have c: "collectBindingIdentity rt (e, body) (decAction x) = collect_entries rt (evConfigurationRevision e) ?es [] []"
    using assms(2,3) by (simp add: collectBindingIdentity_def)
  have "\<forall>(b, f) \<in> set ?es. abConfigurationRevision b = evConfigurationRevision e \<and> (f = None \<or> f = Some (authorizedExecutorBindingFingerprint rt b))"
    using wf assms(4) by (auto simp: list_all_iff)
  from collect_entries_total [OF this] obtain bs fs where r: "collect_entries rt (evConfigurationRevision e) ?es [] [] = Inr (bs, fs)" by blast
  have "set fs = set [] \<union> authorizedExecutorBindingFingerprint rt ` fst ` set ?es"
    by (rule collect_entries_sound [OF r, THEN conjunct2, THEN conjunct2, THEN conjunct1]) simp_all
  also have "\<dots> = diBindingFingerprint ` set items" using wf by (auto simp: image_image image_iff)
  finally have "set fs = diBindingFingerprint ` set items" .
  moreover have "collectBindingIdentity rt (e, body) (decAction x) = Inr (bs, fs)" using c r by (rule trans)
  ultimately show ?thesis by blast
qed

subsection \<open>Witnesses\<close>

definition sample_deps :: "apply_outcome \<Rightarrow> workflow_deps" where
  "sample_deps out = \<lparr>wdProductionAuthorization = None, wdDecide = (\<lambda>ev snapshot. Inr (decision (fst ev) NoOp ''idle'')),
     wdBuildSnapshot = (\<lambda>n ev db. Inr \<lparr>snProductionAuthorization = None, snBody = InvalidSnapshot ''none''\<rparr>),
     wdRuntime = (\<lambda>n x db. (out, db)), wdClock = (\<lambda>n. ''2000''), wdAcceptedEventTypes = None, wdAcceptedActions = None,
     wdTaskId = None, wdCorrelationId = None\<rparr>"

theorem workflow_refines_ledger_witness:
  "ledger_run sample_ledger (snd (snd (submit sample_runtime (sample_deps (Observation None)) 0 sample_kernel_event sample_ledger)))"
  using workflow_refines_ledger [of "sample_deps (Observation None)" sample_ledger sample_runtime 0 sample_kernel_event]
  by (simp add: sample_deps_def run_refl)

definition sample_pending :: ledger_db where
  "sample_pending = sample_ledger\<lparr>lgDecisions := [KernelDecisionLedgerRecord.extend sample_record \<lparr>ldErased = False\<rparr>],
     lgApplications := [new_application ''e1'' sample_record]\<rparr>"

definition lost_deps :: workflow_deps where
  "lost_deps = sample_deps (ApplyThrew (OtherError ''lost''))"

abbreviation (input) sample_row :: "KernelApplicationStatus \<Rightarrow> application_row" where
  "sample_row st \<equiv> (new_application ''e1'' sample_record)\<lparr>apStatus := st, apApplyAttempts := 1, apApplyingAt := Some ''2000'', apUpdatedAt := ''2000''\<rparr>"

definition sample_application :: KernelDecisionApplicationRecord where
  "sample_application = rowToApplication (KernelDecisionLedgerRecord.extend sample_record \<lparr>ldErased = False\<rparr>) (new_application ''e1'' sample_record)"

lemma sample_allowed:
  "allowed_at lost_deps 0 sample_pending = (Some sample_application, Suc 0)"
  by (simp add: sample_application_def allowed_at_def lost_deps_def sample_deps_def listRecoverableApplications_def list_applications_def decision_of_def map_filter_simps
      sample_pending_def new_application_def in_types_def matches_filter_def rowToApplication_def application_row.defs
      KernelDecisionLedgerRecord.defs sample_record_def decision_def allowsKernelAction_def)

lemma sample_parked:
  "apply_application lost_deps (Suc 0) sample_application sample_pending
   = (Inr False, 4, sample_pending\<lparr>lgApplications := [(sample_row AppUncertain)\<lparr>apErrorSummary := Some ''lost''\<rparr>]\<rparr>)"
  by (simp add: sample_application_def apply_application_def markApplying_def findApplication_def decision_of_def handle_error_def park_def markApplicationFailed_def
      boundedError_def one_line_def line_break_def update_applications_def update_rows_def is_application_def rowToApplication_def application_row.defs KernelDecisionLedgerRecord.defs
      new_application_def sample_pending_def sample_record_def lost_deps_def sample_deps_def Let_def)

lemma sample_drain:
  "\<exists>n db. drain sample_runtime lost_deps 0 0 [] sample_pending
   = (Inr \<lparr>wrDecisions = [decision (sample_envelope ''e1'') NoOp ''idle''], wrQuiescent = True, wrPendingRecovery = 1\<rparr>, n, db)"
proof -
  have "drain sample_runtime lost_deps 0 0 [] sample_pending = drain_result 4 1 [ldDecision sample_record]
      (sample_pending\<lparr>lgApplications := [(sample_row AppUncertain)\<lparr>apErrorSummary := Some ''lost''\<rparr>]\<rparr>)"
    unfolding drain.simps [of sample_runtime lost_deps 0 0 "[]" sample_pending, folded allowed_at_def] sample_allowed
    by (simp add: sample_parked MAX_DECISIONS_PER_DRAIN_def)
      (simp add: sample_application_def rowToApplication_def application_row.defs KernelDecisionLedgerRecord.defs)
  then show ?thesis
    by (simp add: drain_result_def MAX_DECISIONS_PER_DRAIN_def countByApplicationStatus_def new_application_def sample_record_def)
qed

theorem drain_outcome_witness:
  "\<exists>res n db. drain sample_runtime lost_deps 0 0 [] sample_pending = (Inr res, n, db) \<and> length (wrDecisions res) < 100
     \<and> wrPendingRecovery res = 1"
  using sample_drain drain_outcome [of sample_runtime lost_deps 0 sample_pending]
  by (metis KernelWorkflowResult.select_convs(3))

text \<open>A Runtime that loses the ledger wherever it may not be called recovers the pending decision all the same.\<close>

definition destructive_runtime :: "nat \<Rightarrow> KernelDecision \<Rightarrow> ledger_db \<Rightarrow> apply_outcome \<times> ledger_db" where
  "destructive_runtime n x db = (if may_apply lost_deps n x db then wdRuntime lost_deps n x db else (Observation None, sample_ledger))"

theorem runtime_called_only_recorded_witness:
  "\<exists>res n db. recover sample_runtime (lost_deps\<lparr>wdRuntime := destructive_runtime\<rparr>) 0 sample_pending = (Inr res, n, db) \<and> wrPendingRecovery res = 1"
proof -
  have "reconcileProcessing sample_pending = (0, sample_pending)"
    by (simp add: reconcileProcessing_def update_applications_def update_rows_def sample_pending_def sample_ledger_def new_application_def)
  moreover obtain n db where "drain sample_runtime lost_deps 0 0 [] sample_pending
     = (Inr \<lparr>wrDecisions = [decision (sample_envelope ''e1'') NoOp ''idle''], wrQuiescent = True, wrPendingRecovery = 1\<rparr>, n, db)"
    using sample_drain by blast
  ultimately have "\<exists>res n db. recover sample_runtime lost_deps 0 sample_pending = (Inr res, n, db) \<and> wrPendingRecovery res = 1"
    by (simp add: recover_def KernelWorkflowResult.defs)
  moreover have "recover sample_runtime (lost_deps\<lparr>wdRuntime := destructive_runtime\<rparr>) 0 sample_pending = recover sample_runtime lost_deps 0 sample_pending"
    using runtime_called_only_recorded [of lost_deps destructive_runtime sample_runtime 0 sample_kernel_event sample_pending]
    by (simp add: destructive_runtime_def)
  ultimately show ?thesis by simp
qed

theorem settlement_round_trip_witness:
  "parseApplicationSettlement (Some (formatApplicationSettlement \<lparr>stKind = OperationSettled, stCode = ''service_failed'', stDetail = ''port in use''\<rparr>))
   = Some \<lparr>stKind = OperationSettled, stCode = ''service_failed'', stDetail = ''port in use''\<rparr>"
  using settlement_round_trip [of "\<lparr>stKind = OperationSettled, stCode = ''service_failed'', stDetail = ''port in use''\<rparr>"]
  by (simp add: code_pattern_def is_lower_code is_digit_code SETTLEMENT_PREFIX_def MAX_SUMMARY_CHARS_def
      one_line_def line_break_def js_trim_def trim_start_def js_space_def)

definition sample_probe :: KernelDecision where
  "sample_probe = decision (sample_envelope ''e1'') (ProbeCapacity ''t1'' ''a'' (sample_binding ''pi'')
     (authorizedExecutorBindingFingerprint sample_runtime (sample_binding ''pi''))) ''probe''"

lemma sample_probe_recorded:
  "\<exists>r. ledgerRecord sample_runtime sample_kernel_event (ldSnapshot sample_record) sample_probe = Inr r
     \<and> ldBindingFingerprints r = [authorizedExecutorBindingFingerprint sample_runtime (sample_binding ''pi'')]"
  by (simp add: ledgerRecord_def collectBindingIdentity_def sample_probe_def decision_def sample_kernel_event_def sample_envelope_def
      sample_binding_def Let_def del: authorizedExecutorBindingFingerprint_def)

theorem ledger_record_sound_witness:
  "\<exists>r. ledgerRecord sample_runtime sample_kernel_event (ldSnapshot sample_record) sample_probe = Inr r
     \<and> ldAuthorizedBindings r \<noteq> [] \<and> ldBindingFingerprints r = map (authorizedExecutorBindingFingerprint sample_runtime) (ldAuthorizedBindings r)"
  using sample_probe_recorded ledger_record_sound by (metis list.distinct(1) list.map_disc_iff)

lemma sample_no_bindings: "event_bindings (DispatchRequested s t) = []"
  by simp

lemma sample_items_revision:
  "list_all (\<lambda>i. abConfigurationRevision (diAuthorizedBinding i) = evConfigurationRevision sample_event)
     (dispatchBatchItems sample_runtime sample_event sample_ready (selectDispatchableSubtasks sample_ready))"
  by (simp add: sample_ready_def sample_dispatch_def sample_subtask_fact_def selectDispatchableSubtasks_def List.map_filter_simps js_slice_def
      active_subtask_ids_def ready_subtask_def dispatchBatchItems_def primary_item_def nextUsableBinding_def no_statuses sample_binding_def sample_event_def Let_def)

theorem dispatch_recordable_witness:
  "\<exists>bs fs items. collectBindingIdentity sample_runtime (sample_event, DispatchRequested ''go'' None)
       (decAction (decideDispatch sample_runtime sample_event None sample_ready)) = Inr (bs, fs)
     \<and> decAction (decideDispatch sample_runtime sample_event None sample_ready) = DispatchBatch ''t1'' items \<and> items \<noteq> []
     \<and> set fs = diBindingFingerprint ` set items"
proof -
  obtain bs fs where "collectBindingIdentity sample_runtime (sample_event, DispatchRequested ''go'' None)
       (decAction (decideDispatch sample_runtime sample_event None sample_ready)) = Inr (bs, fs)"
    "set fs = diBindingFingerprint ` set (dispatchBatchItems sample_runtime sample_event sample_ready (selectDispatchableSubtasks sample_ready))"
    using dispatch_recordable [OF sample_batch_decision sample_batch sample_no_bindings sample_items_revision] by blast
  moreover have "dispatchBatchItems sample_runtime sample_event sample_ready (selectDispatchableSubtasks sample_ready) \<noteq> []"
    using sample_items by (metis list.distinct(1) list.map_disc_iff)
  ultimately show ?thesis using sample_batch by blast
qed

end
