(* ===== verification/Billing_Money.thy ===== *)
theory Billing_Money
  imports Prelude Complex_Main
begin

text \<open>
  Exact money (\<open>src/src/billing/money.ts\<close>): rationals in lowest terms, half-even rounding, the
  markup, decimal text and the distribution of a total by weights.

  A \<open>bigint\<close> is an \<^typ>\<open>int\<close>; its division truncates. Every \<open>throw\<close> is \<^const>\<open>Inl\<close>.
\<close>

subsection \<open>Rationals\<close>

definition bigint_div :: "int \<Rightarrow> int \<Rightarrow> int" where
  "bigint_div a b = sgn a * sgn b * (\<bar>a\<bar> div \<bar>b\<bar>)"

definition bigint_mod :: "int \<Rightarrow> int \<Rightarrow> int" where
  "bigint_mod a b = a - bigint_div a b * b"

definition MIN_MARKUP_BPS :: int where
  "MIN_MARKUP_BPS = 3000"

definition MAX_MARKUP_BPS :: int where
  "MAX_MARKUP_BPS = 5000"

definition BASIS_POINTS_DENOMINATOR :: int where
  "BASIS_POINTS_DENOMINATOR = 10000"

definition ASSESS_DENOMINATOR :: int where
  "ASSESS_DENOMINATOR = 10000000"

record Rational =
  rtNumerator :: int
  rtDenominator :: int

lemma bigint_mod_bound: "b \<noteq> 0 \<Longrightarrow> \<bar>bigint_mod a b\<bar> < \<bar>b\<bar>"
proof -
  assume b: "b \<noteq> 0"
  have "bigint_div a b * b = sgn a * (\<bar>a\<bar> div \<bar>b\<bar> * \<bar>b\<bar>)"
    by (simp add: bigint_div_def abs_sgn [of b] mult.assoc mult.left_commute)
  then have "bigint_mod a b = sgn a * (\<bar>a\<bar> mod \<bar>b\<bar>)"
    unfolding bigint_mod_def by (metis abs_mult_sgn minus_div_mult_eq_mod mult.commute right_diff_distrib)
  then have "\<bar>bigint_mod a b\<bar> \<le> \<bar>a\<bar> mod \<bar>b\<bar>" using b by (auto simp: abs_mult sgn_if)
  also have "\<dots> < \<bar>b\<bar>" using b by simp
  finally show ?thesis .
qed

lemma bigint_nonneg [simp]:
  "0 \<le> a \<Longrightarrow> 0 < b \<Longrightarrow> bigint_div a b = a div b" "0 \<le> a \<Longrightarrow> 0 < b \<Longrightarrow> bigint_mod a b = a mod b"
  by (auto simp: bigint_div_def bigint_mod_def sgn_if minus_div_mult_eq_mod)

lemma bigint_div_exact: "b dvd a \<Longrightarrow> 0 < b \<Longrightarrow> bigint_div a b = a div b"
  by (auto simp: bigint_div_def sgn_if zdiv_zminus1_eq_if)

function gcd_loop :: "int \<Rightarrow> int \<Rightarrow> int" where
  "gcd_loop a b = (if b = 0 then a else gcd_loop b (bigint_mod a b))"
  by pat_completeness auto
termination
  by (relation "measure (\<lambda>(a, b). nat \<bar>b\<bar>)") (auto simp: bigint_mod_bound)

declare gcd_loop.simps [simp del]

definition bigint_gcd :: "int \<Rightarrow> int \<Rightarrow> int" where
  "bigint_gcd left right = (let a = gcd_loop \<bar>left\<bar> \<bar>right\<bar> in if a = 0 then 1 else a)"

definition rational :: "int \<Rightarrow> int \<Rightarrow> Rational result" where
  "rational numerator denominator =
     (if denominator = 0 then Inl ''invalid_amount''
      else let n = (if denominator < 0 then - numerator else numerator);
               d = (if denominator < 0 then - denominator else denominator);
               divisor = bigint_gcd (if n < 0 then - n else n) d in
           Inr \<lparr>rtNumerator = bigint_div n divisor, rtDenominator = bigint_div d divisor\<rparr>)"

definition ZERO_RATIONAL :: Rational where
  "ZERO_RATIONAL = \<lparr>rtNumerator = 0, rtDenominator = 1\<rparr>"

definition addRational :: "Rational \<Rightarrow> Rational \<Rightarrow> Rational result" where
  "addRational l r = rational (rtNumerator l * rtDenominator r + rtNumerator r * rtDenominator l) (rtDenominator l * rtDenominator r)"

definition subtractRational :: "Rational \<Rightarrow> Rational \<Rightarrow> Rational result" where
  "subtractRational l r = rational (rtNumerator l * rtDenominator r - rtNumerator r * rtDenominator l) (rtDenominator l * rtDenominator r)"

definition multiplyRational :: "Rational \<Rightarrow> Rational \<Rightarrow> Rational result" where
  "multiplyRational l r = rational (rtNumerator l * rtNumerator r) (rtDenominator l * rtDenominator r)"

definition isZeroRational :: "Rational \<Rightarrow> bool" where
  "isZeroRational r \<longleftrightarrow> rtNumerator r = 0"

definition isNegativeRational :: "Rational \<Rightarrow> bool" where
  "isNegativeRational r \<longleftrightarrow> rtNumerator r < 0"

definition compareRational :: "Rational \<Rightarrow> Rational \<Rightarrow> int" where
  "compareRational l r = (let diff = rtNumerator l * rtDenominator r - rtNumerator r * rtDenominator l in
     if diff = 0 then 0 else if 0 < diff then 1 else -1)"

definition roundHalfEven :: "int \<Rightarrow> int \<Rightarrow> int result" where
  "roundHalfEven n d =
     (if n < 0 \<or> d \<le> 0 then Inl ''invalid_amount''
      else let q = bigint_div n d; r = bigint_mod n d in
           Inr (q + (if r * 2 > d \<or> (r * 2 = d \<and> bigint_mod q 2 \<noteq> 0) then 1 else 0)))"

definition assessMicroCoin :: "int \<Rightarrow> int \<Rightarrow> int result" where
  "assessMicroCoin costNanoCny markupBps =
     (if markupBps < MIN_MARKUP_BPS \<or> markupBps > MAX_MARKUP_BPS then Inl ''invalid_markup''
      else if costNanoCny < 0 then Inl ''invalid_amount''
      else roundHalfEven (costNanoCny * (BASIS_POINTS_DENOMINATOR + markupBps)) ASSESS_DENOMINATOR)"

definition assessRationalMicroCoin :: "Rational \<Rightarrow> int \<Rightarrow> int result" where
  "assessRationalMicroCoin cost markupBps =
     (if markupBps < MIN_MARKUP_BPS \<or> markupBps > MAX_MARKUP_BPS then Inl ''invalid_markup''
      else if rtNumerator cost < 0 then Inl ''invalid_amount''
      else roundHalfEven (rtNumerator cost * (BASIS_POINTS_DENOMINATOR + markupBps)) (rtDenominator cost * ASSESS_DENOMINATOR))"

definition floorRational :: "Rational \<Rightarrow> int result" where
  "floorRational v = (if rtNumerator v < 0 then Inl ''invalid_amount'' else Inr (bigint_div (rtNumerator v) (rtDenominator v)))"

definition roundRationalHalfEven :: "Rational \<Rightarrow> int result" where
  "roundRationalHalfEven v = (if rtNumerator v < 0 then Inl ''invalid_amount'' else roundHalfEven (rtNumerator v) (rtDenominator v))"

definition rationalToNanoCny :: "Rational \<Rightarrow> int result" where
  "rationalToNanoCny v = (if bigint_mod (rtNumerator v) (rtDenominator v) \<noteq> 0 then Inl ''amount_precision_below_nanocny''
     else Inr (bigint_div (rtNumerator v) (rtDenominator v)))"

definition nanoCnyToRational :: "int \<Rightarrow> Rational result" where
  "nanoCnyToRational v = rational v 1"

subsection \<open>Decimal text\<close>

text \<open>The regular expression \<open>^(-?)(\<backslash>d+)(?:\<backslash>.(\<backslash>d+))?$\<close>: sign, digits, optional fraction.\<close>

definition decimal_match :: "string \<Rightarrow> (bool \<times> string \<times> string) option" where
  "decimal_match s =
     (let negative = startsWith s ''-''; body = (if negative then tl s else s);
          whole = takeWhile is_digit body; rest = dropWhile is_digit body in
      if whole = [] then None
      else if rest = [] then Some (negative, whole, [])
      else if hd rest = CHR ''.'' \<and> all_digits (tl rest) then Some (negative, whole, tl rest)
      else None)"

definition padEnd :: "string \<Rightarrow> nat \<Rightarrow> string" where
  "padEnd s n = s @ replicate (n - length s) (CHR ''0'')"

definition padStart :: "string \<Rightarrow> nat \<Rightarrow> string" where
  "padStart s n = replicate (n - length s) (CHR ''0'') @ s"

definition signed :: "bool \<Rightarrow> int \<Rightarrow> int" where
  "signed negative magnitude = (if negative then - magnitude else magnitude)"

definition parseDecimalUnits :: "string \<Rightarrow> int \<Rightarrow> int result" where
  "parseDecimalUnits s decimals =
     (if decimals < 0 then Inl ''invalid_scale''
      else case decimal_match (js_trim s) of
        None \<Rightarrow> Inl ''invalid_decimal_amount''
      | Some (negative, whole, fraction) \<Rightarrow>
          if int (length fraction) > decimals then Inl ''amount_precision_exceeded''
          else Inr (signed negative (digits_value (whole @ padEnd fraction (nat decimals)))))"

definition strip_zeros :: "string \<Rightarrow> string" where
  "strip_zeros s = rev (dropWhile (\<lambda>c. c = CHR ''0'') (rev s))"

definition formatDecimalUnits :: "int \<Rightarrow> int \<Rightarrow> string result" where
  "formatDecimalUnits value decimals =
     (if decimals < 0 then Inl ''invalid_scale''
      else let magnitude = \<bar>value\<bar>; scale = 10 ^ nat decimals;
               whole = show_digits (bigint_div magnitude scale);
               fraction = strip_zeros (padStart (show_digits (bigint_mod magnitude scale)) (nat decimals));
               body = (if fraction \<noteq> [] then whole @ ''.'' @ fraction else whole) in
           Inr (if value < 0 then ''-'' @ body else body))"

subsection \<open>Distribution by weights\<close>

record WeightedShare =
  wsId :: string
  wsWeight :: Rational

record DistributedShare =
  shId :: string
  shAmount :: int

fun result_fold :: "('b \<Rightarrow> 'a \<Rightarrow> 'b result) \<Rightarrow> 'b \<Rightarrow> 'a list \<Rightarrow> 'b result" where
  "result_fold f acc [] = Inr acc"
| "result_fold f acc (x # xs) = rbind (f acc x) (\<lambda>y. result_fold f y xs)"

definition weight_total :: "Rational list \<Rightarrow> Rational result" where
  "weight_total ws = result_fold addRational ZERO_RATIONAL ws"

record share_row =
  srBase :: int
  srRemainder :: Rational

definition share_row_of :: "int \<Rightarrow> Rational \<Rightarrow> Rational \<Rightarrow> share_row result" where
  "share_row_of amount weightTotal weight =
     rbind (rational amount 1) (\<lambda>t.
     rbind (rational (rtNumerator weight) (rtDenominator weight)) (\<lambda>w.
     rbind (multiplyRational t w) (\<lambda>exact.
     rbind (rational (rtNumerator exact * rtDenominator weightTotal) (rtDenominator exact * rtNumerator weightTotal)) (\<lambda>scaled.
     rbind (floorRational scaled) (\<lambda>base.
     rbind (rational base 1) (\<lambda>b.
     rbind (subtractRational scaled b) (\<lambda>remainder.
       Inr \<lparr>srBase = base, srRemainder = remainder\<rparr>)))))))"

text \<open>The rows are shared objects, so the second list holds their positions and the loop updates the first.\<close>

fun hand_out :: "int \<Rightarrow> nat list \<Rightarrow> int list \<Rightarrow> int list" where
  "hand_out leftover [] bases = bases"
| "hand_out leftover (i # is) bases = (if leftover \<le> 0 then bases else hand_out (leftover - 1) is (bases[i := bases ! i + 1]))"

definition remainder_order :: "js_runtime \<Rightarrow> string list \<Rightarrow> share_row list \<Rightarrow> nat \<Rightarrow> nat \<Rightarrow> int" where
  "remainder_order rt ids rows i j =
     cmp_or (compareRational (srRemainder (rows ! j)) (srRemainder (rows ! i))) (localeCompare rt (ids ! i) (ids ! j))"

definition distribute_rows :: "js_runtime \<Rightarrow> int \<Rightarrow> string list \<Rightarrow> share_row list \<Rightarrow> DistributedShare list" where
  "distribute_rows rt amount ids rows =
     (let assigned = sum_list (map srBase rows);
          byRemainder = js_sort (remainder_order rt ids rows) [0..<length rows] in
      map2 (\<lambda>i a. \<lparr>shId = i, shAmount = a\<rparr>) ids (hand_out (amount - assigned) byRemainder (map srBase rows)))"

definition distributeByWeights :: "js_runtime \<Rightarrow> int \<Rightarrow> WeightedShare list \<Rightarrow> DistributedShare list result" where
  "distributeByWeights rt amount shares =
     (if amount < 0 then Inl ''invalid_amount''
      else if shares = [] then if amount \<noteq> 0 then Inl ''distribution_without_weights'' else Inr []
      else let ordered = js_sort (\<lambda>l r. localeCompare rt (wsId l) (wsId r)) shares in
        rbind (weight_total (map wsWeight ordered)) (\<lambda>weightTotal.
          if isZeroRational weightTotal
          then if amount \<noteq> 0 then Inl ''distribution_without_weights''
               else Inr (map (\<lambda>s. \<lparr>shId = wsId s, shAmount = 0\<rparr>) ordered)
          else rbind (result_map (share_row_of amount weightTotal) (map wsWeight ordered)) (\<lambda>rows.
            Inr (distribute_rows rt amount (map wsId ordered) rows))))"

subsection \<open>Exactness\<close>

text \<open>The number a rational stands for, and the representation \<open>rational\<close> returns.\<close>

definition rat_of :: "Rational \<Rightarrow> rat" where
  "rat_of r = of_int (rtNumerator r) / of_int (rtDenominator r)"

definition valid_rational :: "Rational \<Rightarrow> bool" where
  "valid_rational r \<longleftrightarrow> 0 < rtDenominator r \<and> coprime (rtNumerator r) (rtDenominator r)"

lemma gcd_loop_gcd: "0 \<le> a \<Longrightarrow> 0 \<le> b \<Longrightarrow> gcd_loop a b = gcd a b"
proof (induction a b rule: gcd_loop.induct)
  case (1 a b)
  show ?case
  proof (cases "b = 0")
    case False
    with 1 have "gcd_loop b (bigint_mod a b) = gcd b (a mod b)" by simp
    with False show ?thesis by (simp add: gcd_loop.simps [of a b] gcd_red_int [symmetric])
  qed (use 1 in \<open>simp add: gcd_loop.simps [of a 0]\<close>)
qed

lemma bigint_gcd_gcd: "d \<noteq> 0 \<Longrightarrow> bigint_gcd n d = gcd n d"
  by (simp add: bigint_gcd_def gcd_loop_gcd)

lemma rational_exact:
  assumes "d \<noteq> 0"
  obtains r where "rational n d = Inr r" and "valid_rational r" and "rat_of r = of_int n / of_int d"
proof -
  define n' d' where "n' = (if d < 0 then - n else n)" and "d' = \<bar>d\<bar>"
  let ?g = "gcd n' d'"
  let ?r = "\<lparr>rtNumerator = n' div ?g, rtDenominator = d' div ?g\<rparr>"
  have d': "0 < d'" and g: "0 < ?g" using assms by (simp_all add: d'_def)
  have "rational n d = Inr \<lparr>rtNumerator = bigint_div n' (bigint_gcd \<bar>n'\<bar> d'), rtDenominator = bigint_div d' (bigint_gcd \<bar>n'\<bar> d')\<rparr>"
    using assms unfolding rational_def n'_def d'_def Let_def by (simp add: abs_if)
  then have "rational n d = Inr ?r" using d' g by (simp add: bigint_gcd_gcd bigint_div_exact)
  moreover have "coprime (n' div ?g) (d' div ?g)" using d' by (intro div_gcd_coprime) simp
  then have "valid_rational ?r" using d' g by (simp add: valid_rational_def pos_imp_zdiv_pos_iff zdvd_imp_le)
  moreover have "of_int n' / of_int d' = (of_int n / of_int d :: rat)" by (simp add: n'_def d'_def)
  then have "rat_of ?r = of_int n / of_int d" using d' g by (simp add: rat_of_def of_int_div)
  ultimately show thesis using that by blast
qed

lemma valid_denominator: "valid_rational r \<Longrightarrow> rtDenominator r \<noteq> 0" "valid_rational r \<Longrightarrow> 0 < rtDenominator r"
  by (simp_all add: valid_rational_def)

lemma ZERO_RATIONAL_exact [simp]: "valid_rational ZERO_RATIONAL" "rat_of ZERO_RATIONAL = 0"
  by (simp_all add: ZERO_RATIONAL_def valid_rational_def rat_of_def)

lemma add_exact:
  assumes "valid_rational l" and "valid_rational r"
  obtains s where "addRational l r = Inr s" and "valid_rational s" and "rat_of s = rat_of l + rat_of r"
proof -
  have d: "rtDenominator l * rtDenominator r \<noteq> 0" using valid_denominator [OF assms(1)] valid_denominator [OF assms(2)] by simp
  obtain s where "addRational l r = Inr s" "valid_rational s" "rat_of s = of_int (rtNumerator l * rtDenominator r + rtNumerator r * rtDenominator l) / of_int (rtDenominator l * rtDenominator r)"
    unfolding addRational_def by (rule rational_exact [OF d])
  with d show thesis using that by (simp add: rat_of_def add_frac_eq)
qed

lemma subtract_exact:
  assumes "valid_rational l" and "valid_rational r"
  obtains s where "subtractRational l r = Inr s" and "valid_rational s" and "rat_of s = rat_of l - rat_of r"
proof -
  have d: "rtDenominator l * rtDenominator r \<noteq> 0" using valid_denominator [OF assms(1)] valid_denominator [OF assms(2)] by simp
  obtain s where "subtractRational l r = Inr s" "valid_rational s" "rat_of s = of_int (rtNumerator l * rtDenominator r - rtNumerator r * rtDenominator l) / of_int (rtDenominator l * rtDenominator r)"
    unfolding subtractRational_def by (rule rational_exact [OF d])
  with d show thesis using that by (simp add: rat_of_def diff_frac_eq)
qed

lemma multiply_exact:
  assumes "valid_rational l" and "valid_rational r"
  obtains s where "multiplyRational l r = Inr s" and "valid_rational s" and "rat_of s = rat_of l * rat_of r"
proof -
  have d: "rtDenominator l * rtDenominator r \<noteq> 0" using valid_denominator [OF assms(1)] valid_denominator [OF assms(2)] by simp
  obtain s where "multiplyRational l r = Inr s" "valid_rational s" "rat_of s = of_int (rtNumerator l * rtNumerator r) / of_int (rtDenominator l * rtDenominator r)"
    unfolding multiplyRational_def by (rule rational_exact [OF d])
  with d show thesis using that by (simp add: rat_of_def )
qed

lemma compare_exact:
  assumes "valid_rational l" and "valid_rational r"
  shows "compareRational l r = (if rat_of l < rat_of r then -1 else if rat_of l = rat_of r then 0 else 1)"
proof -
  note pos = valid_denominator [OF assms(1)] valid_denominator [OF assms(2)]
  have "rat_of l < rat_of r \<longleftrightarrow> rtNumerator l * rtDenominator r < rtNumerator r * rtDenominator l"
    unfolding rat_of_def using pos by (simp add: field_simps) (metis of_int_less_iff of_int_mult mult.commute)
  moreover have "rat_of l = rat_of r \<longleftrightarrow> rtNumerator l * rtDenominator r = rtNumerator r * rtDenominator l"
    unfolding rat_of_def using pos by (simp add: field_simps) (metis of_int_eq_iff of_int_mult mult.commute)
  ultimately show ?thesis by (auto simp: compareRational_def Let_def)
qed

text \<open>
  Claim C31. The arithmetic of money is exact: on rationals in lowest terms with positive denominator, adding,
  subtracting and multiplying never throw, and return the rational in lowest terms of the exact
  sum, difference and product; the comparison is that of the numbers.
\<close>

theorem rational_arithmetic_exact:
  assumes "valid_rational l" and "valid_rational r"
  shows "(\<exists>s. addRational l r = Inr s \<and> valid_rational s \<and> rat_of s = rat_of l + rat_of r)
    \<and> (\<exists>s. subtractRational l r = Inr s \<and> valid_rational s \<and> rat_of s = rat_of l - rat_of r)
    \<and> (\<exists>s. multiplyRational l r = Inr s \<and> valid_rational s \<and> rat_of s = rat_of l * rat_of r)
    \<and> compareRational l r = (if rat_of l < rat_of r then -1 else if rat_of l = rat_of r then 0 else 1)"
  using add_exact [OF assms] subtract_exact [OF assms] multiply_exact [OF assms] compare_exact [OF assms] by metis

lemma rational_sign:
  assumes "valid_rational r"
  shows "rtNumerator r < 0 \<longleftrightarrow> rat_of r < 0" "rtNumerator r = 0 \<longleftrightarrow> rat_of r = 0"
  using valid_denominator [OF assms] by (auto simp: rat_of_def divide_less_0_iff)

subsection \<open>Rounding\<close>

text \<open>The nearest integer, and the even one of two that are equally near.\<close>

definition nearest_even :: "rat \<Rightarrow> int \<Rightarrow> bool" where
  "nearest_even x q \<longleftrightarrow> \<bar>x - of_int q\<bar> < 1 / 2 \<or> \<bar>x - of_int q\<bar> = 1 / 2 \<and> even q"

lemma nearest_even_unique: "nearest_even x p \<Longrightarrow> nearest_even x q \<Longrightarrow> p = q"
proof -
  assume p: "nearest_even x p" and q: "nearest_even x q"
  then have "\<bar>x - of_int p\<bar> \<le> 1 / 2" "\<bar>x - of_int q\<bar> \<le> 1 / 2" unfolding nearest_even_def by linarith+
  then have "\<bar>of_int p - of_int q :: rat\<bar> \<le> 1" by linarith
  then have "\<bar>p - q\<bar> \<le> 1" by (simp flip: of_int_diff of_int_abs)
  moreover have "even p \<and> even q" if "\<bar>p - q\<bar> = 1"
  proof -
    have "\<bar>of_int p - of_int q :: rat\<bar> = 1" using that by (simp flip: of_int_diff of_int_abs)
    with p q show ?thesis unfolding nearest_even_def by linarith
  qed
  ultimately show "p = q" by presburger
qed

lemma roundHalfEven_nearest:
  assumes "0 \<le> n" and "0 < d"
  obtains q where "roundHalfEven n d = Inr q" and "nearest_even (of_int n / of_int d) q"
proof -
  let ?q = "n div d" and ?r = "n mod d"
  let ?up = "?r * 2 > d \<or> (?r * 2 = d \<and> ?q mod 2 \<noteq> 0)"
  let ?x = "of_int n / of_int d :: rat"
  have q0: "0 \<le> ?q" using assms by (simp add: pos_imp_zdiv_nonneg_iff)
  have round: "roundHalfEven n d = Inr (?q + (if ?up then 1 else 0))"
    using assms q0 by (simp add: roundHalfEven_def Let_def)
  have x: "?x = of_int ?q + of_int ?r / of_int d"
    using assms by (simp add: field_simps flip: of_int_mult of_int_add)
  have r: "0 \<le> ?r" "?r < d" using assms by simp_all
  define f :: rat where "f = of_int ?r / of_int d"
  have half: "f = 1 / 2 \<longleftrightarrow> ?r * 2 = d" "f < 1 / 2 \<longleftrightarrow> ?r * 2 < d"
    using assms of_int_eq_iff [of "?r * 2" d, where 'a = rat] of_int_less_iff [of "?r * 2" d, where 'a = rat]
    by (auto simp: f_def field_simps)
  have f: "0 \<le> f" "f < 1" unfolding f_def using r assms by simp_all
  have "nearest_even ?x (?q + (if ?up then 1 else 0))"
  proof (cases ?up)
    case True
    have "\<bar>?x - of_int (?q + 1)\<bar> = 1 - f" unfolding x f_def [symmetric] using f by simp
    moreover have "f = 1 / 2 \<and> odd ?q \<or> 1 / 2 < f" using True half by (auto simp: odd_iff_mod_2_eq_one)
    ultimately show ?thesis using True unfolding nearest_even_def by auto
  next
    case False
    have "\<bar>?x - of_int ?q\<bar> = f" unfolding x f_def [symmetric] using f by simp
    moreover have "f = 1 / 2 \<and> even ?q \<or> f < 1 / 2" using False half by (auto simp: even_iff_mod_2_eq_zero)
    ultimately show ?thesis using False unfolding nearest_even_def by auto
  qed
  with round show thesis using that by blast
qed

lemma roundHalfEven_iff:
  "roundHalfEven n d = Inr q \<longleftrightarrow> 0 \<le> n \<and> 0 < d \<and> nearest_even (of_int n / of_int d) q"
proof (cases "0 \<le> n \<and> 0 < d")
  case True
  then show ?thesis by (metis roundHalfEven_nearest nearest_even_unique Inr_inject)
qed (auto simp: roundHalfEven_def)

text \<open>
  Claim C26. An amount is rounded once: the charge for a cost in lowest terms exists exactly for a non-negative cost
  and a markup of 30 to 50 percent, and is the exact product, in millionths of a coin, rounded
  to the nearest integer with ties to the even one.
\<close>

theorem assessment_rounds_once:
  assumes "valid_rational cost"
  shows "assessRationalMicroCoin cost markup = Inr amount \<longleftrightarrow>
    0 \<le> rat_of cost \<and> 3000 \<le> markup \<and> markup \<le> 5000
    \<and> nearest_even (rat_of cost * (1 + of_int markup / 10000) / 1000) amount"
proof -
  have d: "0 < rtDenominator cost" using assms by (rule valid_denominator)
  have eq: "rat_of cost * (1 + of_int markup / 10000) / 1000
      = of_int (rtNumerator cost * (10000 + markup)) / of_int (rtDenominator cost * 10000000)"
    using d by (simp add: rat_of_def field_simps)
  have sign: "0 \<le> rat_of cost \<longleftrightarrow> 0 \<le> rtNumerator cost" using rational_sign(1) [OF assms] by linarith
  show ?thesis
    unfolding eq sign using d
    by (auto simp: assessRationalMicroCoin_def roundHalfEven_iff MIN_MARKUP_BPS_def MAX_MARKUP_BPS_def
        BASIS_POINTS_DENOMINATOR_def ASSESS_DENOMINATOR_def)
qed

subsection \<open>Decimal text\<close>

lemma digits_value_append: "digits_value (s @ t) = digits_value s * 10 ^ length t + digits_value t"
proof (induction t rule: rev_induct)
  case (snoc c t)
  have snoc: "digits_value (u @ [c]) = digits_value u * 10 + (of_char c - 48)" for u by (simp add: digits_value_def)
  show ?case using snoc [of "s @ t"] snoc [of t] snoc.IH by (simp add: algebra_simps)
qed (simp add: digits_value_def)

lemma digits_value_zeros [simp]: "digits_value (replicate n (CHR ''0'')) = 0"
  by (induction n) (simp_all add: digits_value_def)

lemma digits_value_show: "0 \<le> n \<Longrightarrow> digits_value (show_digits n) = n"
proof (induction n rule: show_digits.induct)
  case (1 n)
  have d: "digits_value [char_of (48 + k)] = k" if "0 \<le> k" "k < 10" for k :: int
    using that by (simp add: digits_value_def)
  show ?case
  proof (cases "n < 10")
    case True
    then show ?thesis using 1(2) d [of n] by (simp add: show_digits.simps [of n])
  next
    case False
    with 1 have "digits_value (show_digits (n div 10)) = n div 10" by simp
    then show ?thesis using False d [of "n mod 10"] by (simp add: show_digits.simps [of n] digits_value_append)
  qed
qed

lemma show_digits_digits: "0 \<le> n \<Longrightarrow> show_digits n \<noteq> [] \<and> list_all is_digit (show_digits n)"
proof (induction n rule: show_digits.induct)
  case (1 n)
  have d: "is_digit (char_of (48 + k))" if "0 \<le> k" "k < 10" for k :: int
    using that by (simp add: is_digit_code)
  show ?case
  proof (cases "n < 10")
    case True
    then show ?thesis using 1(2) d [of n] by (simp add: show_digits.simps [of n])
  next
    case False
    with 1 show ?thesis using d [of "n mod 10"] by (simp add: show_digits.simps [of n])
  qed
qed

lemma length_show_digits: "0 \<le> n \<Longrightarrow> n < 10 ^ k \<Longrightarrow> 0 < k \<Longrightarrow> length (show_digits n) \<le> k"
proof (induction n arbitrary: k rule: show_digits.induct)
  case (1 n)
  show ?case
  proof (cases "n < 10")
    case False
    then obtain m where k: "k = Suc m" "0 < m" using 1(3,4) by (cases k; cases "k - 1") auto
    have "n div 10 < 10 ^ m" using 1(3) k(1) by simp
    with 1 False k show ?thesis by (simp add: show_digits.simps [of n])
  qed (use 1 in \<open>simp add: show_digits.simps [of n]\<close>)
qed

lemma strip_zeros_split: "\<exists>k. s = strip_zeros s @ replicate k (CHR ''0'')"
proof -
  let ?z = "takeWhile (\<lambda>c. c = CHR ''0'') (rev s)"
  have "\<forall>x \<in> set ?z. x = CHR ''0''" by (auto dest: set_takeWhileD)
  then have z: "rev ?z = replicate (length ?z) (CHR ''0'')" by (metis replicate_length_same rev_replicate)
  have "rev (rev s) = rev (dropWhile (\<lambda>c. c = CHR ''0'') (rev s)) @ rev ?z" by (metis rev_append takeWhile_dropWhile_id)
  then have "s = strip_zeros s @ replicate (length ?z) (CHR ''0'')" unfolding strip_zeros_def z by simp
  then show ?thesis by blast
qed

lemma decimal_match_signed:
  assumes "all_digits whole" and "fraction = [] \<or> all_digits fraction"
  shows "decimal_match ((if negative then ''-'' else []) @ whole @ (if fraction = [] then [] else ''.'' @ fraction)) = Some (negative, whole, fraction)"
proof -
  let ?tail = "if fraction = [] then [] else ''.'' @ fraction"
  have tw: "takeWhile is_digit (whole @ ?tail) = whole" "dropWhile is_digit (whole @ ?tail) = ?tail"
    using assms(1) by (auto simp: all_digits_def list_all_iff takeWhile_append dropWhile_append is_digit_code)
  obtain c cs where w: "whole = c # cs" "is_digit c" using assms(1) by (cases whole) (auto simp: all_digits_def)
  then have "c \<noteq> CHR ''-''" by (auto simp: is_digit_code)
  with w have "\<not> startsWith (whole @ ?tail) ''-''" by (auto simp: startsWith_iff)
  moreover have "startsWith (''-'' @ whole @ ?tail) ''-''" by (simp only: startsWith_append)
  ultimately show ?thesis
    using tw assms w(1) by (cases negative) (auto simp: decimal_match_def Let_def)
qed

lemma trim_start_clean: "s \<noteq> [] \<Longrightarrow> \<not> js_space (hd s) \<Longrightarrow> trim_start s = s"
  by (cases s) (simp_all add: trim_start_def)

lemma trim_clean: "s \<noteq> [] \<Longrightarrow> \<not> js_space (hd s) \<Longrightarrow> \<not> js_space (last s) \<Longrightarrow> js_trim s = s"
  by (simp add: js_trim_def trim_start_clean hd_rev)

lemma digit_not_space: "is_digit c \<Longrightarrow> \<not> js_space c"
  by (auto simp: is_digit_code js_space_code Let_def)

text \<open>
  Claim C30. Amounts survive as text: what the formatter prints for a number of units and a scale, the parser
  reads back at that scale as the same number, negative numbers and scale zero included.
\<close>

theorem decimal_round_trip:
  assumes "formatDecimalUnits value decimals = Inr s"
  shows "parseDecimalUnits s decimals = Inr value"
proof -
  have k: "0 \<le> decimals" using assms by (auto simp: formatDecimalUnits_def split: if_splits)
  define n k where "n = \<bar>value\<bar>" and "k = nat decimals"
  define w f where "w = show_digits (n div 10 ^ k)" and "f = strip_zeros (padStart (show_digits (n mod 10 ^ k)) k)"
  have n: "0 \<le> n" by (simp add: n_def)
  have s: "s = (if value < 0 then ''-'' else []) @ w @ (if f = [] then [] else ''.'' @ f)"
    using assms k by (auto simp: formatDecimalUnits_def Let_def n_def k_def w_def f_def)
  have w: "all_digits w" "digits_value w = n div 10 ^ k"
    using n show_digits_digits digits_value_show by (simp_all add: w_def all_digits_def pos_imp_zdiv_nonneg_iff)
  let ?p = "padStart (show_digits (n mod 10 ^ k)) k"
  have p: "digits_value ?p = n mod 10 ^ k" "list_all is_digit ?p"
    using show_digits_digits [of "n mod 10 ^ k"] by (auto simp: padStart_def digits_value_append digits_value_show list_all_iff is_digit_code Let_def)
  obtain j where j: "?p = f @ replicate j (CHR ''0'')" using strip_zeros_split f_def by blast
  then have f: "f = [] \<or> all_digits f" using p(2) by (auto simp: all_digits_def)
  have padded: "length f \<le> k \<and> digits_value (padEnd f k) = n mod 10 ^ k \<and> length (padEnd f k) = k"
  proof (cases "k = 0")
    case True
    have "char_of (48 :: int) = CHR ''0''" using char_of_char [of "CHR ''0''", where 'a = int] by simp
    with True have "?p = ''0''" by (simp add: padStart_def show_digits.simps [of 0])
    then have "f = []" by (simp add: f_def strip_zeros_def)
    with True show ?thesis by (simp add: padEnd_def digits_value_def)
  next
    case False
    then have "length (show_digits (n mod 10 ^ k)) \<le> k" by (intro length_show_digits) simp_all
    then have "length ?p = k" by (simp add: padStart_def)
    moreover from this j have "padEnd f k = ?p" by (simp add: padEnd_def)
    ultimately show ?thesis using p(1) j by (metis le_add1 length_append)
  qed
  have clean: "js_trim s = s"
  proof (rule trim_clean)
    show "s \<noteq> []" using w(1) by (auto simp: s all_digits_def)
    have "\<not> js_space (CHR ''-'')" by (simp add: js_space_code)
    then show "\<not> js_space (hd s)" using w(1) by (cases w) (auto simp: s all_digits_def digit_not_space)
    show "\<not> js_space (last s)" using w(1) f by (auto simp: s all_digits_def list_all_iff intro!: digit_not_space)
  qed
  have "decimal_match s = Some (value < 0, w, f)" unfolding s using w(1) f by (rule decimal_match_signed)
  moreover have "digits_value (w @ padEnd f k) = n" using w(2) padded div_mult_mod_eq [of n "10 ^ k"] by (simp add: digits_value_append)
  ultimately show ?thesis
    using k padded clean by (auto simp: parseDecimalUnits_def signed_def n_def k_def)
qed

subsection \<open>Distribution\<close>

lemma result_map_total:
  assumes "\<And>x. x \<in> set xs \<Longrightarrow> \<exists>y. f x = Inr y \<and> P x y"
  obtains ys where "result_map f xs = Inr ys" and "list_all2 P xs ys"
proof -
  have "\<exists>ys. result_map f xs = Inr ys \<and> list_all2 P xs ys" using assms
  proof (induction xs)
    case (Cons x xs)
    then obtain y ys where "f x = Inr y" "P x y" "result_map f xs = Inr ys" "list_all2 P xs ys" by (metis list.set_intros)
    then show ?case by simp
  qed simp
  then show thesis using that by blast
qed

lemma sum_exact:
  assumes "valid_rational acc" and "list_all valid_rational ws"
  obtains t where "result_fold addRational acc ws = Inr t" and "valid_rational t" and "rat_of t = rat_of acc + sum_list (map rat_of ws)"
proof -
  have "\<exists>t. result_fold addRational acc ws = Inr t \<and> valid_rational t \<and> rat_of t = rat_of acc + sum_list (map rat_of ws)" using assms
  proof (induction ws arbitrary: acc)
    case (Cons w ws)
    then obtain s where "addRational acc w = Inr s" "valid_rational s" "rat_of s = rat_of acc + rat_of w"
      by (metis add_exact list.pred_inject(2))
    with Cons.IH [of s] Cons.prems(2) show ?case by (auto simp: add.assoc)
  qed simp
  then show thesis using that by blast
qed

lemma share_row_exact:
  assumes "0 \<le> amount" and "valid_rational weightTotal" and "0 < rat_of weightTotal" and "valid_rational w" and "0 \<le> rat_of w"
  obtains row where "share_row_of amount weightTotal w = Inr row"
    and "srBase row = \<lfloor>of_int amount * rat_of w / rat_of weightTotal\<rfloor>" and "0 \<le> srBase row"
proof -
  let ?x = "of_int amount * rat_of w / rat_of weightTotal"
  obtain t where t: "rational amount 1 = Inr t" "valid_rational t" "rat_of t = of_int amount" using rational_exact [of 1 amount] by auto
  obtain w' where w': "rational (rtNumerator w) (rtDenominator w) = Inr w'" "valid_rational w'" "rat_of w' = rat_of w"
    using rational_exact [of "rtDenominator w" "rtNumerator w"] valid_denominator [OF assms(4)] by (auto simp: rat_of_def)
  obtain e where e: "multiplyRational t w' = Inr e" "valid_rational e" "rat_of e = of_int amount * rat_of w"
    using multiply_exact [OF t(2) w'(2)] t(3) w'(3) by auto
  have "rtNumerator weightTotal \<noteq> 0" using assms(3) rational_sign(2) [OF assms(2)] by simp
  then have "rtDenominator e * rtNumerator weightTotal \<noteq> 0" using valid_denominator [OF e(2)] by simp
  then obtain s where s: "rational (rtNumerator e * rtDenominator weightTotal) (rtDenominator e * rtNumerator weightTotal) = Inr s"
      "valid_rational s" "rat_of s = of_int (rtNumerator e * rtDenominator weightTotal) / of_int (rtDenominator e * rtNumerator weightTotal)"
    by (rule rational_exact)
  have "rat_of s = rat_of e / rat_of weightTotal" by (simp add: s(3) rat_of_def [of e] rat_of_def [of weightTotal])
  then have x: "rat_of s = ?x" using e(3) by simp
  have "0 \<le> ?x" using assms by simp
  then have "0 \<le> rtNumerator s" using x rational_sign(1) [OF s(2)] by linarith
  then have "floorRational s = Inr (rtNumerator s div rtDenominator s)" using valid_denominator [OF s(2)] by (simp add: floorRational_def)
  moreover have "rtNumerator s div rtDenominator s = \<lfloor>rat_of s\<rfloor>" by (simp add: rat_of_def floor_divide_of_int_eq)
  then have "rtNumerator s div rtDenominator s = \<lfloor>?x\<rfloor>" by (simp only: x)
  moreover obtain b where b: "rational \<lfloor>?x\<rfloor> 1 = Inr b" "valid_rational b" using rational_exact [of 1 "\<lfloor>?x\<rfloor>"] by auto
  moreover obtain r where "subtractRational s b = Inr r" using subtract_exact [OF s(2) b(2)] by auto
  ultimately have "share_row_of amount weightTotal w = Inr \<lparr>srBase = \<lfloor>?x\<rfloor>, srRemainder = r\<rparr>"
    using t(1) w'(1) e(1) s(1) by (simp add: share_row_of_def)
  with \<open>0 \<le> ?x\<close> show thesis using that by simp
qed

lemma hand_out_length [simp]: "length (hand_out l is bases) = length bases"
  by (induction l "is" bases rule: hand_out.induct) auto

lemma hand_out_nth:
  "distinct is \<Longrightarrow> j < length bases \<Longrightarrow> hand_out l is bases ! j = bases ! j + (if j \<in> set (take (nat l) is) then 1 else 0)"
proof (induction l "is" bases rule: hand_out.induct)
  case (2 l i "is" bases)
  show ?case
  proof (cases "l \<le> 0")
    case False
    then have n: "nat l = Suc (nat (l - 1))" by simp
    show ?thesis using 2 False n by (cases "j = i") (auto dest: in_set_takeD)
  qed simp
qed simp

lemma sum_list_bump: "i < length xs \<Longrightarrow> sum_list (xs[i := xs ! i + 1]) = sum_list xs + (1 :: int)"
proof (induction xs arbitrary: i)
  case (Cons x xs)
  then show ?case by (cases i) auto
qed simp

lemma hand_out_sum:
  assumes "distinct is" and "\<forall>i \<in> set is. i < length bases" and "0 \<le> l" and "l \<le> int (length is)"
  shows "sum_list (hand_out l is bases) = sum_list bases + l"
  using assms
proof (induction l "is" bases rule: hand_out.induct)
  case (2 l i "is" bases)
  show ?case
  proof (cases "l \<le> 0")
    case True
    with 2 show ?thesis by simp
  next
    case False
    have "sum_list (bases[i := bases ! i + 1]) = sum_list bases + 1"
      using 2(3) by (intro sum_list_bump) simp
    with 2 False show ?thesis by auto
  qed
qed simp

lemma floor_sum_bounds:
  "of_int (sum_list (map floor xs)) \<le> sum_list (xs :: rat list)" "xs \<noteq> [] \<Longrightarrow> sum_list xs < of_int (sum_list (map floor xs)) + of_nat (length xs)"
proof -
  show "of_int (sum_list (map floor xs)) \<le> sum_list xs" by (induction xs) (auto intro: add_mono)
  have upper: "sum_list xs \<le> of_int (sum_list (map floor xs)) + of_nat (length xs)" for xs :: "rat list"
  proof (induction xs)
    case (Cons x xs)
    have "x \<le> of_int \<lfloor>x\<rfloor> + 1" by linarith
    with Cons show ?case by simp
  qed simp
  assume "xs \<noteq> []"
  then obtain y ys where xs: "xs = y # ys" by (cases xs) auto
  have "y < of_int \<lfloor>y\<rfloor> + 1" by linarith
  with upper [of ys] show "sum_list xs < of_int (sum_list (map floor xs)) + of_nat (length xs)" unfolding xs by simp
qed

text \<open>The exact share of a weight.\<close>

definition exact_share :: "int \<Rightarrow> rat \<Rightarrow> Rational \<Rightarrow> rat" where
  "exact_share amount whole w = of_int amount * rat_of w / whole"

lemma sum_shares: "sum_list (map (\<lambda>w. c * f w / t) ws) = c * sum_list (map f ws) / (t :: rat)"
  by (induction ws) (simp_all add: add_divide_distrib ring_distribs)

lemma distribute_rows_exact:
  assumes "ids \<noteq> []" and "length ws = length ids" and "0 < sum_list (map rat_of ws)" and "0 \<le> amount"
    and "map srBase rows = map (\<lambda>w. \<lfloor>exact_share amount (sum_list (map rat_of ws)) w\<rfloor>) ws"
  shows "sum_list (map shAmount (distribute_rows rt amount ids rows)) = amount"
    and "map shId (distribute_rows rt amount ids rows) = ids"
    and "list_all2 (\<lambda>w s. \<bar>of_int (shAmount s) - exact_share amount (sum_list (map rat_of ws)) w\<bar> \<le> 1) ws (distribute_rows rt amount ids rows)"
proof -
  let ?xs = "map (exact_share amount (sum_list (map rat_of ws))) ws"
  define bases order l where "bases = map srBase rows" and "order = js_sort (remainder_order rt ids rows) [0..<length rows]"
    and "l = amount - sum_list bases"
  have bases: "bases = map floor ?xs" unfolding bases_def assms(5) by (simp add: comp_def)
  have len: "length bases = length ids" "length rows = length ids" using assms(2) bases by (simp, metis assms(5) length_map)
  have "sum_list ?xs = of_int amount * sum_list (map rat_of ws) / sum_list (map rat_of ws)"
    unfolding exact_share_def by (rule sum_shares)
  then have whole: "sum_list ?xs = of_int amount" using assms(3) by simp
  have "?xs \<noteq> []" using assms(1,2) by auto
  then have l: "0 \<le> l" "l < int (length order)"
    using floor_sum_bounds [of ?xs] whole len unfolding l_def bases order_def by (simp_all add: comp_def)
  have order: "distinct order" "\<forall>i \<in> set order. i < length bases" using len by (simp_all add: order_def)
  have rows: "distribute_rows rt amount ids rows = map2 (\<lambda>i a. \<lparr>shId = i, shAmount = a\<rparr>) ids (hand_out l order bases)"
    by (simp add: distribute_rows_def Let_def bases_def order_def l_def)
  have amounts: "map shAmount (distribute_rows rt amount ids rows) = hand_out l order bases"
    unfolding rows using len by (simp add: comp_def case_prod_unfold map2_map_map flip: zip_map_fst_snd)
  show "sum_list (map shAmount (distribute_rows rt amount ids rows)) = amount"
    unfolding amounts using hand_out_sum [OF order l(1)] l(2) by (simp add: l_def)
  show "map shId (distribute_rows rt amount ids rows) = ids"
    unfolding rows using len by (simp add: comp_def case_prod_unfold)
  show "list_all2 (\<lambda>w s. \<bar>of_int (shAmount s) - exact_share amount (sum_list (map rat_of ws)) w\<bar> \<le> 1) ws (distribute_rows rt amount ids rows)"
  proof (rule list_all2_all_nthI)
    show "length ws = length (distribute_rows rt amount ids rows)" using assms(2) len by (simp add: rows)
    fix j assume j: "j < length ws"
    have "shAmount (distribute_rows rt amount ids rows ! j) = hand_out l order bases ! j"
      using j assms(2) len by (simp add: rows)
    also have "\<dots> = \<lfloor>exact_share amount (sum_list (map rat_of ws)) (ws ! j)\<rfloor> + (if j \<in> set (take (nat l) order) then 1 else 0)"
      using hand_out_nth [OF order(1)] j assms(2) len by (simp add: bases)
    finally show "\<bar>of_int (shAmount (distribute_rows rt amount ids rows ! j)) - exact_share amount (sum_list (map rat_of ws)) (ws ! j)\<bar> \<le> 1"
      by simp linarith
  qed
qed

lemma positive_total:
  assumes "list_all (\<lambda>w. 0 \<le> rat_of w) ws" and "list_ex (\<lambda>w. 0 < rat_of w) ws"
  shows "0 < sum_list (map rat_of ws)"
proof -
  have nonneg: "0 \<le> sum_list (map rat_of us)" if "list_all (\<lambda>w. 0 \<le> rat_of w) us" for us using that by (induction us) auto
  show ?thesis using assms
  proof (induction ws)
    case (Cons w ws)
    then show ?case using nonneg [of ws] by (auto intro: add_pos_nonneg add_nonneg_pos)
  qed simp
qed

text \<open>
  Claim C25. A total is distributed exactly: for a non-negative total and non-negative weights of which one is
  positive, every share gets one row, in collation order of the ids, the rows sum to the total, and
  each is within one unit of its exact proportion.
\<close>

theorem distribution_exact:
  assumes "0 \<le> amount" and "list_all (\<lambda>s. valid_rational (wsWeight s) \<and> 0 \<le> rat_of (wsWeight s)) shares"
    and "list_ex (\<lambda>s. 0 < rat_of (wsWeight s)) shares"
  shows "\<exists>rows. distributeByWeights rt amount shares = Inr rows \<and> sum_list (map shAmount rows) = amount
    \<and> list_all2 (\<lambda>s row. shId row = wsId s
         \<and> \<bar>of_int (shAmount row) - of_int amount * rat_of (wsWeight s) / (\<Sum>s \<leftarrow> shares. rat_of (wsWeight s))\<bar> \<le> 1)
       (js_sort (\<lambda>l r. localeCompare rt (wsId l) (wsId r)) shares) rows"
proof -
  define ordered where "ordered = js_sort (\<lambda>l r. localeCompare rt (wsId l) (wsId r)) shares"
  let ?ws = "map wsWeight ordered" and ?sum = "\<Sum>s \<leftarrow> shares. rat_of (wsWeight s)"
  have set: "set ordered = set shares" by (simp add: ordered_def)
  have "mset (map (\<lambda>s. rat_of (wsWeight s)) ordered) = mset (map (\<lambda>s. rat_of (wsWeight s)) shares)" by (simp add: ordered_def)
  then have sum: "sum_list (map rat_of ?ws) = ?sum" by (simp add: comp_def) (metis sum_mset_sum_list mset_map)
  have ne: "ordered \<noteq> []" "shares \<noteq> []" using assms(3) by (auto simp: ordered_def)
  have ok: "list_all valid_rational ?ws" "list_all (\<lambda>w. 0 \<le> rat_of w) ?ws" "list_ex (\<lambda>w. 0 < rat_of w) ?ws"
    using assms(2,3) set by (auto simp: list_all_iff list_ex_iff)
  have pos: "0 < sum_list (map rat_of ?ws)" by (rule positive_total [OF ok(2,3)])
  obtain t where t: "weight_total ?ws = Inr t" "valid_rational t" "rat_of t = sum_list (map rat_of ?ws)"
    unfolding weight_total_def by (rule sum_exact [OF _ ok(1), of ZERO_RATIONAL]) simp_all
  let ?share = "exact_share amount (sum_list (map rat_of ?ws))"
  have row: "\<exists>row. share_row_of amount t w = Inr row \<and> srBase row = \<lfloor>?share w\<rfloor>" if "w \<in> set ?ws" for w
    using share_row_exact [OF assms(1) t(2), of w] that ok pos t(3) unfolding exact_share_def list_all_iff by metis
  obtain rows where rows: "result_map (share_row_of amount t) ?ws = Inr rows" "list_all2 (\<lambda>w row. srBase row = \<lfloor>?share w\<rfloor>) ?ws rows"
    using result_map_total [of ?ws "share_row_of amount t" "\<lambda>w row. srBase row = \<lfloor>?share w\<rfloor>"] row by blast
  have bases: "map srBase rows = map (\<lambda>w. \<lfloor>?share w\<rfloor>) ?ws"
    using rows(2) by (auto simp: list_all2_conv_all_nth intro!: nth_equalityI)
  have "distributeByWeights rt amount shares = Inr (distribute_rows rt amount (map wsId ordered) rows)"
    using assms(1) ne t pos rows(1) rational_sign(2) [OF t(2)]
    by (simp add: distributeByWeights_def Let_def isZeroRational_def flip: ordered_def)
  moreover
  let ?rows = "distribute_rows rt amount (map wsId ordered) rows"
  have len: "map wsId ordered \<noteq> []" "length ?ws = length (map wsId ordered)" using ne by simp_all
  note exact = distribute_rows_exact [of "map wsId ordered" ?ws amount rows rt, OF len pos assms(1) bases]
  have "list_all2 (\<lambda>s row. shId row = wsId s \<and> \<bar>of_int (shAmount row) - of_int amount * rat_of (wsWeight s) / ?sum\<bar> \<le> 1) ordered ?rows"
  proof (rule list_all2_all_nthI)
    show l: "length ordered = length ?rows" using exact(2) by (metis length_map)
    fix j assume j: "j < length ordered"
    have "shId (?rows ! j) = wsId (ordered ! j)" using exact(2) j l by (metis nth_map)
    moreover have "\<bar>of_int (shAmount (?rows ! j)) - ?share (?ws ! j)\<bar> \<le> 1" using exact(3) j by (simp add: list_all2_conv_all_nth)
    ultimately show "shId (?rows ! j) = wsId (ordered ! j)
      \<and> \<bar>of_int (shAmount (?rows ! j)) - of_int amount * rat_of (wsWeight (ordered ! j)) / ?sum\<bar> \<le> 1"
      using j unfolding exact_share_def sum by simp
  qed
  ultimately show ?thesis using exact(1) unfolding ordered_def by blast
qed

text \<open>Nothing to weigh: only a zero total can be distributed.\<close>

lemma distribution_without_weights:
  "0 \<le> amount \<Longrightarrow> distributeByWeights rt amount [] = (if amount = 0 then Inr [] else Inl ''distribution_without_weights'')"
  by (simp add: distributeByWeights_def)

subsection \<open>Witnesses\<close>

definition third :: Rational where
  "third = \<lparr>rtNumerator = 1, rtDenominator = 3\<rparr>"

lemma third_valid: "valid_rational third" "rat_of third = 1 / 3"
  by (simp_all add: third_def valid_rational_def rat_of_def)

theorem rational_arithmetic_exact_witness:
  "\<exists>s. addRational third third = Inr s \<and> valid_rational s \<and> rat_of s = 2 / 3"
  using rational_arithmetic_exact [OF third_valid(1) third_valid(1)] third_valid(2) by auto

definition tie_cost :: Rational where
  "tie_cost = \<lparr>rtNumerator = 2500, rtDenominator = 1\<rparr>"

theorem assessment_rounds_once_witness: "assessRationalMicroCoin tie_cost 4000 = Inr 4"
proof -
  have "valid_rational tie_cost" by (simp add: tie_cost_def valid_rational_def)
  moreover have "rat_of tie_cost = 2500" by (simp add: tie_cost_def rat_of_def)
  ultimately show ?thesis using assessment_rounds_once [of tie_cost 4000 4] by (simp add: nearest_even_def)
qed

theorem decimal_round_trip_witness: "\<exists>s. formatDecimalUnits (-1250000) 6 = Inr s \<and> parseDecimalUnits s 6 = Inr (-1250000)"
  using decimal_round_trip [of "-1250000" 6] by (simp add: formatDecimalUnits_def Let_def)

definition sample_shares :: "WeightedShare list" where
  "sample_shares = [\<lparr>wsId = ''planning'', wsWeight = third\<rparr>, \<lparr>wsId = ''execution'', wsWeight = third\<rparr>, \<lparr>wsId = ''delivery'', wsWeight = third\<rparr>]"

theorem distribution_exact_witness:
  "\<exists>rows. distributeByWeights sample_runtime 100 sample_shares = Inr rows \<and> sum_list (map shAmount rows) = 100"
  using distribution_exact [of 100 sample_shares sample_runtime] by (auto simp: sample_shares_def third_valid)

end
