(* ===== verification/Billing_Policy.thy ===== *)
theory Billing_Policy
  imports Billing_Money Resource_Partition
begin

text \<open>
  Prices and cost policy (\<open>src/src/billing/pricing.ts\<close>, \<open>src/src/billing/cost-policy.ts\<close>, the exact
  quantities of \<open>src/src/metering/contracts.ts\<close>): immutable price books, the price of an
  observation, and who bears a cost.

  Resources and payers are strings, because the code tests them at run time. An absent optional
  reference is \<^const>\<open>None\<close>; the empty string counts as absent where the source tests truthiness.
\<close>

subsection \<open>Price keys\<close>

definition BILLING_RESOURCES :: "string list" where
  "BILLING_RESOURCES = [''model_tokens'', ''image'', ''search'', ''tool_request'', ''compute'', ''storage'', ''network'']"

definition isBillingResource :: "string \<Rightarrow> bool" where
  "isBillingResource v \<longleftrightarrow> v \<in> set BILLING_RESOURCES"

record price_scope =
  psAgentClassRef :: "string option"
  psProviderRef :: "string option"
  psModelId :: "string option"

definition priceKey :: "string \<Rightarrow> string \<Rightarrow> string result" where
  "priceKey resource metric = (if js_trim metric = [] then Inl ''invalid_metric'' else Inr (resource @ '':'' @ metric))"

definition scope_part :: "string \<Rightarrow> string option \<Rightarrow> string list" where
  "scope_part name v = (case v of None \<Rightarrow> [] | Some s \<Rightarrow> if s = [] then [] else [name @ ''='' @ encodeURIComponent s])"

definition scopedPriceKey :: "string \<Rightarrow> string \<Rightarrow> price_scope \<Rightarrow> string result" where
  "scopedPriceKey resource metric sc =
     (let scope = scope_part ''agent'' (psAgentClassRef sc) @ scope_part ''provider'' (psProviderRef sc) @ scope_part ''model'' (psModelId sc) in
      rbind (priceKey resource metric) (\<lambda>key. Inr (key @ (if scope \<noteq> [] then ''|'' @ js_join ''|'' scope else []))))"

subsection \<open>Price books\<close>

record PriceUnit =
  puResource :: string
  puMetric :: string
  puScope :: price_scope
  puSourceCurrency :: "string option"
  puNanoCnyPerUnit :: Rational

record ExchangeRate =
  erSourceCurrency :: string
  erNanoCnyPerSourceUnit :: Rational
  erEffectiveFrom :: string

record price_book_head =
  pbPriceBookVersion :: string
  pbFeePolicyVersion :: string
  pbMarkupBps :: int
  pbEffectiveFrom :: string
  pbExchangeRate :: "ExchangeRate option"

record PriceBookVersionInput = price_book_head +
  piUnits :: "PriceUnit list"

record PriceBookVersion = price_book_head +
  pbUnits :: "(string \<times> PriceUnit) list"

definition requireNonEmpty :: "string \<Rightarrow> string \<Rightarrow> string result" where
  "requireNonEmpty v label = (if js_trim v = [] then Inl (''invalid_'' @ label) else Inr v)"

definition present :: "string option \<Rightarrow> string option" where
  "present v = (case v of None \<Rightarrow> None | Some s \<Rightarrow> if s = [] then None else Some s)"

definition stored_unit :: "PriceUnit \<Rightarrow> PriceUnit" where
  "stored_unit u = u\<lparr>puScope := \<lparr>psAgentClassRef = present (psAgentClassRef (puScope u)),
     psProviderRef = present (psProviderRef (puScope u)), psModelId = present (psModelId (puScope u))\<rparr>\<rparr>"

text \<open>The only currency of a price book is \<open>CNY\<close>.\<close>

definition currency_guard :: "ExchangeRate option \<Rightarrow> string option \<Rightarrow> unit result" where
  "currency_guard rate currency = (case present currency of
     None \<Rightarrow> Inr ()
   | Some c \<Rightarrow> if c = ''CNY'' then Inr ()
       else (case rate of None \<Rightarrow> Inl (''missing_exchange_rate:'' @ c)
         | Some r \<Rightarrow> if erSourceCurrency r \<noteq> c then Inl (''missing_exchange_rate:'' @ c) else Inr ()))"

definition add_unit :: "ExchangeRate option \<Rightarrow> (string \<times> PriceUnit) list \<Rightarrow> PriceUnit \<Rightarrow> (string \<times> PriceUnit) list result" where
  "add_unit rate units u =
     (if \<not> isBillingResource (puResource u) then Inl ''invalid_resource''
      else rbind (scopedPriceKey (puResource u) (puMetric u) (puScope u)) (\<lambda>key.
        if key \<in> fst ` set units then Inl (''duplicate_price_unit:'' @ key)
        else if isNegativeRational (puNanoCnyPerUnit u) then Inl (''negative_unit_price:'' @ key)
        else rbind (currency_guard rate (puSourceCurrency u)) (\<lambda>_. Inr (units @ [(key, stored_unit u)]))))"

definition createPriceBookVersion :: "PriceBookVersionInput \<Rightarrow> PriceBookVersion result" where
  "createPriceBookVersion input =
     rbind (requireNonEmpty (pbPriceBookVersion input) ''price_book_version'') (\<lambda>_.
     rbind (requireNonEmpty (pbFeePolicyVersion input) ''fee_policy_version'') (\<lambda>_.
     rbind (requireNonEmpty (pbEffectiveFrom input) ''effective_from'') (\<lambda>_.
       if pbMarkupBps input < MIN_MARKUP_BPS \<or> pbMarkupBps input > MAX_MARKUP_BPS then Inl ''invalid_markup''
       else rbind (result_fold (add_unit (pbExchangeRate input)) [] (piUnits input)) (\<lambda>units.
         Inr (price_book_head.extend (price_book_head.truncate input) \<lparr>pbUnits = units\<rparr>)))))"

subsection \<open>The price of an observation\<close>

record PricedUsage =
  usResource :: string
  usMetric :: string
  usQuantity :: Rational
  usSourceCurrency :: "string option"
  usScope :: price_scope

record PricedCost =
  pcPriceKey :: string
  pcUnitPriceNanoCny :: Rational
  pcCostNanoCny :: Rational

definition no_scope :: price_scope where
  "no_scope = \<lparr>psAgentClassRef = None, psProviderRef = None, psModelId = None\<rparr>"

definition price_candidates :: "price_scope \<Rightarrow> price_scope list" where
  "price_candidates sc = [sc, sc\<lparr>psAgentClassRef := None\<rparr>, no_scope\<lparr>psModelId := psModelId sc\<rparr>, no_scope]"

fun first_unit :: "PriceBookVersion \<Rightarrow> string \<Rightarrow> string \<Rightarrow> price_scope list \<Rightarrow> PriceUnit option result" where
  "first_unit book resource metric [] = Inr None"
| "first_unit book resource metric (c # cs) = rbind (scopedPriceKey resource metric c) (\<lambda>key.
     case map_of (pbUnits book) key of Some u \<Rightarrow> Inr (Some u) | None \<Rightarrow> first_unit book resource metric cs)"

definition findPriceUnit :: "PriceBookVersion \<Rightarrow> string \<Rightarrow> string \<Rightarrow> price_scope \<Rightarrow> PriceUnit option result" where
  "findPriceUnit book resource metric sc = first_unit book resource metric (price_candidates sc)"

text \<open>The exchange-rate branch: \<open>unit.sourceCurrency\<close> set, or the usage in a foreign currency.\<close>

definition convert_cost :: "PriceBookVersion \<Rightarrow> PriceUnit \<Rightarrow> string option \<Rightarrow> Rational \<Rightarrow> Rational result" where
  "convert_cost book u usageCurrency v = (case present (puSourceCurrency u) of
     Some c \<Rightarrow>
       if usageCurrency \<noteq> Some c then Inl (''currency_mismatch:'' @ c)
       else (case pbExchangeRate book of
           None \<Rightarrow> Inl (''missing_exchange_rate:'' @ c)
         | Some r \<Rightarrow> if erSourceCurrency r \<noteq> c then Inl (''missing_exchange_rate:'' @ c)
             else multiplyRational v (erNanoCnyPerSourceUnit r))
   | None \<Rightarrow> (case present usageCurrency of
         None \<Rightarrow> Inr v
       | Some c \<Rightarrow> if c \<noteq> ''CNY'' then Inl (''missing_exchange_rate:'' @ c) else Inr v))"

definition costForUsage :: "PriceBookVersion \<Rightarrow> PricedUsage \<Rightarrow> PricedCost option result" where
  "costForUsage book usage =
     rbind (findPriceUnit book (usResource usage) (usMetric usage) (usScope usage)) (\<lambda>found.
       case found of None \<Rightarrow> Inr None
       | Some u \<Rightarrow>
           if isNegativeRational (usQuantity usage)
           then rbind (priceKey (usResource usage) (usMetric usage)) (\<lambda>key. Inl (''negative_quantity:'' @ key))
           else rbind (multiplyRational (puNanoCnyPerUnit u) (usQuantity usage)) (\<lambda>v.
                rbind (convert_cost book u (usSourceCurrency usage) v) (\<lambda>cost.
                rbind (scopedPriceKey (usResource usage) (usMetric usage) (usScope usage)) (\<lambda>key.
                  Inr (Some \<lparr>pcPriceKey = key, pcUnitPriceNanoCny = puNanoCnyPerUnit u, pcCostNanoCny = cost\<rparr>)))))"

definition sumCostNanoCny :: "Rational list \<Rightarrow> Rational result" where
  "sumCostNanoCny costs = result_fold addRational ZERO_RATIONAL costs"

definition integer_match :: "string \<Rightarrow> (bool \<times> string) option" where
  "integer_match s = (let negative = startsWith s ''-''; body = (if negative then tl s else s) in
     if all_digits body then Some (negative, body) else None)"

definition fraction_match :: "string \<Rightarrow> (int \<times> int) option" where
  "fraction_match s = (let n = takeWhile (\<lambda>c. c \<noteq> CHR ''/'') s; rest = dropWhile (\<lambda>c. c \<noteq> CHR ''/'') s in
     if rest = [] \<or> \<not> all_digits (tl rest) then None
     else map_option (\<lambda>(negative, body). (signed negative (digits_value body), digits_value (tl rest))) (integer_match n))"

definition rationalFromDecimalString :: "string \<Rightarrow> int \<Rightarrow> Rational result" where
  "rationalFromDecimalString text decimals =
     (let trimmed = js_trim text in
      case fraction_match trimmed of
        Some (n, d) \<Rightarrow> rational n d
      | None \<Rightarrow> (case decimal_match trimmed of
          None \<Rightarrow> Inl ''invalid_decimal_amount''
        | Some (negative, whole, fraction) \<Rightarrow>
            if 0 < decimals \<and> int (length fraction) > decimals then Inl ''amount_precision_exceeded''
            else rational (signed negative (digits_value (whole @ fraction))) (10 ^ length fraction)))"

subsection \<open>Exact quantities\<close>

record ExactQuantity =
  eqNumerator :: string
  eqDenominator :: string

definition show_bigint :: "int \<Rightarrow> string" where
  "show_bigint n = (if n < 0 then ''-'' @ show_digits (- n) else show_digits n)"

definition exactQuantityFromRational :: "Rational \<Rightarrow> ExactQuantity" where
  "exactQuantityFromRational v = \<lparr>eqNumerator = show_bigint (rtNumerator v), eqDenominator = show_bigint (rtDenominator v)\<rparr>"

definition read_bigint :: "string \<Rightarrow> int option" where
  "read_bigint s = map_option (\<lambda>(negative, body). signed negative (digits_value body)) (integer_match s)"

definition rationalFromExactQuantity :: "ExactQuantity \<Rightarrow> Rational result" where
  "rationalFromExactQuantity v = (case (read_bigint (eqNumerator v), read_bigint (eqDenominator v)) of
     (Some n, Some d) \<Rightarrow> rational n d | _ \<Rightarrow> Inl ''invalid_quantity'')"

subsection \<open>Who bears a cost\<close>

definition PAYERS :: "string list" where
  "PAYERS = [''platform'', ''user_direct'', ''system'', ''unknown'']"

datatype CostDisposition = Eligible | Absorbed | PendingCost

definition METAWORK_EXECUTION_RESOURCES :: "string list" where
  "METAWORK_EXECUTION_RESOURCES = [''compute'', ''storage'', ''network'', ''tool_request'']"

record CostClassificationInput =
  ciPayer :: string
  ciResource :: string
  ciHasPrice :: bool
  ciQuantityIsEstimate :: bool
  ciUsageUnavailable :: bool
  ciPlatformBorneDefect :: bool
  ciMetaWorkProvidedResource :: bool

record CostClassification =
  ccDisposition :: CostDisposition
  ccBillableBase :: bool
  ccReason :: string

abbreviation (input) classified :: "CostDisposition \<Rightarrow> string \<Rightarrow> CostClassification" where
  "classified d reason \<equiv> \<lparr>ccDisposition = d, ccBillableBase = (d = Eligible), ccReason = reason\<rparr>"

definition classifyCostEntry :: "CostClassificationInput \<Rightarrow> CostClassification result" where
  "classifyCostEntry i =
     (if ciPayer i \<notin> set PAYERS then Inl ''invalid_payer''
      else if ciUsageUnavailable i then Inr (classified PendingCost ''usage_unavailable'')
      else if \<not> ciHasPrice i then Inr (classified PendingCost ''price_unavailable'')
      else if ciQuantityIsEstimate i then Inr (classified PendingCost ''estimated_quantity'')
      else if ciPayer i = ''user_direct''
      then Inr (if ciMetaWorkProvidedResource i \<and> ciResource i \<in> set METAWORK_EXECUTION_RESOURCES
                then classified Eligible ''user_direct_model_metawork_resource'' else classified Absorbed ''user_direct_payer'')
      else if ciPayer i = ''system'' then Inr (classified Absorbed ''system_cost'')
      else if ciPayer i = ''unknown'' then Inr (classified PendingCost ''payer_unknown'')
      else Inr (if ciPlatformBorneDefect i then classified Absorbed ''platform_defect_absorbed'' else classified Eligible ''platform_payer''))"

record PlatformAbsorptionDecision =
  paReason :: string
  paAuthorizedBy :: string
  paDecidedAt :: string
  paMissingCategories :: "string list"

definition validatePlatformAbsorption :: "PlatformAbsorptionDecision \<Rightarrow> PlatformAbsorptionDecision result" where
  "validatePlatformAbsorption d =
     (if js_trim (paReason d) = [] then Inl ''invalid_absorption_reason''
      else if js_trim (paAuthorizedBy d) = [] then Inl ''invalid_absorption_authorizer''
      else if js_trim (paDecidedAt d) = [] then Inl ''invalid_absorption_time''
      else if paMissingCategories d = [] then Inl ''invalid_absorption_categories''
      else Inr d)"

subsection \<open>Properties of prices\<close>

text \<open>The units of an accepted book, by the key they are found under.\<close>

definition units_ok :: "ExchangeRate option \<Rightarrow> PriceUnit list \<Rightarrow> (string \<times> PriceUnit) list \<Rightarrow> bool" where
  "units_ok rate inputs units \<longleftrightarrow> distinct (map fst units) \<and> map snd units = map stored_unit inputs
     \<and> (\<forall>(key, u) \<in> set units. isBillingResource (puResource u) \<and> \<not> isNegativeRational (puNanoCnyPerUnit u)
          \<and> currency_guard rate (puSourceCurrency u) = Inr ())"

lemma stored_unit_simps [simp]:
  "puResource (stored_unit u) = puResource u" "puNanoCnyPerUnit (stored_unit u) = puNanoCnyPerUnit u" "puSourceCurrency (stored_unit u) = puSourceCurrency u"
  by (simp_all add: stored_unit_def)

lemma add_unit_ok:
  assumes "units_ok rate inputs units" and "add_unit rate units u = Inr units'"
  shows "units_ok rate (inputs @ [u]) units'"
  using assms by (auto simp: units_ok_def add_unit_def split: if_splits)

lemma fold_units_ok:
  "result_fold (add_unit rate) units us = Inr units' \<Longrightarrow> units_ok rate inputs units \<Longrightarrow> units_ok rate (inputs @ us) units'"
proof (induction us arbitrary: units inputs)
  case (Cons u us)
  then obtain units1 where "add_unit rate units u = Inr units1" "result_fold (add_unit rate) units1 us = Inr units'" by auto
  with Cons.IH [OF this(2), of "inputs @ [u]"] add_unit_ok Cons.prems(2) show ?case by fastforce
qed simp

lemma created_book:
  assumes "createPriceBookVersion input = Inr book"
  shows "units_ok (pbExchangeRate book) (piUnits input) (pbUnits book)" and "MIN_MARKUP_BPS \<le> pbMarkupBps book" and "pbMarkupBps book \<le> MAX_MARKUP_BPS"
    and "pbExchangeRate book = pbExchangeRate input"
proof -
  from assms obtain units where u: "result_fold (add_unit (pbExchangeRate input)) [] (piUnits input) = Inr units"
    and m: "\<not> pbMarkupBps input < MIN_MARKUP_BPS" "\<not> pbMarkupBps input > MAX_MARKUP_BPS"
    and b: "book = price_book_head.extend (price_book_head.truncate input) \<lparr>pbUnits = units\<rparr>"
    by (auto simp: createPriceBookVersion_def split: if_splits)
  have "units_ok (pbExchangeRate input) ([] @ piUnits input) units" by (rule fold_units_ok [OF u]) (simp add: units_ok_def)
  with m b show "units_ok (pbExchangeRate book) (piUnits input) (pbUnits book)" "MIN_MARKUP_BPS \<le> pbMarkupBps book"
    "pbMarkupBps book \<le> MAX_MARKUP_BPS" "pbExchangeRate book = pbExchangeRate input"
    by (simp_all add: price_book_head.defs)
qed

lemma first_unit_found:
  "first_unit book r m cs = Inr (Some u) \<Longrightarrow> \<exists>key. map_of (pbUnits book) key = Some u"
  by (induction cs) (auto split: option.splits)

lemma found_unit_input:
  assumes "createPriceBookVersion input = Inr book" and "findPriceUnit book r m sc = Inr (Some u)"
  shows "\<exists>i \<in> set (piUnits input). u = stored_unit i" and "\<not> isNegativeRational (puNanoCnyPerUnit u)"
    and "currency_guard (pbExchangeRate book) (puSourceCurrency u) = Inr ()"
proof -
  obtain key where "(key, u) \<in> set (pbUnits book)"
    using first_unit_found assms(2) unfolding findPriceUnit_def by (metis map_of_SomeD)
  moreover from this have "u \<in> set (map snd (pbUnits book))" by force
  moreover have stored: "map snd (pbUnits book) = map stored_unit (piUnits input)"
    using created_book(1) [OF assms(1)] by (simp add: units_ok_def)
  ultimately have "u \<in> set (map stored_unit (piUnits input))" by (simp only: stored)
  moreover note \<open>(key, u) \<in> set (pbUnits book)\<close>
  ultimately show "\<exists>i \<in> set (piUnits input). u = stored_unit i" "\<not> isNegativeRational (puNanoCnyPerUnit u)"
    "currency_guard (pbExchangeRate book) (puSourceCurrency u) = Inr ()"
    using created_book(1) [OF assms(1)] by (auto simp: units_ok_def)
qed

definition rate_of :: "PriceBookVersion \<Rightarrow> PriceUnit \<Rightarrow> rat" where
  "rate_of book u = (case (present (puSourceCurrency u), pbExchangeRate book) of
     (Some c, Some r) \<Rightarrow> rat_of (erNanoCnyPerSourceUnit r) | _ \<Rightarrow> 1)"

lemma convert_cost_exact:
  assumes "convert_cost book u currency v = Inr cost" and "valid_rational v"
    and "\<And>r. pbExchangeRate book = Some r \<Longrightarrow> valid_rational (erNanoCnyPerSourceUnit r)"
  shows "valid_rational cost \<and> rat_of cost = rat_of v * rate_of book u"
proof (cases "present (puSourceCurrency u)")
  case None
  with assms(1,2) show ?thesis by (auto simp: convert_cost_def rate_of_def split: option.splits if_splits)
next
  case (Some c)
  with assms(1) obtain r where r: "pbExchangeRate book = Some r" "multiplyRational v (erNanoCnyPerSourceUnit r) = Inr cost"
    by (auto simp: convert_cost_def split: option.splits if_splits)
  with multiply_exact [OF assms(2) assms(3) [OF r(1)]] Some show ?thesis by (auto simp: rate_of_def)
qed

text \<open>
  Claim C29. A price is exact: in a book made from units and a rate in lowest terms, the cost of an observation is
  the price of the unit found for it times the quantity, times the rate if the unit has a
  currency, with no rounding. It is non-negative when the rate is; the book itself does not demand that.
\<close>

theorem priced_cost_exact:
  assumes "createPriceBookVersion input = Inr book" and "list_all (\<lambda>u. valid_rational (puNanoCnyPerUnit u)) (piUnits input)"
    and "\<And>r. pbExchangeRate input = Some r \<Longrightarrow> valid_rational (erNanoCnyPerSourceUnit r)"
    and "valid_rational (usQuantity usage)" and "costForUsage book usage = Inr (Some c)"
  shows "\<exists>u. findPriceUnit book (usResource usage) (usMetric usage) (usScope usage) = Inr (Some u) \<and> valid_rational (pcCostNanoCny c)
    \<and> rat_of (pcCostNanoCny c) = rat_of (puNanoCnyPerUnit u) * rat_of (usQuantity usage) * rate_of book u
    \<and> (0 \<le> rate_of book u \<longrightarrow> 0 \<le> rat_of (pcCostNanoCny c))"
proof -
  from assms(5) obtain u v cost where u: "findPriceUnit book (usResource usage) (usMetric usage) (usScope usage) = Inr (Some u)"
    and q: "\<not> isNegativeRational (usQuantity usage)" and v: "multiplyRational (puNanoCnyPerUnit u) (usQuantity usage) = Inr v"
    and cost: "convert_cost book u (usSourceCurrency usage) v = Inr cost" and c: "pcCostNanoCny c = cost"
    by (auto simp: costForUsage_def split: option.splits if_splits)
  obtain i where "i \<in> set (piUnits input)" "u = stored_unit i" using found_unit_input(1) [OF assms(1) u] by blast
  then have p: "valid_rational (puNanoCnyPerUnit u)" "0 \<le> rat_of (puNanoCnyPerUnit u)"
    using assms(2) found_unit_input(2) [OF assms(1) u] rational_sign(1) by (auto simp: list_all_iff isNegativeRational_def not_less)
  have q0: "0 \<le> rat_of (usQuantity usage)" using q rational_sign(1) [OF assms(4)] by (simp add: isNegativeRational_def not_less)
  have v': "valid_rational v" "rat_of v = rat_of (puNanoCnyPerUnit u) * rat_of (usQuantity usage)"
    using multiply_exact [OF p(1) assms(4)] v by auto
  note rate = assms(3) created_book(4) [OF assms(1)]
  have "valid_rational cost \<and> rat_of cost = rat_of v * rate_of book u" using convert_cost_exact [OF cost v'(1)] rate by simp
  then show ?thesis using u c v' p(2) q0 by auto
qed

text \<open>
  A unit priced explicitly in the currency of the book is accepted without an exchange rate, and no
  observation it applies to can be priced: the cost function throws for every quantity.
\<close>

lemma cny_unit_never_priced:
  assumes "createPriceBookVersion input = Inr book" and "findPriceUnit book (usResource usage) (usMetric usage) (usScope usage) = Inr (Some u)"
    and "puSourceCurrency u = Some ''CNY''" and "pbExchangeRate input = None"
  shows "\<exists>e. costForUsage book usage = Inl e"
proof -
  have "convert_cost book u currency v = Inl (if currency \<noteq> Some ''CNY'' then ''currency_mismatch:CNY'' else ''missing_exchange_rate:CNY'')" for currency v
    using assms(3,4) created_book(4) [OF assms(1)] by (simp add: convert_cost_def present_def)
  then show ?thesis
    using assms(2) by (cases "multiplyRational (puNanoCnyPerUnit u) (usQuantity usage)"; cases "priceKey (usResource usage) (usMetric usage)")
      (auto simp: costForUsage_def)
qed

text \<open>
  Only trusted usage is charged: the base includes a cost only if it has a price and a
  measured quantity, and the platform pays without being at fault, or the user pays the model
  and the resource is one that MetaWork runs.
\<close>

lemma billable_only_if_trusted:
  assumes "classifyCostEntry i = Inr c"
  shows "ccBillableBase c \<longleftrightarrow> ciHasPrice i \<and> \<not> ciQuantityIsEstimate i \<and> \<not> ciUsageUnavailable i
    \<and> (ciPayer i = ''platform'' \<and> \<not> ciPlatformBorneDefect i
       \<or> ciPayer i = ''user_direct'' \<and> ciMetaWorkProvidedResource i \<and> ciResource i \<in> set METAWORK_EXECUTION_RESOURCES)"
  using assms by (auto simp: classifyCostEntry_def PAYERS_def split: if_splits)

text \<open>Exact quantities survive as text.\<close>

lemma read_show_bigint: "read_bigint (show_bigint n) = Some n"
proof -
  have digits: "integer_match (show_digits m) = Some (False, show_digits m)" "integer_match (''-'' @ show_digits m) = Some (True, show_digits m)" if "0 \<le> m" for m
  proof -
    note d = show_digits_digits [OF that]
    obtain c cs where "show_digits m = c # cs" "is_digit c" using d by (cases "show_digits m") auto
    then have "\<not> startsWith (show_digits m) ''-''" by (auto simp: startsWith_iff is_digit_code)
    then show "integer_match (show_digits m) = Some (False, show_digits m)" "integer_match (''-'' @ show_digits m) = Some (True, show_digits m)"
      using d by (simp_all add: integer_match_def all_digits_def startsWith_def)
  qed
  show ?thesis using digits [of n] digits [of "- n"] digits_value_show [of n] digits_value_show [of "- n"]
    by (cases "n < 0") (simp_all add: show_bigint_def read_bigint_def signed_def)
qed

lemma rational_lowest:
  assumes "valid_rational r"
  shows "rational (rtNumerator r) (rtDenominator r) = Inr r"
proof -
  have d: "0 < rtDenominator r" and g: "gcd (rtNumerator r) (rtDenominator r) = 1" using assms by (auto simp: valid_rational_def)
  then show ?thesis by (cases r) (auto simp: rational_def Let_def bigint_gcd_gcd bigint_div_exact)
qed

lemma exact_quantity_round_trip: "valid_rational v \<Longrightarrow> rationalFromExactQuantity (exactQuantityFromRational v) = Inr v"
  by (simp add: rationalFromExactQuantity_def exactQuantityFromRational_def read_show_bigint rational_lowest)

subsection \<open>Witnesses\<close>

definition sample_unit :: "string option \<Rightarrow> PriceUnit" where
  "sample_unit currency = \<lparr>puResource = ''model_tokens'', puMetric = ''input'', puScope = no_scope, puSourceCurrency = currency, puNanoCnyPerUnit = third\<rparr>"

definition sample_book_input :: "string option \<Rightarrow> PriceBookVersionInput" where
  "sample_book_input currency = \<lparr>pbPriceBookVersion = ''v1'', pbFeePolicyVersion = ''f1'', pbMarkupBps = 3000, pbEffectiveFrom = ''1970'',
     pbExchangeRate = None, piUnits = [sample_unit currency]\<rparr>"

definition sample_book :: "string option \<Rightarrow> PriceBookVersion" where
  "sample_book currency = \<lparr>pbPriceBookVersion = ''v1'', pbFeePolicyVersion = ''f1'', pbMarkupBps = 3000, pbEffectiveFrom = ''1970'',
     pbExchangeRate = None, pbUnits = [(''model_tokens:input'', sample_unit currency)]\<rparr>"

definition sample_usage :: PricedUsage where
  "sample_usage = \<lparr>usResource = ''model_tokens'', usMetric = ''input'', usQuantity = tie_cost, usSourceCurrency = None, usScope = no_scope\<rparr>"

lemma sample_key: "scopedPriceKey ''model_tokens'' ''input'' no_scope = Inr ''model_tokens:input''"
  by (simp add: scopedPriceKey_def priceKey_def scope_part_def no_scope_def js_trim_def trim_start_def js_space_code)

lemma stored_sample [simp]: "stored_unit (sample_unit c) = sample_unit c"
  by (simp add: stored_unit_def sample_unit_def no_scope_def present_def)

lemma sample_unit_simps [simp]:
  "puResource (sample_unit c) = ''model_tokens''" "puMetric (sample_unit c) = ''input''" "puScope (sample_unit c) = no_scope"
  "puSourceCurrency (sample_unit c) = c" "puNanoCnyPerUnit (sample_unit c) = third"
  by (simp_all add: sample_unit_def)

lemma sample_book_created:
  "createPriceBookVersion (sample_book_input None) = Inr (sample_book None)"
  "createPriceBookVersion (sample_book_input (Some ''CNY'')) = Inr (sample_book (Some ''CNY''))"
  by (simp_all add: createPriceBookVersion_def sample_book_input_def sample_book_def requireNonEmpty_def js_trim_def trim_start_def js_space_code
      MIN_MARKUP_BPS_def MAX_MARKUP_BPS_def add_unit_def isBillingResource_def BILLING_RESOURCES_def sample_key
      isNegativeRational_def third_def currency_guard_def present_def price_book_head.defs)

lemma sample_found: "findPriceUnit (sample_book currency) ''model_tokens'' ''input'' no_scope = Inr (Some (sample_unit currency))"
  by (simp add: findPriceUnit_def price_candidates_def sample_key sample_book_def)

theorem priced_cost_exact_witness:
  "\<exists>c. costForUsage (sample_book None) sample_usage = Inr (Some c) \<and> rat_of (pcCostNanoCny c) = 2500 / 3"
proof -
  have q: "valid_rational (usQuantity sample_usage)" by (simp add: sample_usage_def tie_cost_def valid_rational_def)
  obtain v where "multiplyRational third tie_cost = Inr v" using multiply_exact [OF third_valid(1), of tie_cost] q by (auto simp: sample_usage_def)
  then have c: "costForUsage (sample_book None) sample_usage
      = Inr (Some \<lparr>pcPriceKey = ''model_tokens:input'', pcUnitPriceNanoCny = third, pcCostNanoCny = v\<rparr>)"
    by (simp add: costForUsage_def sample_usage_def sample_found convert_cost_def present_def sample_key isNegativeRational_def tie_cost_def)
  moreover have "list_all (\<lambda>u. valid_rational (puNanoCnyPerUnit u)) (piUnits (sample_book_input None))"
    by (simp add: sample_book_input_def third_valid)
  ultimately show ?thesis using priced_cost_exact [OF sample_book_created(1) _ _ q c]
    by (auto simp: sample_book_input_def sample_usage_def sample_found third_valid rate_of_def present_def tie_cost_def rat_of_def [of "\<lparr>rtNumerator = 2500, rtDenominator = 1\<rparr>"])
qed

text \<open>A book with a negative exchange rate is accepted, and prices an observation below zero.\<close>

definition negative_rate :: ExchangeRate where
  "negative_rate = \<lparr>erSourceCurrency = ''USD'', erNanoCnyPerSourceUnit = \<lparr>rtNumerator = - 1, rtDenominator = 1\<rparr>, erEffectiveFrom = ''1970''\<rparr>"

lemma negative_rate_negative_cost:
  "\<exists>book c. createPriceBookVersion ((sample_book_input (Some ''USD''))\<lparr>pbExchangeRate := Some negative_rate\<rparr>) = Inr book
     \<and> costForUsage book (sample_usage\<lparr>usSourceCurrency := Some ''USD''\<rparr>) = Inr (Some c) \<and> rat_of (pcCostNanoCny c) < 0"
proof -
  let ?book = "(sample_book (Some ''USD''))\<lparr>pbExchangeRate := Some negative_rate\<rparr>"
  have created: "createPriceBookVersion ((sample_book_input (Some ''USD''))\<lparr>pbExchangeRate := Some negative_rate\<rparr>) = Inr ?book"
    by (simp add: createPriceBookVersion_def sample_book_input_def sample_book_def requireNonEmpty_def js_trim_def trim_start_def js_space_code
      MIN_MARKUP_BPS_def MAX_MARKUP_BPS_def add_unit_def isBillingResource_def BILLING_RESOURCES_def sample_key negative_rate_def
      isNegativeRational_def third_def currency_guard_def present_def price_book_head.defs)
  have valid: "valid_rational tie_cost" "valid_rational (erNanoCnyPerSourceUnit negative_rate)"
    by (simp_all add: tie_cost_def negative_rate_def valid_rational_def)
  obtain v where v: "multiplyRational third tie_cost = Inr v" "valid_rational v" "rat_of v = rat_of third * rat_of tie_cost"
    using multiply_exact [OF third_valid(1) valid(1)] by auto
  obtain w where w: "multiplyRational v (erNanoCnyPerSourceUnit negative_rate) = Inr w"
    "rat_of w = rat_of v * rat_of (erNanoCnyPerSourceUnit negative_rate)"
    using multiply_exact [OF v(2) valid(2)] by auto
  have found: "findPriceUnit ?book ''model_tokens'' ''input'' no_scope = Inr (Some (sample_unit (Some ''USD'')))"
    by (simp add: findPriceUnit_def price_candidates_def sample_key sample_book_def)
  have "costForUsage ?book (sample_usage\<lparr>usSourceCurrency := Some ''USD''\<rparr>)
      = Inr (Some \<lparr>pcPriceKey = ''model_tokens:input'', pcUnitPriceNanoCny = third, pcCostNanoCny = w\<rparr>)"
    using v(1) w(1) found
    by (simp add: costForUsage_def sample_usage_def convert_cost_def present_def sample_key isNegativeRational_def tie_cost_def negative_rate_def)
  moreover have "rat_of w < 0" using w(2) v(3) third_valid by (simp add: negative_rate_def tie_cost_def rat_of_def)
  ultimately show ?thesis using created by force
qed

lemma cny_unit_never_priced_witness: "\<exists>e. costForUsage (sample_book (Some ''CNY'')) sample_usage = Inl e"
  by (rule cny_unit_never_priced [OF sample_book_created(2)])
    (simp_all add: sample_usage_def sample_found sample_book_input_def, simp add: sample_unit_def)

end
