(* ===== verification/Usage_Metering.thy ===== *)
theory Usage_Metering
  imports Billing_Policy
begin

text \<open>
  Usage metering (\<open>src/src/metering/contracts.ts\<close>, \<open>src/src/metering/usage-normalizer.ts\<close>,
  \<open>src/src/metering/coverage-projector.ts\<close>): raw counters become exact observations, and a report
  says how complete the observations of a Query are.

  Cumulative counters are differenced against the last snapshot of the same source, call and
  metric; the snapshots are a map in insertion order. An optional field that is absent or null is
  \<^const>\<open>None\<close>.
\<close>

subsection \<open>Contracts\<close>

datatype MeteringStage = StageIntake | StageContext | StagePlanning | StageExecution | StageVerification | StageDelivery

datatype MeteringReason = ReasonPrimary | ReasonRetry | ReasonFallback | ReasonReplan | ReasonCompaction | ReasonMergeRepair | ReasonSystemProbe

datatype SourceScope = ModelRequest | HarnessTurn | AttemptScope | ResourceAllocation

datatype UsageQuality = Reported | Estimated | Unavailable

definition isAuthoritativeScope :: "SourceScope \<Rightarrow> SourceScope option \<Rightarrow> bool" where
  "isAuthoritativeScope scope authoritative \<longleftrightarrow> (case authoritative of None \<Rightarrow> True | Some a \<Rightarrow> a = scope)"

record usage_origin =
  uoSourceId :: string
  uoSourceEventKey :: string
  uoSourceScope :: SourceScope
  uoCallId :: string
  uoQueryId :: string
  uoExecutionSegmentId :: "string option"
  uoTaskId :: "string option"
  uoStage :: "MeteringStage option"
  uoScope :: price_scope
  uoCapturedAt :: string
  uoProviderBindingVersion :: "string option"
  uoEvidenceRef :: "string option"

record UsageObservation = usage_origin +
  uoCumulativeValue :: "string option"
  uoObservationId :: string
  uoReason :: MeteringReason
  uoResource :: string
  uoMetric :: string
  uoUnit :: string
  uoQuantity :: ExactQuantity
  uoQuality :: UsageQuality
  uoCountsTowardTotal :: bool
  uoPayer :: string
  uoNormalizationRuleVersion :: string

definition observationKey :: "UsageObservation \<Rightarrow> string" where
  "observationKey ob = uoSourceId ob @ ''#'' @ uoSourceEventKey ob @ ''#'' @ uoMetric ob"

definition isZeroQuantity :: "UsageObservation \<Rightarrow> bool result" where
  "isZeroQuantity ob = rbind (rationalFromExactQuantity (uoQuantity ob)) (\<lambda>q. Inr (rtNumerator q = 0))"

subsection \<open>Normalization\<close>

definition NORMALIZATION_RULE_VERSION :: string where
  "NORMALIZATION_RULE_VERSION = ''usage-normalizer-v1''"

datatype counter_kind = Delta | Cumulative

record RawMissingMetric =
  rcResource :: string
  rcMetric :: string
  rcUnit :: string

record RawUsageCounter = RawMissingMetric +
  rcKind :: counter_kind
  rcValue :: string
  rcSubsetOf :: "string option"
  rcQuality :: "UsageQuality option"

record RawUsageEvent = usage_origin +
  reReason :: "MeteringReason option"
  rePayer :: "string option"
  reCounters :: "RawUsageCounter list"
  reMissing :: "RawMissingMetric list"

record CumulativeSnapshot =
  csSourceId :: string
  csCallId :: string
  csMetric :: string
  csValue :: string

datatype NormalizationIssueCode = DuplicateEvent | CounterReset | UnsupportedResource | InvalidQuantity | MissingUsage

record NormalizationIssue =
  niCode :: NormalizationIssueCode
  niSourceId :: string
  niSourceEventKey :: string
  niDetail :: string

record NormalizationInput =
  inEvents :: "RawUsageEvent list"
  inPreviousSnapshots :: "CumulativeSnapshot list"
  inAuthoritativeScopes :: "(string \<times> SourceScope) list"
  inKnownSourceEventKeys :: "string list"
  inRuleVersion :: "string option"
  inCreateObservationId :: "(RawUsageEvent \<Rightarrow> string \<Rightarrow> string) option"

record NormalizationResult =
  nrObservations :: "UsageObservation list"
  nrSnapshots :: "CumulativeSnapshot list"
  nrIssues :: "NormalizationIssue list"

definition snapshotKey :: "string \<Rightarrow> string \<Rightarrow> string \<Rightarrow> string" where
  "snapshotKey sourceId callId metric = sourceId @ [CHR 0x00] @ callId @ [CHR 0x00] @ metric"

definition snapshot_key :: "CumulativeSnapshot \<Rightarrow> string" where
  "snapshot_key s = snapshotKey (csSourceId s) (csCallId s) (csMetric s)"

text \<open>The variables of the loop over the events.\<close>

record normalizer =
  nzSeen :: "string list"
  nzSnapshots :: "(string \<times> CumulativeSnapshot) list"
  nzObservations :: "UsageObservation list"
  nzIssues :: "NormalizationIssue list"

definition rule_version :: "NormalizationInput \<Rightarrow> string" where
  "rule_version input = case_option NORMALIZATION_RULE_VERSION id (inRuleVersion input)"

definition create_observation_id :: "NormalizationInput \<Rightarrow> RawUsageEvent \<Rightarrow> string \<Rightarrow> string" where
  "create_observation_id input = (case inCreateObservationId input of
     Some f \<Rightarrow> f | None \<Rightarrow> (\<lambda>event metric. uoSourceId event @ '':'' @ uoSourceEventKey event @ '':'' @ metric))"

definition buildObservation :: "NormalizationInput \<Rightarrow> RawUsageEvent \<Rightarrow> RawUsageCounter \<Rightarrow> Rational \<Rightarrow> bool \<Rightarrow> UsageObservation" where
  "buildObservation input event counter quantity authoritative =
     (let isSubset = (case rcSubsetOf counter of None \<Rightarrow> False | Some s \<Rightarrow> s \<noteq> []) in
      usage_origin.extend (usage_origin.truncate event)
       \<lparr>uoCumulativeValue = (if rcKind counter = Cumulative then Some (rcValue counter) else None),
        uoObservationId = create_observation_id input event (rcMetric counter),
        uoReason = case_option ReasonPrimary id (reReason event),
        uoResource = rcResource counter, uoMetric = rcMetric counter, uoUnit = rcUnit counter,
        uoQuantity = exactQuantityFromRational quantity,
        uoQuality = case_option Reported id (rcQuality counter),
        uoCountsTowardTotal = (authoritative \<and> \<not> isSubset),
        uoPayer = case_option ''unknown'' id (rePayer event),
        uoNormalizationRuleVersion = rule_version input\<rparr>)"

definition missing_observation :: "NormalizationInput \<Rightarrow> RawUsageEvent \<Rightarrow> RawMissingMetric \<Rightarrow> Rational \<Rightarrow> UsageObservation" where
  "missing_observation input event missing zero =
     usage_origin.extend (usage_origin.truncate event)
       \<lparr>uoCumulativeValue = None, uoObservationId = create_observation_id input event (rcMetric missing),
        uoReason = case_option ReasonPrimary id (reReason event),
        uoResource = rcResource missing, uoMetric = rcMetric missing, uoUnit = rcUnit missing,
        uoQuantity = exactQuantityFromRational zero, uoQuality = Unavailable, uoCountsTowardTotal = False,
        uoPayer = case_option ''unknown'' id (rePayer event), uoNormalizationRuleVersion = rule_version input\<rparr>"

definition push_issue :: "NormalizationIssueCode \<Rightarrow> RawUsageEvent \<Rightarrow> string \<Rightarrow> normalizer \<Rightarrow> normalizer" where
  "push_issue code event detail st = st\<lparr>nzIssues := nzIssues st @
     [\<lparr>niCode = code, niSourceId = uoSourceId event, niSourceEventKey = uoSourceEventKey event, niDetail = detail\<rparr>]\<rparr>"

definition push_observation :: "UsageObservation \<Rightarrow> normalizer \<Rightarrow> normalizer" where
  "push_observation ob st = st\<lparr>nzObservations := nzObservations st @ [ob]\<rparr>"

definition set_snapshot :: "CumulativeSnapshot \<Rightarrow> normalizer \<Rightarrow> normalizer" where
  "set_snapshot s st = st\<lparr>nzSnapshots := AList.update (snapshot_key s) s (nzSnapshots st)\<rparr>"

definition current_snapshot :: "RawUsageEvent \<Rightarrow> RawUsageCounter \<Rightarrow> CumulativeSnapshot" where
  "current_snapshot event counter =
     \<lparr>csSourceId = uoSourceId event, csCallId = uoCallId event, csMetric = rcMetric counter, csValue = rcValue counter\<rparr>"

definition meter_cumulative :: "NormalizationInput \<Rightarrow> RawUsageEvent \<Rightarrow> RawUsageCounter \<Rightarrow> Rational \<Rightarrow> bool \<Rightarrow> normalizer \<Rightarrow> normalizer result" where
  "meter_cumulative input event counter quantity authoritative st =
     (let current = current_snapshot event counter in
      case map_of (nzSnapshots st) (snapshot_key current) of
        Some previous \<Rightarrow>
          rbind (rationalFromDecimalString (csValue previous) 0) (\<lambda>before.
          rbind (subtractRational quantity before) (\<lambda>diff.
            if isNegativeRational diff
            then Inr (push_issue CounterReset event (rcMetric counter @ '' dropped from '' @ csValue previous @ '' to '' @ rcValue counter
                   @ ''; new call scope required'') st)
            else let st' = set_snapshot current st in
                 Inr (if \<not> isZeroRational diff then push_observation (buildObservation input event counter diff authoritative) st' else st')))
      | None \<Rightarrow> Inr (push_observation (buildObservation input event counter quantity authoritative) (set_snapshot current st)))"

definition meter_counter :: "NormalizationInput \<Rightarrow> RawUsageEvent \<Rightarrow> normalizer \<Rightarrow> RawUsageCounter \<Rightarrow> normalizer result" where
  "meter_counter input event st counter =
     (let name = rcResource counter @ '':'' @ rcMetric counter in
      if \<not> isBillingResource (rcResource counter)
      then Inr (push_issue UnsupportedResource event (name @ '' is not a metered resource'') st)
      else case rationalFromDecimalString (rcValue counter) 0 of
          Inl _ \<Rightarrow> Inr (push_issue InvalidQuantity event (name @ ''='' @ rcValue counter) st)
        | Inr quantity \<Rightarrow>
            if isNegativeRational quantity then Inr (push_issue InvalidQuantity event (''negative '' @ name) st)
            else let authoritative = isAuthoritativeScope (uoSourceScope event) (map_of (inAuthoritativeScopes input) (uoSourceId event)) in
                 if rcKind counter = Cumulative then meter_cumulative input event counter quantity authoritative st
                 else Inr (push_observation (buildObservation input event counter quantity authoritative) st))"

definition meter_missing :: "NormalizationInput \<Rightarrow> RawUsageEvent \<Rightarrow> normalizer \<Rightarrow> RawMissingMetric \<Rightarrow> normalizer result" where
  "meter_missing input event st missing =
     (if \<not> isBillingResource (rcResource missing) then Inr st
      else rbind (rationalFromDecimalString ''0'' 0) (\<lambda>zero.
        Inr (push_observation (missing_observation input event missing zero)
          (push_issue MissingUsage event (rcResource missing @ '':'' @ rcMetric missing @ '' unavailable for '' @ uoCallId event) st))))"

definition replay_key :: "RawUsageEvent \<Rightarrow> string" where
  "replay_key event = uoSourceId event @ ''#'' @ uoSourceEventKey event"

definition meter_event :: "NormalizationInput \<Rightarrow> normalizer \<Rightarrow> RawUsageEvent \<Rightarrow> normalizer result" where
  "meter_event input st event =
     (if replay_key event \<in> set (nzSeen st) then Inr (push_issue DuplicateEvent event ''source event already metered'' st)
      else rbind (result_fold (meter_counter input event) (st\<lparr>nzSeen := nzSeen st @ [replay_key event]\<rparr>) (reCounters event)) (\<lambda>st'.
           result_fold (meter_missing input event) st' (reMissing event)))"

definition start_normalizer :: "NormalizationInput \<Rightarrow> normalizer" where
  "start_normalizer input = \<lparr>nzSeen = inKnownSourceEventKeys input,
     nzSnapshots = js_map_of (map (\<lambda>s. (snapshot_key s, s)) (inPreviousSnapshots input)), nzObservations = [], nzIssues = []\<rparr>"

definition normalizeUsageEvents :: "js_runtime \<Rightarrow> NormalizationInput \<Rightarrow> NormalizationResult result" where
  "normalizeUsageEvents rt input =
     rbind (result_fold (meter_event input) (start_normalizer input) (inEvents input)) (\<lambda>st.
       Inr \<lparr>nrObservations = nzObservations st,
            nrSnapshots = js_sort (\<lambda>l r. localeCompare rt (snapshot_key l) (snapshot_key r)) (map snd (nzSnapshots st)),
            nrIssues = nzIssues st\<rparr>)"

subsection \<open>Coverage\<close>

record ExpectedUsageCategory =
  ecResource :: string
  ecMetric :: string

datatype CoverageLevel = CoverageComplete | CoveragePartial | CoverageIncomplete

record CoverageReport =
  crQuality :: UsageQuality
  crCoverage :: CoverageLevel
  crObservedCategories :: "string list"
  crEstimatedCategories :: "string list"
  crUnavailableCategories :: "string list"
  crMissingCategories :: "string list"
  crObservedCount :: nat
  crMissingCount :: nat
  crNote :: "string option"

definition categoryKey :: "ExpectedUsageCategory \<Rightarrow> string" where
  "categoryKey c = ecResource c @ '':'' @ ecMetric c"

definition observation_category :: "UsageObservation \<Rightarrow> string" where
  "observation_category ob = uoResource ob @ '':'' @ uoMetric ob"

definition add_to_category :: "UsageObservation \<Rightarrow> (string \<times> UsageObservation list) list \<Rightarrow> (string \<times> UsageObservation list) list" where
  "add_to_category ob m = (let key = observation_category ob in
     AList.update key ((case map_of m key of Some bucket \<Rightarrow> bucket | None \<Rightarrow> []) @ [ob]) m)"

record coverage_lists =
  clObserved :: "string list"
  clEstimated :: "string list"
  clUnavailable :: "string list"
  clMissing :: "string list"

definition cover_category :: "(string \<times> UsageObservation list) list \<Rightarrow> coverage_lists \<Rightarrow> string \<Rightarrow> coverage_lists" where
  "cover_category byCategory l key = (let bucket = (case map_of byCategory key of Some b \<Rightarrow> b | None \<Rightarrow> []) in
     if bucket = [] then l\<lparr>clMissing := clMissing l @ [key]\<rparr>
     else if list_all (\<lambda>ob. uoQuality ob = Unavailable) bucket then l\<lparr>clUnavailable := clUnavailable l @ [key]\<rparr>
     else let l' = l\<lparr>clObserved := clObserved l @ [key]\<rparr> in
          if list_ex (\<lambda>ob. uoQuality ob = Estimated) bucket then l'\<lparr>clEstimated := clEstimated l' @ [key]\<rparr> else l')"

definition coverage_of :: "UsageObservation list \<Rightarrow> ExpectedUsageCategory list \<Rightarrow> coverage_lists" where
  "coverage_of observations expected =
     (let byCategory = fold add_to_category observations [];
          l = foldl (cover_category byCategory) \<lparr>clObserved = [], clEstimated = [], clUnavailable = [], clMissing = []\<rparr> (map categoryKey expected) in
      if expected = [] then l\<lparr>clObserved := clObserved l @ map fst byCategory\<rparr> else l)"

definition projectCoverage :: "UsageObservation list \<Rightarrow> ExpectedUsageCategory list \<Rightarrow> CoverageReport" where
  "projectCoverage observations expected =
     (let l = coverage_of observations expected; missingCount = length (clMissing l) + length (clUnavailable l) in
      \<lparr>crQuality = (if clObserved l = [] \<and> expected \<noteq> [] then Unavailable
         else if clEstimated l \<noteq> [] \<or> clUnavailable l \<noteq> [] then Estimated else Reported),
       crCoverage = (if missingCount > 0 then CoverageIncomplete else if clEstimated l \<noteq> [] then CoveragePartial else CoverageComplete),
       crObservedCategories = sort_strings (clObserved l), crEstimatedCategories = sort_strings (clEstimated l),
       crUnavailableCategories = sort_strings (clUnavailable l), crMissingCategories = sort_strings (clMissing l),
       crObservedCount = length (clObserved l) + length (clEstimated l) + length (clUnavailable l),
       crMissingCount = missingCount,
       crNote = (if missingCount > 0 then Some (show_nat missingCount @ '' usage category(ies) have no trusted measurement'')
         else if clEstimated l \<noteq> [] then Some (show_nat (length (clEstimated l)) @ '' usage category(ies) are estimated'')
         else None)\<rparr>)"

definition union_of :: "(CoverageReport \<Rightarrow> string list) \<Rightarrow> CoverageReport list \<Rightarrow> string list" where
  "union_of pick reports = sort_strings (js_dedup (concat (map pick reports)))"

definition mergeCoverage :: "CoverageReport list \<Rightarrow> CoverageReport" where
  "mergeCoverage reports =
     (if reports = []
      then \<lparr>crQuality = Unavailable, crCoverage = CoverageIncomplete, crObservedCategories = [], crEstimatedCategories = [],
            crUnavailableCategories = [], crMissingCategories = [], crObservedCount = 0, crMissingCount = 0,
            crNote = Some ''no metering coverage was recorded''\<rparr>
      else
        let missing = union_of crMissingCategories reports; unavailable = union_of crUnavailableCategories reports;
            estimated = union_of crEstimatedCategories reports; observed = union_of crObservedCategories reports;
            missingCount = sum_list (map crMissingCount reports);
            hasUnavailable = list_ex (\<lambda>r. crQuality r = Unavailable) reports;
            hasEstimated = list_ex (\<lambda>r. crQuality r = Estimated) reports;
            coverage = (if missingCount > 0 \<or> unavailable \<noteq> [] then CoverageIncomplete
              else if hasEstimated \<or> estimated \<noteq> [] then CoveragePartial else CoverageComplete) in
        \<lparr>crQuality = (if hasUnavailable then Unavailable else if hasEstimated \<or> estimated \<noteq> [] then Estimated else Reported),
         crCoverage = coverage, crObservedCategories = observed, crEstimatedCategories = estimated,
         crUnavailableCategories = unavailable, crMissingCategories = missing,
         crObservedCount = sum_list (map crObservedCount reports), crMissingCount = missingCount,
         crNote = (if coverage = CoverageComplete then None
           else case find (\<lambda>r. crNote r \<noteq> None) reports of Some r \<Rightarrow> crNote r | None \<Rightarrow> None)\<rparr>)"

definition isChargeableCoverage :: "CoverageReport \<Rightarrow> bool" where
  "isChargeableCoverage r \<longleftrightarrow> crCoverage r = CoverageComplete \<and> crQuality r = Reported"

subsection \<open>What the normalizer keeps\<close>

lemma result_fold_invariant:
  assumes "result_fold f st xs = Inr st'" and "I st" and "\<And>s x s'. x \<in> set xs \<Longrightarrow> I s \<Longrightarrow> f s x = Inr s' \<Longrightarrow> I s'"
  shows "I st'"
  using assms
proof (induction xs arbitrary: st)
  case (Cons x xs)
  then obtain s where "f st x = Inr s" "result_fold f s xs = Inr st'" by auto
  with Cons.prems(2) have "I s" by (blast intro: Cons.prems(3) list.set_intros)
  then show ?case by (rule Cons.IH [OF \<open>result_fold f s xs = Inr st'\<close>]) (blast intro: Cons.prems(3) list.set_intros)
qed simp

lemma result_fold_append: "result_fold f st (xs @ ys) = rbind (result_fold f st xs) (\<lambda>s. result_fold f s ys)"
  by (induction xs arbitrary: st) (auto, metis old.sum.exhaust rbind.simps)

lemma rational_valid: "rational n d = Inr r \<Longrightarrow> valid_rational r"
  by (metis rational_exact rational_def sum.inject(2) sum.distinct(1))

lemma decimal_string_valid: "rationalFromDecimalString s k = Inr q \<Longrightarrow> valid_rational q"
  by (auto simp: rationalFromDecimalString_def Let_def rational_valid split: option.splits prod.splits if_splits)

lemma non_negative_iff: "valid_rational q \<Longrightarrow> \<not> isNegativeRational q \<longleftrightarrow> 0 \<le> rat_of q"
  by (simp add: isNegativeRational_def rational_sign(1) not_less)

lemma zero_string: "\<exists>z. rationalFromDecimalString ''0'' 0 = Inr z \<and> valid_rational z \<and> rat_of z = 0"
proof -
  have "rationalFromDecimalString ''0'' 0 = rational 0 1"
    by (simp add: rationalFromDecimalString_def js_trim_def trim_start_def js_space_code fraction_match_def decimal_match_def
        startsWith_def is_digit_code digits_value_def signed_def)
  moreover obtain z where "rational 0 1 = Inr z" "valid_rational z" "rat_of z = of_int 0 / of_int 1" by (rule rational_exact [of 1 0]) auto
  ultimately show ?thesis by auto
qed

text \<open>
  A property of the loop's variables that issues, delta observations, cumulative counters and
  missing metrics keep holds after every batch.
\<close>

locale normalizer_property =
  fixes Inv :: "NormalizationInput \<Rightarrow> normalizer \<Rightarrow> bool"
  assumes issue: "Inv i st \<Longrightarrow> Inv i (push_issue code e d st)"
    and seen: "Inv i st \<Longrightarrow> Inv i (st\<lparr>nzSeen := nzSeen st @ ks\<rparr>)"
    and delta: "Inv i st \<Longrightarrow> rcKind c = Delta \<Longrightarrow> isBillingResource (rcResource c) \<Longrightarrow> valid_rational q \<Longrightarrow> 0 \<le> rat_of q
      \<Longrightarrow> Inv i (push_observation (buildObservation i e c q a) st)"
    and cumulative: "Inv i st \<Longrightarrow> rcKind c = Cumulative \<Longrightarrow> isBillingResource (rcResource c)
      \<Longrightarrow> rationalFromDecimalString (rcValue c) 0 = Inr q \<Longrightarrow> 0 \<le> rat_of q
      \<Longrightarrow> meter_cumulative i e c q a st = Inr st' \<Longrightarrow> Inv i st'"
    and missing: "Inv i st \<Longrightarrow> isBillingResource (rcResource m) \<Longrightarrow> valid_rational z \<Longrightarrow> rat_of z = 0
      \<Longrightarrow> Inv i (push_observation (missing_observation i e m z) st)"
begin

lemma counter_keeps: "meter_counter i e st c = Inr st' \<Longrightarrow> Inv i st \<Longrightarrow> Inv i st'"
  by (cases "rcKind c")
    (auto simp: meter_counter_def Let_def issue delta cumulative decimal_string_valid non_negative_iff split: if_splits sum.splits)

lemma missing_keeps: "meter_missing i e st m = Inr st' \<Longrightarrow> Inv i st \<Longrightarrow> Inv i st'"
  using zero_string by (auto simp: meter_missing_def missing issue split: if_splits)

lemma event_keeps:
  assumes "meter_event i st e = Inr st'" and "Inv i st"
  shows "Inv i st'"
proof (cases "replay_key e \<in> set (nzSeen st)")
  case True
  with assms show ?thesis by (auto simp: meter_event_def issue)
next
  case False
  with assms(1) obtain s where s: "result_fold (meter_counter i e) (st\<lparr>nzSeen := nzSeen st @ [replay_key e]\<rparr>) (reCounters e) = Inr s"
    "result_fold (meter_missing i e) s (reMissing e) = Inr st'" by (auto simp: meter_event_def)
  have "Inv i s" using result_fold_invariant [where I = "Inv i", OF s(1)] seen assms(2) counter_keeps by blast
  then show ?thesis using result_fold_invariant [where I = "Inv i", OF s(2)] missing_keeps by blast
qed

lemma run_keeps: "result_fold (meter_event i) st es = Inr st' \<Longrightarrow> Inv i st \<Longrightarrow> Inv i st'"
  using result_fold_invariant [where I = "Inv i"] event_keeps by blast

end

text \<open>The number a counter, a snapshot or an observation stands for.\<close>

definition counter_value :: "string \<Rightarrow> rat" where
  "counter_value s = (case rationalFromDecimalString s 0 of Inr q \<Rightarrow> rat_of q | Inl _ \<Rightarrow> 0)"

definition snapshot_level :: "CumulativeSnapshot list \<Rightarrow> string \<Rightarrow> rat" where
  "snapshot_level snapshots key = (case find (\<lambda>s. snapshot_key s = key) (rev snapshots) of None \<Rightarrow> 0 | Some s \<Rightarrow> counter_value (csValue s))"

definition observed_quantity :: "UsageObservation \<Rightarrow> rat" where
  "observed_quantity ob = (case rationalFromExactQuantity (uoQuantity ob) of Inr q \<Rightarrow> rat_of q | Inl _ \<Rightarrow> 0)"

definition counted_under :: "string \<Rightarrow> UsageObservation \<Rightarrow> bool" where
  "counted_under key ob \<longleftrightarrow> uoCumulativeValue ob \<noteq> None \<and> snapshotKey (uoSourceId ob) (uoCallId ob) (uoMetric ob) = key"

definition metered :: "string \<Rightarrow> UsageObservation list \<Rightarrow> rat" where
  "metered key obs = sum_list (map observed_quantity (filter (counted_under key) obs))"

definition level :: "(string \<times> CumulativeSnapshot) list \<Rightarrow> string \<Rightarrow> rat" where
  "level al key = (case map_of al key of None \<Rightarrow> 0 | Some s \<Rightarrow> counter_value (csValue s))"

lemma built_fields [simp]:
  "uoSourceId (buildObservation i e c q a) = uoSourceId e" "uoCallId (buildObservation i e c q a) = uoCallId e"
  "uoMetric (buildObservation i e c q a) = rcMetric c" "uoResource (buildObservation i e c q a) = rcResource c"
  "uoQuantity (buildObservation i e c q a) = exactQuantityFromRational q"
  "uoCumulativeValue (buildObservation i e c q a) = (if rcKind c = Cumulative then Some (rcValue c) else None)"
  "uoCumulativeValue (missing_observation i e m z) = None" "uoResource (missing_observation i e m z) = rcResource m"
  "uoQuantity (missing_observation i e m z) = exactQuantityFromRational z"
  by (simp_all add: buildObservation_def missing_observation_def Let_def usage_origin.defs)

lemma normalizer_fields [simp]:
  "nzSnapshots (push_issue code e d st) = nzSnapshots st" "nzObservations (push_issue code e d st) = nzObservations st"
  "nzSeen (push_issue code e d st) = nzSeen st" "nzSnapshots (push_observation ob st) = nzSnapshots st"
  "nzObservations (push_observation ob st) = nzObservations st @ [ob]" "nzSeen (push_observation ob st) = nzSeen st"
  "nzObservations (set_snapshot s st) = nzObservations st" "nzSeen (set_snapshot s st) = nzSeen st"
  "nzSnapshots (set_snapshot s st) = AList.update (snapshot_key s) s (nzSnapshots st)"
  by (simp_all add: push_issue_def push_observation_def set_snapshot_def)

lemma metered_push:
  "metered key (obs @ [ob]) = metered key obs + (if counted_under key ob then observed_quantity ob else 0)"
  by (simp add: metered_def)

lemma observed_built [simp]:
  "valid_rational q \<Longrightarrow> observed_quantity (buildObservation i e c q a) = rat_of q"
  "valid_rational z \<Longrightarrow> observed_quantity (missing_observation i e m z) = rat_of z"
  by (simp_all add: observed_quantity_def exact_quantity_round_trip)

lemma level_update: "level (AList.update k s al) key = (if key = k then counter_value (csValue s) else level al key)"
  by (simp add: level_def update_conv')

subsection \<open>Cumulative counters\<close>

definition counters_ok :: "NormalizationInput \<Rightarrow> normalizer \<Rightarrow> bool" where
  "counters_ok i st \<longleftrightarrow> distinct (map fst (nzSnapshots st)) \<and> (\<forall>(k, s) \<in> set (nzSnapshots st). k = snapshot_key s)
     \<and> (\<forall>key. level (nzSnapshots st) key = snapshot_level (inPreviousSnapshots i) key + metered key (nzObservations st))"

lemma counters_ok_set:
  assumes "counters_ok i st" and "\<And>key. observation_amount key = (if key = snapshot_key s then counter_value (csValue s) - level (nzSnapshots st) key else 0)"
    and "\<And>key. metered key obs = metered key (nzObservations st) + observation_amount key"
  shows "counters_ok i (st\<lparr>nzSnapshots := AList.update (snapshot_key s) s (nzSnapshots st), nzObservations := obs\<rparr>)"
proof -
  have "\<forall>(k, t) \<in> set (AList.update (snapshot_key s) s (nzSnapshots st)). k = snapshot_key t"
    using assms(1) set_update_subset [of "snapshot_key s" s "nzSnapshots st"] unfolding counters_ok_def by blast
  with assms show ?thesis by (auto simp: counters_ok_def level_update distinct_update)
qed

lemma cumulative_cases:
  assumes "meter_cumulative i e c q a st = Inr st'"
  obtains (first) "map_of (nzSnapshots st) (snapshot_key (current_snapshot e c)) = None"
      "st' = push_observation (buildObservation i e c q a) (set_snapshot (current_snapshot e c) st)"
  | (later) p b d where "map_of (nzSnapshots st) (snapshot_key (current_snapshot e c)) = Some p" "rationalFromDecimalString (csValue p) 0 = Inr b"
      "subtractRational q b = Inr d" "isNegativeRational d \<Longrightarrow> \<exists>t. st' = push_issue CounterReset e t st"
      "\<not> isNegativeRational d \<Longrightarrow> isZeroRational d \<Longrightarrow> st' = set_snapshot (current_snapshot e c) st"
      "\<not> isNegativeRational d \<Longrightarrow> \<not> isZeroRational d
        \<Longrightarrow> st' = push_observation (buildObservation i e c d a) (set_snapshot (current_snapshot e c) st)"
proof (cases "map_of (nzSnapshots st) (snapshot_key (current_snapshot e c))")
  case None
  then show thesis using first assms by (simp add: meter_cumulative_def Let_def)
next
  case (Some p)
  define t where "t = rcMetric c @ '' dropped from '' @ csValue p @ '' to '' @ rcValue c @ ''; new call scope required''"
  have t: "meter_cumulative i e c q a st = rbind (rationalFromDecimalString (csValue p) 0) (\<lambda>b. rbind (subtractRational q b) (\<lambda>d.
      if isNegativeRational d then Inr (push_issue CounterReset e t st)
      else Inr (if \<not> isZeroRational d then push_observation (buildObservation i e c d a) (set_snapshot (current_snapshot e c) st)
                else set_snapshot (current_snapshot e c) st)))"
    unfolding meter_cumulative_def Let_def Some t_def option.case by (rule refl)
  obtain b where b: "rationalFromDecimalString (csValue p) 0 = Inr b" using assms t by (cases "rationalFromDecimalString (csValue p) 0") auto
  obtain d where d: "subtractRational q b = Inr d" using assms t b by (cases "subtractRational q b") auto
  have "st' = (if isNegativeRational d then push_issue CounterReset e t st
      else if \<not> isZeroRational d then push_observation (buildObservation i e c d a) (set_snapshot (current_snapshot e c) st)
      else set_snapshot (current_snapshot e c) st)"
    using assms unfolding t by (simp add: b d del: rbind_Inr_iff split: if_splits)
  then show thesis by (intro later [OF Some b d]) auto
qed

lemma subtract_value:
  "valid_rational l \<Longrightarrow> valid_rational r \<Longrightarrow> subtractRational l r = Inr d \<Longrightarrow> valid_rational d \<and> rat_of d = rat_of l - rat_of r"
  by (metis subtract_exact sum.inject(2))

lemma cumulative_keeps_counters:
  assumes ok: "counters_ok i st" and "rcKind c = Cumulative" and q: "rationalFromDecimalString (rcValue c) 0 = Inr q"
    and run: "meter_cumulative i e c q a st = Inr st'"
  shows "counters_ok i st'"
proof -
  define s where "s = current_snapshot e c"
  have key: "snapshotKey (uoSourceId e) (uoCallId e) (rcMetric c) = snapshot_key s" by (simp add: snapshot_key_def s_def current_snapshot_def)
  have v: "valid_rational q" "counter_value (csValue s) = rat_of q" using q decimal_string_valid by (auto simp: counter_value_def s_def current_snapshot_def)
  have counted: "counted_under k (buildObservation i e c d a) \<longleftrightarrow> k = snapshot_key s" for k d
    using assms(2) by (auto simp: counted_under_def key)
  have observe: "counters_ok i (push_observation (buildObservation i e c d a) (set_snapshot s st))"
    if "valid_rational d" "rat_of d = rat_of q - level (nzSnapshots st) (snapshot_key s)" for d
    using counters_ok_set [OF ok, of "\<lambda>k. if k = snapshot_key s then rat_of d else 0" s "nzObservations st @ [buildObservation i e c d a]"] that
    by (simp add: push_observation_def set_snapshot_def metered_push counted v)
  from run show ?thesis
  proof (cases rule: cumulative_cases)
    case first
    then show ?thesis using observe [of q] v(1) by (simp add: level_def s_def)
  next
    case (later p b d)
    have lvl: "level (nzSnapshots st) (snapshot_key s) = rat_of b" using later(1,2) by (simp add: level_def counter_value_def s_def)
    have d: "valid_rational d" "rat_of d = rat_of q - rat_of b" using subtract_value [OF v(1) decimal_string_valid [OF later(2)] later(3)] by auto
    consider "isNegativeRational d" | "\<not> isNegativeRational d" "isZeroRational d" | "\<not> isNegativeRational d" "\<not> isZeroRational d" by blast
    then show ?thesis
    proof cases
      case 1
      with later(4) ok show ?thesis by (auto simp: counters_ok_def)
    next
      case 2
      then have "rat_of q = rat_of b" using d by (simp add: isZeroRational_def rational_sign(2))
      then show ?thesis using later(5) [OF 2] counters_ok_set [OF ok, of "\<lambda>_. 0" s "nzObservations st"] v(2) lvl
        by (simp add: set_snapshot_def s_def [symmetric])
    next
      case 3
      then show ?thesis using later(6) observe [of d] d lvl by (simp add: s_def)
    qed
  qed
qed

interpretation counters: normalizer_property counters_ok
proof unfold_locales
  fix i st c e q a st'
  assume "counters_ok i st" "rcKind c = Cumulative" "rationalFromDecimalString (rcValue c) 0 = Inr q" "meter_cumulative i e c q a st = Inr st'"
  then show "counters_ok i st'" by (rule cumulative_keeps_counters)
qed (auto simp: counters_ok_def metered_push counted_under_def)

definition exact_observation :: "UsageObservation \<Rightarrow> bool" where
  "exact_observation ob \<longleftrightarrow> isBillingResource (uoResource ob)
     \<and> (\<exists>q. rationalFromExactQuantity (uoQuantity ob) = Inr q \<and> valid_rational q \<and> 0 \<le> rat_of q)"

lemma built_exact:
  "isBillingResource (rcResource c) \<Longrightarrow> valid_rational q \<Longrightarrow> 0 \<le> rat_of q \<Longrightarrow> exact_observation (buildObservation i e c q a)"
  "isBillingResource (rcResource m) \<Longrightarrow> valid_rational z \<Longrightarrow> rat_of z = 0 \<Longrightarrow> exact_observation (missing_observation i e m z)"
  by (auto simp: exact_observation_def exact_quantity_round_trip)

interpretation exact: normalizer_property "\<lambda>_ st. list_all exact_observation (nzObservations st)"
proof unfold_locales
  fix i :: NormalizationInput and st c e q a st'
  assume st: "list_all exact_observation (nzObservations st)" and c: "isBillingResource (rcResource c)"
    and q: "rationalFromDecimalString (rcValue c) 0 = Inr q" "0 \<le> rat_of q" and run: "meter_cumulative i e c q a st = Inr st'"
  have v: "valid_rational q" by (rule decimal_string_valid [OF q(1)])
  have diff: "exact_observation (buildObservation i e c d a)"
    if "rationalFromDecimalString p 0 = Inr b" "subtractRational q b = Inr d" "\<not> isNegativeRational d" for p b d
    using subtract_value [OF v decimal_string_valid [OF that(1)] that(2)] that(3) c built_exact(1) non_negative_iff by blast
  from run show "list_all exact_observation (nzObservations st')"
  proof (cases rule: cumulative_cases)
    case first
    then show ?thesis using st built_exact(1) [OF c v q(2)] by simp
  next
    case (later p b d)
    then show ?thesis using st diff [OF later(2,3)] by (cases "isNegativeRational d"; cases "isZeroRational d") auto
  qed
qed (auto simp: built_exact)

interpretation seen_keys: normalizer_property "\<lambda>_ st. ks \<subseteq> set (nzSeen st)" for ks
proof unfold_locales
  fix i :: NormalizationInput and st c e q a st'
  assume "ks \<subseteq> set (nzSeen st)" and run: "meter_cumulative i e c q a st = Inr st'"
  moreover from run have "nzSeen st' = nzSeen st"
  proof (cases rule: cumulative_cases)
    case (later p b d)
    then show ?thesis by (cases "isNegativeRational d"; cases "isZeroRational d") auto
  qed simp
  ultimately show "ks \<subseteq> set (nzSeen st')" by simp
qed auto

lemma map_of_keyed: "map_of (map (\<lambda>s. (f s, s)) xs) k = find (\<lambda>s. f s = k) xs"
  by (induction xs) auto

lemma find_unique:
  assumes "distinct (map f xs)" and "set ys = set xs"
  shows "find (\<lambda>s. f s = k) ys = find (\<lambda>s. f s = k) xs"
proof (cases "find (\<lambda>s. f s = k) xs")
  case None
  then have "find (\<lambda>s. f s = k) ys = None" using assms(2) by (simp add: find_None_all)
  with None show ?thesis by simp
next
  case (Some x)
  then have x: "x \<in> set ys" "f x = k" using find_Some_mem [OF Some] assms(2) by auto
  then obtain y where y: "find (\<lambda>s. f s = k) ys = Some y" using find_None_all [of "\<lambda>s. f s = k" ys] by (cases "find (\<lambda>s. f s = k) ys") auto
  then have "y \<in> set xs" "f y = k" using find_Some_mem [OF y] assms(2) by auto
  then have "y = x" using x assms by (metis distinct_map inj_onD)
  with y Some show ?thesis by simp
qed

lemma start_counters: "counters_ok i (start_normalizer i)"
proof -
  have "snd x = s \<and> fst x = snapshot_key s" if "x \<in> set (js_map_of (map (\<lambda>s. (snapshot_key s, s)) xs))" "snd x = s" for x s xs
    using js_map_of_mem that by fastforce
  then have "\<forall>(k, s) \<in> set (nzSnapshots (start_normalizer i)). k = snapshot_key s" by (auto simp: start_normalizer_def)
  moreover have "level (nzSnapshots (start_normalizer i)) key = snapshot_level (inPreviousSnapshots i) key" for key
    by (simp add: start_normalizer_def level_def snapshot_level_def map_of_js_map_of rev_map map_of_keyed)
  moreover have "distinct (map fst (js_map_of kvs))" for kvs :: "(string \<times> CumulativeSnapshot) list"
    by (induction kvs rule: rev_induct) (simp_all add: js_map_of_def distinct_update split: prod.splits)
  ultimately show ?thesis by (simp add: counters_ok_def metered_def) (simp add: start_normalizer_def)
qed

lemma sorted_level:
  assumes "distinct (map fst al)" and "\<forall>(k, s) \<in> set al. k = snapshot_key s"
  shows "snapshot_level (js_sort cmp (map snd al)) key = level al key"
proof -
  have al: "al = map (\<lambda>s. (snapshot_key s, s)) (map snd al)" using assms(2) by (induction al) auto
  then have "map fst al = map snapshot_key (map snd al)" by (metis (no_types, lifting) list.map_comp comp_apply fst_conv list.map_cong)
  with assms(1) have "distinct (map snapshot_key (map snd al))" by simp
  then have "find (\<lambda>s. snapshot_key s = key) (rev (js_sort cmp (map snd al))) = find (\<lambda>s. snapshot_key s = key) (map snd al)"
    by (rule find_unique) simp
  also have "\<dots> = map_of al key" by (subst (2) al) (rule map_of_keyed [symmetric])
  finally show ?thesis by (simp add: snapshot_level_def level_def)
qed

text \<open>
  Claim C39. Cumulative counters are differenced exactly: for every source, call and metric, what a batch
  meters from cumulative counters is the last snapshot it returns minus the one it started from,
  whatever resets, replays and repeats it contained; every observation is of a billable resource
  with an exact non-negative quantity.
\<close>

theorem cumulative_telescopes:
  assumes "normalizeUsageEvents rt input = Inr r"
  shows "metered key (nrObservations r) = snapshot_level (nrSnapshots r) key - snapshot_level (inPreviousSnapshots input) key
    \<and> list_all exact_observation (nrObservations r)"
proof -
  from assms obtain st where st: "result_fold (meter_event input) (start_normalizer input) (inEvents input) = Inr st"
    and r: "nrObservations r = nzObservations st"
      "nrSnapshots r = js_sort (\<lambda>l r. localeCompare rt (snapshot_key l) (snapshot_key r)) (map snd (nzSnapshots st))"
    by (auto simp: normalizeUsageEvents_def)
  have ok: "counters_ok input st" by (rule counters.run_keeps [OF st start_counters])
  have "list_all exact_observation (nzObservations st)" by (rule exact.run_keeps [OF st]) (simp add: start_normalizer_def)
  with ok show ?thesis unfolding r by (simp add: counters_ok_def sorted_level)
qed

subsection \<open>Replay\<close>

lemma meter_event_events [simp]: "meter_event (input\<lparr>inEvents := es\<rparr>) = meter_event input" "start_normalizer (input\<lparr>inEvents := es\<rparr>) = start_normalizer input"
proof -
  have b: "buildObservation (input\<lparr>inEvents := es\<rparr>) = buildObservation input" "missing_observation (input\<lparr>inEvents := es\<rparr>) = missing_observation input"
    by (simp_all add: fun_eq_iff buildObservation_def missing_observation_def rule_version_def create_observation_id_def)
  have f: "inAuthoritativeScopes (input\<lparr>inEvents := es\<rparr>) = inAuthoritativeScopes input" by simp
  have c: "meter_cumulative (input\<lparr>inEvents := es\<rparr>) = meter_cumulative input" by (intro ext) (simp only: meter_cumulative_def b)
  have "meter_counter (input\<lparr>inEvents := es\<rparr>) = meter_counter input" 
    unfolding meter_counter_def b c f by (rule refl)
  moreover have "meter_missing (input\<lparr>inEvents := es\<rparr>) = meter_missing input" 
    unfolding meter_missing_def b by (rule refl)
  ultimately show "meter_event (input\<lparr>inEvents := es\<rparr>) = meter_event input" by (intro ext) (simp only: meter_event_def)
qed (simp add: start_normalizer_def)

lemma event_seen:
  assumes "meter_event i st e = Inr st'"
  shows "insert (replay_key e) (set (nzSeen st)) \<subseteq> set (nzSeen st')"
proof (cases "replay_key e \<in> set (nzSeen st)")
  case True
  with assms show ?thesis by (auto simp: meter_event_def)
next
  case False
  let ?st = "st\<lparr>nzSeen := nzSeen st @ [replay_key e]\<rparr>" and ?I = "\<lambda>s. insert (replay_key e) (set (nzSeen st)) \<subseteq> set (nzSeen s)"
  from False assms obtain s where s: "result_fold (meter_counter i e) ?st (reCounters e) = Inr s"
    "result_fold (meter_missing i e) s (reMissing e) = Inr st'" by (auto simp: meter_event_def)
  note keeps = seen_keys.counter_keeps seen_keys.missing_keeps
  have "?I s" by (rule result_fold_invariant [where I = ?I, OF s(1)], force) (rule keeps(1))
  then show ?thesis by (rule result_fold_invariant [where I = ?I, OF s(2)]) (rule keeps(2))
qed

lemma run_seen:
  "result_fold (meter_event i) st es = Inr st' \<Longrightarrow> set (nzSeen st) \<union> replay_key ` set es \<subseteq> set (nzSeen st')"
proof (induction es arbitrary: st)
  case (Cons e es)
  then obtain s where s: "meter_event i st e = Inr s" "result_fold (meter_event i) s es = Inr st'" by auto
  from event_seen [OF s(1)] Cons.IH [OF s(2)] show ?case by auto
qed simp

lemma replayed_events:
  assumes "list_all (\<lambda>e. replay_key e \<in> set (nzSeen st)) es"
  shows "\<exists>issues. result_fold (meter_event i) st es = Inr (st\<lparr>nzIssues := nzIssues st @ issues\<rparr>)
    \<and> map niCode issues = replicate (length es) DuplicateEvent"
  using assms
proof (induction es arbitrary: st)
  case (Cons e es)
  let ?x = "\<lparr>niCode = DuplicateEvent, niSourceId = uoSourceId e, niSourceEventKey = uoSourceEventKey e, niDetail = ''source event already metered''\<rparr>"
  have e: "meter_event i st e = Inr (st\<lparr>nzIssues := nzIssues st @ [?x]\<rparr>)" using Cons.prems by (simp add: meter_event_def push_issue_def)
  obtain issues where "result_fold (meter_event i) (st\<lparr>nzIssues := nzIssues st @ [?x]\<rparr>) es = Inr (st\<lparr>nzIssues := nzIssues st @ ?x # issues\<rparr>)"
    "map niCode issues = replicate (length es) DuplicateEvent"
    using Cons.IH [of "st\<lparr>nzIssues := nzIssues st @ [?x]\<rparr>"] Cons.prems by auto
  then show ?case using e by (intro exI [of _ "?x # issues"]) simp
qed (auto intro: exI [of _ "[]"])

text \<open>
  A replay meters nothing: events whose source and key occurred in the batch, or were known before it, add
  no observation and move no snapshot, and each leaves one issue.
\<close>

theorem replay_metered_once:
  assumes "normalizeUsageEvents rt input = Inr r"
    and "list_all (\<lambda>e. replay_key e \<in> set (inKnownSourceEventKeys input) \<union> replay_key ` set (inEvents input)) again"
  shows "\<exists>r'. normalizeUsageEvents rt (input\<lparr>inEvents := inEvents input @ again\<rparr>) = Inr r' \<and> nrObservations r' = nrObservations r
    \<and> nrSnapshots r' = nrSnapshots r \<and> (\<exists>issues. nrIssues r' = nrIssues r @ issues \<and> map niCode issues = replicate (length again) DuplicateEvent)"
proof -
  from assms(1) obtain st where st: "result_fold (meter_event input) (start_normalizer input) (inEvents input) = Inr st"
    and r: "r = \<lparr>nrObservations = nzObservations st,
      nrSnapshots = js_sort (\<lambda>l r. localeCompare rt (snapshot_key l) (snapshot_key r)) (map snd (nzSnapshots st)), nrIssues = nzIssues st\<rparr>"
    by (auto simp: normalizeUsageEvents_def)
  have "nzSeen (start_normalizer input) = inKnownSourceEventKeys input" by (simp add: start_normalizer_def)
  with run_seen [OF st] assms(2) have "list_all (\<lambda>e. replay_key e \<in> set (nzSeen st)) again" by (auto simp: list_all_iff)
  from replayed_events [OF this, of input] show ?thesis unfolding r by (auto simp: normalizeUsageEvents_def result_fold_append st)
qed

subsection \<open>Coverage\<close>

lemma category_buckets:
  "map_of (fold add_to_category obs m) key =
     (let own = filter (\<lambda>ob. observation_category ob = key) obs in
      if own = [] then map_of m key else Some ((case map_of m key of Some b \<Rightarrow> b | None \<Rightarrow> []) @ own))"
proof (induction obs arbitrary: m)
  case (Cons ob obs)
  have one: "map_of (add_to_category ob m) key = (if observation_category ob = key then Some ((case map_of m key of Some b \<Rightarrow> b | None \<Rightarrow> []) @ [ob]) else map_of m key)"
    by (simp add: add_to_category_def Let_def update_conv')
  show ?case by (simp add: Cons.IH one Let_def)
qed simp

definition category_bucket :: "UsageObservation list \<Rightarrow> string \<Rightarrow> UsageObservation list" where
  "category_bucket obs key = filter (\<lambda>ob. observation_category ob = key) obs"

definition measured :: "UsageObservation list \<Rightarrow> string \<Rightarrow> bool" where
  "measured obs key \<longleftrightarrow> (\<exists>ob \<in> set (category_bucket obs key). uoQuality ob \<noteq> Unavailable)"

definition estimated :: "UsageObservation list \<Rightarrow> string \<Rightarrow> bool" where
  "estimated obs key \<longleftrightarrow> (\<exists>ob \<in> set (category_bucket obs key). uoQuality ob = Estimated)"

lemma estimated_measured: "estimated obs key \<Longrightarrow> measured obs key"
  unfolding estimated_def measured_def by (metis UsageQuality.distinct(5))

lemma cover_category_cases:
  "cover_category (fold add_to_category obs []) l key =
     (if category_bucket obs key = [] then l\<lparr>clMissing := clMissing l @ [key]\<rparr>
      else if \<not> measured obs key then l\<lparr>clUnavailable := clUnavailable l @ [key]\<rparr>
      else if estimated obs key then l\<lparr>clObserved := clObserved l @ [key], clEstimated := clEstimated l @ [key]\<rparr>
      else l\<lparr>clObserved := clObserved l @ [key]\<rparr>)"
  by (simp add: cover_category_def category_buckets Let_def category_bucket_def [symmetric] measured_def estimated_def list_all_iff list_ex_iff)

lemma covered_lists:
  "foldl (cover_category (fold add_to_category obs [])) l keys =
     \<lparr>clObserved = clObserved l @ filter (measured obs) keys, clEstimated = clEstimated l @ filter (estimated obs) keys,
      clUnavailable = clUnavailable l @ filter (\<lambda>k. category_bucket obs k \<noteq> [] \<and> \<not> measured obs k) keys,
      clMissing = clMissing l @ filter (\<lambda>k. category_bucket obs k = []) keys\<rparr>"
proof (induction keys arbitrary: l)
  case (Cons key keys)
  have "category_bucket obs key = [] \<Longrightarrow> \<not> measured obs key \<and> \<not> estimated obs key" by (simp add: measured_def estimated_def)
  moreover have "\<not> measured obs key \<Longrightarrow> \<not> estimated obs key" using estimated_measured by blast
  ultimately show ?case by (simp only: foldl_Cons Cons.IH) (simp add: cover_category_cases)
qed simp

lemma coverage_lists_of:
  assumes "expected \<noteq> []"
  shows "coverage_of obs expected = (let keys = map categoryKey expected in
    \<lparr>clObserved = filter (measured obs) keys, clEstimated = filter (estimated obs) keys,
     clUnavailable = filter (\<lambda>k. category_bucket obs k \<noteq> [] \<and> \<not> measured obs k) keys,
     clMissing = filter (\<lambda>k. category_bucket obs k = []) keys\<rparr>)"
  using assms by (simp add: coverage_of_def covered_lists Let_def)

lemma coverage_lists_empty: "clEstimated (coverage_of obs []) = []" "clUnavailable (coverage_of obs []) = []" "clMissing (coverage_of obs []) = []"
  by (simp_all add: coverage_of_def Let_def)

lemma bucket_measured: "measured obs key \<Longrightarrow> category_bucket obs key \<noteq> []"
  by (auto simp: measured_def)

lemma project_counts:
  "crMissingCount (projectCoverage obs expected) = 0 \<longleftrightarrow> list_all (\<lambda>c. measured obs (categoryKey c)) expected"
  "crEstimatedCategories (projectCoverage obs expected) = [] \<longleftrightarrow> list_all (\<lambda>c. \<not> estimated obs (categoryKey c)) expected"
  "crMissingCount (projectCoverage obs expected) = 0 \<Longrightarrow> crUnavailableCategories (projectCoverage obs expected) = []"
  using bucket_measured
  by (cases "expected = []"; fastforce simp: projectCoverage_def Let_def coverage_lists_of coverage_lists_empty list_all_iff filter_empty_conv)+

lemma project_complete:
  "isChargeableCoverage (projectCoverage obs expected) \<longleftrightarrow>
     crMissingCount (projectCoverage obs expected) = 0 \<and> crEstimatedCategories (projectCoverage obs expected) = []"
proof -
  let ?l = "coverage_of obs expected"
  have "clObserved ?l \<noteq> []" if "expected \<noteq> []" "clMissing ?l = []" "clUnavailable ?l = []"
    using that bucket_measured by (cases expected) (auto simp: coverage_lists_of Let_def split: if_splits)
  then show ?thesis by (auto simp: isChargeableCoverage_def projectCoverage_def Let_def)
qed

lemma merge_chargeable:
  "isChargeableCoverage (mergeCoverage rs) \<longleftrightarrow> rs \<noteq> [] \<and>
     list_all (\<lambda>r. crMissingCount r = 0 \<and> crUnavailableCategories r = [] \<and> crEstimatedCategories r = [] \<and> crQuality r = Reported) rs"
proof -
  have "crQuality r = Reported \<longleftrightarrow> crQuality r \<noteq> Estimated \<and> crQuality r \<noteq> Unavailable" for r by (cases "crQuality r") auto
  moreover have "0 < sum_list (map crMissingCount rs) \<longleftrightarrow> (\<exists>r \<in> set rs. 0 < crMissingCount r)" by (induction rs) auto
  ultimately show ?thesis by (auto simp: mergeCoverage_def Let_def isChargeableCoverage_def union_of_def list_all_iff list_ex_iff)
qed

text \<open>
  A report is chargeable exactly if every expected category has an observation that is not lost and none
  that is estimated; merged reports are chargeable exactly if there is one and each of them is.
\<close>

theorem chargeable_coverage_exact:
  "(isChargeableCoverage (projectCoverage obs expected) \<longleftrightarrow>
      list_all (\<lambda>c. measured obs (categoryKey c) \<and> \<not> estimated obs (categoryKey c)) expected)
   \<and> (isChargeableCoverage (mergeCoverage (map (\<lambda>(obs, expected). projectCoverage obs expected) parts)) \<longleftrightarrow>
      parts \<noteq> [] \<and> list_all (\<lambda>(obs, expected). isChargeableCoverage (projectCoverage obs expected)) parts)"
proof
  show "isChargeableCoverage (projectCoverage obs expected) \<longleftrightarrow>
      list_all (\<lambda>c. measured obs (categoryKey c) \<and> \<not> estimated obs (categoryKey c)) expected"
    by (simp add: project_complete project_counts list_all_iff) blast
  have "isChargeableCoverage r \<longleftrightarrow> crMissingCount r = 0 \<and> crUnavailableCategories r = [] \<and> crEstimatedCategories r = [] \<and> crQuality r = Reported"
    if "r = projectCoverage obs expected" for r obs expected
    using that project_complete [of obs expected] project_counts(3) [of obs expected] by (auto simp: isChargeableCoverage_def)
  then show "isChargeableCoverage (mergeCoverage (map (\<lambda>(obs, expected). projectCoverage obs expected) parts)) \<longleftrightarrow>
      parts \<noteq> [] \<and> list_all (\<lambda>(obs, expected). isChargeableCoverage (projectCoverage obs expected)) parts"
    by (auto simp: merge_chargeable list_all_iff)
qed

text \<open>The count of observed categories counts an estimated one twice.\<close>

lemma estimated_counted_twice:
  assumes "expected \<noteq> []"
  shows "crObservedCount (projectCoverage obs expected) + length (crMissingCategories (projectCoverage obs expected))
    = length expected + length (crEstimatedCategories (projectCoverage obs expected))"
proof -
  have "length (filter (measured obs) keys) + length (filter (\<lambda>k. category_bucket obs k \<noteq> [] \<and> \<not> measured obs k) keys)
      + length (filter (\<lambda>k. category_bucket obs k = []) keys) = length keys" for keys
    using bucket_measured by (induction keys) auto
  from this [of "map categoryKey expected"] show ?thesis using assms by (simp add: projectCoverage_def Let_def coverage_lists_of)
qed

subsection \<open>Witnesses\<close>

definition sample_origin :: usage_origin where
  "sample_origin = \<lparr>uoSourceId = ''p'', uoSourceEventKey = ''e'', uoSourceScope = ModelRequest, uoCallId = ''c'', uoQueryId = ''q'',
     uoExecutionSegmentId = None, uoTaskId = None, uoStage = Some StageExecution, uoScope = no_scope, uoCapturedAt = ''t'',
     uoProviderBindingVersion = None, uoEvidenceRef = None\<rparr>"

definition sample_counter :: RawUsageCounter where
  "sample_counter = \<lparr>rcResource = ''model_tokens'', rcMetric = ''input'', rcUnit = ''token'', rcKind = Cumulative, rcValue = ''5'',
     rcSubsetOf = None, rcQuality = None\<rparr>"

definition sample_usage_event :: RawUsageEvent where
  "sample_usage_event = usage_origin.extend sample_origin
     \<lparr>reReason = None, rePayer = Some ''platform'', reCounters = [sample_counter], reMissing = []\<rparr>"

definition sample_cumulative :: "string \<Rightarrow> CumulativeSnapshot" where
  "sample_cumulative v = \<lparr>csSourceId = ''p'', csCallId = ''c'', csMetric = ''input'', csValue = v\<rparr>"

definition sample_usage_batch :: NormalizationInput where
  "sample_usage_batch = \<lparr>inEvents = [sample_usage_event], inPreviousSnapshots = [sample_cumulative ''3''], inAuthoritativeScopes = [],
     inKnownSourceEventKeys = [], inRuleVersion = None, inCreateObservationId = None\<rparr>"

definition sample_normalized :: NormalizationResult where
  "sample_normalized = \<lparr>nrObservations = [buildObservation sample_usage_batch sample_usage_event sample_counter \<lparr>rtNumerator = 2, rtDenominator = 1\<rparr> True],
     nrSnapshots = [sample_cumulative ''5''], nrIssues = []\<rparr>"

lemma sample_batch_normalized: "normalizeUsageEvents sample_runtime sample_usage_batch = Inr sample_normalized"
  by code_simp

lemma sample_values:
  "rationalFromDecimalString ''5'' 0 = Inr \<lparr>rtNumerator = 5, rtDenominator = 1\<rparr>"
  "rationalFromDecimalString ''3'' 0 = Inr \<lparr>rtNumerator = 3, rtDenominator = 1\<rparr>"
  by code_simp+

theorem cumulative_telescopes_witness:
  "normalizeUsageEvents sample_runtime sample_usage_batch = Inr sample_normalized
    \<and> metered (snapshot_key (sample_cumulative ''5'')) (nrObservations sample_normalized) = 2"
proof -
  have "snapshot_key (sample_cumulative v) = snapshot_key (sample_cumulative w)" for v w by (simp add: snapshot_key_def sample_cumulative_def)
  then have "snapshot_level [sample_cumulative ''5''] (snapshot_key (sample_cumulative ''5'')) = 5"
    "snapshot_level [sample_cumulative ''3''] (snapshot_key (sample_cumulative ''5'')) = 3"
    by (simp_all add: snapshot_level_def counter_value_def sample_values rat_of_def) (simp_all add: sample_cumulative_def sample_values rat_of_def)
  then show ?thesis using cumulative_telescopes [OF sample_batch_normalized, of "snapshot_key (sample_cumulative ''5'')"] sample_batch_normalized
    by (simp add: sample_normalized_def sample_usage_batch_def)
qed

theorem replay_metered_once_witness:
  "\<exists>r. normalizeUsageEvents sample_runtime (sample_usage_batch\<lparr>inEvents := [sample_usage_event, sample_usage_event]\<rparr>) = Inr r
    \<and> nrObservations r = nrObservations sample_normalized"
  using replay_metered_once [OF sample_batch_normalized, of "[sample_usage_event]"] by (auto simp: sample_usage_batch_def)

end
