(* ===== verification/Consumption_Outbox.thy ===== *)
theory Consumption_Outbox
  imports Billing_Money Json
begin

text \<open>
  Consumption export (\<open>src/src/billing/consumption-contract.ts\<close>,
  \<open>src/src/storage/consumption-outbox-repo.ts\<close>, \<open>src/src/billing/consumption-export-service.ts\<close>,
  \<open>src/src/billing/consumption-reconciliation-service.ts\<close>): a finalized bill waits in an outbox until
  the external account system confirms or rejects it.

  The column \<open>payload_json\<close> holds the text of a payload; the model keeps the payload, whose text
  is \<open>canonicalConsumptionPayload\<close>. An asynchronous method is cut at its \<open>await\<close>s: each part is one
  definition, and what the external system answers is an argument. SQLite compares texts by code
  unit and \<open>LIKE\<close> without regard to case, with \<open>_\<close> for any character. The bill a row belongs to,
  a foreign key, is not part of these tables; a receipt is only appended for a row that was read.
\<close>

subsection \<open>Contract\<close>

datatype OutboxState = OxNotExported | OxPending | OxReceived | OxConfirmed | OxUnknown | OxRejected

datatype ConsumptionResultState = RsReceived | RsApplied | RsRejected | RsUnknown

record ConsumptionBillPayload =
  cpSourceInstanceId :: string
  cpExternalAccountRef :: string
  cpBillId :: string
  cpQueryId :: string
  cpTaskId :: "string option"
  cpAmountMicroCoin :: string
  cpPriceBookVersion :: string

record ConsumptionBill = ConsumptionBillPayload +
  cbDigest :: string

record ConsumptionResult =
  xrBillId :: string
  xrDigest :: string
  xrState :: ConsumptionResultState
  xrExternalEntryId :: "string option"
  xrAppliedAmountMicroCoin :: "string option"
  xrReason :: "string option"

definition CONSUMPTION_BILL_VERSION :: int where
  "CONSUMPTION_BILL_VERSION = 1"

definition canonicalConsumptionPayload :: "ConsumptionBillPayload \<Rightarrow> string" where
  "canonicalConsumptionPayload p = json_text (JObj
     [(''sourceSystem'', JStr ''metawork''), (''sourceInstanceId'', JStr (cpSourceInstanceId p)),
      (''externalAccountRef'', JStr (cpExternalAccountRef p)), (''billId'', JStr (cpBillId p)), (''queryId'', JStr (cpQueryId p)),
      (''taskId'', (case cpTaskId p of None \<Rightarrow> JNull | Some t \<Rightarrow> JStr t)), (''version'', JNum CONSUMPTION_BILL_VERSION),
      (''amountMicroCoin'', JStr (cpAmountMicroCoin p)), (''priceBookVersion'', JStr (cpPriceBookVersion p))])"

definition computeBillDigest :: "js_runtime \<Rightarrow> ConsumptionBillPayload \<Rightarrow> string" where
  "computeBillDigest rt p = sha256Hex rt (canonicalConsumptionPayload p)"

definition buildConsumptionBill :: "js_runtime \<Rightarrow> ConsumptionBillPayload \<Rightarrow> ConsumptionBill" where
  "buildConsumptionBill rt p = ConsumptionBillPayload.extend p \<lparr>cbDigest = computeBillDigest rt p\<rparr>"

definition blank_text :: "string option \<Rightarrow> bool" where
  "blank_text v \<longleftrightarrow> (case v of None \<Rightarrow> True | Some s \<Rightarrow> js_trim s = [])"

definition validateConsumptionResult :: "ConsumptionBill \<Rightarrow> ConsumptionResult \<Rightarrow> ConsumptionResult result" where
  "validateConsumptionResult expected r =
     (if xrBillId r \<noteq> cpBillId expected then Inl (''bill_id_mismatch:'' @ xrBillId r)
      else if xrDigest r \<noteq> cbDigest expected then Inl ''digest_mismatch''
      else if xrState r = RsApplied \<and> blank_text (xrExternalEntryId r) then Inl ''applied_without_external_entry''
      else if xrState r = RsApplied \<and> xrAppliedAmountMicroCoin r \<noteq> Some (cpAmountMicroCoin expected) then Inl ''applied_amount_mismatch''
      else if xrState r = RsRejected \<and> blank_text (xrReason r) then Inl ''rejected_without_reason''
      else Inr r)"

fun outboxStateForResult :: "ConsumptionResultState \<Rightarrow> OutboxState" where
  "outboxStateForResult RsApplied = OxConfirmed"
| "outboxStateForResult RsReceived = OxReceived"
| "outboxStateForResult RsRejected = OxRejected"
| "outboxStateForResult RsUnknown = OxUnknown"

fun STATE_RANK :: "OutboxState \<Rightarrow> nat" where
  "STATE_RANK OxNotExported = 0"
| "STATE_RANK OxUnknown = 1"
| "STATE_RANK OxPending = 1"
| "STATE_RANK OxReceived = 2"
| "STATE_RANK OxRejected = 3"
| "STATE_RANK OxConfirmed = 4"

definition shouldAdvanceState :: "OutboxState \<Rightarrow> OutboxState \<Rightarrow> bool" where
  "shouldAdvanceState current nxt \<longleftrightarrow>
     (if current = OxConfirmed then False
      else if current = OxRejected \<and> nxt \<noteq> OxConfirmed then False
      else STATE_RANK current \<le> STATE_RANK nxt)"

definition nextBackoffMs :: "nat \<Rightarrow> nat" where
  "nextBackoffMs attemptCount = (let bounded = max 1 (min attemptCount 16) in min (15 * 60000) (1000 * 2 ^ (bounded - 1)))"

subsection \<open>The outbox\<close>

record ConsumptionOutboxRecord =
  coBillId :: string
  coSourceInstanceId :: string
  coExternalAccountRef :: string
  coPayload :: ConsumptionBillPayload
  coPayloadDigest :: string
  coAmountMicroCoin :: string
  coState :: OutboxState
  coAttemptCount :: nat
  coLastAttemptAt :: "string option"
  coNextAttemptAt :: "string option"
  coLastError :: "string option"
  coCreatedAt :: string
  coUpdatedAt :: string

record ConsumptionReceiptRecord =
  rpReceiptId :: string
  rpBillId :: string
  rpSourceInstanceId :: string
  rpDigest :: string
  rpState :: ConsumptionResultState
  rpExternalEntryId :: "string option"
  rpAppliedAmountMicroCoin :: "string option"
  rpReason :: "string option"
  rpObservedAt :: string

record outbox_db =
  oxRows :: "ConsumptionOutboxRecord list"
  oxReceipts :: "ConsumptionReceiptRecord list"
  oxInstances :: "string list"

definition insertOutbox :: "ConsumptionOutboxRecord \<Rightarrow> outbox_db \<Rightarrow> outbox_db result" where
  "insertOutbox r db = (if coBillId r \<in> coBillId ` set (oxRows db) then Inl ''UNIQUE constraint failed: consumption_outbox.bill_id''
     else Inr (db\<lparr>oxRows := oxRows db @ [r]\<rparr>))"

definition findOutbox :: "string \<Rightarrow> outbox_db \<Rightarrow> ConsumptionOutboxRecord option" where
  "findOutbox billId db = find (\<lambda>r. coBillId r = billId) (oxRows db)"

definition manual_review :: "string option \<Rightarrow> bool" where
  "manual_review e \<longleftrightarrow> (case e of None \<Rightarrow> False
     | Some s \<Rightarrow> list_all2 (\<lambda>p c. p = CHR ''_'' \<or> p = lower_char c) ''manual_review:'' (take 14 s))"

definition claimable_row :: "string \<Rightarrow> string \<Rightarrow> ConsumptionOutboxRecord \<Rightarrow> bool" where
  "claimable_row billId attemptedAt r \<longleftrightarrow> coBillId r = billId \<and> coState r \<in> {OxNotExported, OxPending, OxUnknown}
     \<and> \<not> manual_review (coLastError r)
     \<and> (case coNextAttemptAt r of None \<Rightarrow> True | Some t \<Rightarrow> code_unit_compare t attemptedAt \<le> 0)"

definition update_outbox :: "(ConsumptionOutboxRecord \<Rightarrow> bool) \<Rightarrow> (ConsumptionOutboxRecord \<Rightarrow> ConsumptionOutboxRecord) \<Rightarrow> outbox_db \<Rightarrow> outbox_db" where
  "update_outbox p f db = db\<lparr>oxRows := map (\<lambda>r. if p r then f r else r) (oxRows db)\<rparr>"

definition after_ms :: "js_runtime \<Rightarrow> string \<Rightarrow> nat \<Rightarrow> string result" where
  "after_ms rt now ms = (case dateParse rt now of None \<Rightarrow> Inl ''Invalid time value''
     | Some t \<Rightarrow> if \<bar>t + int ms\<bar> \<le> MAX_DATE then Inr (toISOString rt (t + int ms)) else Inl ''Invalid time value'')"

definition claimed_row :: "string \<Rightarrow> string \<Rightarrow> ConsumptionOutboxRecord \<Rightarrow> ConsumptionOutboxRecord" where
  "claimed_row attemptedAt due r = r\<lparr>coAttemptCount := coAttemptCount r + 1, coLastAttemptAt := Some attemptedAt,
     coState := (if coState r = OxNotExported then OxPending else coState r), coNextAttemptAt := Some due, coUpdatedAt := attemptedAt\<rparr>"

definition claimForSubmission :: "js_runtime \<Rightarrow> string \<Rightarrow> string \<Rightarrow> outbox_db \<Rightarrow> (bool \<times> outbox_db) result" where
  "claimForSubmission rt billId attemptedAt db =
     rbind (after_ms rt attemptedAt 60000) (\<lambda>due.
       Inr (list_ex (claimable_row billId attemptedAt) (oxRows db),
         update_outbox (claimable_row billId attemptedAt) (claimed_row attemptedAt due) db))"

definition recordAttempt :: "string \<Rightarrow> OutboxState \<Rightarrow> string \<Rightarrow> string option \<Rightarrow> string option \<Rightarrow> outbox_db \<Rightarrow> outbox_db" where
  "recordAttempt billId state attemptedAt nextAttemptAt lastError db =
     (case findOutbox billId db of
        None \<Rightarrow> db
      | Some current \<Rightarrow>
          if \<not> shouldAdvanceState (coState current) state then db
          else update_outbox (\<lambda>r. coBillId r = billId) (\<lambda>r. r\<lparr>coState := state, coLastAttemptAt := Some attemptedAt,
            coNextAttemptAt := nextAttemptAt, coLastError := lastError, coUpdatedAt := attemptedAt\<rparr>) db)"

definition listByStates :: "OutboxState list \<Rightarrow> nat \<Rightarrow> outbox_db \<Rightarrow> ConsumptionOutboxRecord list" where
  "listByStates states limit db = take limit (js_sort
     (\<lambda>l r. cmp_or (code_unit_compare (coCreatedAt l) (coCreatedAt r)) (code_unit_compare (coBillId l) (coBillId r)))
     (filter (\<lambda>r. coState r \<in> set states \<and> \<not> manual_review (coLastError r)) (oxRows db)))"

definition appendReceipt :: "ConsumptionReceiptRecord \<Rightarrow> outbox_db \<Rightarrow> outbox_db" where
  "appendReceipt r db = (if rpReceiptId r \<in> rpReceiptId ` set (oxReceipts db) then db else db\<lparr>oxReceipts := oxReceipts db @ [r]\<rparr>)"

definition listReceipts :: "string \<Rightarrow> outbox_db \<Rightarrow> ConsumptionReceiptRecord list" where
  "listReceipts billId db = js_sort
     (\<lambda>l r. cmp_or (code_unit_compare (rpObservedAt l) (rpObservedAt r)) (code_unit_compare (rpReceiptId l) (rpReceiptId r)))
     (filter (\<lambda>r. rpBillId r = billId) (oxReceipts db))"

fun receipt_rank :: "ConsumptionResultState \<Rightarrow> int" where
  "receipt_rank RsApplied = 4"
| "receipt_rank RsRejected = 3"
| "receipt_rank RsReceived = 2"
| "receipt_rank RsUnknown = 1"

definition latestReceipt :: "string \<Rightarrow> outbox_db \<Rightarrow> ConsumptionReceiptRecord option" where
  "latestReceipt billId db = (case js_sort (\<lambda>l r. cmp_or (receipt_rank (rpState r) - receipt_rank (rpState l))
       (cmp_or (code_unit_compare (rpObservedAt r) (rpObservedAt l)) (code_unit_compare (rpReceiptId r) (rpReceiptId l))))
     (filter (\<lambda>r. rpBillId r = billId) (oxReceipts db)) of [] \<Rightarrow> None | r # _ \<Rightarrow> Some r)"

definition readSourceInstanceId :: "outbox_db \<Rightarrow> string option" where
  "readSourceInstanceId db = (case oxInstances db of [] \<Rightarrow> None | i # _ \<Rightarrow> Some i)"

definition ensureSourceInstanceId :: "string \<Rightarrow> outbox_db \<Rightarrow> string \<times> outbox_db" where
  "ensureSourceInstanceId sourceInstanceId db = (case readSourceInstanceId db of
     Some existing \<Rightarrow> if existing \<noteq> [] then (existing, db) else (sourceInstanceId, db\<lparr>oxInstances := oxInstances db @ [sourceInstanceId]\<rparr>)
   | None \<Rightarrow> (sourceInstanceId, db\<lparr>oxInstances := oxInstances db @ [sourceInstanceId]\<rparr>))"

subsection \<open>Export\<close>

datatype ExportOutcome =
    NotExportedOutcome string
  | SettledOutcome string OutboxState
  | RetryableOutcome string string
  | RejectedOutcome string string
  | ManualReviewOutcome string string

definition payloadFor :: "js_runtime \<Rightarrow> ConsumptionOutboxRecord \<Rightarrow> ConsumptionBill" where
  "payloadFor rt r = buildConsumptionBill rt ((coPayload r)\<lparr>cpAmountMicroCoin := coAmountMicroCoin r,
     cpSourceInstanceId := coSourceInstanceId r, cpExternalAccountRef := coExternalAccountRef r\<rparr>)"

definition receipt_of :: "ConsumptionOutboxRecord \<Rightarrow> ConsumptionResult \<Rightarrow> string \<Rightarrow> ConsumptionReceiptRecord" where
  "receipt_of r x now = \<lparr>rpReceiptId = ''receipt_'' @ coBillId r @ ''_'' @ now, rpBillId = coBillId r, rpSourceInstanceId = coSourceInstanceId r,
     rpDigest = xrDigest x, rpState = xrState x, rpExternalEntryId = xrExternalEntryId x,
     rpAppliedAmountMicroCoin = xrAppliedAmountMicroCoin x, rpReason = xrReason x, rpObservedAt = now\<rparr>"

definition reason_or_rejected :: "ConsumptionResult \<Rightarrow> string" where
  "reason_or_rejected x = case_option ''rejected'' id (xrReason x)"

text \<open>
  The receipt is appended before the date of the next attempt is computed, so a date that does
  not parse throws after it.
\<close>

definition settle_valid :: "js_runtime \<Rightarrow> ConsumptionOutboxRecord \<Rightarrow> ConsumptionResult \<Rightarrow> string \<Rightarrow> outbox_db \<Rightarrow> ExportOutcome result \<times> outbox_db" where
  "settle_valid rt r x now db =
     (let nxt = outboxStateForResult (xrState x);
          state = (if shouldAdvanceState (coState r) nxt then nxt else coState r);
          db' = appendReceipt (receipt_of r x now) db;
          due = after_ms rt now (nextBackoffMs (coAttemptCount r + 1)) in
      case xrState x of
        RsRejected \<Rightarrow> (Inr (RejectedOutcome (coBillId r) (reason_or_rejected x)),
          recordAttempt (coBillId r) OxRejected now None (Some (reason_or_rejected x)) db')
      | RsUnknown \<Rightarrow> (case due of Inl e \<Rightarrow> (Inl e, db') | Inr d \<Rightarrow> (Inr (RetryableOutcome (coBillId r) ''external_unknown''),
          recordAttempt (coBillId r) state now (Some d) (Some ''external_unknown'') db'))
      | RsReceived \<Rightarrow> (case due of Inl e \<Rightarrow> (Inl e, db') | Inr d \<Rightarrow> (Inr (SettledOutcome (coBillId r) OxReceived),
          recordAttempt (coBillId r) OxReceived now (Some d) None db'))
      | RsApplied \<Rightarrow> (Inr (SettledOutcome (coBillId r) OxConfirmed), recordAttempt (coBillId r) OxConfirmed now None None db'))"

definition settleFromResult :: "js_runtime \<Rightarrow> ConsumptionOutboxRecord \<Rightarrow> ConsumptionBill \<Rightarrow> ConsumptionResult \<Rightarrow> string \<Rightarrow> outbox_db
    \<Rightarrow> ExportOutcome result \<times> outbox_db" where
  "settleFromResult rt r bill raw now db = (case validateConsumptionResult bill raw of
     Inl reason \<Rightarrow> (Inr (ManualReviewOutcome (coBillId r) reason),
       recordAttempt (coBillId r) OxUnknown now None (Some (''manual_review:'' @ reason)) db)
   | Inr x \<Rightarrow> settle_valid rt r x now db)"

text \<open>The status query failed with a message.\<close>

definition status_query_failed :: "js_runtime \<Rightarrow> ConsumptionOutboxRecord \<Rightarrow> string \<Rightarrow> string \<Rightarrow> outbox_db \<Rightarrow> ExportOutcome result \<times> outbox_db" where
  "status_query_failed rt r message now db = (case after_ms rt now (nextBackoffMs (coAttemptCount r + 1)) of
     Inl e \<Rightarrow> (Inl e, db)
   | Inr d \<Rightarrow> (Inr (RetryableOutcome (coBillId r) ''status_query_failed''), recordAttempt (coBillId r) OxUnknown now (Some d) (Some message) db))"

text \<open>The part of \<open>exportBill\<close> before its first \<open>await\<close>: an outcome, or the claimed row to submit.\<close>

definition exportBill_claim :: "js_runtime \<Rightarrow> bool \<Rightarrow> string \<Rightarrow> string \<Rightarrow> outbox_db \<Rightarrow> (ExportOutcome + ConsumptionOutboxRecord) result \<times> outbox_db" where
  "exportBill_claim rt exportEnabled now billId db = (case findOutbox billId db of
     None \<Rightarrow> (Inr (Inl (NotExportedOutcome ''unknown_bill'')), db)
   | Some r \<Rightarrow>
       if coState r = OxConfirmed \<or> coState r = OxRejected then (Inr (Inl (SettledOutcome billId (coState r))), db)
       else if \<not> exportEnabled then (Inr (Inl (NotExportedOutcome ''export_disabled'')), db)
       else case claimForSubmission rt billId now db of
           Inl e \<Rightarrow> (Inl e, db)
         | Inr (claimed, db') \<Rightarrow>
             if \<not> claimed then (Inr (Inl (RetryableOutcome billId ''not_due'')), db')
             else case findOutbox billId db' of None \<Rightarrow> (Inl ''TypeError'', db') | Some c \<Rightarrow> (Inr (Inr c), db'))"

text \<open>After the submission failed and the status query gave a retryable outcome.\<close>

definition submission_failed :: "js_runtime \<Rightarrow> ConsumptionOutboxRecord \<Rightarrow> string \<Rightarrow> string \<Rightarrow> outbox_db \<Rightarrow> ExportOutcome result \<times> outbox_db" where
  "submission_failed rt c message now db = (case after_ms rt now (nextBackoffMs (coAttemptCount c)) of
     Inl e \<Rightarrow> (Inl e, db)
   | Inr d \<Rightarrow> (Inr (RetryableOutcome (coBillId c) message), recordAttempt (coBillId c) OxUnknown now (Some d) (Some message) db))"

text \<open>
  What the external system does when asked: a result, or an error with its message.
\<close>

definition exportBill_answer :: "js_runtime \<Rightarrow> ConsumptionOutboxRecord \<Rightarrow> string \<Rightarrow> ConsumptionResult result \<Rightarrow> ConsumptionResult result \<Rightarrow> outbox_db
    \<Rightarrow> ExportOutcome result \<times> outbox_db" where
  "exportBill_answer rt c now submitted queried db = (case submitted of
     Inr raw \<Rightarrow> settleFromResult rt c (payloadFor rt c) raw now db
   | Inl message \<Rightarrow>
       (case (case queried of Inr raw \<Rightarrow> settleFromResult rt c (payloadFor rt c) raw now db | Inl m \<Rightarrow> status_query_failed rt c m now db) of
          (Inr (RetryableOutcome _ _), db') \<Rightarrow> submission_failed rt c message now db'
        | other \<Rightarrow> other))"

subsection \<open>Reconciliation\<close>

datatype ReconciliationOutcome = ReConfirmed string | ReReceived string | ReRejected string string | ReUnchanged string string | ReManualReview string string

definition reconcile_start :: "string \<Rightarrow> outbox_db \<Rightarrow> ReconciliationOutcome + ConsumptionOutboxRecord" where
  "reconcile_start billId db = (case findOutbox billId db of
     None \<Rightarrow> Inl (ReUnchanged billId ''unknown_bill'')
   | Some r \<Rightarrow> if coState r = OxConfirmed \<or> coState r = OxRejected then Inl (ReUnchanged billId ''terminal'') else Inr r)"

definition reconcile_answer :: "js_runtime \<Rightarrow> ConsumptionOutboxRecord \<Rightarrow> string \<Rightarrow> ConsumptionResult result \<Rightarrow> outbox_db \<Rightarrow> ReconciliationOutcome \<times> outbox_db" where
  "reconcile_answer rt r now queried db = (case queried of
     Inl message \<Rightarrow> (ReUnchanged (coBillId r) message, db)
   | Inr raw \<Rightarrow> (case validateConsumptionResult (payloadFor rt r) raw of
       Inl reason \<Rightarrow> (ReManualReview (coBillId r) reason,
         recordAttempt (coBillId r) (coState r) now None (Some (''manual_review:'' @ reason)) db)
     | Inr x \<Rightarrow>
         (let nxt = outboxStateForResult (xrState x); db' = appendReceipt (receipt_of r x now) db in
          if \<not> shouldAdvanceState (coState r) nxt then (ReUnchanged (coBillId r) ''stale_result_ignored'', db')
          else ((case xrState x of RsApplied \<Rightarrow> ReConfirmed (coBillId r) | RsReceived \<Rightarrow> ReReceived (coBillId r)
               | RsRejected \<Rightarrow> ReRejected (coBillId r) (reason_or_rejected x) | RsUnknown \<Rightarrow> ReUnchanged (coBillId r) ''still_unknown''),
             recordAttempt (coBillId r) nxt now None (if xrState x = RsRejected then Some (reason_or_rejected x) else None) db'))))"

subsection \<open>The life of a row\<close>

text \<open>
  One step per synchronous part: any number of exports and reconciliations interleave at their
  \<open>await\<close>s, so a part may work on a row as it was read before. Only rows that are not yet confirmed
  are submitted or reconciled (\<open>claimed_open\<close>, \<open>reconciled_open\<close>).
\<close>

inductive outbox_step :: "js_runtime \<Rightarrow> outbox_db \<Rightarrow> outbox_db \<Rightarrow> bool" for rt where
  enqueue_bill: "insertOutbox r db = Inr db' \<Longrightarrow> outbox_step rt db db'"
| claim_bill: "outbox_step rt db (snd (exportBill_claim rt enabled now billId db))"
| settle_bill: "coState r \<noteq> OxConfirmed \<Longrightarrow> outbox_step rt db (snd (settleFromResult rt r (payloadFor rt r) raw now db))"
| query_failed: "outbox_step rt db (snd (status_query_failed rt r message now db))"
| submit_failed: "outbox_step rt db (snd (submission_failed rt r message now db))"
| reconcile_bill: "coState r \<noteq> OxConfirmed \<Longrightarrow> outbox_step rt db (snd (reconcile_answer rt r now queried db))"
| bind_instance: "outbox_step rt db (snd (ensureSourceInstanceId i db))"

definition outbox_run :: "js_runtime \<Rightarrow> outbox_db \<Rightarrow> outbox_db \<Rightarrow> bool" where
  "outbox_run rt = (outbox_step rt)\<^sup>*\<^sup>*"

lemma find_keyed: "find (\<lambda>r. coBillId r = b) rows = Some r \<Longrightarrow> r \<in> set rows \<and> coBillId r = b"
  by (rule find_Some_mem)

lemma update_outbox_rows [simp]: "oxRows (update_outbox p f db) = map (\<lambda>r. if p r then f r else r) (oxRows db)"
  by (simp add: update_outbox_def)

lemma claimed_open:
  assumes "exportBill_claim rt enabled now billId db = (Inr (Inr c), db')"
  shows "coState c \<noteq> OxConfirmed"
proof -
  obtain r where r: "findOutbox billId db = Some r" "coState r \<noteq> OxConfirmed"
    using assms by (auto simp: exportBill_claim_def split: option.splits if_splits)
  from assms r obtain due where c: "findOutbox billId db' = Some c" and db': "db' = update_outbox (claimable_row billId now) (claimed_row now due) db"
    by (auto simp: exportBill_claim_def claimForSubmission_def split: option.splits if_splits sum.splits)
  let ?f = "\<lambda>r. if claimable_row billId now r then claimed_row now due r else r"
  have "find (\<lambda>r. coBillId r = billId) (map ?f rows) = map_option ?f (find (\<lambda>r. coBillId r = billId) rows)" for rows
    by (induction rows) (auto simp: claimed_row_def)
  with c r show ?thesis unfolding db' by (auto simp: findOutbox_def claimed_row_def split: if_splits)
qed

lemma reconciled_open: "reconcile_start billId db = Inr r \<Longrightarrow> coState r \<noteq> OxConfirmed"
  by (auto simp: reconcile_start_def split: option.splits if_splits)

definition advanced :: "ConsumptionOutboxRecord \<Rightarrow> ConsumptionOutboxRecord \<Rightarrow> bool" where
  "advanced r r' \<longleftrightarrow> coBillId r' = coBillId r \<and> coSourceInstanceId r' = coSourceInstanceId r \<and> coExternalAccountRef r' = coExternalAccountRef r
     \<and> coPayload r' = coPayload r \<and> coPayloadDigest r' = coPayloadDigest r \<and> coAmountMicroCoin r' = coAmountMicroCoin r
     \<and> coCreatedAt r' = coCreatedAt r \<and> STATE_RANK (coState r) \<le> STATE_RANK (coState r')"

definition outbox_grows :: "outbox_db \<Rightarrow> outbox_db \<Rightarrow> bool" where
  "outbox_grows db db' \<longleftrightarrow> list_all2 advanced (oxRows db) (take (length (oxRows db)) (oxRows db'))"

abbreviation one_row_per_bill :: "outbox_db \<Rightarrow> bool" where
  "one_row_per_bill db \<equiv> distinct (map coBillId (oxRows db))"

lemma advanced_refl [simp]: "advanced r r"
  by (simp add: advanced_def)

lemma advanced_trans: "advanced r s \<Longrightarrow> advanced s t \<Longrightarrow> advanced r t"
  by (simp add: advanced_def)

lemma grows_refl [simp]: "outbox_grows db db"
  by (simp add: outbox_grows_def list_all2_refl)

lemma grows_trans:
  assumes "outbox_grows a b" and "outbox_grows b c"
  shows "outbox_grows a c"
proof -
  let ?n = "length (oxRows a)"
  have n: "?n \<le> length (oxRows b)" using assms(1) list_all2_lengthD by (fastforce simp: outbox_grows_def)
  have "list_all2 advanced (take ?n (oxRows b)) (take ?n (take (length (oxRows b)) (oxRows c)))"
    by (rule list_all2_takeI [OF assms(2) [unfolded outbox_grows_def]])
  with n have "list_all2 advanced (take ?n (oxRows b)) (take ?n (oxRows c))" by (simp add: min_absorb1)
  with assms(1) show ?thesis unfolding outbox_grows_def by (rule list_all2_trans [rotated]) (rule advanced_trans)
qed

lemma update_grows:
  assumes "\<And>r. r \<in> set (oxRows db) \<Longrightarrow> p r \<Longrightarrow> advanced r (f r)"
  shows "outbox_grows db (update_outbox p f db) \<and> (one_row_per_bill db \<longrightarrow> one_row_per_bill (update_outbox p f db))"
proof -
  have "coBillId (if p r then f r else r) = coBillId r" if "r \<in> set (oxRows db)" for r using assms that by (auto simp: advanced_def)
  then have eq: "map coBillId (oxRows (update_outbox p f db)) = map coBillId (oxRows db)" by simp
  have "outbox_grows db (update_outbox p f db)"
    using assms by (auto simp: outbox_grows_def list_all2_conv_all_nth)
  then show ?thesis unfolding eq by blast
qed

lemma advance_rank: "shouldAdvanceState s t \<Longrightarrow> STATE_RANK s \<le> STATE_RANK t"
  by (simp add: shouldAdvanceState_def split: if_splits)

text \<open>What a step keeps: rows stay where they are, unchanged but for their progress.\<close>

definition keeps_outbox :: "outbox_db \<Rightarrow> outbox_db \<Rightarrow> bool" where
  "keeps_outbox db db' \<longleftrightarrow> (one_row_per_bill db \<longrightarrow> one_row_per_bill db' \<and> outbox_grows db db')"

lemma keeps_same_rows: "oxRows db' = oxRows db \<Longrightarrow> keeps_outbox db db'"
  by (simp add: keeps_outbox_def outbox_grows_def list_all2_refl)

lemma keeps_trans: "keeps_outbox a b \<Longrightarrow> keeps_outbox b c \<Longrightarrow> keeps_outbox a c"
  unfolding keeps_outbox_def using grows_trans by blast

lemma keeps_recordAttempt: "keeps_outbox db (recordAttempt b s now d e db)"
proof (cases "findOutbox b db")
  case (Some current)
  note mem = find_keyed [OF Some [unfolded findOutbox_def]]
  have "advanced r (r\<lparr>coState := s, coLastAttemptAt := Some now, coNextAttemptAt := d, coLastError := e, coUpdatedAt := now\<rparr>)"
    if "one_row_per_bill db" "shouldAdvanceState (coState current) s" "r \<in> set (oxRows db)" "coBillId r = b" for r
  proof -
    have "r = current" using that mem by (metis distinct_map inj_onD)
    then show ?thesis using advance_rank [OF that(2)] by (simp add: advanced_def)
  qed
  then show ?thesis using Some update_grows unfolding keeps_outbox_def recordAttempt_def
    by (cases "shouldAdvanceState (coState current) s") (auto)
qed (simp add: recordAttempt_def keeps_same_rows)

lemma appendReceipt_rows [simp]: "oxRows (appendReceipt r db) = oxRows db"
  by (simp add: appendReceipt_def)

lemma keeps_recorded_receipt: "keeps_outbox db (recordAttempt b s now d e (appendReceipt r db))"
  by (rule keeps_trans [OF keeps_same_rows keeps_recordAttempt]) simp

lemma keeps_claim: "keeps_outbox db (snd (exportBill_claim rt enabled now b db))"
proof -
  have "keeps_outbox db db'" if "claimForSubmission rt b now db = Inr (claimed, db')" for claimed db'
  proof -
    from that obtain due where db': "db' = update_outbox (claimable_row b now) (claimed_row now due) db" by (auto simp: claimForSubmission_def)
    have "advanced r (claimed_row now due r)" for r by (simp add: advanced_def claimed_row_def)
    then show ?thesis unfolding db' keeps_outbox_def using update_grows [of db "claimable_row b now" "claimed_row now due"] by blast
  qed
  then show ?thesis by (auto simp: exportBill_claim_def keeps_same_rows split: option.splits if_splits sum.splits)
qed

lemma keeps_settle: "keeps_outbox db (snd (settleFromResult rt r bill raw now db))"
  by (auto simp: settleFromResult_def settle_valid_def Let_def keeps_recordAttempt keeps_recorded_receipt keeps_same_rows
      split: sum.splits ConsumptionResultState.splits)

lemma keeps_reconcile: "keeps_outbox db (snd (reconcile_answer rt r now q db))"
  by (auto simp: reconcile_answer_def Let_def keeps_recordAttempt keeps_recorded_receipt keeps_same_rows split: sum.splits)

lemma outbox_step_keeps: "outbox_step rt db db' \<Longrightarrow> keeps_outbox db db'"
proof (induction rule: outbox_step.induct)
  case (enqueue_bill r db db')
  then show ?case by (auto simp: insertOutbox_def keeps_outbox_def outbox_grows_def list_all2_refl split: if_splits)
next
  case (bind_instance db i)
  then show ?case by (intro keeps_same_rows) (simp add: ensureSourceInstanceId_def split: option.splits)
qed (auto simp: keeps_claim keeps_settle keeps_reconcile status_query_failed_def submission_failed_def keeps_recordAttempt keeps_same_rows
    split: sum.splits)

text \<open>
  Claim C40. Nothing in the outbox goes back: whatever exports and reconciliations interleave and whatever the
  external system answers, each bill keeps its one row with the same payload and amount, its
  state never falls in rank, and so a confirmed row stays confirmed.
\<close>

theorem outbox_never_regresses:
  assumes "outbox_run rt db db'" and "one_row_per_bill db" and "findOutbox b db = Some r"
  shows "\<exists>r'. findOutbox b db' = Some r' \<and> advanced r r' \<and> (coState r = OxConfirmed \<longrightarrow> coState r' = OxConfirmed)"
proof -
  have "keeps_outbox db db'" using assms(1) unfolding outbox_run_def
    by (induction rule: rtranclp_induct) (auto intro: keeps_trans outbox_step_keeps keeps_same_rows)
  with assms(2) have d: "one_row_per_bill db'" and g: "outbox_grows db db'" by (auto simp: keeps_outbox_def)
  note mem = find_keyed [OF assms(3) [unfolded findOutbox_def]]
  from mem obtain k where k: "k < length (oxRows db)" "oxRows db ! k = r" by (auto simp: in_set_conv_nth)
  then have r': "advanced r (oxRows db' ! k)" "k < length (oxRows db')"
    using g list_all2_lengthD [OF g [unfolded outbox_grows_def]] by (auto simp: outbox_grows_def list_all2_conv_all_nth)
  have "find (\<lambda>r. coBillId r = b) (oxRows db') = Some (oxRows db' ! k)"
  proof -
    have b: "coBillId (oxRows db' ! k) = b" "oxRows db' ! k \<in> set (oxRows db')" using r' mem by (simp_all add: advanced_def)
    then obtain y where y: "find (\<lambda>r. coBillId r = b) (oxRows db') = Some y"
      using find_None_all [of "\<lambda>r. coBillId r = b" "oxRows db'"] by (cases "find (\<lambda>r. coBillId r = b) (oxRows db')") auto
    have "y = oxRows db' ! k" using find_keyed [OF y] b d by (metis distinct_map inj_onD)
    with y show ?thesis by simp
  qed
  moreover have "coState r = OxConfirmed \<Longrightarrow> coState (oxRows db' ! k) = OxConfirmed"
    using r'(1) by (cases "coState (oxRows db' ! k)") (auto simp: advanced_def)
  ultimately show ?thesis using r'(1) by (simp add: findOutbox_def)
qed

lemma find_update:
  "(\<And>r. coBillId (f r) = coBillId r) \<Longrightarrow> find (\<lambda>r. coBillId r = b) (map (\<lambda>r. if p r then f r else r) rows)
     = map_option (\<lambda>r. if p r then f r else r) (find (\<lambda>r. coBillId r = b) rows)"
  by (induction rows) auto

lemma record_confirmed:
  assumes "findOutbox b db = Some row" and "coState row \<noteq> OxConfirmed"
    and "findOutbox b (recordAttempt b' s now d e db) = Some row'" and "coState row' = OxConfirmed"
  shows "b = b' \<and> s = OxConfirmed"
proof -
  have "coBillId row = b" using find_keyed assms(1) unfolding findOutbox_def by blast
  then show ?thesis using assms
    by (auto simp: recordAttempt_def findOutbox_def find_update split: option.splits if_splits)
qed

lemma findOutbox_receipt [simp]: "findOutbox b (appendReceipt r db) = findOutbox b db"
  by (simp add: findOutbox_def)

lemma valid_applied:
  assumes "validateConsumptionResult (payloadFor rt r) raw = Inr x"
  shows "x = raw" and "xrBillId raw = cpBillId (coPayload r)" and "xrDigest raw = cbDigest (payloadFor rt r)"
    and "xrState raw = RsApplied \<Longrightarrow> xrAppliedAmountMicroCoin raw = Some (coAmountMicroCoin r) \<and> \<not> blank_text (xrExternalEntryId raw)"
  using assms
  by (auto simp: validateConsumptionResult_def payloadFor_def buildConsumptionBill_def ConsumptionBillPayload.defs split: if_splits)

text \<open>A valid answer leaves its receipt and at most one attempt, confirmed only if it says applied.\<close>

definition recorded :: "ConsumptionOutboxRecord \<Rightarrow> ConsumptionResult \<Rightarrow> outbox_db \<Rightarrow> outbox_db \<Rightarrow> bool" where
  "recorded r x db db' \<longleftrightarrow> (\<exists>now. db' = appendReceipt (receipt_of r x now) db
     \<or> (\<exists>s d e. db' = recordAttempt (coBillId r) s now d e (appendReceipt (receipt_of r x now) db)
          \<and> (s = OxConfirmed \<longrightarrow> xrState x = RsApplied \<or> coState r = OxConfirmed)))"

lemma settle_records: "recorded r x db (snd (settle_valid rt r x now db))"
  unfolding recorded_def
  by (intro exI [of _ now], cases "xrState x"; cases "after_ms rt now (nextBackoffMs (coAttemptCount r + 1))")
    (auto simp: settle_valid_def Let_def split: if_splits)

lemma reconcile_records:
  assumes "validateConsumptionResult (payloadFor rt r) raw = Inr x"
  shows "recorded r x db (snd (reconcile_answer rt r now (Inr raw) db))"
  unfolding recorded_def using assms by (intro exI [of _ now], cases "xrState x") (auto simp: reconcile_answer_def Let_def)

text \<open>
  A charge is confirmed only on proof: when an answer to an export or a reconciliation of a row turns a
  bill's row to confirmed, the answer is for that bill and its digest, says applied, names an entry in the
  external ledger and the exact amount of the row.
\<close>

theorem confirmed_only_if_applied:
  assumes "coState r \<noteq> OxConfirmed" and "findOutbox b db = Some row" and "coState row \<noteq> OxConfirmed"
    and "db' = snd (settleFromResult rt r (payloadFor rt r) raw now db) \<or> db' = snd (reconcile_answer rt r now (Inr raw) db)"
    and "findOutbox b db' = Some row'" and "coState row' = OxConfirmed"
  shows "b = coBillId r \<and> xrState raw = RsApplied \<and> xrBillId raw = cpBillId (coPayload r) \<and> xrDigest raw = cbDigest (payloadFor rt r)
    \<and> xrAppliedAmountMicroCoin raw = Some (coAmountMicroCoin r) \<and> \<not> blank_text (xrExternalEntryId raw)"
proof -
  have rec: "b = b' \<and> s = OxConfirmed" if "db' = recordAttempt b' s t d e db0" "findOutbox b db0 = Some row" for b' s t d e db0
    by (rule record_confirmed [OF that(2) assms(3) assms(5) [unfolded that(1)] assms(6)])
  have same: "db' \<noteq> db" "db' \<noteq> appendReceipt x db" for x using assms(2,3,5,6) by auto
  have "b = coBillId r \<and> xrState raw = RsApplied \<and> (\<exists>x. validateConsumptionResult (payloadFor rt r) raw = Inr x)"
  proof (cases "validateConsumptionResult (payloadFor rt r) raw")
    case (Inl reason)
    from assms(4) Inl obtain s e where "db' = recordAttempt (coBillId r) s now None e db" "s \<noteq> OxConfirmed"
      using assms(1) by (auto simp: settleFromResult_def reconcile_answer_def)
    with rec assms(2) show ?thesis by blast
  next
    case (Inr x)
    then have x: "x = raw" by (rule valid_applied(1))
    have "recorded r x db db'" using assms(4) Inr settle_records reconcile_records by (auto simp: settleFromResult_def)
    then consider t where "db' = appendReceipt (receipt_of r x t) db"
      | t s d e where "db' = recordAttempt (coBillId r) s t d e (appendReceipt (receipt_of r x t) db)"
          "s = OxConfirmed \<longrightarrow> xrState x = RsApplied \<or> coState r = OxConfirmed"
      unfolding recorded_def by blast
    then show ?thesis
    proof cases
      case 1
      with same show ?thesis by blast
    next
      case 2
      with rec [OF 2(1)] assms(1,2) Inr x show ?thesis by auto
    qed
  qed
  then show ?thesis using valid_applied by blast
qed

lemma backoff_bounded: "1000 \<le> nextBackoffMs n \<and> nextBackoffMs n \<le> 900000"
proof -
  have "(1 :: nat) \<le> 2 ^ k" for k by simp
  then show ?thesis by (simp add: nextBackoffMs_def Let_def)
qed

text \<open>
  The identifier of a receipt is made of the bill and the instant, so the receipt of a second
  answer in the same instant is dropped, also when that answer confirms the row.
\<close>

lemma same_instant_receipt_lost:
  assumes "receipt_of r y now \<in> set (oxReceipts db)"
  shows "oxReceipts (snd (settle_valid rt r x now db)) = oxReceipts db"
proof -
  have "rpReceiptId (receipt_of r x now) = rpReceiptId (receipt_of r y now)" by (simp add: receipt_of_def)
  then have "appendReceipt (receipt_of r x now) db = db" using assms by (auto simp: appendReceipt_def)
  moreover have "oxReceipts (recordAttempt b s t d e db) = oxReceipts db" for b s t d e
    by (simp add: recordAttempt_def update_outbox_def split: option.splits)
  ultimately show ?thesis by (auto simp: settle_valid_def Let_def split: ConsumptionResultState.splits sum.splits)
qed

subsection \<open>Witnesses\<close>

definition sample_payload :: ConsumptionBillPayload where
  "sample_payload = \<lparr>cpSourceInstanceId = ''i'', cpExternalAccountRef = ''x'', cpBillId = ''b'', cpQueryId = ''q'', cpTaskId = None,
     cpAmountMicroCoin = ''7'', cpPriceBookVersion = ''v1''\<rparr>"

definition sample_outbox_row :: "OutboxState \<Rightarrow> ConsumptionOutboxRecord" where
  "sample_outbox_row s = \<lparr>coBillId = ''b'', coSourceInstanceId = ''i'', coExternalAccountRef = ''x'', coPayload = sample_payload,
     coPayloadDigest = computeBillDigest sample_runtime sample_payload, coAmountMicroCoin = ''7'', coState = s, coAttemptCount = 1,
     coLastAttemptAt = None, coNextAttemptAt = None, coLastError = None, coCreatedAt = ''0'', coUpdatedAt = ''0''\<rparr>"

definition sample_outbox :: outbox_db where
  "sample_outbox = \<lparr>oxRows = [sample_outbox_row OxPending], oxReceipts = [], oxInstances = [''i'']\<rparr>"

definition sample_applied_result :: ConsumptionResult where
  "sample_applied_result = \<lparr>xrBillId = ''b'', xrDigest = cbDigest (payloadFor sample_runtime (sample_outbox_row OxPending)), xrState = RsApplied,
     xrExternalEntryId = Some ''e'', xrAppliedAmountMicroCoin = Some ''7'', xrReason = None\<rparr>"

abbreviation sample_settled :: outbox_db where
  "sample_settled \<equiv> snd (settleFromResult sample_runtime (sample_outbox_row OxPending) (payloadFor sample_runtime (sample_outbox_row OxPending)) sample_applied_result ''0'' sample_outbox)"

lemma sample_result_valid: "validateConsumptionResult (payloadFor sample_runtime (sample_outbox_row OxPending)) sample_applied_result = Inr sample_applied_result"
  by (simp add: validateConsumptionResult_def sample_applied_result_def payloadFor_def buildConsumptionBill_def ConsumptionBillPayload.defs
      sample_outbox_row_def sample_payload_def blank_text_def js_trim_def trim_start_def js_space_code)

lemma sample_settled_row: "\<exists>row. findOutbox ''b'' sample_settled = Some row \<and> coState row = OxConfirmed"
  unfolding settleFromResult_def sample_result_valid sum.case
  by (simp add: settle_valid_def sample_applied_result_def Let_def recordAttempt_def findOutbox_def sample_outbox_def sample_outbox_row_def shouldAdvanceState_def)

theorem outbox_never_regresses_witness:
  "\<exists>row. findOutbox ''b'' sample_settled = Some row \<and> advanced (sample_outbox_row OxPending) row"
proof -
  have "outbox_run sample_runtime sample_outbox sample_settled" unfolding outbox_run_def
    by (intro r_into_rtranclp settle_bill) (simp add: sample_outbox_row_def)
  moreover have "findOutbox ''b'' sample_outbox = Some (sample_outbox_row OxPending)" by (simp add: findOutbox_def sample_outbox_def sample_outbox_row_def)
  moreover have "one_row_per_bill sample_outbox" by (simp add: sample_outbox_def)
  ultimately show ?thesis using outbox_never_regresses by blast
qed

theorem confirmed_only_if_applied_witness:
  "(\<exists>row. findOutbox ''b'' sample_settled = Some row \<and> coState row = OxConfirmed) \<and> xrAppliedAmountMicroCoin sample_applied_result = Some (coAmountMicroCoin (sample_outbox_row OxPending))"
proof -
  obtain row where row: "findOutbox ''b'' sample_settled = Some row" "coState row = OxConfirmed" using sample_settled_row by blast
  have "findOutbox ''b'' sample_outbox = Some (sample_outbox_row OxPending)" "coState (sample_outbox_row OxPending) \<noteq> OxConfirmed"
    by (simp_all add: findOutbox_def sample_outbox_def sample_outbox_row_def)
  with confirmed_only_if_applied [OF _ _ _ disjI1 [OF refl] row] row show ?thesis by blast
qed

end
