(* ===== verification/Spec2Isabelle.thy ===== *)
theory Spec2Isabelle
  imports Task_Lifecycle Resource_Lease
    Task_Scheduler Kernel_Queries Kernel_Workflow Usage_Metering Consumption_Outbox
begin

text \<open>
  Verification of the MetaWork control core.

  MetaWork turns a user request into a Work Graph of Subtasks, runs each Subtask as an Attempt of
  some executor, and keeps every fact in SQLite. One pure function, the control Kernel, decides
  what happens next; a durable workflow records each decision before a Runtime carries it out. This
  development models that core: what the Kernel decides, what the stores keep, and how the
  workflow joins them. All paths below are under \<open>src/src/\<close>.

  How the parts interact. A Planner proposes a plan (\<open>planning/\<close>); the Kernel
  (\<open>kernel/control-kernel.ts\<close>) validates it, admits it to a Workspace and binds each Subtask to
  executors (\<open>routing/\<close>). Events reach the Kernel through the workflow (\<open>kernel/kernel-workflow.ts\<close>),
  which claims an event from the ledger (\<open>storage/kernel-workflow-repo.ts\<close>), asks for a decision on
  a snapshot, stores decision and application in one transaction, and lets the Runtime apply it.
  Applying changes Tasks and Subtasks through the lifecycle ports (\<open>task/\<close>), takes resource
  leases (\<open>storage/resource-lease-repo.ts\<close>) and starts Attempts. Their outcomes are new events. Beside
  that loop, \<open>billing/\<close> prices what a request used.

  \<^bold>\<open>Theories.\<close>

  \<^item> \<open>Prelude\<close>, \<open>Json\<close>, \<open>Js_Number\<close>: the JavaScript library the modules use, with errors as sums
    (a thrown \<open>Error\<close> is \<open>Inl\<close> of its message), maps as association lists in insertion order,
    stable sorting, JSON text, and exact comparison of doubles. The lemmas on sorting come from
    the locale of strict comparators.
  \<^item> \<open>Work_Graph\<close>, \<open>Graph_Cycle\<close>, \<open>Work_Graph_Validation\<close>, \<open>Work_Graph_Frontier\<close>,
    \<open>Work_Graph_Cancellation\<close> (\<open>work-graph/\<close>): the graph, the cycle search, the validator with its
    declarative specification, the runnable frontier and the cancellation closure. An empty
    report means exactly a valid graph; a valid graph never deadlocks; the closure is the set
    of everything downstream.
  \<^item> \<open>Resource_Partition\<close>, \<open>Permission_Policy\<close>, \<open>Resource_Lease\<close> (\<open>resource/\<close>,
    \<open>storage/resource-lease-repo.ts\<close>, \<open>execution/resource-lease-service.ts\<close>): the covering order
    of partitions, the evaluation of a capability request, and leases and waits as tables.
    Active leases of different Attempts never conflict, along every sequence of calls.
  \<^item> \<open>Task_State\<close>, \<open>Task_Lifecycle\<close>, \<open>Task_Scheduler\<close> (\<open>task/\<close>, \<open>storage/task-repo.ts\<close> and its
    neighbours, \<open>kernel/task-scheduler.ts\<close>): the summary of a Task, the durable transitions and
    the account scheduler. The SQLite store refines a board of statuses and versions, its
    history is a chain of legal moves, and a finished Task is never reopened.
  \<^item> \<open>Executor_Binding\<close>, \<open>Executor_Status\<close>, \<open>Model_Routing\<close>, \<open>Workspace_Admission\<close>,
    \<open>Planning_Plan\<close> (\<open>core/\<close>, \<open>kernel/\<close>, \<open>routing/\<close>, \<open>configuration/\<close>, \<open>workspace/\<close>, \<open>planning/\<close>):
    what an authorization names and rests on.
  \<^item> \<open>Kernel_Types\<close>, \<open>Kernel_Dispatch\<close>, \<open>Kernel_Outcome\<close>, \<open>Kernel_Control\<close>, \<open>Kernel_Plan\<close>,
    \<open>Control_Kernel\<close> (\<open>kernel/control-kernel.ts\<close>): every event, snapshot and action, and the
    decision function with all its branches. \<open>Kernel_Safety\<close> states what it guarantees:
    completion, dispatch, fallback, retry, cancellation, permissions, plan authorization.
  \<^item> \<open>Kernel_Ledger\<close>, \<open>Kernel_Queries\<close>, \<open>Kernel_Workflow\<close> (\<open>storage/kernel-workflow-repo.ts\<close>,
    \<open>storage/kernel-decision-repo.ts\<close>, \<open>kernel/kernel-workflow.ts\<close>,
    \<open>kernel/kernel-application-settlement.ts\<close>): the event, decision and application tables, the
    listings over them, and the drain loop. Every store operation is one step of the relation
    \<open>ledger_run\<close>; the locale \<open>ledger_property\<close> carries what every step keeps to runs, to the
    drain, to \<open>submit\<close> and to \<open>recover\<close>. So a processed event has one decision and one
    application, applied is final, the first answer to a permission request stays the answer, and
    a crash strands nothing, whatever the Runtime does through the store; and the Runtime is only
    ever called for what the ledger has on record as being applied.
  \<^item> \<open>Billing_Money\<close>, \<open>Billing_Policy\<close> (\<open>billing/money.ts\<close>, \<open>billing/pricing.ts\<close>,
    \<open>billing/cost-policy.ts\<close>, \<open>metering/contracts.ts\<close>): exact money, prices and who bears a cost.
    The arithmetic is that of the rational numbers, a charge is rounded once, a distribution
    sums to its total, amounts survive as text.
  \<^item> \<open>Usage_Metering\<close>, \<open>Consumption_Outbox\<close> (\<open>metering/usage-normalizer.ts\<close>, \<open>metering/coverage-projector.ts\<close>,
    \<open>billing/consumption-contract.ts\<close>, \<open>storage/consumption-outbox-repo.ts\<close>, the export and
    reconciliation services of \<open>billing/\<close>): usage counters as exact observations, the coverage of a
    Query, and the outbox of bills. Cumulative counters are differenced exactly, a replay meters
    nothing, an outbox row never goes back and is confirmed only on proof.

  \<^bold>\<open>State and operations.\<close> A class or repository is a record of its state or tables and one
  definition per method, under the method's name (or a name ending in the reason for a clash). A
  database transaction is a function to a result and the next tables; one that throws leaves
  the tables as they were. Unique and foreign keys of \<open>storage/migrations.ts\<close> are tests of the
  insertions, as far as the tables they refer to are modelled. Time is an argument, an ISO text or milliseconds as in the source.

  \<^bold>\<open>Arguments.\<close> \<open>js_runtime\<close> holds what the language leaves to its host (collation, date parsing,
  SHA-256); \<open>js_platform\<close> the floating-point arithmetic of scores; \<open>safeParse\<close> the Zod schema of a
  plan; \<open>workflow_deps\<close> the Runtime, the snapshot builder, the production licence and the clock,
  each with the number of host calls made so far. Where a theorem needs more of them than their
  type it says so: \<open>binding_fingerprint_identifies\<close> assumes that SHA-256 does not collide on the
  two texts, \<open>workflow_refines_ledger\<close> that the Runtime uses the ledger through the store. The ledger
  has the decisions of the workflow, not the decision anchors that \<open>storage/permission-repo.ts\<close> adds to
  the same table for a foreign key.

  \<^bold>\<open>Fuel and bounds.\<close> The cancellation walk takes \<open>length subtasks + 1\<close> units of fuel, enough for
  every acyclic graph (\<open>cancellation_closure_returns\<close>); on a cyclic one the source does not return.
  All other loops are recursions with a termination proof; the drain ends because it handles at
  most a hundred decisions and each claimed event leaves the pending ones.

  \<^bold>\<open>What modelling showed.\<close> A deleted Conversation blocks the listing of current decisions for
  everybody (\<open>deletion_blocks_listing\<close>), and can leave an application pending that nothing lists
  (\<open>erased_session_stays_pending\<close>); an Attempt's own lease keeps its wait alive
  (\<open>own_lease_keeps_wait\<close>); a plan of the current schema whose Subtasks only report, without file
  outputs, and announce a write can be valid and is never authorized (\<open>report_write_never_authorized\<close>);
  a declared output directory, which the documents allow, is valid for the graph and never admitted
  (\<open>directory_output_never_admitted\<close>); two wildcard partitions that
  share paths need not overlap for the lock check; normalising a stored Task detail twice can
  shorten it again; a price unit explicitly in the currency of its book is accepted and can never
  price anything (\<open>cny_unit_never_priced\<close>), and a negative exchange rate is accepted
  (\<open>negative_rate_negative_cost\<close>); an estimated usage category is counted twice
  (\<open>estimated_counted_twice\<close>); of two answers about a bill in one millisecond the second leaves no
  receipt (\<open>same_instant_receipt_lost\<close>).

  \<^bold>\<open>Not modelled.\<close> The Runtime itself (containers, processes, Git, the file system), sessions and
  prompts, the gateway and user interfaces, read models for display, configuration files and
  secrets, bill storage, external services (chat, memory), installation, and the vendored planner.
  They are effects on the outside world, presentation, or glue; where the core depends on them
  they are arguments.
\<close>

end
